(* ===== verification/Icon_Prelude.thy ===== *)
theory Icon_Prelude
  imports Main "HOL-Library.Word"
begin

text \<open>
  Shared vocabulary of the development: status values as
  \<^verbatim>\<open>intrinsic/icon/utils/realtime_status.h\<close> and
  \<^verbatim>\<open>realtime_status_or.h\<close> have them, sequencing of fallible steps, the bounded
  \<^verbatim>\<open>FixedVector\<close>, and the list facts that the components share.

  A status keeps its code and drops its message text: no modelled branch depends on a message.
  \<open>LogFatal\<close> is the outcome of a failed runtime assertion (\<^verbatim>\<open>LOG(FATAL)\<close>,
  \<^verbatim>\<open>CHECK\<close>), which ends the process and is therefore never handled by any caller, and
  \<open>Undefined\<close> marks an execution with undefined behaviour (a null pointer dereferenced, an index out
  of range).
\<close>

named_theorems icon_defs \<open>definitions unfolded together by the component proofs\<close>
named_theorems status_simps \<open>rewrite rules for status values\<close>

section \<open>Status values\<close>

datatype status_code =
    Cancelled | Unknown | InvalidArgument | DeadlineExceeded | NotFound | AlreadyExists
  | PermissionDenied | ResourceExhausted | FailedPrecondition | Aborted | OutOfRange
  | Unimplemented | Internal | Unavailable | DataLoss | Unauthenticated

datatype rt_status = OkStatus | Error status_code | LogFatal | Undefined

text \<open>
  \<^verbatim>\<open>RealtimeStatusOr<T>\<close> is a variant of a status and a value. \<^verbatim>\<open>ok()\<close> asks
  which alternative is stored, not what the stored status is: a \<^verbatim>\<open>RealtimeStatusOr\<close>
  constructed from \<open>OkStatus\<close> is not \<^verbatim>\<open>ok()\<close>, and the model keeps that case as
  \<open>Inl OkStatus\<close>.
\<close>

type_synonym 'a status_or = "rt_status + 'a"

fun status_of :: "'a status_or \<Rightarrow> rt_status" where
  "status_of (Inl s) = s"
| "status_of (Inr v) = OkStatus"

fun so_ok :: "'a status_or \<Rightarrow> bool" where
  "so_ok (Inl s) = False"
| "so_ok (Inr v) = True"

text \<open>\<^verbatim>\<open>OverwriteIfError(old, new)\<close>: the new status wins only when it is an error.\<close>

definition OverwriteIfError :: "rt_status \<Rightarrow> rt_status \<Rightarrow> rt_status" where
  "OverwriteIfError old new = (if new = OkStatus then old else new)"

text \<open>Sequencing of computations that return a value or stop with a status.\<close>

fun so_bind :: "'a status_or \<Rightarrow> ('a \<Rightarrow> 'b status_or) \<Rightarrow> 'b status_or" where
  "so_bind (Inl s) f = Inl s"
| "so_bind (Inr v) f = f v"

lemma so_bind_Inr_iff [status_simps]:
  "so_bind m f = Inr y \<longleftrightarrow> (\<exists>x. m = Inr x \<and> f x = Inr y)"
  by (cases m) auto

lemma so_bind_Inl_iff [status_simps]:
  "so_bind m f = Inl s \<longleftrightarrow> m = Inl s \<or> (\<exists>x. m = Inr x \<and> f x = Inl s)"
  by (cases m) auto

lemma so_bind_cong [fundef_cong]:
  "m = m' \<Longrightarrow> (\<And>x. m' = Inr x \<Longrightarrow> f x = g x) \<Longrightarrow> so_bind m f = so_bind m' g"
  by (cases m') auto

lemma so_bind_assoc: "so_bind (so_bind m f) g = so_bind m (\<lambda>x. so_bind (f x) g)"
  by (cases m) auto

lemma so_ok_bind: "so_ok (so_bind m f) \<longleftrightarrow> (\<exists>x. m = Inr x \<and> so_ok (f x))"
  by (cases m) auto

lemma so_ok_iff: "so_ok m \<longleftrightarrow> (\<exists>x. m = Inr x)"
  by (cases m) auto

text \<open>Left-to-right evaluation of a list of fallible computations; the first error wins.\<close>

fun so_map :: "('a \<Rightarrow> 'b status_or) \<Rightarrow> 'a list \<Rightarrow> 'b list status_or" where
  "so_map f [] = Inr []"
| "so_map f (x # xs) = so_bind (f x) (\<lambda>y. so_bind (so_map f xs) (\<lambda>ys. Inr (y # ys)))"

lemma so_map_cong [fundef_cong]:
  "xs = ys \<Longrightarrow> (\<And>x. x \<in> set ys \<Longrightarrow> f x = g x) \<Longrightarrow> so_map f xs = so_map g ys"
  by (induction ys arbitrary: xs) auto

section \<open>FixedVector\<close>

text \<open>
  \<^verbatim>\<open>FixedVector<T, N>\<close> is an inlined vector whose allocator fails with
  \<^verbatim>\<open>LOG(FATAL)\<close>: pushing beyond the capacity ends the process.
\<close>

definition fv_push_back :: "nat \<Rightarrow> 'a list \<Rightarrow> 'a \<Rightarrow> 'a list status_or" where
  "fv_push_back cap v x = (if length v < cap then Inr (v @ [x]) else Inl LogFatal)"

lemma fv_push_back_Inr [status_simps]:
  "fv_push_back cap v x = Inr v' \<longleftrightarrow> length v < cap \<and> v' = v @ [x]"
  by (auto simp: fv_push_back_def)

lemma fv_push_back_Inl [status_simps]:
  "fv_push_back cap v x = Inl s \<longleftrightarrow> cap \<le> length v \<and> s = LogFatal"
  by (auto simp: fv_push_back_def)

section \<open>Lists\<close>

lemma distinct_map_filter_ne:
  "distinct (map f xs) \<Longrightarrow> distinct (map f (filter P xs))"
  by (induction xs) auto

lemma nth_update_if: "i < length xs \<Longrightarrow> xs[i := v] ! j = (if i = j then v else xs ! j)"
  by (simp add: nth_list_update)

lemma nth_reserved [simp]: "(els @ x # ts)[length els := y] = els @ y # ts"
  by (simp add: list_update_append)

lemma foldr_max_mem: "x \<in> set xs \<Longrightarrow> (x::nat) \<le> foldr max xs v"
  by (induction xs) auto

lemma foldr_max_le_sum: "foldr max xs 0 \<le> (sum_list xs :: nat)"
  by (induction xs) auto

end
