(* ===== verification/Ieee_Double.thy ===== *)
theory Ieee_Double
  imports Complex_Main "HOL-Library.Log_Nat"
begin

text \<open>
  The part of IEEE-754 binary64 arithmetic that the comparison code uses: ordering,
  \<^verbatim>\<open>std::abs\<close>, subtraction and the conversion from an integer, with rounding to nearest,
  ties to even. The two zeros are one value: no modelled operation tells them apart.
\<close>

datatype double = NaN | Inf bool | Fin rat

definition pow2 :: "int \<Rightarrow> rat" where
  "pow2 k = (if 0 \<le> k then 2 ^ nat k else 1 / 2 ^ nat (- k))"

text \<open>The exponent of the leading bit of a positive rational.\<close>

definition floor_log2 :: "rat \<Rightarrow> int" where
  "floor_log2 r =
     (let (p, q) = quotient_of r; k = bitlen p - bitlen q
      in if pow2 k \<le> r then k else k - 1)"

definition round_half_even :: "rat \<Rightarrow> int" where
  "round_half_even x =
     (let f = \<lfloor>x\<rfloor>; d = x - of_int f
      in if d < 1 / 2 then f else if d > 1 / 2 then f + 1 else if even f then f else f + 1)"

definition round_double :: "rat \<Rightarrow> double" where
  "round_double x =
     (if x = 0 then Fin 0
      else let e = max (floor_log2 \<bar>x\<bar> - 52) (- 1074);
               y = of_int (round_half_even (x / pow2 e)) * pow2 e
           in if pow2 1024 \<le> \<bar>y\<bar> then Inf (y < 0) else Fin y)"

fun d_sub :: "double \<Rightarrow> double \<Rightarrow> double" where
  "d_sub NaN y = NaN"
| "d_sub (Inf s) NaN = NaN"
| "d_sub (Inf s) (Inf t) = (if s = t then NaN else Inf s)"
| "d_sub (Inf s) (Fin y) = Inf s"
| "d_sub (Fin x) NaN = NaN"
| "d_sub (Fin x) (Inf t) = Inf (\<not> t)"
| "d_sub (Fin x) (Fin y) = round_double (x - y)"

fun d_abs :: "double \<Rightarrow> double" where
  "d_abs NaN = NaN"
| "d_abs (Inf s) = Inf False"
| "d_abs (Fin x) = Fin \<bar>x\<bar>"

fun d_lt :: "double \<Rightarrow> double \<Rightarrow> bool" where
  "d_lt (Fin x) (Fin y) = (x < y)"
| "d_lt (Fin x) (Inf t) = (\<not> t)"
| "d_lt (Inf s) (Fin y) = s"
| "d_lt (Inf s) (Inf t) = (s \<and> \<not> t)"
| "d_lt _ _ = False"

fun d_le :: "double \<Rightarrow> double \<Rightarrow> bool" where
  "d_le (Fin x) (Fin y) = (x \<le> y)"
| "d_le (Fin x) (Inf t) = (\<not> t)"
| "d_le (Inf s) (Fin y) = s"
| "d_le (Inf s) (Inf t) = (s \<or> \<not> t)"
| "d_le _ _ = False"

lemma d_lt_NaN [simp]: "\<not> d_lt NaN y" "\<not> d_lt x NaN"
  by (cases y; simp) (cases x; simp)

lemma d_le_NaN [simp]: "\<not> d_le NaN y" "\<not> d_le x NaN"
  by (cases y; simp) (cases x; simp)

lemma d_sub_NaN [simp]: "d_sub x NaN = NaN"
  by (cases x) auto

lemma d_not_lt: "x \<noteq> NaN \<Longrightarrow> y \<noteq> NaN \<Longrightarrow> (\<not> d_lt x y) = d_le y x"
  by (cases x; cases y) auto

lemma d_le_iff_lt_or_eq: "d_le x y \<longleftrightarrow> x \<noteq> NaN \<and> (d_lt x y \<or> x = y)"
  by (cases x; cases y) auto

lemma d_sub_self_not_NaN: "d_sub (Fin x) (Fin y) \<noteq> NaN"
  by (simp add: round_double_def Let_def)

section \<open>Integers up to 2^53 convert exactly\<close>

lemma round_half_even_of_int [simp]: "round_half_even (of_int n) = n"
  by (simp add: round_half_even_def)

lemma pow2_pos [simp]: "0 < pow2 k"
  by (simp add: pow2_def)

lemma bitlen_le: "0 < n \<Longrightarrow> n < 2 ^ k \<Longrightarrow> bitlen n \<le> int k"
  using bitlen_le_iff_power[of n k] by simp

lemma floor_log2_of_int:
  assumes "0 < n"
  shows "floor_log2 (of_int n) = bitlen n - 1"
proof -
  have q: "quotient_of (of_int n :: rat) = (n, 1)" by simp
  have b: "(2::int) ^ nat (bitlen n - 1) \<le> n" using bitlen_bounds[OF assms] by simp
  have "0 < bitlen n" using assms bitlen_eq_zero_iff[of n] bitlen_nonneg[of n] by linarith
  then have "0 \<le> bitlen n - 1" by simp
  then have "pow2 (bitlen n - 1) = of_int (2 ^ nat (bitlen n - 1))" by (simp add: pow2_def)
  also have "\<dots> \<le> of_int n" using b by (simp only: of_int_le_iff)
  finally show ?thesis by (simp add: floor_log2_def q bitlen_def floorlog_def)
qed

lemma pow2_mult_of_int: "e \<le> 0 \<Longrightarrow> of_int n / pow2 e = (of_int (n * 2 ^ nat (- e)) :: rat)"
  by (cases "e = 0") (simp_all add: pow2_def)

theorem round_double_int_exact:
  assumes "\<bar>n\<bar> \<le> 2 ^ 53"
  shows "round_double (of_int n) = Fin (of_int n)"
proof (cases "n = 0")
  case False
  define e where "e = max (floor_log2 (of_int \<bar>n\<bar>) - 52) (- 1074)"
  have pos: "0 < \<bar>n\<bar>" using False by simp
  have "\<exists>m. of_int n / pow2 e = (of_int m :: rat)"
  proof (cases "\<bar>n\<bar> < 2 ^ 53")
    case True
    have "bitlen \<bar>n\<bar> \<le> int 53" by (rule bitlen_le[OF pos True])
    then have "e \<le> 0" unfolding e_def floor_log2_of_int[OF pos] by simp
    then show ?thesis using pow2_mult_of_int by blast
  next
    case False
    then have n: "\<bar>n\<bar> = 2 ^ 53" using assms by simp
    have "bitlen (1 * 2 ^ 53) = bitlen 1 + int 53" by (rule bitlen_pow2) simp
    then have "bitlen \<bar>n\<bar> = 54" unfolding n by (simp add: bitlen_def floorlog_def)
    then have "e = 1" unfolding e_def floor_log2_of_int[OF pos] by simp
    then have p: "pow2 e = 2" by (simp add: pow2_def)
    have "n = 2 ^ 53 \<or> n = - (2 ^ 53)" using n by linarith
    then have "(of_int n :: rat) / 2 = of_int (n div 2)" by (elim disjE) simp_all
    then show ?thesis unfolding p by blast
  qed
  then obtain m where m: "of_int n / pow2 e = (of_int m :: rat)" by blast
  have y: "of_int (round_half_even (of_int n / pow2 e)) * pow2 e = (of_int n :: rat)"
    unfolding m using m pow2_pos[of e] by (simp add: field_simps)
  have "\<bar>of_int n :: rat\<bar> \<le> of_int (2 ^ 53)" using assms by (simp only: of_int_abs[symmetric] of_int_le_iff)
  also have "\<dots> < pow2 1024" by (simp add: pow2_def)
  finally have "\<not> pow2 1024 \<le> \<bar>of_int n :: rat\<bar>" by simp
  with False y show ?thesis
    by (simp add: round_double_def Let_def e_def[symmetric] flip: of_int_abs)
qed (simp add: round_double_def)

end
