(* ===== verification/Client_Condition.thy ===== *)
theory Client_Condition
  imports Icon_Prelude Ieee_Double
begin

text \<open>
  The client-side condition language of \<^verbatim>\<open>intrinsic/icon/cc_client/condition.{h,cc}\<close>:
  comparisons of a named state variable with a constant, conjunctions (all-of, any-of) and
  negation, their validation and their conversion to and from the condition protos of
  \<^verbatim>\<open>condition_types.proto\<close>. The proto messages are datatypes; a proto3 enum can carry any
  number, which is the last constructor of each operation type.
\<close>

section \<open>Data\<close>

datatype comparison_op =
    OP_UNKNOWN | EQUAL | NOT_EQUAL | APPROX_EQUAL | APPROX_NOT_EQUAL
  | LESS_THAN_OR_EQUAL | LESS_THAN | GREATER_THAN_OR_EQUAL | GREATER_THAN
  | OP_UNRECOGNIZED int

datatype conjunction_op = CONJ_UNKNOWN | ALL_OF | ANY_OF | CONJ_UNRECOGNIZED int

text \<open>\<^verbatim>\<open>ComparisonValue\<close> and \<^verbatim>\<open>StateVariableValue\<close> are both
  \<^verbatim>\<open>std::variant<bool, double, int64_t>\<close>.\<close>

datatype state_value = BoolV bool | DoubleV double | Int64V "64 word"

record comparison =
  state_variable_name :: string
  operation :: comparison_op
  cmp_value :: state_value
  max_abs_error :: double

record proto_comparison =
  pc_state_variable_name :: string
  pc_operation :: comparison_op
  pc_value :: "state_value option"
  pc_max_abs_error :: double

datatype condition =
    CComparison comparison
  | CConjunction conjunction_op "condition list"
  | CNegated condition

datatype proto_condition =
    PComparison proto_comparison
  | PConjunction conjunction_op "proto_condition list"
  | PNegated proto_condition
  | PNotSet

definition kDefaultMaxAbsError :: double where
  "kDefaultMaxAbsError = Fin (1 / 1024)"

section \<open>Operations\<close>

definition Comparison_Create ::
  "string \<Rightarrow> comparison_op \<Rightarrow> state_value \<Rightarrow> double \<Rightarrow> comparison status_or" where
  "Comparison_Create name op v err =
     (let ok = Inr \<lparr>state_variable_name = name, operation = op, cmp_value = v, max_abs_error = err\<rparr>
      in case v of
        BoolV b \<Rightarrow>
          if \<not> (op = EQUAL \<or> op = NOT_EQUAL) then Inl (Error InvalidArgument) else ok
      | DoubleV d \<Rightarrow>
          if op = EQUAL \<or> op = NOT_EQUAL then Inl (Error InvalidArgument) else ok
      | Int64V w \<Rightarrow>
          if op = APPROX_EQUAL \<or> op = APPROX_NOT_EQUAL then Inl (Error InvalidArgument) else ok)"

definition Comparison_FromProto :: "proto_comparison \<Rightarrow> comparison status_or" where
  "Comparison_FromProto p =
     (case pc_value p of
        None \<Rightarrow> Inl (Error InvalidArgument)
      | Some v \<Rightarrow> Comparison_Create (pc_state_variable_name p) (pc_operation p) v (pc_max_abs_error p))"

definition Comparison_ToProto :: "comparison \<Rightarrow> proto_comparison" where
  "Comparison_ToProto c =
     \<lparr>pc_state_variable_name = state_variable_name c, pc_operation = operation c,
      pc_value = Some (cmp_value c), pc_max_abs_error = max_abs_error c\<rparr>"

text \<open>The convenience constructors; the operator enums of the header have the numbers of the
  proto enum, so the casts keep the operation.\<close>

definition mk_comparison :: "string \<Rightarrow> comparison_op \<Rightarrow> state_value \<Rightarrow> double \<Rightarrow> comparison" where
  "mk_comparison name op v err =
     \<lparr>state_variable_name = name, operation = op, cmp_value = v, max_abs_error = err\<rparr>"

definition IsTrue :: "string \<Rightarrow> comparison" where
  "IsTrue name = mk_comparison name EQUAL (BoolV True) kDefaultMaxAbsError"

definition IsFalse :: "string \<Rightarrow> comparison" where
  "IsFalse name = mk_comparison name EQUAL (BoolV False) kDefaultMaxAbsError"

definition IsEqual :: "string \<Rightarrow> 64 word \<Rightarrow> comparison" where
  "IsEqual name v = mk_comparison name EQUAL (Int64V v) kDefaultMaxAbsError"

definition IsNotEqual :: "string \<Rightarrow> 64 word \<Rightarrow> comparison" where
  "IsNotEqual name v = mk_comparison name NOT_EQUAL (Int64V v) kDefaultMaxAbsError"

definition IsLessThanOrEqual_int :: "string \<Rightarrow> 64 word \<Rightarrow> comparison" where
  "IsLessThanOrEqual_int name v = mk_comparison name LESS_THAN_OR_EQUAL (Int64V v) kDefaultMaxAbsError"

definition IsLessThan_int :: "string \<Rightarrow> 64 word \<Rightarrow> comparison" where
  "IsLessThan_int name v = mk_comparison name LESS_THAN (Int64V v) kDefaultMaxAbsError"

definition IsGreaterThanOrEqual_int :: "string \<Rightarrow> 64 word \<Rightarrow> comparison" where
  "IsGreaterThanOrEqual_int name v =
     mk_comparison name GREATER_THAN_OR_EQUAL (Int64V v) kDefaultMaxAbsError"

definition IsGreaterThan_int :: "string \<Rightarrow> 64 word \<Rightarrow> comparison" where
  "IsGreaterThan_int name v = mk_comparison name GREATER_THAN (Int64V v) kDefaultMaxAbsError"

definition IsApprox :: "string \<Rightarrow> double \<Rightarrow> double \<Rightarrow> comparison" where
  "IsApprox name v err = mk_comparison name APPROX_EQUAL (DoubleV v) err"

definition IsNotApprox :: "string \<Rightarrow> double \<Rightarrow> double \<Rightarrow> comparison" where
  "IsNotApprox name v err = mk_comparison name APPROX_NOT_EQUAL (DoubleV v) err"

definition IsLessThanOrEqual_double :: "string \<Rightarrow> double \<Rightarrow> comparison" where
  "IsLessThanOrEqual_double name v =
     mk_comparison name LESS_THAN_OR_EQUAL (DoubleV v) kDefaultMaxAbsError"

definition IsLessThan_double :: "string \<Rightarrow> double \<Rightarrow> comparison" where
  "IsLessThan_double name v = mk_comparison name LESS_THAN (DoubleV v) kDefaultMaxAbsError"

definition IsGreaterThanOrEqual_double :: "string \<Rightarrow> double \<Rightarrow> comparison" where
  "IsGreaterThanOrEqual_double name v =
     mk_comparison name GREATER_THAN_OR_EQUAL (DoubleV v) kDefaultMaxAbsError"

definition IsGreaterThan_double :: "string \<Rightarrow> double \<Rightarrow> comparison" where
  "IsGreaterThan_double name v = mk_comparison name GREATER_THAN (DoubleV v) kDefaultMaxAbsError"

fun Condition_ToProto :: "condition \<Rightarrow> proto_condition" where
  "Condition_ToProto (CComparison c) = PComparison (Comparison_ToProto c)"
| "Condition_ToProto (CConjunction op cs) = PConjunction op (map Condition_ToProto cs)"
| "Condition_ToProto (CNegated c) = PNegated (Condition_ToProto c)"

text \<open>\<^verbatim>\<open>FromProto(Condition)\<close> handles comparisons and conjunctions; every other case,
  negated conditions included, is the \<^verbatim>\<open>default\<close> branch.\<close>

fun Condition_FromProto :: "proto_condition \<Rightarrow> condition status_or"
and Conditions_FromProto :: "proto_condition list \<Rightarrow> condition list status_or" where
  "Condition_FromProto (PComparison c) =
     so_bind (Comparison_FromProto c) (\<lambda>c'. Inr (CComparison c'))"
| "Condition_FromProto (PConjunction op ps) =
     so_bind (Conditions_FromProto ps) (\<lambda>cs. Inr (CConjunction op cs))"
| "Condition_FromProto (PNegated p) = Inl (Error InvalidArgument)"
| "Condition_FromProto PNotSet = Inl (Error InvalidArgument)"
| "Conditions_FromProto [] = Inr []"
| "Conditions_FromProto (p # ps) =
     so_bind (Condition_FromProto p) (\<lambda>c.
     so_bind (Conditions_FromProto ps) (\<lambda>cs. Inr (c # cs)))"

section \<open>Validity and the round trip\<close>

text \<open>What the constructor and \<open>Comparison_Create\<close> enforce: the operation fits the type of the
  constant.\<close>

definition comparison_valid :: "comparison \<Rightarrow> bool" where
  "comparison_valid c =
     (case cmp_value c of
        BoolV b \<Rightarrow> operation c \<in> {EQUAL, NOT_EQUAL}
      | DoubleV d \<Rightarrow> operation c \<notin> {EQUAL, NOT_EQUAL}
      | Int64V w \<Rightarrow> operation c \<notin> {APPROX_EQUAL, APPROX_NOT_EQUAL})"

fun condition_valid :: "condition \<Rightarrow> bool" where
  "condition_valid (CComparison c) = comparison_valid c"
| "condition_valid (CConjunction op cs) = list_all condition_valid cs"
| "condition_valid (CNegated c) = condition_valid c"

fun negation_free :: "condition \<Rightarrow> bool" where
  "negation_free (CComparison c) = True"
| "negation_free (CConjunction op cs) = list_all negation_free cs"
| "negation_free (CNegated c) = False"

lemma Comparison_Create_iff:
  "Comparison_Create n op v e = Inr c \<longleftrightarrow> c = mk_comparison n op v e \<and> comparison_valid c"
  by (auto simp: Comparison_Create_def mk_comparison_def comparison_valid_def Let_def
      split: state_value.splits if_splits)

lemma Comparison_roundtrip:
  "comparison_valid c \<Longrightarrow> Comparison_FromProto (Comparison_ToProto c) = Inr c"
  by (simp add: Comparison_FromProto_def Comparison_ToProto_def Comparison_Create_iff
      mk_comparison_def)

lemma Comparison_roundtrip_iff:
  "Comparison_FromProto (Comparison_ToProto c) = Inr c' \<longleftrightarrow> c' = c \<and> comparison_valid c"
  by (cases c) (auto simp: Comparison_FromProto_def Comparison_ToProto_def Comparison_Create_iff
      mk_comparison_def)

lemma Conditions_FromProto_map:
  "(\<And>c c'. c \<in> set cs \<Longrightarrow> Condition_FromProto (Condition_ToProto c) = Inr c'
      \<longleftrightarrow> c' = c \<and> condition_valid c \<and> negation_free c) \<Longrightarrow>
   Conditions_FromProto (map Condition_ToProto cs) = Inr cs' \<longleftrightarrow>
     cs' = cs \<and> list_all condition_valid cs \<and> list_all negation_free cs"
  by (induction cs arbitrary: cs') (auto simp: status_simps)

text \<open>C38 (roundtrip). Reading back the proto of a condition gives the same condition exactly when
  every comparison in it is valid and no negation occurs in it; in particular every condition with a
  negation is written but cannot be read back.\<close>

theorem Condition_roundtrip:
  "Condition_FromProto (Condition_ToProto c) = Inr c' \<longleftrightarrow>
     c' = c \<and> condition_valid c \<and> negation_free c"
proof (induction c arbitrary: c')
  case (CComparison x)
  then show ?case by (auto simp: status_simps Comparison_roundtrip_iff)
next
  case (CConjunction op cs)
  then show ?case using Conditions_FromProto_map[of cs] by (auto simp: status_simps)
qed simp

lemma convenience_valid:
  "comparison_valid (IsTrue n)" "comparison_valid (IsFalse n)"
  "comparison_valid (IsEqual n w)" "comparison_valid (IsNotEqual n w)"
  "comparison_valid (IsLessThanOrEqual_int n w)" "comparison_valid (IsLessThan_int n w)"
  "comparison_valid (IsGreaterThanOrEqual_int n w)" "comparison_valid (IsGreaterThan_int n w)"
  "comparison_valid (IsApprox n d e)" "comparison_valid (IsNotApprox n d e)"
  "comparison_valid (IsLessThanOrEqual_double n d)" "comparison_valid (IsLessThan_double n d)"
  "comparison_valid (IsGreaterThanOrEqual_double n d)" "comparison_valid (IsGreaterThan_double n d)"
  by (simp_all add: comparison_valid_def mk_comparison_def IsTrue_def IsFalse_def IsEqual_def
      IsNotEqual_def IsLessThanOrEqual_int_def IsLessThan_int_def IsGreaterThanOrEqual_int_def
      IsGreaterThan_int_def IsApprox_def IsNotApprox_def IsLessThanOrEqual_double_def
      IsLessThan_double_def IsGreaterThanOrEqual_double_def IsGreaterThan_double_def)

end
