(* ===== verification/Rt_Monad.thy ===== *)
theory Rt_Monad
  imports Icon_Prelude
begin

text \<open>
  Stateful code that can stop with a status, as most methods of the control layer do. A computation
  maps a state to a result and the state it leaves behind: on an error the effects that happened
  before it stay, as in the C++ code. \<^verbatim>\<open>INTRINSIC_RT_RETURN_IF_ERROR\<close> is \<open>rt_check\<close>,
  \<^verbatim>\<open>INTRINSIC_RT_ASSIGN_OR_RETURN\<close> is \<open>rt_bind\<close>.
\<close>

type_synonym ('s, 'a) rt = "'s \<Rightarrow> 'a status_or \<times> 's"

definition rt_return :: "'a \<Rightarrow> ('s, 'a) rt" where
  "rt_return x s = (Inr x, s)"

definition rt_fail :: "rt_status \<Rightarrow> ('s, 'a) rt" where
  "rt_fail e s = (Inl e, s)"

definition rt_bind :: "('s, 'a) rt \<Rightarrow> ('a \<Rightarrow> ('s, 'b) rt) \<Rightarrow> ('s, 'b) rt" where
  "rt_bind m f s = (case m s of (Inl e, t) \<Rightarrow> (Inl e, t) | (Inr x, t) \<Rightarrow> f x t)"

definition rt_gets :: "('s \<Rightarrow> 'a) \<Rightarrow> ('s, 'a) rt" where
  "rt_gets f s = (Inr (f s), s)"

definition rt_modify :: "('s \<Rightarrow> 's) \<Rightarrow> ('s, unit) rt" where
  "rt_modify g s = (Inr (), g s)"

text \<open>A value of \<^verbatim>\<open>RealtimeStatusOr\<close> or of \<^verbatim>\<open>RealtimeStatus\<close> as a computation;
  \<open>rt_lift_st\<close> reads the state first.\<close>

definition rt_lift :: "'a status_or \<Rightarrow> ('s, 'a) rt" where
  "rt_lift r s = (r, s)"

definition rt_lift_st :: "('s \<Rightarrow> 'a status_or) \<Rightarrow> ('s, 'a) rt" where
  "rt_lift_st f s = (f s, s)"

definition rt_check :: "rt_status \<Rightarrow> ('s, unit) rt" where
  "rt_check e s = ((if e = OkStatus then Inr () else Inl e), s)"

definition rt_when :: "bool \<Rightarrow> ('s, unit) rt \<Rightarrow> ('s, unit) rt" where
  "rt_when b m = (if b then m else rt_return ())"

fun rt_for :: "'x list \<Rightarrow> ('x \<Rightarrow> ('s, unit) rt) \<Rightarrow> ('s, unit) rt" where
  "rt_for [] body = rt_return ()"
| "rt_for (x # xs) body = rt_bind (body x) (\<lambda>_. rt_for xs body)"

fun rt_fold :: "'x list \<Rightarrow> ('x \<Rightarrow> 'a \<Rightarrow> ('s, 'a) rt) \<Rightarrow> 'a \<Rightarrow> ('s, 'a) rt" where
  "rt_fold [] body acc = rt_return acc"
| "rt_fold (x # xs) body acc = rt_bind (body x acc) (rt_fold xs body)"

text \<open>A crash ends the process; no caller handles it. Code that inspects an error instead of
  returning it runs the computation under \<open>rt_try\<close>.\<close>

definition crash :: "rt_status \<Rightarrow> bool" where
  "crash e \<longleftrightarrow> e = LogFatal \<or> e = Undefined"

definition rt_try :: "('s, 'a) rt \<Rightarrow> ('s, 'a status_or) rt" where
  "rt_try m s =
     (case m s of
        (Inl e, t) \<Rightarrow> if crash e then (Inl e, t) else (Inr (Inl e), t)
      | (Inr x, t) \<Rightarrow> (Inr (Inr x), t))"

text \<open>A method that returns a \<^verbatim>\<open>RealtimeStatus\<close> returns success when a callee's
  \<^verbatim>\<open>RealtimeStatusOr\<close> was built from \<open>OkStatus\<close> and is passed on by the macro.\<close>

definition rt_fn :: "('s, unit) rt \<Rightarrow> ('s, unit) rt" where
  "rt_fn m s = (case m s of (Inl OkStatus, t) \<Rightarrow> (Inr (), t) | r \<Rightarrow> r)"

text \<open>\<^verbatim>\<open>absl::Cleanup\<close>: an update of the state on every way out of a scope.\<close>

definition rt_finally :: "('s, 'a) rt \<Rightarrow> ('s \<Rightarrow> 's) \<Rightarrow> ('s, 'a) rt" where
  "rt_finally m g s = (case m s of (r, t) \<Rightarrow> (r, g t))"

text \<open>A call into code that changes the state and always returns a value.\<close>

definition rt_call :: "('s \<Rightarrow> 'a \<times> 's) \<Rightarrow> ('s, 'a) rt" where
  "rt_call f s = (case f s of (x, t) \<Rightarrow> (Inr x, t))"

lemmas rt_defs =
  rt_return_def rt_fail_def rt_bind_def rt_gets_def rt_modify_def rt_lift_def rt_lift_st_def
  rt_check_def rt_when_def rt_try_def rt_fn_def rt_finally_def
  rt_call_def

section \<open>Algebra\<close>

lemma rt_bind_return [simp]: "rt_bind (rt_return x) f = f x"
  by (simp add: rt_defs fun_eq_iff)

lemma rt_bind_fail [simp]: "rt_bind (rt_fail e) f = rt_fail e"
  by (simp add: rt_defs fun_eq_iff)

lemma rt_return_bind [simp]: "rt_bind m rt_return = m"
  by (auto simp: rt_defs fun_eq_iff split: prod.splits sum.splits)

lemma rt_bind_assoc: "rt_bind (rt_bind m f) g = rt_bind m (\<lambda>x. rt_bind (f x) g)"
  by (auto simp: rt_defs fun_eq_iff split: prod.splits sum.splits)

lemma rt_bind_run: "m s = (Inr x, t) \<Longrightarrow> rt_bind m f s = f x t"
  by (simp add: rt_bind_def)

lemma rt_bind_gets: "rt_bind (rt_gets g) f s = f (g s) s"
  by (simp add: rt_defs)

lemma rt_bind_modify: "rt_bind (rt_modify g) f s = f () (g s)"
  by (simp add: rt_defs)

lemma rt_for_append: "rt_for (xs @ ys) b = rt_bind (rt_for xs b) (\<lambda>_. rt_for ys b)"
  by (induction xs) (simp_all add: rt_bind_assoc)

text \<open>Successful runs, step by step.\<close>

lemma rt_bind_Inr: "rt_bind m f s = (Inr y, t) \<longleftrightarrow> (\<exists>x u. m s = (Inr x, u) \<and> f x u = (Inr y, t))"
  by (auto simp: rt_defs split: prod.splits sum.splits)

lemma rt_return_Inr: "rt_return x s = (Inr y, t) \<longleftrightarrow> y = x \<and> t = s"
  by (auto simp: rt_defs)

lemma rt_fail_Inr: "rt_fail e s \<noteq> (Inr y, t)"
  by (auto simp: rt_defs)

lemma rt_gets_Inr: "rt_gets f s = (Inr y, t) \<longleftrightarrow> y = f s \<and> t = s"
  by (auto simp: rt_defs)

lemma rt_modify_Inr: "rt_modify g s = (Inr u, t) \<longleftrightarrow> t = g s"
  by (auto simp: rt_defs)

lemma rt_lift_st_Inr: "rt_lift_st f s = (Inr y, t) \<longleftrightarrow> f s = Inr y \<and> t = s"
  by (auto simp: rt_defs)

lemma rt_lift_Inr: "rt_lift r s = (Inr y, t) \<longleftrightarrow> r = Inr y \<and> t = s"
  by (auto simp: rt_defs)

lemma rt_check_Inr: "rt_check e s = (Inr u, t) \<longleftrightarrow> e = OkStatus \<and> t = s"
  by (auto simp: rt_defs)

lemma rt_finally_Inr: "rt_finally m g s = (Inr y, t) \<longleftrightarrow> (\<exists>u. m s = (Inr y, u) \<and> t = g u)"
  by (auto simp: rt_defs split: prod.splits sum.splits)

lemmas rt_Inr_iff =
  rt_bind_Inr rt_return_Inr rt_fail_Inr rt_gets_Inr rt_modify_Inr rt_lift_st_Inr rt_lift_Inr
  rt_check_Inr rt_finally_Inr

section \<open>Specifications\<close>

text \<open>\<open>rt_spec P m Q E\<close>: from a state in \<open>P\<close>, a result \<open>x\<close> leaves a state in \<open>Q x\<close> and an error
  \<open>e\<close> a state in \<open>E e\<close>. Computations are total functions, so there is always one of the two.\<close>

named_theorems rt_rules \<open>specification rules, one per construct\<close>

definition rt_spec ::
  "('s \<Rightarrow> bool) \<Rightarrow> ('s, 'a) rt \<Rightarrow> ('a \<Rightarrow> 's \<Rightarrow> bool) \<Rightarrow> (rt_status \<Rightarrow> 's \<Rightarrow> bool) \<Rightarrow> bool" where
  "rt_spec P m Q E \<longleftrightarrow>
     (\<forall>s. P s \<longrightarrow> (case m s of (Inr x, t) \<Rightarrow> Q x t | (Inl e, t) \<Rightarrow> E e t))"

lemma rt_specI:
  "(\<And>s x t. P s \<Longrightarrow> m s = (Inr x, t) \<Longrightarrow> Q x t) \<Longrightarrow> (\<And>s e t. P s \<Longrightarrow> m s = (Inl e, t) \<Longrightarrow> E e t) \<Longrightarrow>
   rt_spec P m Q E"
  by (auto simp: rt_spec_def split: prod.splits sum.splits)

lemma rt_specD_Inr: "rt_spec P m Q E \<Longrightarrow> P s \<Longrightarrow> m s = (Inr x, t) \<Longrightarrow> Q x t"
  by (fastforce simp: rt_spec_def)

lemma rt_specD_Inl: "rt_spec P m Q E \<Longrightarrow> P s \<Longrightarrow> m s = (Inl e, t) \<Longrightarrow> E e t"
  by (fastforce simp: rt_spec_def)

lemma rt_spec_conseq:
  "rt_spec P' m Q' E' \<Longrightarrow> (\<And>s. P s \<Longrightarrow> P' s) \<Longrightarrow> (\<And>x s. Q' x s \<Longrightarrow> Q x s) \<Longrightarrow>
   (\<And>e s. E' e s \<Longrightarrow> E e s) \<Longrightarrow> rt_spec P m Q E"
  by (fastforce simp: rt_spec_def split: prod.splits sum.splits)

lemma rt_spec_pre: "(\<And>s. P s \<Longrightarrow> P' s) \<Longrightarrow> rt_spec P' m Q E \<Longrightarrow> rt_spec P m Q E"
  by (auto simp: rt_spec_def)

lemma rt_spec_return: "(\<And>s. P s \<Longrightarrow> Q x s) \<Longrightarrow> rt_spec P (rt_return x) Q E"
  by (auto simp: rt_spec_def rt_defs)

lemma rt_spec_fail: "(\<And>s. P s \<Longrightarrow> E e s) \<Longrightarrow> rt_spec P (rt_fail e) Q E"
  by (auto simp: rt_spec_def rt_defs)

lemma rt_spec_bind:
  "rt_spec P m R E \<Longrightarrow> (\<And>x. rt_spec (R x) (f x) Q E) \<Longrightarrow> rt_spec P (rt_bind m f) Q E"
  by (fastforce simp: rt_spec_def rt_bind_def split: prod.splits sum.splits)

lemma rt_spec_gets:
  "(\<And>s. P s \<Longrightarrow> Q (f s) s) \<Longrightarrow> rt_spec P (rt_gets f) Q E"
  by (auto simp: rt_spec_def rt_defs)

lemma rt_spec_modify: "(\<And>s. P s \<Longrightarrow> Q () (g s)) \<Longrightarrow> rt_spec P (rt_modify g) Q E"
  by (auto simp: rt_spec_def rt_defs)

lemma rt_spec_lift:
  "(\<And>s x. P s \<Longrightarrow> r = Inr x \<Longrightarrow> Q x s) \<Longrightarrow> (\<And>s e. P s \<Longrightarrow> r = Inl e \<Longrightarrow> E e s) \<Longrightarrow>
   rt_spec P (rt_lift r) Q E"
  by (auto simp: rt_spec_def rt_defs split: sum.splits)

lemma rt_spec_lift_st:
  "(\<And>s x. P s \<Longrightarrow> f s = Inr x \<Longrightarrow> Q x s) \<Longrightarrow> (\<And>s e. P s \<Longrightarrow> f s = Inl e \<Longrightarrow> E e s) \<Longrightarrow>
   rt_spec P (rt_lift_st f) Q E"
  by (auto simp: rt_spec_def rt_defs split: sum.splits)

lemma rt_spec_check:
  "(\<And>s. P s \<Longrightarrow> e = OkStatus \<Longrightarrow> Q () s) \<Longrightarrow> (\<And>s. P s \<Longrightarrow> e \<noteq> OkStatus \<Longrightarrow> E e s) \<Longrightarrow>
   rt_spec P (rt_check e) Q E"
  by (auto simp: rt_spec_def rt_defs)

lemma rt_spec_if:
  "(b \<Longrightarrow> rt_spec P m Q E) \<Longrightarrow> (\<not> b \<Longrightarrow> rt_spec P n Q E) \<Longrightarrow> rt_spec P (if b then m else n) Q E"
  by simp

lemma rt_spec_when:
  "(b \<Longrightarrow> rt_spec P m Q E) \<Longrightarrow> (\<And>s. \<not> b \<Longrightarrow> P s \<Longrightarrow> Q () s) \<Longrightarrow> rt_spec P (rt_when b m) Q E"
  by (auto simp: rt_when_def intro: rt_spec_return)

lemma rt_spec_for:
  "(\<And>x. x \<in> set xs \<Longrightarrow> rt_spec I (b x) (\<lambda>_. I) E) \<Longrightarrow> rt_spec I (rt_for xs b) (\<lambda>_. I) E"
  by (induction xs) (auto intro: rt_spec_return rt_spec_bind)

lemma rt_spec_try:
  "rt_spec P m (\<lambda>x. Q (Inr x)) (\<lambda>e s. if crash e then E e s else Q (Inl e) s) \<Longrightarrow>
   rt_spec P (rt_try m) Q E"
  by (fastforce simp: rt_spec_def rt_try_def split: prod.splits sum.splits)

lemma rt_spec_fn:
  "rt_spec P m Q (\<lambda>e s. if e = OkStatus then Q () s else E e s) \<Longrightarrow> rt_spec P (rt_fn m) Q E"
  by (fastforce simp: rt_spec_def rt_fn_def split: prod.splits sum.splits rt_status.splits)

lemma rt_spec_finally:
  "rt_spec P m (\<lambda>x s. Q x (g s)) (\<lambda>e s. E e (g s)) \<Longrightarrow> rt_spec P (rt_finally m g) Q E"
  by (fastforce simp: rt_spec_def rt_finally_def split: prod.splits sum.splits)

lemma rt_spec_call:
  "(\<And>s x t. P s \<Longrightarrow> f s = (x, t) \<Longrightarrow> Q x t) \<Longrightarrow> rt_spec P (rt_call f) Q E"
  by (auto simp: rt_spec_def rt_call_def split: prod.splits)

lemma rt_spec_split:
  "(\<And>s0. P s0 \<Longrightarrow> rt_spec (\<lambda>s. s = s0) m Q E) \<Longrightarrow> rt_spec P m Q E"
  by (auto simp: rt_spec_def)

section \<open>Invariants\<close>

text \<open>An invariant holds afterwards whatever the outcome.\<close>

abbreviation rt_inv :: "('s \<Rightarrow> bool) \<Rightarrow> ('s, 'a) rt \<Rightarrow> bool" where
  "rt_inv I m \<equiv> rt_spec I m (\<lambda>_. I) (\<lambda>_. I)"

lemma rt_spec_snd: "rt_spec P m (\<lambda>_. I) (\<lambda>_. I) \<Longrightarrow> P s \<Longrightarrow> I (snd (m s))"
  by (cases "m s"; cases "fst (m s)") (fastforce simp: rt_spec_def)+

lemma rt_invD: "rt_inv I m \<Longrightarrow> I s \<Longrightarrow> I (snd (m s))"
  by (rule rt_spec_snd)

lemma rt_inv_return [rt_rules]: "rt_inv I (rt_return x)" by (rule rt_spec_return)
lemma rt_inv_fail [rt_rules]: "rt_inv I (rt_fail e)" by (rule rt_spec_fail)
lemma rt_inv_bind [rt_rules]: "rt_inv I m \<Longrightarrow> (\<And>x. rt_inv I (f x)) \<Longrightarrow> rt_inv I (rt_bind m f)"
  by (rule rt_spec_bind)
lemma rt_inv_gets [rt_rules]: "rt_inv I (rt_gets f)" by (rule rt_spec_gets)
lemma rt_inv_lift [rt_rules]: "rt_inv I (rt_lift r)" by (rule rt_spec_lift)
lemma rt_inv_lift_st [rt_rules]: "rt_inv I (rt_lift_st f)" by (rule rt_spec_lift_st)
lemma rt_inv_check [rt_rules]: "rt_inv I (rt_check e)" by (rule rt_spec_check)
lemma rt_inv_if [rt_rules]: "rt_inv I m \<Longrightarrow> rt_inv I n \<Longrightarrow> rt_inv I (if b then m else n)" by simp
lemma rt_inv_when [rt_rules]: "rt_inv I m \<Longrightarrow> rt_inv I (rt_when b m)" by (rule rt_spec_when)
lemma rt_inv_for [rt_rules]: "(\<And>x. rt_inv I (b x)) \<Longrightarrow> rt_inv I (rt_for xs b)"
  by (rule rt_spec_for)
lemma rt_inv_fold [rt_rules]: "(\<And>x a. rt_inv I (b x a)) \<Longrightarrow> rt_inv I (rt_fold xs b acc)"
  by (induction xs arbitrary: acc) (auto intro: rt_spec_return rt_spec_bind)
lemma rt_inv_try [rt_rules]: "rt_inv I m \<Longrightarrow> rt_inv I (rt_try m)"
  by (rule rt_spec_try) (auto elim: rt_spec_conseq)
lemma rt_inv_fn [rt_rules]: "rt_inv I m \<Longrightarrow> rt_inv I (rt_fn m)"
  by (rule rt_spec_fn) (auto elim: rt_spec_conseq)
lemma rt_inv_finally: "rt_inv I m \<Longrightarrow> (\<And>s. I s \<Longrightarrow> I (g s)) \<Longrightarrow> rt_inv I (rt_finally m g)"
  by (rule rt_spec_finally) (auto elim: rt_spec_conseq)
lemma rt_inv_gets_const:
  "(\<And>s. I s \<Longrightarrow> f s = v) \<Longrightarrow> rt_inv I (k v) \<Longrightarrow> rt_inv I (rt_bind (rt_gets f) k)"
  by (simp add: rt_spec_def rt_bind_gets)
lemma rt_inv_fold_set: "(\<And>x a. x \<in> set xs \<Longrightarrow> rt_inv I (b x a)) \<Longrightarrow> rt_inv I (rt_fold xs b acc)"
  by (induction xs arbitrary: acc) (auto intro: rt_spec_return rt_spec_bind)
lemma rt_inv_case_option [rt_rules]:
  "rt_inv I m \<Longrightarrow> (\<And>x. rt_inv I (f x)) \<Longrightarrow> rt_inv I (case opt of None \<Rightarrow> m | Some x \<Rightarrow> f x)"
  by (cases opt) auto
lemma rt_inv_case_sum [rt_rules]:
  "(\<And>x. rt_inv I (f x)) \<Longrightarrow> (\<And>y. rt_inv I (g y)) \<Longrightarrow> rt_inv I (case r of Inl x \<Rightarrow> f x | Inr y \<Rightarrow> g y)"
  by (cases r) auto
lemma rt_inv_case_prod [rt_rules]:
  "(\<And>x y. rt_inv I (f x y)) \<Longrightarrow> rt_inv I (case p of (x, y) \<Rightarrow> f x y)"
  by (cases p) auto

end
