(* ===== verification/Rt_Condition.thy ===== *)
theory Rt_Condition
  imports Client_Condition
begin

text \<open>
  Conditions on the real-time side: \<^verbatim>\<open>intrinsic/icon/control/realtime_condition.{h,cc}\<close>
  flattens a condition proto into a bounded vector of elements that refer to each other by index,
  and \<^verbatim>\<open>intrinsic/icon/control/realtime_actions_reactions.{h,cc}\<close> evaluates the flattened
  form every cycle. The type variable \<open>'r\<close> is \<^verbatim>\<open>AggregatedRobotStatus\<close>: the code
  here only hands it to the selection functions. \<^verbatim>\<open>RtclActionInterface::GetStateVariable\<close>
  (a virtual function) and \<^verbatim>\<open>CreateRobotSystemStateFieldSelector\<close> are arguments of the
  definitions that call them.
\<close>

section \<open>Data (realtime\_condition.h)\<close>

definition kMaxConditionElements :: nat where "kMaxConditionElements = 64"
definition kMaxClauseElements :: nat where "kMaxClauseElements = 8"
definition kMaxStateVariableNameLength :: nat where "kMaxStateVariableNameLength = 64"
definition kMaxRealtimeParts :: nat where "kMaxRealtimeParts = 8"
definition kStateVariablePathPrefix :: string where "kStateVariablePathPrefix = ''@''"

lemmas rt_condition_limits =
  kMaxConditionElements_def kMaxClauseElements_def kMaxStateVariableNameLength_def
  kMaxRealtimeParts_def kStateVariablePathPrefix_def

datatype 'r operand =
    StateVariableName string
  | FieldSelectionFunction "'r \<Rightarrow> state_value status_or"

record 'r rt_comparison =
  rc_operand :: "'r operand"
  required_part_index :: "nat option"
  rc_operation :: comparison_op
  rc_value :: state_value
  rc_max_abs_error :: double

datatype 'r condition_element =
    AnyOfClause "nat list"
  | AllOfClause "nat list"
  | NotClause nat
  | RealtimeComparison "'r rt_comparison"

record 'r rt_condition =
  elements :: "'r condition_element list"
  required_parts_by_index :: "bool list"

section \<open>Flattening a proto (realtime\_condition.cc)\<close>

type_synonym 'r field_selector = "string \<Rightarrow> (('r \<Rightarrow> state_value status_or) \<times> nat option) status_or"

text \<open>\<^verbatim>\<open>emplace_back()\<close> stores a default-constructed variant, its first alternative.\<close>

definition ReserveElementIndex ::
  "'r condition_element list \<Rightarrow> (nat \<times> 'r condition_element list) status_or" where
  "ReserveElementIndex els =
     (if kMaxConditionElements \<le> length els then Inl (Error OutOfRange)
      else Inr (length els, els @ [AnyOfClause []]))"

definition ToRealtimeComparison ::
  "'r field_selector \<Rightarrow> comparison \<Rightarrow> 'r rt_comparison status_or" where
  "ToRealtimeComparison sel c =
     so_bind
       (if take (length kStateVariablePathPrefix) (state_variable_name c) = kStateVariablePathPrefix
        then so_bind (sel (state_variable_name c)) (\<lambda>(f, part). Inr (FieldSelectionFunction f, part))
        else if kMaxStateVariableNameLength < length (state_variable_name c)
        then Inl (Error InvalidArgument)
        else Inr (StateVariableName (state_variable_name c), None))
       (\<lambda>(opnd, part).
          Inr \<lparr>rc_operand = opnd, required_part_index = part, rc_operation = operation c,
               rc_value = cmp_value c, rc_max_abs_error = max_abs_error c\<rparr>)"

fun InsertConditionFromProto ::
  "'r field_selector \<Rightarrow> proto_condition \<Rightarrow> 'r condition_element list \<Rightarrow>
   (nat \<times> 'r condition_element list) status_or"
and InsertChildrenFromProto ::
  "'r field_selector \<Rightarrow> proto_condition list \<Rightarrow> 'r condition_element list \<Rightarrow> nat list \<Rightarrow>
   (nat list \<times> 'r condition_element list) status_or" where
  "InsertConditionFromProto sel (PComparison c) els =
     so_bind (ReserveElementIndex els) (\<lambda>(i, els1).
     so_bind (Comparison_FromProto c) (\<lambda>cmp.
     so_bind (ToRealtimeComparison sel cmp) (\<lambda>rc.
       Inr (i, els1[i := RealtimeComparison rc]))))"
| "InsertConditionFromProto sel (PConjunction op ps) els =
     (if op \<noteq> ALL_OF \<and> op \<noteq> ANY_OF then Inl (Error InvalidArgument)
      else if kMaxClauseElements < length ps then Inl (Error OutOfRange)
      else so_bind (ReserveElementIndex els) (\<lambda>(i, els1).
           so_bind (InsertChildrenFromProto sel ps els1 []) (\<lambda>(idxs, els2).
             Inr (i, els2[i := if op = ALL_OF then AllOfClause idxs else AnyOfClause idxs]))))"
| "InsertConditionFromProto sel (PNegated p) els =
     so_bind (ReserveElementIndex els) (\<lambda>(i, els1).
     so_bind (InsertConditionFromProto sel p els1) (\<lambda>(child, els2).
       Inr (i, els2[i := NotClause child])))"
| "InsertConditionFromProto sel PNotSet els = Inl (Error InvalidArgument)"
| "InsertChildrenFromProto sel [] els idxs = Inr (idxs, els)"
| "InsertChildrenFromProto sel (p # ps) els idxs =
     so_bind (InsertConditionFromProto sel p els) (\<lambda>(child, els1).
     so_bind (fv_push_back kMaxClauseElements idxs child) (\<lambda>idxs1.
       InsertChildrenFromProto sel ps els1 idxs1))"

fun MarkRequiredParts :: "'r condition_element list \<Rightarrow> bool list \<Rightarrow> bool list status_or" where
  "MarkRequiredParts [] parts = Inr parts"
| "MarkRequiredParts (RealtimeComparison rc # els) parts =
     (case required_part_index rc of
        None \<Rightarrow> MarkRequiredParts els parts
      | Some i \<Rightarrow>
          if kMaxRealtimeParts \<le> i then Inl (Error OutOfRange)
          else MarkRequiredParts els (parts[i := True]))"
| "MarkRequiredParts (_ # els) parts = MarkRequiredParts els parts"

definition RealtimeConditionFromProto ::
  "'r field_selector \<Rightarrow> proto_condition \<Rightarrow> 'r rt_condition status_or" where
  "RealtimeConditionFromProto sel p =
     so_bind (InsertConditionFromProto sel p []) (\<lambda>(i, els).
     so_bind (MarkRequiredParts els (replicate kMaxRealtimeParts False)) (\<lambda>parts.
       Inr \<lparr>elements = els, required_parts_by_index = parts\<rparr>))"

section \<open>Evaluation (realtime\_actions\_reactions.cc)\<close>

definition kMaxValidInt64AsDouble :: double where
  "kMaxValidInt64AsDouble = Fin 9007199254740992"

definition CheckDoubleInValidInt64Range :: "double \<Rightarrow> rt_status" where
  "CheckDoubleInValidInt64Range v =
     (if d_lt kMaxValidInt64AsDouble (d_abs v) then Error OutOfRange else OkStatus)"

text \<open>\<^verbatim>\<open>std::abs\<close> of an \<^verbatim>\<open>int64_t\<close>; on a two's complement machine the
  smallest value is mapped to itself.\<close>

definition abs_int64 :: "64 word \<Rightarrow> 64 word" where
  "abs_int64 w = (if sint w < 0 then - w else w)"

definition SafeInt64ToDouble :: "64 word \<Rightarrow> double status_or" where
  "SafeInt64ToDouble w =
     (if 9007199254740992 < sint (abs_int64 w) then Inl (Error OutOfRange)
      else Inr (round_double (of_int (sint w))))"

fun CompareBool :: "comparison_op \<Rightarrow> bool \<Rightarrow> bool \<Rightarrow> bool status_or" where
  "CompareBool EQUAL v w = Inr (v = w)"
| "CompareBool NOT_EQUAL v w = Inr (v \<noteq> w)"
| "CompareBool _ v w = Inl (Error InvalidArgument)"

fun CompareDouble :: "comparison_op \<Rightarrow> double \<Rightarrow> double \<Rightarrow> double \<Rightarrow> bool status_or" where
  "CompareDouble APPROX_EQUAL err v w = Inr (d_le (d_abs (d_sub v w)) err)"
| "CompareDouble APPROX_NOT_EQUAL err v w = Inr (d_lt err (d_abs (d_sub v w)))"
| "CompareDouble LESS_THAN_OR_EQUAL err v w = Inr (d_le v w)"
| "CompareDouble LESS_THAN err v w = Inr (d_lt v w)"
| "CompareDouble GREATER_THAN_OR_EQUAL err v w = Inr (d_le w v)"
| "CompareDouble GREATER_THAN err v w = Inr (d_lt w v)"
| "CompareDouble _ err v w = Inl (Error InvalidArgument)"

fun CompareInt64 :: "comparison_op \<Rightarrow> 64 word \<Rightarrow> 64 word \<Rightarrow> bool status_or" where
  "CompareInt64 EQUAL v w = Inr (v = w)"
| "CompareInt64 NOT_EQUAL v w = Inr (v \<noteq> w)"
| "CompareInt64 LESS_THAN_OR_EQUAL v w = Inr (sint v \<le> sint w)"
| "CompareInt64 LESS_THAN v w = Inr (sint v < sint w)"
| "CompareInt64 GREATER_THAN_OR_EQUAL v w = Inr (sint w \<le> sint v)"
| "CompareInt64 GREATER_THAN v w = Inr (sint w < sint v)"
| "CompareInt64 _ v w = Inl (Error InvalidArgument)"

definition CompareDoubleInt64 :: "comparison_op \<Rightarrow> double \<Rightarrow> double \<Rightarrow> 64 word \<Rightarrow> bool status_or" where
  "CompareDoubleInt64 op err v w =
     (if op = EQUAL \<or> op = NOT_EQUAL then Inl (Error InvalidArgument)
      else if CheckDoubleInValidInt64Range v \<noteq> OkStatus
      then Inl (CheckDoubleInValidInt64Range v)
      else so_bind (SafeInt64ToDouble w) (\<lambda>d. CompareDouble op err v d))"

definition CompareInt64Double :: "comparison_op \<Rightarrow> double \<Rightarrow> 64 word \<Rightarrow> double \<Rightarrow> bool status_or" where
  "CompareInt64Double op err v w =
     (if op = EQUAL \<or> op = NOT_EQUAL then Inl (Error InvalidArgument)
      else if CheckDoubleInValidInt64Range w \<noteq> OkStatus
      then Inl (CheckDoubleInValidInt64Range w)
      else so_bind (SafeInt64ToDouble v) (\<lambda>d. CompareDouble op err d w))"

text \<open>\<^verbatim>\<open>std::visit\<close> of the variable's value and the constant over the overloads of
  \<^verbatim>\<open>VariableComparisonVisitor\<close>.\<close>

fun VariableComparison ::
  "comparison_op \<Rightarrow> double \<Rightarrow> state_value \<Rightarrow> state_value \<Rightarrow> bool status_or" where
  "VariableComparison op err (BoolV v) (BoolV w) = CompareBool op v w"
| "VariableComparison op err (DoubleV v) (DoubleV w) = CompareDouble op err v w"
| "VariableComparison op err (DoubleV v) (Int64V w) = CompareDoubleInt64 op err v w"
| "VariableComparison op err (Int64V v) (Int64V w) = CompareInt64 op v w"
| "VariableComparison op err (Int64V v) (DoubleV w) = CompareInt64Double op err v w"
| "VariableComparison op err _ _ = Inl (Error InvalidArgument)"

definition Evaluate :: "state_value \<Rightarrow> 'r rt_comparison \<Rightarrow> bool status_or" where
  "Evaluate v rc = VariableComparison (rc_operation rc) (rc_max_abs_error rc) v (rc_value rc)"

type_synonym get_state_variable = "string \<Rightarrow> state_value status_or"

definition LookupAndEvaluateComparison ::
  "get_state_variable \<Rightarrow> 'r rt_comparison \<Rightarrow> 'r \<Rightarrow> bool status_or" where
  "LookupAndEvaluateComparison get rc r =
     (case rc_operand rc of
        FieldSelectionFunction f \<Rightarrow> so_bind (f r) (\<lambda>v. Evaluate v rc)
      | StateVariableName n \<Rightarrow> so_bind (get n) (\<lambda>v. Evaluate v rc))"

text \<open>The loop of the two clause visitors: no short cut on the truth value, only on an error.\<close>

fun clause_loop ::
  "(nat \<Rightarrow> bool status_or) \<Rightarrow> (bool \<Rightarrow> bool \<Rightarrow> bool) \<Rightarrow> bool \<Rightarrow> nat list \<Rightarrow> bool status_or" where
  "clause_loop ev f v [] = Inr v"
| "clause_loop ev f v (i # is) = so_bind (ev i) (\<lambda>b. clause_loop ev f (f v b) is)"

lemma clause_loop_cong [fundef_cong]:
  "f = g \<Longrightarrow> v = w \<Longrightarrow> is = js \<Longrightarrow> (\<And>i. i \<in> set js \<Longrightarrow> ev i = ev' i) \<Longrightarrow>
   clause_loop ev f v is = clause_loop ev' g w js"
  by (induction js arbitrary: "is" v w) (auto intro!: so_bind_cong)

function EvaluateConditionElementRtcl ::
  "get_state_variable \<Rightarrow> 'r condition_element list \<Rightarrow> 'r \<Rightarrow> nat \<Rightarrow> nat \<Rightarrow> bool status_or" where
  "EvaluateConditionElementRtcl get els r recursion_depth index =
     (if length els \<le> index then Inl (Error OutOfRange)
      else if length els \<le> recursion_depth then Inl (Error Internal)
      else case els ! index of
        RealtimeComparison rc \<Rightarrow> LookupAndEvaluateComparison get rc r
      | AllOfClause is \<Rightarrow>
          clause_loop (EvaluateConditionElementRtcl get els r (recursion_depth + 1)) (\<and>) True is
      | AnyOfClause is \<Rightarrow>
          clause_loop (EvaluateConditionElementRtcl get els r (recursion_depth + 1)) (\<or>) False is
      | NotClause i \<Rightarrow>
          so_bind (EvaluateConditionElementRtcl get els r (recursion_depth + 1) i) (\<lambda>b. Inr (\<not> b)))"
  by pat_completeness auto
termination
  by (relation "measure (\<lambda>(get, els, r, d, i). length els - d)") auto

declare EvaluateConditionElementRtcl.simps [simp del]

definition LookupAndEvaluate ::
  "get_state_variable \<Rightarrow> 'r rt_condition \<Rightarrow> 'r \<Rightarrow> bool status_or" where
  "LookupAndEvaluate get rc r = EvaluateConditionElementRtcl get (elements rc) r 0 0"

section \<open>What a flattened condition means\<close>

text \<open>The number of elements a proto needs and the depth of its tree.\<close>

fun nodes :: "proto_condition \<Rightarrow> nat" where
  "nodes (PComparison c) = 1"
| "nodes (PConjunction op ps) = 1 + sum_list (map nodes ps)"
| "nodes (PNegated p) = 1 + nodes p"
| "nodes PNotSet = 1"

fun height :: "proto_condition \<Rightarrow> nat" where
  "height (PComparison c) = 1"
| "height (PConjunction op ps) = 1 + foldr max (map height ps) 0"
| "height (PNegated p) = 1 + height p"
| "height PNotSet = 1"

text \<open>The conversion of one comparison, and the meaning of a proto as a tree: the children of a
  conjunction are evaluated from left to right and the first error is the result.\<close>

definition convert :: "'r field_selector \<Rightarrow> proto_comparison \<Rightarrow> 'r rt_comparison status_or" where
  "convert sel c = so_bind (Comparison_FromProto c) (ToRealtimeComparison sel)"

fun eval_proto ::
  "(proto_comparison \<Rightarrow> bool status_or) \<Rightarrow> proto_condition \<Rightarrow> bool status_or" where
  "eval_proto ev (PComparison c) = ev c"
| "eval_proto ev (PConjunction op ps) =
     so_bind (so_map (eval_proto ev) ps)
       (\<lambda>bs. Inr (if op = ALL_OF then \<forall>b \<in> set bs. b else \<exists>b \<in> set bs. b))"
| "eval_proto ev (PNegated p) = so_bind (eval_proto ev p) (\<lambda>b. Inr (\<not> b))"
| "eval_proto ev PNotSet = Inl (Error InvalidArgument)"

text \<open>\<open>represents sel L lo i p\<close>: the elements reachable from index \<open>i\<close> of \<open>L\<close>, all at
  positions from \<open>lo\<close> on, spell out the tree \<open>p\<close>.\<close>

inductive represents ::
  "'r field_selector \<Rightarrow> 'r condition_element list \<Rightarrow> nat \<Rightarrow> nat \<Rightarrow> proto_condition \<Rightarrow> bool"
  for sel L where
  comparison: "lo \<le> i \<Longrightarrow> i < length L \<Longrightarrow> L ! i = RealtimeComparison rc \<Longrightarrow> convert sel c = Inr rc \<Longrightarrow>
    represents sel L lo i (PComparison c)"
| all_of: "lo \<le> i \<Longrightarrow> i < length L \<Longrightarrow> L ! i = AllOfClause is \<Longrightarrow> list_all2 (represents sel L lo) is ps \<Longrightarrow>
    represents sel L lo i (PConjunction ALL_OF ps)"
| any_of: "lo \<le> i \<Longrightarrow> i < length L \<Longrightarrow> L ! i = AnyOfClause is \<Longrightarrow> list_all2 (represents sel L lo) is ps \<Longrightarrow>
    represents sel L lo i (PConjunction ANY_OF ps)"
| negated: "lo \<le> i \<Longrightarrow> i < length L \<Longrightarrow> L ! i = NotClause j \<Longrightarrow> represents sel L lo j p \<Longrightarrow>
    represents sel L lo i (PNegated p)"

lemma represents_transfer:
  assumes "represents sel L lo i p" "lo' \<le> lo"
    "\<And>k. lo \<le> k \<Longrightarrow> k < length L \<Longrightarrow> k < length L' \<and> L' ! k = L ! k"
  shows "represents sel L' lo' i p"
  using assms
proof (induction rule: represents.induct)
  case (all_of lo i "is" ps)
  then have "list_all2 (represents sel L' lo') is ps"
    by (auto elim!: list_all2_mono)
  with all_of show ?case by (intro represents.all_of) auto
next
  case (any_of lo i "is" ps)
  then have "list_all2 (represents sel L' lo') is ps"
    by (auto elim!: list_all2_mono)
  with any_of show ?case by (intro represents.any_of) auto
qed (auto intro: represents.intros)

lemma clause_loop_so_map:
  assumes "list_all2 (\<lambda>i p. ev i = ev' p) is ps"
  shows "clause_loop ev (\<and>) v is = so_bind (so_map ev' ps) (\<lambda>bs. Inr (v \<and> (\<forall>b \<in> set bs. b)))"
    and "clause_loop ev (\<or>) w is = so_bind (so_map ev' ps) (\<lambda>bs. Inr (w \<or> (\<exists>b \<in> set bs. b)))"
  using assms
  by (induction arbitrary: v w rule: list_all2_induct) (auto simp: so_bind_assoc intro!: so_bind_cong)

lemma height_le_nodes: "height p \<le> nodes p"
proof (induction p)
  case (PConjunction op ps)
  have "foldr max (map height ps) 0 \<le> sum_list (map height ps)" by (rule foldr_max_le_sum)
  also have "\<dots> \<le> sum_list (map nodes ps)" using PConjunction by (intro sum_list_mono) auto
  finally show ?case by simp
qed auto

lemma represents_eval:
  assumes "represents sel L lo i p" "d + height p \<le> length L"
  shows "EvaluateConditionElementRtcl get L r d i =
    eval_proto (\<lambda>c. so_bind (convert sel c) (\<lambda>rc. LookupAndEvaluateComparison get rc r)) p"
  using assms
proof (induction arbitrary: d rule: represents.induct)
  case (comparison lo i rc c)
  then show ?case by (subst EvaluateConditionElementRtcl.simps) simp
next
  case (all_of lo i "is" ps)
  let ?ev' = "eval_proto (\<lambda>c. so_bind (convert sel c) (\<lambda>rc. LookupAndEvaluateComparison get rc r))"
  have "list_all2 (\<lambda>i p. EvaluateConditionElementRtcl get L r (d + 1) i = ?ev' p) is ps"
  proof (rule list_all2_all_nthI)
    show "length is = length ps" using all_of(4) by (rule list_all2_lengthD)
    fix n assume "n < length is"
    then have n: "n < length ps" using all_of(4) by (simp add: list_all2_lengthD)
    then have "height (ps ! n) \<le> foldr max (map height ps) 0" by (intro foldr_max_mem) simp
    then show "EvaluateConditionElementRtcl get L r (d + 1) (is ! n) = ?ev' (ps ! n)"
      using all_of(4,5) \<open>n < length is\<close> by (auto simp: list_all2_conv_all_nth)
  qed
  from clause_loop_so_map(1)[OF this] all_of show ?case
    by (subst EvaluateConditionElementRtcl.simps) simp
next
  case (any_of lo i "is" ps)
  let ?ev' = "eval_proto (\<lambda>c. so_bind (convert sel c) (\<lambda>rc. LookupAndEvaluateComparison get rc r))"
  have "list_all2 (\<lambda>i p. EvaluateConditionElementRtcl get L r (d + 1) i = ?ev' p) is ps"
  proof (rule list_all2_all_nthI)
    show "length is = length ps" using any_of(4) by (rule list_all2_lengthD)
    fix n assume "n < length is"
    then have n: "n < length ps" using any_of(4) by (simp add: list_all2_lengthD)
    then have "height (ps ! n) \<le> foldr max (map height ps) 0" by (intro foldr_max_mem) simp
    then show "EvaluateConditionElementRtcl get L r (d + 1) (is ! n) = ?ev' (ps ! n)"
      using any_of(4,5) \<open>n < length is\<close> by (auto simp: list_all2_conv_all_nth)
  qed
  from clause_loop_so_map(2)[OF this] any_of show ?case
    by (subst EvaluateConditionElementRtcl.simps) simp
next
  case (negated lo i j p)
  then show ?case by (subst EvaluateConditionElementRtcl.simps) simp
qed

section \<open>Flattening\<close>

lemma Insert_represents:
  fixes els :: "'r condition_element list"
  shows "InsertConditionFromProto sel p els = Inr (i, els') \<Longrightarrow>
     i = length els \<and> length els' \<le> kMaxConditionElements \<and>
     (\<exists>ts. els' = els @ ts \<and> length ts = nodes p) \<and> represents sel els' (length els) i p"
  and "InsertChildrenFromProto sel ps els idxs = Inr (idxs', els') \<Longrightarrow>
     length els \<le> kMaxConditionElements \<Longrightarrow> length els' \<le> kMaxConditionElements \<and>
     (\<exists>ts js. els' = els @ ts \<and> length ts = sum_list (map nodes ps) \<and> idxs' = idxs @ js \<and>
        list_all2 (represents sel els' (length els)) js ps)"
proof (induction sel p els and sel ps els idxs
    arbitrary: i els' and idxs' els' rule: InsertConditionFromProto_InsertChildrenFromProto.induct)
  case (1 sel c els)
  then show ?case
    by (auto simp: status_simps ReserveElementIndex_def convert_def nth_append
        split: if_splits intro!: represents.comparison)
next
  case (2 sel op ps els)
  from 2(2) obtain idxs els2 where
    reserve: "ReserveElementIndex els = Inr (length els, els @ [AnyOfClause []])" and
    ch: "InsertChildrenFromProto sel ps (els @ [AnyOfClause []]) [] = Inr (idxs, els2)" and
    op: "op = ALL_OF \<or> op = ANY_OF" and sz: "length ps \<le> kMaxClauseElements" and
    lt: "length els < kMaxConditionElements" and i: "i = length els" and
    els': "els' = els2[length els := if op = ALL_OF then AllOfClause idxs else AnyOfClause idxs]"
    by (auto simp: status_simps ReserveElementIndex_def split: if_splits)
  from 2(1)[OF _ _ reserve refl ch] op sz lt obtain ts where
    ts: "els2 = els @ AnyOfClause [] # ts" "length els2 \<le> kMaxConditionElements"
        "length ts = sum_list (map nodes ps)"
        "list_all2 (represents sel els2 (Suc (length els))) idxs ps"
    by (auto simp: not_less)
  have "list_all2 (represents sel els' (length els)) idxs ps"
    using ts(4) by (rule list_all2_mono) (auto simp: els' ts(1) nth_append elim!: represents_transfer)
  then show ?case using op ts i
    by (auto simp: els' nth_append intro: represents.intros)
next
  case (3 sel p els)
  from 3(2) obtain child els2 where
    reserve: "ReserveElementIndex els = Inr (length els, els @ [AnyOfClause []])" and
    ch: "InsertConditionFromProto sel p (els @ [AnyOfClause []]) = Inr (child, els2)" and
    i: "i = length els" and els': "els' = els2[length els := NotClause child]"
    by (auto simp: status_simps ReserveElementIndex_def split: if_splits)
  from 3(1)[OF reserve refl ch] obtain ts where
    ts: "els2 = els @ AnyOfClause [] # ts" "length els2 \<le> kMaxConditionElements"
        "length ts = nodes p" "represents sel els2 (Suc (length els)) child p"
    by auto
  have "represents sel els' (length els) child p"
    using ts(4) by (rule represents_transfer) (auto simp: els' ts(1) nth_append)
  then show ?case using ts i by (auto simp: els' intro: represents.negated)
next
  case (6 sel p ps els idxs)
  from 6(3) obtain child els1 where
    ins: "InsertConditionFromProto sel p els = Inr (child, els1)" and
    push: "fv_push_back kMaxClauseElements idxs child = Inr (idxs @ [child])" and
    rest: "InsertChildrenFromProto sel ps els1 (idxs @ [child]) = Inr (idxs', els')"
    by (auto simp: status_simps)
  from 6(1)[OF ins] obtain ts where
    ts: "els1 = els @ ts" "length ts = nodes p" "length els1 \<le> kMaxConditionElements"
        "represents sel els1 (length els) child p"
    by blast
  from 6(2)[OF ins refl push rest ts(3)] obtain us js where
    us: "length els' \<le> kMaxConditionElements" "els' = els1 @ us"
        "length us = sum_list (map nodes ps)" "idxs' = idxs @ child # js"
        "list_all2 (represents sel els' (length els1)) js ps"
    by auto
  have "represents sel els' (length els) child p"
    using ts(4) by (rule represents_transfer) (auto simp: us(2) nth_append)
  moreover have "list_all2 (represents sel els' (length els)) js ps"
    using us(5) by (rule list_all2_mono) (auto simp: ts(1) elim: represents_transfer)
  ultimately show ?case using us ts by auto
qed (auto simp: status_simps)

section \<open>Which protos are accepted\<close>

fun proto_ok :: "'r field_selector \<Rightarrow> proto_condition \<Rightarrow> bool" where
  "proto_ok sel (PComparison c) = so_ok (convert sel c)"
| "proto_ok sel (PConjunction op ps) =
     ((op = ALL_OF \<or> op = ANY_OF) \<and> length ps \<le> kMaxClauseElements \<and> list_all (proto_ok sel) ps)"
| "proto_ok sel (PNegated p) = proto_ok sel p"
| "proto_ok sel PNotSet = False"

fun comparisons :: "proto_condition \<Rightarrow> proto_comparison list" where
  "comparisons (PComparison c) = [c]"
| "comparisons (PConjunction op ps) = concat (map comparisons ps)"
| "comparisons (PNegated p) = comparisons p"
| "comparisons PNotSet = []"

fun rt_comparisons :: "'r condition_element list \<Rightarrow> 'r rt_comparison list" where
  "rt_comparisons [] = []"
| "rt_comparisons (RealtimeComparison rc # els) = rc # rt_comparisons els"
| "rt_comparisons (_ # els) = rt_comparisons els"

lemma rt_comparisons_append [simp]:
  "rt_comparisons (xs @ ys) = rt_comparisons xs @ rt_comparisons ys"
  by (induction xs rule: rt_comparisons.induct) auto

lemma nodes_pos [simp]: "0 < nodes p"
  by (cases p) auto

lemma Insert_length:
  "InsertConditionFromProto sel p els = Inr (i, els') \<Longrightarrow> length els' = length els + nodes p"
  using Insert_represents(1)[of sel p els i els'] by auto

lemma Insert_ok_iff:
  fixes els :: "'r condition_element list"
  shows "so_ok (InsertConditionFromProto sel p els) \<longleftrightarrow>
     proto_ok sel p \<and> length els + nodes p \<le> kMaxConditionElements"
  and "length idxs + length ps \<le> kMaxClauseElements \<Longrightarrow> length els \<le> kMaxConditionElements \<Longrightarrow>
     so_ok (InsertChildrenFromProto sel ps els idxs) \<longleftrightarrow>
     list_all (proto_ok sel) ps \<and> length els + sum_list (map nodes ps) \<le> kMaxConditionElements"
proof (induction sel p els and sel ps els idxs
    rule: InsertConditionFromProto_InsertChildrenFromProto.induct)
  case (1 sel c els)
  then show ?case by (auto simp: so_ok_iff status_simps ReserveElementIndex_def convert_def split: if_splits)
next
  case (2 sel op ps els)
  show ?case
  proof (cases "(op = ALL_OF \<or> op = ANY_OF) \<and> length ps \<le> kMaxClauseElements \<and>
      length els < kMaxConditionElements")
    case True
    then have "ReserveElementIndex els = Inr (length els, els @ [AnyOfClause []])"
      by (simp add: ReserveElementIndex_def)
    from 2[OF _ _ this refl] True show ?thesis
      by (auto simp: so_ok_iff status_simps ReserveElementIndex_def)
  qed (auto simp: so_ok_bind ReserveElementIndex_def)
next
  case (3 sel p els)
  show ?case
  proof (cases "length els < kMaxConditionElements")
    case True
    then have "ReserveElementIndex els = Inr (length els, els @ [AnyOfClause []])"
      by (simp add: ReserveElementIndex_def)
    from 3[OF this refl] True show ?thesis
      by (auto simp: so_ok_iff status_simps ReserveElementIndex_def)
  qed (auto simp: so_ok_bind ReserveElementIndex_def)
next
  case (6 sel p ps els idxs)
  show ?case
  proof (cases "InsertConditionFromProto sel p els")
    case (Inl s)
    then have "\<not> (proto_ok sel p \<and> length els + nodes p \<le> kMaxConditionElements)"
      using 6(1) by simp
    then show ?thesis using Inl by auto
  next
    case (Inr y)
    then obtain child els1 where ins: "InsertConditionFromProto sel p els = Inr (child, els1)"
      by (cases y) auto
    have push: "fv_push_back kMaxClauseElements idxs child = Inr (idxs @ [child])"
      using 6(3) by (simp add: fv_push_back_def)
    have len: "length els1 = length els + nodes p" by (rule Insert_length[OF ins])
    moreover have "proto_ok sel p \<and> length els + nodes p \<le> kMaxConditionElements"
      using 6(1) ins by simp
    ultimately show ?thesis using 6(2)[OF ins refl push] 6(3) ins push by (auto simp: ac_simps)
  qed
qed (auto simp: so_ok_bind)

lemma Insert_comparisons:
  fixes els :: "'r condition_element list"
  shows "InsertConditionFromProto sel p els = Inr (i, els') \<Longrightarrow>
     map Inr (rt_comparisons els') = map Inr (rt_comparisons els) @ map (convert sel) (comparisons p)"
  and "InsertChildrenFromProto sel ps els idxs = Inr (idxs', els') \<Longrightarrow>
     map Inr (rt_comparisons els') =
       map Inr (rt_comparisons els) @ map (convert sel) (concat (map comparisons ps))"
proof (induction sel p els and sel ps els idxs
    arbitrary: i els' and idxs' els' rule: InsertConditionFromProto_InsertChildrenFromProto.induct)
  case (1 sel c els)
  then show ?case
    by (auto simp: status_simps ReserveElementIndex_def convert_def split: if_splits)
next
  case (2 sel op ps els)
  from 2(2) obtain idxs els2 where
    reserve: "ReserveElementIndex els = Inr (length els, els @ [AnyOfClause []])" and
    ch: "InsertChildrenFromProto sel ps (els @ [AnyOfClause []]) [] = Inr (idxs, els2)" and
    op: "op = ALL_OF \<or> op = ANY_OF" and sz: "length ps \<le> kMaxClauseElements" and
    lt: "length els < kMaxConditionElements" and i: "i = length els" and
    els': "els' = els2[length els := if op = ALL_OF then AllOfClause idxs else AnyOfClause idxs]"
    by (auto simp: status_simps ReserveElementIndex_def split: if_splits)
  from Insert_represents(2)[OF ch] lt obtain ts where "els2 = els @ AnyOfClause [] # ts" by auto
  with 2(1)[OF _ _ reserve refl ch] op sz show ?case by (auto simp: els' not_less)
next
  case (3 sel p els)
  from 3(2) obtain child els2 where
    reserve: "ReserveElementIndex els = Inr (length els, els @ [AnyOfClause []])" and
    ch: "InsertConditionFromProto sel p (els @ [AnyOfClause []]) = Inr (child, els2)" and
    i: "i = length els" and els': "els' = els2[length els := NotClause child]"
    by (auto simp: status_simps ReserveElementIndex_def split: if_splits)
  from Insert_represents(1)[OF ch] obtain ts where "els2 = els @ AnyOfClause [] # ts" by auto
  with 3(1)[OF reserve refl ch] show ?case by (auto simp: els')
next
  case (6 sel p ps els idxs)
  then show ?case by (auto simp: status_simps)
qed (auto simp: status_simps)

lemma MarkRequiredParts_ok_iff:
  "so_ok (MarkRequiredParts els parts) \<longleftrightarrow>
     (\<forall>rc \<in> set (rt_comparisons els). \<forall>i. required_part_index rc = Some i \<longrightarrow> i < kMaxRealtimeParts)"
  by (induction els parts rule: MarkRequiredParts.induct) (auto split: option.splits)

lemma MarkRequiredParts_result:
  assumes "MarkRequiredParts els parts = Inr parts'" "length parts = kMaxRealtimeParts"
  shows "length parts' = kMaxRealtimeParts \<and> (\<forall>i < kMaxRealtimeParts. parts' ! i \<longleftrightarrow>
     parts ! i \<or> (\<exists>rc \<in> set (rt_comparisons els). required_part_index rc = Some i))"
  using assms
  by (induction els parts rule: MarkRequiredParts.induct)
     (auto split: option.splits if_splits simp: nth_list_update)

definition eval_comparison ::
  "'r field_selector \<Rightarrow> get_state_variable \<Rightarrow> 'r \<Rightarrow> proto_comparison \<Rightarrow> bool status_or" where
  "eval_comparison sel get r c =
     so_bind (convert sel c) (\<lambda>rc. LookupAndEvaluateComparison get rc r)"

definition condition_accepted :: "'r field_selector \<Rightarrow> proto_condition \<Rightarrow> bool" where
  "condition_accepted sel p \<longleftrightarrow>
     proto_ok sel p \<and> nodes p \<le> kMaxConditionElements \<and>
     list_all (\<lambda>c. case convert sel c of
         Inl s \<Rightarrow> False
       | Inr rc \<Rightarrow> (case required_part_index rc of None \<Rightarrow> True | Some i \<Rightarrow> i < kMaxRealtimeParts))
       (comparisons p)"

lemma Insert_comparisons_set:
  assumes "InsertConditionFromProto sel p [] = Inr (i, els)"
  shows "rc \<in> set (rt_comparisons els) \<longleftrightarrow> (\<exists>c \<in> set (comparisons p). convert sel c = Inr rc)"
proof -
  have "(Inr rc :: 'a rt_comparison status_or) \<in> set (map Inr (rt_comparisons els)) \<longleftrightarrow>
      Inr rc \<in> set (map (convert sel) (comparisons p))"
    using Insert_comparisons(1)[OF assms] by simp
  then show ?thesis by (auto simp: image_iff) (metis imageI)
qed

lemma proto_ok_converts: "proto_ok sel p \<Longrightarrow> c \<in> set (comparisons p) \<Longrightarrow> so_ok (convert sel c)"
  by (induction p) (auto simp: list_all_iff)

lemma RealtimeConditionFromProto_iff:
  "RealtimeConditionFromProto sel p = Inr rc \<longleftrightarrow>
   (\<exists>i. InsertConditionFromProto sel p [] = Inr (i, elements rc)) \<and>
   MarkRequiredParts (elements rc) (replicate kMaxRealtimeParts False) =
     Inr (required_parts_by_index rc)"
  by (cases rc) (auto simp: RealtimeConditionFromProto_def status_simps)

lemma accepted_parts_iff:
  assumes "InsertConditionFromProto sel p [] = Inr (i, els)" "proto_ok sel p"
  shows "so_ok (MarkRequiredParts els parts) \<longleftrightarrow>
    list_all (\<lambda>c. case convert sel c of
         Inl s \<Rightarrow> False
       | Inr rc \<Rightarrow> (case required_part_index rc of None \<Rightarrow> True | Some i \<Rightarrow> i < kMaxRealtimeParts))
       (comparisons p)"
proof -
  have "\<exists>x. convert sel c = Inr x" if "c \<in> set (comparisons p)" for c
    using proto_ok_converts[OF assms(2) that] by (simp add: so_ok_iff)
  then show ?thesis
    unfolding MarkRequiredParts_ok_iff Insert_comparisons_set[OF assms(1)] Ball_def list_all_iff
    by (force split: sum.splits option.splits)
qed

section \<open>Evaluation\<close>

lemma eval_all_not:
  assumes "\<forall>i < length els. \<exists>j < length els. els ! i = NotClause j"
  shows "i < length els \<Longrightarrow> EvaluateConditionElementRtcl get els r d i = Inl (Error Internal)"
proof (induction "length els - d" arbitrary: d i)
  case 0
  then show ?case by (subst EvaluateConditionElementRtcl.simps) simp
next
  case (Suc n)
  obtain j where j: "j < length els" "els ! i = NotClause j" using assms Suc by blast
  moreover have "EvaluateConditionElementRtcl get els r (d + 1) j = Inl (Error Internal)"
    using Suc(2) j(1) by (intro Suc(1)) auto
  ultimately show ?case using Suc(2,3) by (subst EvaluateConditionElementRtcl.simps) simp
qed

lemma sint_abs_int64: "sint (abs_int64 w) = (if sint w = - (2 ^ 63) then - (2 ^ 63) else \<bar>sint w\<bar>)"
proof -
  have r: "- (2 ^ 63) \<le> sint w" "sint w < 2 ^ 63"
    using sint_greater_eq[of w] sint_less[of w] by simp_all
  show ?thesis
  proof (cases "sint w < 0")
    case True
    have "sint (- w) = signed_take_bit 63 (- sint w)"
      by transfer (simp add: signed_take_bit_minus)
    moreover have "signed_take_bit 63 (- sint w) = (if sint w = - (2 ^ 63) then - (2 ^ 63) else - sint w)"
      using r True by (auto simp: signed_take_bit_int_eq_self)
    ultimately show ?thesis using True by (simp add: abs_int64_def)
  qed (simp add: abs_int64_def)
qed

lemma SafeInt64ToDouble_iff:
  "SafeInt64ToDouble w =
     (if \<bar>sint w\<bar> \<le> 2 ^ 53 then Inr (Fin (of_int (sint w)))
      else if sint w = - (2 ^ 63) then Inr (round_double (of_int (sint w)))
      else Inl (Error OutOfRange))"
proof (cases "\<bar>sint w\<bar> \<le> 2 ^ 53")
  case True
  then show ?thesis using round_double_int_exact[OF True]
    by (auto simp: SafeInt64ToDouble_def sint_abs_int64)
qed (auto simp: SafeInt64ToDouble_def sint_abs_int64)

lemma CompareDoubleInt64_exact:
  assumes "\<bar>v\<bar> \<le> 2 ^ 53" "\<bar>sint w\<bar> \<le> 2 ^ 53"
  shows "CompareDoubleInt64 LESS_THAN err (Fin v) w = Inr (v < of_int (sint w))"
    "CompareDoubleInt64 LESS_THAN_OR_EQUAL err (Fin v) w = Inr (v \<le> of_int (sint w))"
    "CompareDoubleInt64 GREATER_THAN err (Fin v) w = Inr (of_int (sint w) < v)"
    "CompareDoubleInt64 GREATER_THAN_OR_EQUAL err (Fin v) w = Inr (of_int (sint w) \<le> v)"
  using assms
  by (simp_all add: CompareDoubleInt64_def SafeInt64ToDouble_iff CheckDoubleInValidInt64Range_def
      kMaxValidInt64AsDouble_def)

fun same_type :: "state_value \<Rightarrow> state_value \<Rightarrow> bool" where
  "same_type (BoolV a) (BoolV b) = True"
| "same_type (DoubleV a) (DoubleV b) = True"
| "same_type (Int64V a) (Int64V b) = True"
| "same_type _ _ = False"

fun known_op :: "comparison_op \<Rightarrow> bool" where
  "known_op OP_UNKNOWN = False"
| "known_op (OP_UNRECOGNIZED n) = False"
| "known_op _ = True"

lemma VariableComparison_well_typed:
  assumes "comparison_valid c" "known_op (operation c)" "same_type v (cmp_value c)"
  shows "so_ok (VariableComparison (operation c) err v (cmp_value c))"
  using assms
  by (cases "operation c"; cases v; cases "cmp_value c") (auto simp: comparison_valid_def)

section \<open>Properties\<close>

text \<open>A sample condition for the witnesses: not (done = true), or a part field below 7.\<close>

definition sample_bool_comparison :: proto_comparison where
  "sample_bool_comparison = \<lparr>pc_state_variable_name = ''done'', pc_operation = EQUAL,
     pc_value = Some (BoolV True), pc_max_abs_error = kDefaultMaxAbsError\<rparr>"

definition sample_int_comparison :: proto_comparison where
  "sample_int_comparison = \<lparr>pc_state_variable_name = ''@part.sensor'', pc_operation = LESS_THAN,
     pc_value = Some (Int64V 7), pc_max_abs_error = kDefaultMaxAbsError\<rparr>"

definition sample_condition :: proto_condition where
  "sample_condition = PConjunction ANY_OF [PNegated (PComparison sample_bool_comparison), PComparison sample_int_comparison]"

definition sample_selector :: "int field_selector" where
  "sample_selector path = Inr (\<lambda>r. Inr (Int64V (of_int r)), Some 2)"

definition sample_action :: get_state_variable where
  "sample_action n = (if n = ''done'' then Inr (BoolV True) else Inl (Error NotFound))"

text \<open>The constants of the sample condition, unfolded for evaluation.\<close>

lemmas sample_condition_defs =
  sample_condition_def sample_bool_comparison_def sample_int_comparison_def sample_selector_def
  sample_action_def convert_def Comparison_FromProto_def Comparison_Create_def
  ToRealtimeComparison_def rt_condition_limits

lemma sample_condition_converts:
  "RealtimeConditionFromProto sample_selector sample_condition =
     Inr (projr (RealtimeConditionFromProto sample_selector sample_condition))"
proof -
  have "so_ok (RealtimeConditionFromProto sample_selector sample_condition)" by code_simp
  then show ?thesis by (auto simp: so_ok_iff)
qed

text \<open>C1 (refinement). If the conversion of a condition proto succeeds, evaluating the flattened
  element vector gives exactly the tree semantics of the proto: same truth value, same first error,
  and never the out-of-range or circular-reference errors of the evaluator itself.\<close>

theorem flattened_evaluation:
  assumes "RealtimeConditionFromProto sel p = Inr rc"
  shows "LookupAndEvaluate get rc r = eval_proto (eval_comparison sel get r) p"
proof -
  from assms obtain i where ins: "InsertConditionFromProto sel p [] = Inr (i, elements rc)"
    by (auto simp: RealtimeConditionFromProto_iff)
  from Insert_represents(1)[OF this]
  have "i = 0" "length (elements rc) = nodes p" "represents sel (elements rc) 0 0 p" by auto
  then show ?thesis
    using represents_eval[of sel "elements rc" 0 0 p 0 get r] height_le_nodes[of p]
    by (simp add: LookupAndEvaluate_def eval_comparison_def[abs_def])
qed

theorem flattened_evaluation_witness:
  "LookupAndEvaluate sample_action
     (projr (RealtimeConditionFromProto sample_selector sample_condition)) 3 = Inr True"
  using flattened_evaluation[OF sample_condition_converts, of sample_action 3]
  by (simp add: eval_comparison_def sample_condition_defs LookupAndEvaluateComparison_def
      Evaluate_def)

text \<open>The conversion succeeds exactly for the protos that have supported conjunction
  operations with at most 8 children, convertible comparisons, at most 64 nodes in total and part
  indices below 8; every other proto is rejected with an error.\<close>

theorem RealtimeConditionFromProto_accepts:
  "so_ok (RealtimeConditionFromProto sel p) \<longleftrightarrow> condition_accepted sel p"
proof (cases "InsertConditionFromProto sel p []")
  case (Inl s)
  then show ?thesis using Insert_ok_iff(1)[of sel p "[]"]
    by (auto simp: condition_accepted_def RealtimeConditionFromProto_def)
next
  case (Inr y)
  then obtain i els where ins: "InsertConditionFromProto sel p [] = Inr (i, els)" by (cases y) auto
  then have "proto_ok sel p \<and> nodes p \<le> kMaxConditionElements"
    using Insert_ok_iff(1)[of sel p "[]"] by simp
  with accepted_parts_iff[OF ins] ins show ?thesis
    by (auto simp: condition_accepted_def RealtimeConditionFromProto_def so_ok_iff status_simps)
qed

text \<open>A successful conversion marks a part as required exactly when some
  comparison of the proto reads a field of that part.\<close>

theorem required_parts_exact:
  assumes "RealtimeConditionFromProto sel p = Inr rc" "i < kMaxRealtimeParts"
  shows "required_parts_by_index rc ! i \<longleftrightarrow>
    (\<exists>c \<in> set (comparisons p). \<exists>x. convert sel c = Inr x \<and> required_part_index x = Some i)"
proof -
  from assms(1) obtain k where ins: "InsertConditionFromProto sel p [] = Inr (k, elements rc)" and
    "MarkRequiredParts (elements rc) (replicate kMaxRealtimeParts False) =
       Inr (required_parts_by_index rc)"
    by (auto simp: RealtimeConditionFromProto_iff)
  from MarkRequiredParts_result[OF this(2)] assms(2)
  have "required_parts_by_index rc ! i \<longleftrightarrow>
      (\<exists>x. x \<in> set (rt_comparisons (elements rc)) \<and> required_part_index x = Some i)"
    by (auto simp: Bex_def)
  then show ?thesis unfolding Insert_comparisons_set[OF ins] by blast
qed

theorem required_parts_exact_witness:
  "required_parts_by_index (projr (RealtimeConditionFromProto sample_selector sample_condition)) ! 2"
proof -
  have "2 < kMaxRealtimeParts" by (simp add: kMaxRealtimeParts_def)
  from required_parts_exact[OF sample_condition_converts this] show ?thesis
    by (simp add: sample_condition_defs)
qed

text \<open>Indices that only ever lead from one negation to another never reach a
  comparison; the recursion depth guard turns this into an internal error instead of an endless
  recursion.\<close>

theorem circular_reference_error:
  assumes "\<forall>i < length els. \<exists>j < length els. els ! i = NotClause j" "els \<noteq> []"
  shows "LookupAndEvaluate get \<lparr>elements = els, required_parts_by_index = parts\<rparr> r =
    Inl (Error Internal)"
  using eval_all_not[OF assms(1)] assms(2) by (simp add: LookupAndEvaluate_def)

theorem circular_reference_error_witness:
  "LookupAndEvaluate sample_action \<lparr>elements = [NotClause 1, NotClause 0],
     required_parts_by_index = []\<rparr> (0 :: int) = Inl (Error Internal)"
  by (rule circular_reference_error) (auto simp: less_Suc_eq)

text \<open>C39 (type). A comparison that the client library accepts and whose operation the
  real-time code knows never fails on a state variable of the type of its constant.\<close>

theorem well_typed_comparison_evaluates:
  assumes "comparison_valid c" "known_op (operation c)" "same_type v (cmp_value c)"
    and "ToRealtimeComparison sel c = Inr rc"
  shows "so_ok (Evaluate v rc)"
  using VariableComparison_well_typed[OF assms(1-3)] assms(4)
  by (auto simp: Evaluate_def ToRealtimeComparison_def status_simps)

theorem well_typed_comparison_evaluates_witness:
  "so_ok (Evaluate (BoolV False) (projr (ToRealtimeComparison sample_selector (IsTrue ''done''))))"
  by (rule well_typed_comparison_evaluates[of "IsTrue ''done''" _ sample_selector])
     (simp_all add: comparison_valid_def IsTrue_def mk_comparison_def ToRealtimeComparison_def
       rt_condition_limits)

text \<open>Converting an \<^verbatim>\<open>int64_t\<close> to a double for a comparison: values of
  magnitude up to $2^{53}$ are converted exactly, larger ones are rejected, except that the smallest
  \<^verbatim>\<open>int64_t\<close> is its own wrapped absolute value and slips through the range check.\<close>

theorem SafeInt64ToDouble_range:
  "SafeInt64ToDouble w =
     (if \<bar>sint w\<bar> \<le> 2 ^ 53 then Inr (Fin (of_int (sint w)))
      else if sint w = - (2 ^ 63) then Inr (round_double (of_int (sint w)))
      else Inl (Error OutOfRange))"
  by (rule SafeInt64ToDouble_iff)

text \<open>Within $2^{53}$ the ordering of a double state variable and an integer
  constant is decided exactly as on the mathematical numbers.\<close>

theorem mixed_comparison_exact:
  assumes "\<bar>v\<bar> \<le> 2 ^ 53" "\<bar>sint w\<bar> \<le> 2 ^ 53"
  shows "VariableComparison LESS_THAN err (DoubleV (Fin v)) (Int64V w) = Inr (v < of_int (sint w)) \<and>
    VariableComparison LESS_THAN_OR_EQUAL err (DoubleV (Fin v)) (Int64V w) =
      Inr (v \<le> of_int (sint w)) \<and>
    VariableComparison GREATER_THAN err (DoubleV (Fin v)) (Int64V w) = Inr (of_int (sint w) < v) \<and>
    VariableComparison GREATER_THAN_OR_EQUAL err (DoubleV (Fin v)) (Int64V w) =
      Inr (of_int (sint w) \<le> v)"
  using CompareDoubleInt64_exact[OF assms] by simp

theorem mixed_comparison_exact_witness:
  "VariableComparison LESS_THAN NaN (DoubleV (Fin (7 / 2))) (Int64V 4) = Inr True"
  using mixed_comparison_exact[of "7 / 2" 4 NaN] by simp

end
