(* ===== verification/Behavior_Override.thy ===== *)
theory Behavior_Override
  imports Icon_Prelude
begin

text \<open>
  Behaviour overrides (\<^verbatim>\<open>intrinsic/icon/control/behavior_override.{h,cc}\<close>): the dense
  array in which an action instance keeps which override requests it supports, and its bounds-checked
  lookup. A \<^verbatim>\<open>BehaviorOverrideRequest\<close> is an open proto enum over
  \<^verbatim>\<open>int32\<close>, modelled by its number.
\<close>

type_synonym behavior_override_request = int

definition BEHAVIOR_OVERRIDE_REQUEST_UNKNOWN :: behavior_override_request where
  "BEHAVIOR_OVERRIDE_REQUEST_UNKNOWN = 0"

definition BEHAVIOR_OVERRIDE_REQUEST_PAUSE :: behavior_override_request where
  "BEHAVIOR_OVERRIDE_REQUEST_PAUSE = 1"

lemmas behavior_override_enum =
  BEHAVIOR_OVERRIDE_REQUEST_UNKNOWN_def BEHAVIOR_OVERRIDE_REQUEST_PAUSE_def

text \<open>The loop over \<^verbatim>\<open>behavior_override_infos\<close>. The check has no lower bound: a
  negative enum number indexes the vector out of range.\<close>

fun fill_support_list ::
  "behavior_override_request list \<Rightarrow> bool list \<Rightarrow> bool list status_or" where
  "fill_support_list [] support_list = Inr support_list"
| "fill_support_list (cap # caps) support_list =
     (if BEHAVIOR_OVERRIDE_REQUEST_PAUSE < cap then Inl (Error InvalidArgument)
      else if cap < 0 then Inl Undefined
      else fill_support_list caps (support_list[nat cap := True]))"

definition MakeBehaviorOverrideSupportArray ::
  "behavior_override_request list \<Rightarrow> bool list status_or" where
  "MakeBehaviorOverrideSupportArray infos =
     so_bind (fill_support_list infos
                (replicate (nat (BEHAVIOR_OVERRIDE_REQUEST_PAUSE + 1)) False))
       (\<lambda>support_list.
          Inr (support_list[nat BEHAVIOR_OVERRIDE_REQUEST_UNKNOWN := True]))"

definition ActionSupportsRequestedOverrideBehavior ::
  "bool list \<Rightarrow> behavior_override_request \<Rightarrow> bool" where
  "ActionSupportsRequestedOverrideBehavior support_list request =
     (if request = BEHAVIOR_OVERRIDE_REQUEST_UNKNOWN then True
      else if request < 0 \<or> int (length support_list) \<le> request then False
      else support_list ! nat request)"

definition GetRequiredSafetyActionBehaviorOverrides :: "behavior_override_request list" where
  "GetRequiredSafetyActionBehaviorOverrides =
     [BEHAVIOR_OVERRIDE_REQUEST_UNKNOWN, BEHAVIOR_OVERRIDE_REQUEST_PAUSE]"

definition BehaviorOverrideRequestToRealtimeSafeString :: "behavior_override_request \<Rightarrow> string" where
  "BehaviorOverrideRequestToRealtimeSafeString request =
     (if request = BEHAVIOR_OVERRIDE_REQUEST_UNKNOWN then ''BEHAVIOR_OVERRIDE_REQUEST_UNKNOWN''
      else if request = BEHAVIOR_OVERRIDE_REQUEST_PAUSE then ''BEHAVIOR_OVERRIDE_REQUEST_PAUSE''
      else ''INVALID_BEHAVIOR_OVERRIDE_REQUEST'')"

section \<open>Lemmas\<close>

lemma fill_support_list_Inr:
  "fill_support_list infos l = Inr l' \<Longrightarrow> length l = 2 \<Longrightarrow>
     length l' = 2 \<and> (\<forall>i < 2. l' ! i \<longleftrightarrow> l ! i \<or> int i \<in> set infos) \<and>
     set infos \<subseteq> {0..1}"
proof (induction infos l rule: fill_support_list.induct)
  case (2 cap caps l)
  then have cap: "cap = 0 \<or> cap = 1" by (auto simp: behavior_override_enum split: if_splits)
  with 2 show ?case by (fastforce simp: behavior_override_enum nth_list_update less_2_cases_iff)
qed simp

lemma fill_support_list_ok:
  "so_ok (fill_support_list infos l) \<longleftrightarrow> set infos \<subseteq> {0..1}"
  by (induction infos l rule: fill_support_list.induct) (auto simp: behavior_override_enum)

section \<open>Properties\<close>

text \<open>When the support array of an action can be built, the lookup says yes to
  exactly the requests that the action's signature lists, and to the unknown request, which stands
  for no override; requests outside the array are refused.\<close>

theorem override_support_lookup:
  assumes "MakeBehaviorOverrideSupportArray infos = Inr support_list"
  shows "ActionSupportsRequestedOverrideBehavior support_list request \<longleftrightarrow>
    request = BEHAVIOR_OVERRIDE_REQUEST_UNKNOWN \<or> request \<in> set infos"
proof -
  from assms obtain l where "fill_support_list infos [False, False] = Inr l"
    and sl: "support_list = l[0 := True]"
    by (auto simp: MakeBehaviorOverrideSupportArray_def status_simps behavior_override_enum
        numeral_2_eq_2)
  from fill_support_list_Inr[OF this(1)]
  have l: "length l = 2" "\<forall>i < 2. l ! i \<longleftrightarrow> [False, False] ! i \<or> int i \<in> set infos"
    "set infos \<subseteq> {0..1}" by auto
  have l1: "l ! 1 \<longleftrightarrow> 1 \<in> set infos" using l(2)[rule_format, of 1] by simp
  have out: "request \<notin> set infos" if "request < 0 \<or> 2 \<le> request" using l(3) that by force
  consider "request < 0" | "request = 0" | "request = 1" | "2 \<le> request" by linarith
  then show ?thesis using l(1) l1 out
    by cases (simp_all add: ActionSupportsRequestedOverrideBehavior_def behavior_override_enum sl)
qed

theorem override_support_lookup_witness:
  "ActionSupportsRequestedOverrideBehavior [True, True] BEHAVIOR_OVERRIDE_REQUEST_PAUSE"
proof -
  have "MakeBehaviorOverrideSupportArray [BEHAVIOR_OVERRIDE_REQUEST_PAUSE] = Inr [True, True]"
    by (simp add: MakeBehaviorOverrideSupportArray_def behavior_override_enum numeral_2_eq_2)
  from override_support_lookup[OF this] show ?thesis by simp
qed

end
