(* ===== verification/Rt_Session.thy ===== *)
theory Rt_Session
  imports Rt_Condition Behavior_Override
begin

text \<open>
  The data of a session in the real-time thread: action instances
  (\<^verbatim>\<open>rtcl_action_instance.h\<close>, \<^verbatim>\<open>streaming_io_storage.{h,cc}\<close>,
  \<^verbatim>\<open>realtime_signal_storage.{h,cc}\<close>), reactions (\<^verbatim>\<open>reaction.h\<close>) and the session
  itself with its checks (\<^verbatim>\<open>rtcl_realtime_session.{h,cc}\<close>).

  A session refers to its action instances by pointer, because a later version of the session shares
  them: \<open>actions\<close> holds addresses (\<open>None\<close> is \<^verbatim>\<open>nullptr\<close>) and the instances live in a
  heap. The action object behind an instance is user code; \<open>ai_action\<close> holds a handle for it.
\<close>

section \<open>Action instances\<close>

type_synonym addr = nat

record signal_value =
  current_value :: bool
  previous_value :: bool

record streaming_io_storage =
  input_has_value :: "bool list"
  output_value :: "int option option"

record action_instance =
  streaming_io_storage :: streaming_io_storage
  signal_values :: "signal_value list"
  ai_action :: "nat option"
  visibility_by_slot_id :: "bool list option"
  ai_id :: int
  supported_behavior_overrides :: "bool list"

type_synonym heap = "addr \<Rightarrow> action_instance"

text \<open>\<open>output_value\<close> is \<open>None\<close> when the action has no output channel, and otherwise the content of
  its output buffer, empty after \<^verbatim>\<open>Clear()\<close>.\<close>

definition ResetRealtimeStreamingIoStorage :: "streaming_io_storage \<Rightarrow> streaming_io_storage" where
  "ResetRealtimeStreamingIoStorage st =
     st\<lparr>input_has_value := map (\<lambda>_. False) (input_has_value st),
        output_value := map_option (\<lambda>_. None) (output_value st)\<rparr>"

text \<open>Signals get consecutive ids in the order of the signature; a duplicate name is an error.\<close>

fun assign_signal_ids :: "string list \<Rightarrow> (string \<times> nat) list \<Rightarrow> (string \<times> nat) list status_or" where
  "assign_signal_ids [] ids = Inr ids"
| "assign_signal_ids (n # ns) ids =
     (if n \<in> fst ` set ids then Inl (Error FailedPrecondition)
      else assign_signal_ids ns (ids @ [(n, length ids)]))"

definition CreateRealtimeSignalStorage ::
  "string list \<Rightarrow> (signal_value list \<times> (string \<times> nat) list) status_or" where
  "CreateRealtimeSignalStorage names =
     so_bind (assign_signal_ids names []) (\<lambda>ids.
       Inr (replicate (length ids) \<lparr>current_value = False, previous_value = False\<rparr>, ids))"

section \<open>Reactions and sessions\<close>

record 'r realtime_reaction =
  from_action_index :: "int option"
  condition :: "'r rt_condition"
  reaction_id :: int
  target_action_index :: "int option"
  fired :: bool
  fire_once :: bool
  stop_associated_action :: bool
  triggered_signal_id :: "int option"

record 'r realtime_session =
  session_id :: int
  stop_active_actions :: bool
  actions_to_start :: "nat list"
  actions :: "addr option list"
  reactions :: "'r realtime_reaction list"

definition kMaxReactionsPerSession :: nat where "kMaxReactionsPerSession = 100"

text \<open>Conversion of an \<^verbatim>\<open>int64_t\<close> to \<^verbatim>\<open>size_t\<close>.\<close>

definition size_t :: "int \<Rightarrow> nat" where
  "size_t i = nat (i mod 2 ^ 64)"

definition GetActionFromSession :: "'r realtime_session \<Rightarrow> nat \<Rightarrow> addr status_or" where
  "GetActionFromSession session action_index =
     (if length (actions session) \<le> action_index then Inl (Error OutOfRange)
      else case actions session ! action_index of
        None \<Rightarrow> Inl (Error InvalidArgument)
      | Some p \<Rightarrow> Inr p)"

text \<open>The inner loop of \<^verbatim>\<open>GetFirstSlotOverlap\<close> over the slots of one action: the first slot
  used by another action stops it (\<open>Inl\<close>), otherwise the updated slot usage is the result.\<close>

fun claim_slots ::
  "nat \<Rightarrow> bool list \<Rightarrow> nat \<Rightarrow> nat option list \<Rightarrow> (nat \<times> nat) + nat option list" where
  "claim_slots index [] i slot_usage = Inr slot_usage"
| "claim_slots index (visible # vs) i slot_usage =
     (if \<not> visible then claim_slots index vs (i + 1) slot_usage
      else case slot_usage ! i of
        Some j \<Rightarrow> if j \<noteq> index then Inl (j, index) else claim_slots index vs (i + 1) slot_usage
      | None \<Rightarrow> claim_slots index vs (i + 1) (slot_usage[i := Some index]))"

fun slot_overlap_loop ::
  "heap \<Rightarrow> 'r realtime_session \<Rightarrow> nat list \<Rightarrow> nat option list \<Rightarrow> (nat \<times> nat) option status_or" where
  "slot_overlap_loop h session [] slot_usage = Inr None"
| "slot_overlap_loop h session (index # indices) slot_usage =
     so_bind (GetActionFromSession session index) (\<lambda>p.
       case visibility_by_slot_id (h p) of
         None \<Rightarrow> Inl Undefined
       | Some vs \<Rightarrow>
           if length slot_usage < length vs then Inl (Error Internal)
           else case claim_slots index vs 0 slot_usage of
             Inl pair \<Rightarrow> Inr (Some pair)
           | Inr slot_usage' \<Rightarrow> slot_overlap_loop h session indices slot_usage')"

definition GetFirstSlotOverlap ::
  "heap \<Rightarrow> 'r realtime_session \<Rightarrow> nat list \<Rightarrow> (nat \<times> nat) option status_or" where
  "GetFirstSlotOverlap h session action_indices =
     slot_overlap_loop h session action_indices (replicate kMaxRealtimeParts None)"

fun verify_instances :: "heap \<Rightarrow> addr option list \<Rightarrow> rt_status" where
  "verify_instances h [] = OkStatus"
| "verify_instances h (None # ps) = verify_instances h ps"
| "verify_instances h (Some p # ps) =
     (if ai_action (h p) \<noteq> None \<and> visibility_by_slot_id (h p) = None then Error Internal
      else if ai_action (h p) = None \<and> visibility_by_slot_id (h p) \<noteq> None then Error Internal
      else if ai_action (h p) = None \<and> visibility_by_slot_id (h p) = None then Error Internal
      else verify_instances h ps)"

fun verify_actions_to_start :: "'r realtime_session \<Rightarrow> nat list \<Rightarrow> rt_status" where
  "verify_actions_to_start session [] = OkStatus"
| "verify_actions_to_start session (i # is) =
     (if status_of (GetActionFromSession session i) \<noteq> OkStatus then Error InvalidArgument
      else verify_actions_to_start session is)"

fun adjacent_find :: "nat list \<Rightarrow> nat option" where
  "adjacent_find (x # y # zs) = (if x = y then Some x else adjacent_find (y # zs))"
| "adjacent_find _ = None"

fun verify_reactions :: "heap \<Rightarrow> 'r realtime_session \<Rightarrow> 'r realtime_reaction list \<Rightarrow> rt_status" where
  "verify_reactions h session [] = OkStatus"
| "verify_reactions h session (r # rs) =
     (case (from_action_index r, target_action_index r) of
        (Some f, Some t) \<Rightarrow>
          if \<not> stop_associated_action r then
            (case GetFirstSlotOverlap h session [size_t f, size_t t] of
               Inl e \<Rightarrow> e
             | Inr (Some pair) \<Rightarrow> Error InvalidArgument
             | Inr None \<Rightarrow> verify_reactions h session rs)
          else verify_reactions h session rs
      | _ \<Rightarrow> verify_reactions h session rs)"

definition VerifySessionData :: "heap \<Rightarrow> 'r realtime_session \<Rightarrow> rt_status" where
  "VerifySessionData h session =
     (if verify_instances h (actions session) \<noteq> OkStatus
      then verify_instances h (actions session)
      else if verify_actions_to_start session (actions_to_start session) \<noteq> OkStatus
      then verify_actions_to_start session (actions_to_start session)
      else case adjacent_find (sort (actions_to_start session)) of
        Some i \<Rightarrow>
          (case GetActionFromSession session i of Inl e \<Rightarrow> e | Inr p \<Rightarrow> Error InvalidArgument)
      | None \<Rightarrow>
          (case GetFirstSlotOverlap h session (actions_to_start session) of
             Inl e \<Rightarrow> e
           | Inr (Some pair) \<Rightarrow> Error InvalidArgument
           | Inr None \<Rightarrow>
               if kMaxReactionsPerSession < length (reactions session) then Error InvalidArgument
               else verify_reactions h session (reactions session)))"

section \<open>Slot usage\<close>

definition slots_of :: "action_instance \<Rightarrow> nat set" where
  "slots_of a = (case visibility_by_slot_id a of None \<Rightarrow> {} | Some vs \<Rightarrow> {i. i < length vs \<and> vs ! i})"

definition uses :: "heap \<Rightarrow> 'r realtime_session \<Rightarrow> nat \<Rightarrow> nat set" where
  "uses h session i = (case GetActionFromSession session i of Inl e \<Rightarrow> {} | Inr p \<Rightarrow> slots_of (h p))"

text \<open>An index that \<^verbatim>\<open>GetFirstSlotOverlap\<close> can handle: a live action whose visibility array
  is present and not longer than the number of parts.\<close>

definition action_ready :: "heap \<Rightarrow> 'r realtime_session \<Rightarrow> nat \<Rightarrow> bool" where
  "action_ready h session i =
     (case GetActionFromSession session i of
        Inl e \<Rightarrow> False
      | Inr p \<Rightarrow> (case visibility_by_slot_id (h p) of
                   None \<Rightarrow> False | Some vs \<Rightarrow> length vs \<le> kMaxRealtimeParts))"

definition slots_exclusive :: "(nat \<Rightarrow> nat set) \<Rightarrow> nat set \<Rightarrow> bool" where
  "slots_exclusive u A \<longleftrightarrow> (\<forall>a \<in> A. \<forall>b \<in> A. a \<noteq> b \<longrightarrow> u a \<inter> u b = {})"

lemma slots_exclusive_insert:
  "slots_exclusive u (insert a A) \<longleftrightarrow> slots_exclusive u A \<and> (\<forall>b \<in> A - {a}. u a \<inter> u b = {})"
  unfolding slots_exclusive_def by blast

lemma slots_exclusive_subset: "slots_exclusive u B \<Longrightarrow> A \<subseteq> B \<Longrightarrow> slots_exclusive u A"
  by (auto simp: slots_exclusive_def)

fun visible_from :: "nat \<Rightarrow> bool list \<Rightarrow> nat set" where
  "visible_from i [] = {}"
| "visible_from i (v # vs) = (if v then {i} else {}) \<union> visible_from (i + 1) vs"

lemma visible_from_bounds: "j \<in> visible_from i vs \<Longrightarrow> i \<le> j \<and> j < i + length vs"
  by (induction i vs rule: visible_from.induct) (auto split: if_splits)

lemma visible_from_iff: "j \<in> visible_from i vs \<longleftrightarrow> i \<le> j \<and> j < i + length vs \<and> vs ! (j - i)"
proof (induction i vs rule: visible_from.induct)
  case (2 i v vs)
  show ?case
  proof (cases "j = i")
    case True
    then show ?thesis using visible_from_bounds[of i "i + 1" vs] by auto
  next
    case False
    then show ?thesis using 2 by (auto simp: nth_Cons' Suc_le_eq)
  qed
qed simp

lemma visible_from_0: "visible_from 0 vs = {j. j < length vs \<and> vs ! j}"
  by (auto simp: visible_from_iff)

lemma claim_slots_Inr:
  "claim_slots index vs i U = Inr U' \<Longrightarrow> i + length vs \<le> length U \<Longrightarrow>
     length U' = length U \<and> (\<forall>j \<in> visible_from i vs. U ! j = None \<or> U ! j = Some index) \<and>
     (\<forall>j < length U. U' ! j = (if j \<in> visible_from i vs then Some index else U ! j))"
proof (induction vs arbitrary: i U)
  case (Cons v vs)
  have out: "i \<notin> visible_from (Suc i) vs" using visible_from_bounds[of i "Suc i" vs] by auto
  show ?case
  proof (cases "v \<and> U ! i = None")
    case True
    then have "claim_slots index vs (i + 1) (U[i := Some index]) = Inr U'" using Cons(2) by simp
    moreover have "i \<noteq> j" if "j \<in> visible_from (Suc i) vs" for j using that out by auto
    ultimately show ?thesis using Cons(1)[of "i + 1" "U[i := Some index]"] True Cons(3)
      by (fastforce simp: nth_list_update)
  next
    case False
    then have "claim_slots index vs (i + 1) U = Inr U'" "v \<longrightarrow> U ! i = Some index" using Cons(2)
      by (auto split: if_splits option.splits)
    with Cons(1)[of "i + 1" U] Cons(3) False out show ?thesis by (cases v) auto
  qed
qed simp

lemma claim_slots_Inl:
  "claim_slots index vs i U = Inl (a, b) \<Longrightarrow> i + length vs \<le> length U \<Longrightarrow>
     b = index \<and> a \<noteq> index \<and> (\<exists>j \<in> visible_from i vs. U ! j = Some a)"
proof (induction vs arbitrary: i U)
  case (Cons v vs)
  have out: "i \<notin> visible_from (Suc i) vs" using visible_from_bounds[of i "Suc i" vs] by auto
  show ?case
  proof (cases "v \<and> U ! i = None")
    case True
    then have "claim_slots index vs (i + 1) (U[i := Some index]) = Inl (a, b)" using Cons(2) by simp
    from Cons(1)[OF this] True Cons(3) show ?thesis using out
      by (fastforce simp: nth_list_update split: if_splits)
  next
    case False
    with Cons(2) consider "claim_slots index vs (i + 1) U = Inl (a, b)"
      | "v" "U ! i = Some a" "a \<noteq> index" "b = index"
      by (auto split: if_splits option.splits)
    then show ?thesis using Cons(1)[of "i + 1" U] Cons(3) by cases auto
  qed
qed simp

text \<open>The slot usage table after the actions in \<open>A\<close> have been visited.\<close>

definition usage_of :: "(nat \<Rightarrow> nat set) \<Rightarrow> nat set \<Rightarrow> nat option list \<Rightarrow> bool" where
  "usage_of u A U \<longleftrightarrow> length U = kMaxRealtimeParts \<and>
     (\<forall>j < length U. \<forall>a. U ! j = Some a \<longleftrightarrow> a \<in> A \<and> j \<in> u a)"

lemma usage_of_exclusive:
  assumes "usage_of u A U" "\<And>a. a \<in> A \<Longrightarrow> u a \<subseteq> {..<kMaxRealtimeParts}"
  shows "slots_exclusive u A"
  using assms unfolding usage_of_def slots_exclusive_def by (metis disjoint_iff lessThan_iff option.inject subsetD)

lemma claim_slots_usage:
  assumes "usage_of u A U" "length vs \<le> kMaxRealtimeParts" "u index = visible_from 0 vs"
    "claim_slots index vs 0 U = Inr U'"
  shows "usage_of u (insert index A) U'"
  using claim_slots_Inr[OF assms(4)] assms(1-3) unfolding usage_of_def by (auto split: if_splits) (metis option.distinct(1) option.inject)+

lemma action_readyE:
  assumes "action_ready h s i"
  obtains p vs where "GetActionFromSession s i = Inr p" "visibility_by_slot_id (h p) = Some vs"
    "length vs \<le> kMaxRealtimeParts" "uses h s i = visible_from 0 vs"
  using assms
  by (auto simp: action_ready_def uses_def slots_of_def visible_from_0 split: sum.splits option.splits)

lemma uses_bound:
  assumes "action_ready h s i"
  shows "uses h s i \<subseteq> {..<kMaxRealtimeParts}"
proof -
  from assms obtain p vs where len: "length vs \<le> kMaxRealtimeParts"
    and u: "uses h s i = visible_from 0 vs" by (rule action_readyE)
  show ?thesis unfolding u visible_from_0 using len by auto
qed

lemma slot_overlap_not_ready:
  "\<not> action_ready h s i \<Longrightarrow> length U = kMaxRealtimeParts \<Longrightarrow>
     \<exists>e. slot_overlap_loop h s (i # is) U = Inl e"
  by (cases "GetActionFromSession s i"; cases "visibility_by_slot_id (h (projr (GetActionFromSession s i)))")
     (auto simp: action_ready_def)

lemma slot_overlap_loop_None:
  assumes "usage_of (uses h s) A U"
  shows "slot_overlap_loop h s is U = Inr None \<longleftrightarrow>
    list_all (action_ready h s) is \<and>
    (\<forall>a \<in> set is. \<forall>b \<in> A \<union> set is. a \<noteq> b \<longrightarrow> uses h s a \<inter> uses h s b = {})"
  using assms
proof (induction "is" arbitrary: A U)
  case (Cons i "is")
  have lenU: "length U = kMaxRealtimeParts" using Cons(2) by (simp add: usage_of_def)
  show ?case
  proof (cases "action_ready h s i")
    case False
    then show ?thesis using slot_overlap_not_ready[OF False lenU, of "is"] by auto
  next
    case True
    then obtain p vs where p: "GetActionFromSession s i = Inr p" "visibility_by_slot_id (h p) = Some vs"
      "length vs \<le> kMaxRealtimeParts" "uses h s i = visible_from 0 vs" by (rule action_readyE)
    show ?thesis
    proof (cases "claim_slots i vs 0 U")
      case (Inl ab)
      obtain a b where ab: "ab = (a, b)" by fastforce
      from claim_slots_Inl[OF Inl[unfolded ab]] p(3) lenU obtain j where
        "a \<noteq> i" "j \<in> uses h s i" "U ! j = Some a" "j < kMaxRealtimeParts"
        by (auto simp: p(4) visible_from_0)
      then have "a \<in> A" "uses h s i \<inter> uses h s a \<noteq> {}" using Cons(2) lenU
        by (auto simp: usage_of_def)
      then show ?thesis using Inl p \<open>a \<noteq> i\<close> by auto
    next
      case (Inr U')
      have U': "usage_of (uses h s) (insert i A) U'"
        by (rule claim_slots_usage[OF Cons(2) p(3,4) Inr])
      have dis: "uses h s i \<inter> uses h s b = {}" if "b \<in> A" "i \<noteq> b" for b
      proof (rule ccontr)
        assume "uses h s i \<inter> uses h s b \<noteq> {}"
        then obtain j where "j \<in> uses h s i" "j \<in> uses h s b" by auto
        moreover then have "j < kMaxRealtimeParts" using uses_bound[OF True] by auto
        ultimately show False using U' that by (auto simp: usage_of_def) (metis insertCI option.inject)
      qed
      have "slot_overlap_loop h s (i # is) U = slot_overlap_loop h s is U'" using p Inr lenU by simp
      with Cons(1)[OF U'] True dis show ?thesis by auto
    qed
  qed
qed simp

lemma slot_overlap_loop_Some:
  assumes "usage_of (uses h s) A U" "slot_overlap_loop h s is U = Inr (Some (a, b))"
  shows "a \<noteq> b \<and> a \<in> A \<union> set is \<and> b \<in> set is \<and> uses h s a \<inter> uses h s b \<noteq> {}"
  using assms
proof (induction "is" arbitrary: A U)
  case (Cons i "is")
  have lenU: "length U = kMaxRealtimeParts" using Cons(2) by (simp add: usage_of_def)
  from Cons(3) have "action_ready h s i"
    using slot_overlap_not_ready[OF _ lenU, of h s i "is"] by auto
  then obtain p vs where p: "GetActionFromSession s i = Inr p" "visibility_by_slot_id (h p) = Some vs"
      "length vs \<le> kMaxRealtimeParts" "uses h s i = visible_from 0 vs" by (rule action_readyE)
  show ?case
  proof (cases "claim_slots i vs 0 U")
    case (Inl ab)
    with Cons(3) p lenU have ab: "ab = (a, b)" by simp
    from claim_slots_Inl[OF Inl[unfolded ab]] p(3) lenU obtain j where
      "b = i" "a \<noteq> i" "j \<in> uses h s i" "U ! j = Some a" "j < kMaxRealtimeParts"
      by (auto simp: p(4) visible_from_0)
    then show ?thesis using Cons(2) lenU by (auto simp: usage_of_def)
  next
    case (Inr U')
    from Cons(1)[OF claim_slots_usage[OF Cons(2) p(3,4) Inr]] Cons(3) Inr p lenU show ?thesis by auto
  qed
qed simp

lemma usage_of_empty: "usage_of u {} (replicate kMaxRealtimeParts None)"
  by (auto simp: usage_of_def)

lemma GetFirstSlotOverlap_None:
  "GetFirstSlotOverlap h s is = Inr None \<longleftrightarrow>
     list_all (action_ready h s) is \<and> slots_exclusive (uses h s) (set is)"
  using slot_overlap_loop_None[OF usage_of_empty, of h s "is"]
  by (simp add: GetFirstSlotOverlap_def slots_exclusive_def)

lemma GetFirstSlotOverlap_Some:
  "GetFirstSlotOverlap h s is = Inr (Some (a, b)) \<Longrightarrow>
     a \<in> set is \<and> b \<in> set is \<and> a \<noteq> b \<and> uses h s a \<inter> uses h s b \<noteq> {}"
  using slot_overlap_loop_Some[OF usage_of_empty, of h s "is" a b]
  by (auto simp: GetFirstSlotOverlap_def)

section \<open>Session checks\<close>

lemma GetActionFromSession_not_Ok: "GetActionFromSession s i \<noteq> Inl OkStatus"
  by (auto simp: GetActionFromSession_def split: option.splits)

lemma slot_overlap_loop_not_Ok: "slot_overlap_loop h s is U \<noteq> Inl OkStatus"
  by (induction "is" arbitrary: U)
     (auto simp: status_simps GetActionFromSession_not_Ok split: option.splits sum.splits)

lemma GetFirstSlotOverlap_not_Ok: "GetFirstSlotOverlap h s is \<noteq> Inl OkStatus"
  by (simp add: GetFirstSlotOverlap_def slot_overlap_loop_not_Ok)

lemma verify_instances_Ok:
  "verify_instances h ps = OkStatus \<longleftrightarrow>
     (\<forall>p. Some p \<in> set ps \<longrightarrow> ai_action (h p) \<noteq> None \<and> visibility_by_slot_id (h p) \<noteq> None)"
  by (induction h ps rule: verify_instances.induct) auto

lemma verify_actions_to_start_Ok:
  "verify_actions_to_start s is = OkStatus \<longleftrightarrow> list_all (\<lambda>i. so_ok (GetActionFromSession s i)) is"
  by (induction s "is" rule: verify_actions_to_start.induct)
     (auto simp: GetActionFromSession_def split: option.splits)

lemma adjacent_find_None: "sorted xs \<Longrightarrow> adjacent_find xs = None \<longleftrightarrow> distinct xs"
  by (induction xs rule: adjacent_find.induct) (auto simp: le_less)

text \<open>A reaction that starts its target beside its own action: the two must not share a slot.\<close>

definition reaction_valid :: "heap \<Rightarrow> 'r realtime_session \<Rightarrow> 'r realtime_reaction \<Rightarrow> bool" where
  "reaction_valid h s r =
     (case (from_action_index r, target_action_index r) of
        (Some f, Some t) \<Rightarrow>
          stop_associated_action r \<or>
          action_ready h s (size_t f) \<and> action_ready h s (size_t t) \<and>
          slots_exclusive (uses h s) {size_t f, size_t t}
      | _ \<Rightarrow> True)"

lemma verify_reactions_Ok:
  "verify_reactions h s rs = OkStatus \<longleftrightarrow> list_all (reaction_valid h s) rs"
proof (induction rs)
  case (Cons r rs)
  show ?case
  proof (cases "\<exists>f t. from_action_index r = Some f \<and> target_action_index r = Some t \<and>
      \<not> stop_associated_action r")
    case True
    then obtain f t where r: "from_action_index r = Some f" "target_action_index r = Some t"
      "\<not> stop_associated_action r" by blast
    show ?thesis
      using GetFirstSlotOverlap_None[of h s "[size_t f, size_t t]"]
        GetFirstSlotOverlap_not_Ok[of h s "[size_t f, size_t t]"] Cons r
      by (auto simp: reaction_valid_def split: sum.splits option.splits)
  qed (use Cons in \<open>auto simp: reaction_valid_def split: option.splits\<close>)
qed simp

definition session_valid :: "heap \<Rightarrow> 'r realtime_session \<Rightarrow> bool" where
  "session_valid h s \<longleftrightarrow>
     (\<forall>p. Some p \<in> set (actions s) \<longrightarrow>
        ai_action (h p) \<noteq> None \<and> visibility_by_slot_id (h p) \<noteq> None) \<and>
     distinct (actions_to_start s) \<and> list_all (action_ready h s) (actions_to_start s) \<and>
     slots_exclusive (uses h s) (set (actions_to_start s)) \<and>
     length (reactions s) \<le> kMaxReactionsPerSession \<and> list_all (reaction_valid h s) (reactions s)"

lemma action_ready_found: "action_ready h s i \<Longrightarrow> so_ok (GetActionFromSession s i)"
  by (auto simp: action_ready_def split: sum.splits)

text \<open>The session check accepts exactly the well-formed sessions: every live action
  has its object and its slot visibility, the actions to start exist, are distinct and share no slot,
  there are at most 100 reactions, and a reaction that starts its target in parallel names two actions
  without a common slot.\<close>

theorem VerifySessionData_iff: "VerifySessionData h s = OkStatus \<longleftrightarrow> session_valid h s"
proof (cases "verify_instances h (actions s) = OkStatus \<and>
    verify_actions_to_start s (actions_to_start s) = OkStatus \<and> distinct (actions_to_start s)")
  case True
  then have "adjacent_find (sort (actions_to_start s)) = None" by (simp add: adjacent_find_None)
  then show ?thesis
    using True GetFirstSlotOverlap_None[of h s "actions_to_start s"]
      GetFirstSlotOverlap_not_Ok[of h s "actions_to_start s"]
    by (auto simp: VerifySessionData_def session_valid_def verify_reactions_Ok verify_instances_Ok
        split: sum.splits option.splits)
next
  case False
  then have "\<not> session_valid h s"
    using action_ready_found[of h s]
    by (fastforce simp: session_valid_def verify_instances_Ok verify_actions_to_start_Ok list_all_iff)
  moreover have "adjacent_find (sort (actions_to_start s)) \<noteq> None"
    if "\<not> distinct (actions_to_start s)"
    using that adjacent_find_None[of "sort (actions_to_start s)"] by auto
  ultimately show ?thesis using False GetActionFromSession_not_Ok[of s]
    by (auto simp: VerifySessionData_def split: sum.splits option.splits)
qed

text \<open>C36 (equivalence). The single-pass slot scan agrees with the pairwise definition: it reports no
  overlap exactly when all indices denote usable actions and any two different ones use disjoint
  slots, so repeated indices are tolerated.\<close>

theorem GetFirstSlotOverlap_pairwise:
  "GetFirstSlotOverlap h s is = Inr None \<longleftrightarrow>
     list_all (action_ready h s) is \<and> slots_exclusive (uses h s) (set is)"
  by (rule GetFirstSlotOverlap_None)

text \<open>A pair that the slot scan reports consists of two different actions of the list
  that do share a slot.\<close>

theorem GetFirstSlotOverlap_sound:
  assumes "GetFirstSlotOverlap h s is = Inr (Some (a, b))"
  shows "a \<in> set is \<and> b \<in> set is \<and> a \<noteq> b \<and> uses h s a \<inter> uses h s b \<noteq> {}"
  by (rule GetFirstSlotOverlap_Some[OF assms])

definition sample_instance :: "int \<Rightarrow> bool list \<Rightarrow> action_instance" where
  "sample_instance i vs =
     \<lparr>streaming_io_storage = \<lparr>input_has_value = [], output_value = None\<rparr>, signal_values = [],
      ai_action = Some (nat i), visibility_by_slot_id = Some vs, ai_id = i,
      supported_behavior_overrides = [True, True]\<rparr>"

definition sample_heap :: heap where
  "sample_heap p = sample_instance (int p) [p = 0 \<or> p = 2, p = 1 \<or> p = 2]"

definition sample_session :: "'r realtime_session" where
  "sample_session = \<lparr>session_id = 1, stop_active_actions = True, actions_to_start = [0, 1],
     actions = [Some 0, Some 1, Some 2], reactions = []\<rparr>"

theorem GetFirstSlotOverlap_sound_witness:
  "uses sample_heap (sample_session :: unit realtime_session) 0 \<inter>
   uses sample_heap (sample_session :: unit realtime_session) 2 \<noteq> {}"
proof -
  have "GetFirstSlotOverlap sample_heap (sample_session :: unit realtime_session) [0, 2] =
      Inr (Some (0, 2))"
    by code_simp
  from GetFirstSlotOverlap_sound[OF this] show ?thesis by blast
qed

end
