(* ===== verification/Operational_Status.thy ===== *)
theory Operational_Status
  imports Icon_Prelude
begin

text \<open>
  Operational states. \<^verbatim>\<open>intrinsic/icon/control/realtime_operational_status.h\<close> has the
  states of the control layer and their severity, \<^verbatim>\<open>intrinsic/icon/cc_client/operational_status.{h,cc}\<close>
  the client's coarser view and its protos, and \<^verbatim>\<open>intrinsic/icon/hal/hardware_module_util.cc\<close>
  the transition guard of the hardware modules, whose states
  \<^verbatim>\<open>hardware_module_manager.h\<close> maps to those of the control layer.
\<close>

section \<open>Control layer\<close>

datatype operational_state_command =
    Cmd_kNone | Cmd_kEnable | Cmd_kDisable | Cmd_kDisableSkipCellControlHardware | Cmd_kClearFaults

datatype rt_operational_state = Rt_kDisabled | Rt_kFaultedConnected | Rt_kFatallyFaulted | Rt_kEnabled

record rt_operational_status =
  ros_state :: rt_operational_state
  ros_fault_reason :: string

record hardware_group_set =
  operational_hardware :: bool
  cell_control_hardware :: bool

fun severity :: "rt_operational_state \<Rightarrow> int" where
  "severity Rt_kEnabled = 0"
| "severity Rt_kDisabled = 1"
| "severity Rt_kFaultedConnected = 2"
| "severity Rt_kFatallyFaulted = 3"

definition GetMaximumSeverity ::
  "rt_operational_state \<Rightarrow> rt_operational_state \<Rightarrow> rt_operational_state" where
  "GetMaximumSeverity s1 s2 = (if severity s2 < severity s1 then s1 else s2)"

fun CommandToString :: "operational_state_command \<Rightarrow> string" where
  "CommandToString Cmd_kNone = ''none''"
| "CommandToString Cmd_kEnable = ''enable''"
| "CommandToString Cmd_kDisable = ''disable''"
| "CommandToString Cmd_kDisableSkipCellControlHardware = ''disable_skip_cell_control_hardware''"
| "CommandToString Cmd_kClearFaults = ''clear_faults''"

fun RtStateToString :: "rt_operational_state \<Rightarrow> string" where
  "RtStateToString Rt_kDisabled = ''disabled''"
| "RtStateToString Rt_kFaultedConnected = ''faulted_connected''"
| "RtStateToString Rt_kFatallyFaulted = ''fatally_faulted''"
| "RtStateToString Rt_kEnabled = ''enabled''"

section \<open>Client view\<close>

datatype operational_state = Op_kDisabled | Op_kFaulted | Op_kEnabled

datatype proto_operational_state =
    PROTO_UNKNOWN | PROTO_DISABLED | PROTO_FAULTED | PROTO_ENABLED | PROTO_UNRECOGNIZED int

record operational_status =
  os_state :: operational_state
  os_fault_reason :: string

record proto_operational_status =
  pos_state :: proto_operational_state
  pos_fault_reason :: string

fun ToOperationalState :: "rt_operational_state \<Rightarrow> operational_state" where
  "ToOperationalState Rt_kDisabled = Op_kDisabled"
| "ToOperationalState Rt_kFaultedConnected = Op_kFaulted"
| "ToOperationalState Rt_kFatallyFaulted = Op_kFaulted"
| "ToOperationalState Rt_kEnabled = Op_kEnabled"

text \<open>The private constructor \<^verbatim>\<open>CHECK\<close>s that only a faulted status has a reason.\<close>

definition mk_OperationalStatus :: "operational_state \<Rightarrow> string \<Rightarrow> operational_status status_or" where
  "mk_OperationalStatus s reason =
     (if reason = [] \<or> s = Op_kFaulted then Inr \<lparr>os_state = s, os_fault_reason = reason\<rparr>
      else Inl LogFatal)"

definition Disabled :: "operational_status status_or" where
  "Disabled = mk_OperationalStatus Op_kDisabled []"

definition Enabled :: "operational_status status_or" where
  "Enabled = mk_OperationalStatus Op_kEnabled []"

definition Faulted :: "string \<Rightarrow> operational_status status_or" where
  "Faulted reason = mk_OperationalStatus Op_kFaulted reason"

fun OperationalState_ToProto :: "operational_state \<Rightarrow> proto_operational_state" where
  "OperationalState_ToProto Op_kDisabled = PROTO_DISABLED"
| "OperationalState_ToProto Op_kFaulted = PROTO_FAULTED"
| "OperationalState_ToProto Op_kEnabled = PROTO_ENABLED"

fun OperationalState_FromProto :: "proto_operational_state \<Rightarrow> operational_state status_or" where
  "OperationalState_FromProto PROTO_DISABLED = Inr Op_kDisabled"
| "OperationalState_FromProto PROTO_FAULTED = Inr Op_kFaulted"
| "OperationalState_FromProto PROTO_ENABLED = Inr Op_kEnabled"
| "OperationalState_FromProto _ = Inl (Error InvalidArgument)"

definition OperationalStatus_ToProto :: "operational_status \<Rightarrow> proto_operational_status" where
  "OperationalStatus_ToProto st =
     \<lparr>pos_state = OperationalState_ToProto (os_state st), pos_fault_reason = os_fault_reason st\<rparr>"

definition OperationalStatus_FromProto ::
  "proto_operational_status \<Rightarrow> operational_status status_or" where
  "OperationalStatus_FromProto p =
     (if pos_fault_reason p \<noteq> [] \<and> pos_state p \<noteq> PROTO_FAULTED then Inl (Error InvalidArgument)
      else case pos_state p of
        PROTO_DISABLED \<Rightarrow> Disabled
      | PROTO_FAULTED \<Rightarrow> Faulted (pos_fault_reason p)
      | PROTO_ENABLED \<Rightarrow> Enabled
      | _ \<Rightarrow> Inl (Error InvalidArgument))"

text \<open>\<^verbatim>\<open>RealtimeOperationalStateBridge\<close>: what a client reads from the buffer that the
  control thread fills; the cell control status goes through the same cases.\<close>

definition GetStatus :: "rt_operational_status \<Rightarrow> operational_status status_or" where
  "GetStatus buf =
     (case ros_state buf of
        Rt_kDisabled \<Rightarrow> Disabled
      | Rt_kFaultedConnected \<Rightarrow> Faulted (ros_fault_reason buf)
      | Rt_kFatallyFaulted \<Rightarrow> Faulted (ros_fault_reason buf)
      | Rt_kEnabled \<Rightarrow> Enabled)"

definition DisableCommand :: "bool \<Rightarrow> operational_state_command" where
  "DisableCommand skip_cell_control_hardware =
     (if skip_cell_control_hardware then Cmd_kDisableSkipCellControlHardware else Cmd_kDisable)"

section \<open>Hardware module states\<close>

datatype state_code =
    HwmDeactivated | HwmDeactivating | HwmActivated | HwmActivating | HwmMotionEnabled
  | HwmMotionEnabling | HwmMotionDisabling | HwmFaulted | HwmClearingFaults | HwmInitFailed
  | HwmFatallyFaulted | HwmPreparing | HwmPrepared

datatype transition_guard_result = kNoOp | kAllowed | kProhibited

definition HardwareModuleTransitionGuard :: "state_code \<Rightarrow> state_code \<Rightarrow> transition_guard_result" where
  "HardwareModuleTransitionGuard frm to =
     (if to = HwmFatallyFaulted then kAllowed
      else case frm of
        HwmPreparing \<Rightarrow>
          if to \<in> {HwmPrepared, HwmFaulted, HwmFatallyFaulted} then kAllowed else kProhibited
      | HwmPrepared \<Rightarrow> if to \<in> {HwmActivating, HwmDeactivating} then kAllowed else kProhibited
      | HwmDeactivating \<Rightarrow> if to = HwmDeactivated then kAllowed else kProhibited
      | HwmDeactivated \<Rightarrow>
          if to = HwmDeactivating then kNoOp
          else if to \<in> {HwmPreparing, HwmInitFailed} then kAllowed else kProhibited
      | HwmActivating \<Rightarrow> if to = HwmActivated then kAllowed else kProhibited
      | HwmActivated \<Rightarrow>
          if to \<in> {HwmMotionDisabling, HwmClearingFaults} then kNoOp
          else if to \<in> {HwmMotionEnabling, HwmDeactivating, HwmFaulted} then kAllowed
          else kProhibited
      | HwmMotionEnabling \<Rightarrow>
          if to \<in> {HwmDeactivating, HwmMotionEnabled, HwmFaulted} then kAllowed else kProhibited
      | HwmMotionEnabled \<Rightarrow>
          if to \<in> {HwmMotionEnabling, HwmClearingFaults} then kNoOp
          else if to \<in> {HwmMotionDisabling, HwmFaulted, HwmDeactivating} then kAllowed
          else kProhibited
      | HwmMotionDisabling \<Rightarrow>
          if to \<in> {HwmFaulted, HwmActivated, HwmDeactivating} then kAllowed else kProhibited
      | HwmFaulted \<Rightarrow>
          if to \<in> {HwmClearingFaults, HwmDeactivating, HwmFaulted} then kAllowed else kProhibited
      | HwmClearingFaults \<Rightarrow>
          if to \<in> {HwmDeactivating, HwmFaulted, HwmActivated} then kAllowed else kProhibited
      | HwmInitFailed \<Rightarrow> kProhibited
      | HwmFatallyFaulted \<Rightarrow> kProhibited)"

definition ToRealtimeOperationalState :: "state_code \<Rightarrow> rt_operational_state" where
  "ToRealtimeOperationalState code =
     (if code = HwmMotionEnabled then Rt_kEnabled
      else if code = HwmFatallyFaulted \<or> code = HwmInitFailed then Rt_kFatallyFaulted
      else if code = HwmFaulted \<or> code = HwmClearingFaults then Rt_kFaultedConnected
      else Rt_kDisabled)"

section \<open>Severity is a linear order\<close>

instantiation rt_operational_state :: linorder
begin

definition less_eq_rt_operational_state :: "rt_operational_state \<Rightarrow> rt_operational_state \<Rightarrow> bool" where
  "less_eq_rt_operational_state s t \<longleftrightarrow> severity s \<le> severity t"

definition less_rt_operational_state :: "rt_operational_state \<Rightarrow> rt_operational_state \<Rightarrow> bool" where
  "less_rt_operational_state s t \<longleftrightarrow> severity s < severity t"

lemma severity_inject: "severity s = severity t \<longleftrightarrow> s = t"
  by (cases s; cases t) auto

instance
  by standard
     (auto simp: less_eq_rt_operational_state_def less_rt_operational_state_def
       simp flip: severity_inject)

end

lemmas severity_order = less_eq_rt_operational_state_def less_rt_operational_state_def

lemma GetMaximumSeverity_max: "GetMaximumSeverity s t = max s t"
  using severity_inject[of s t]
  by (auto simp: GetMaximumSeverity_def max_def severity_order)

lemma Rt_kEnabled_least [simp]: "Rt_kEnabled \<le> s"
  by (cases s) (auto simp: severity_order)

lemma le_Rt_kEnabled [simp]: "s \<le> Rt_kEnabled \<longleftrightarrow> s = Rt_kEnabled"
  by (cases s) (auto simp: severity_order)

section \<open>The state machine that the guard admits\<close>

inductive hwm_step :: "state_code \<Rightarrow> state_code \<Rightarrow> bool" where
  allowed: "HardwareModuleTransitionGuard s t = kAllowed \<Longrightarrow> hwm_step s t"

text \<open>Runs that avoid a set of states, the first state excepted.\<close>

inductive hwm_run_avoiding :: "state_code set \<Rightarrow> state_code \<Rightarrow> state_code \<Rightarrow> bool" for A where
  start: "hwm_run_avoiding A s s"
| step: "hwm_run_avoiding A s t \<Longrightarrow> hwm_step t u \<Longrightarrow> u \<notin> A \<Longrightarrow> hwm_run_avoiding A s u"

inductive_simps hwm_step_iff: "hwm_step s t"

lemma guard_simps [simp]:
  "HardwareModuleTransitionGuard s HwmMotionEnabled = kAllowed \<longleftrightarrow> s = HwmMotionEnabling"
  "HardwareModuleTransitionGuard HwmFatallyFaulted t = kAllowed \<longleftrightarrow> t = HwmFatallyFaulted"
  "HardwareModuleTransitionGuard HwmInitFailed t = kAllowed \<longleftrightarrow> t = HwmFatallyFaulted"
  "HardwareModuleTransitionGuard HwmFaulted t = kAllowed \<longleftrightarrow>
     t \<in> {HwmClearingFaults, HwmDeactivating, HwmFaulted, HwmFatallyFaulted}"
  by (auto simp: HardwareModuleTransitionGuard_def split: state_code.splits if_splits)

lemma hwm_run_from_faulted:
  "hwm_run_avoiding {HwmClearingFaults, HwmDeactivating} s t \<Longrightarrow>
     s \<in> {HwmFaulted, HwmFatallyFaulted} \<Longrightarrow> t \<in> {HwmFaulted, HwmFatallyFaulted}"
  by (induction rule: hwm_run_avoiding.induct) (auto simp: hwm_step_iff)

lemma hwm_run_from_fatal:
  "hwm_run_avoiding {} s t \<Longrightarrow> s \<in> {HwmFatallyFaulted, HwmInitFailed} \<Longrightarrow>
     t \<in> {HwmFatallyFaulted, HwmInitFailed}"
  by (induction rule: hwm_run_avoiding.induct) (auto simp: hwm_step_iff)

section \<open>Properties\<close>

text \<open>A hardware module that faulted cannot be enabled for motion again without passing
  through clearing faults or through a deactivation, along any sequence of transitions that the guard
  admits.\<close>

theorem faulted_needs_clearing:
  assumes "hwm_run_avoiding {HwmClearingFaults, HwmDeactivating} HwmFaulted t"
  shows "ToRealtimeOperationalState t \<in> {Rt_kFaultedConnected, Rt_kFatallyFaulted}"
  using hwm_run_from_faulted[OF assms] by (auto simp: ToRealtimeOperationalState_def)

theorem faulted_needs_clearing_witness:
  "ToRealtimeOperationalState HwmFatallyFaulted \<in> {Rt_kFaultedConnected, Rt_kFatallyFaulted}"
proof (rule faulted_needs_clearing)
  show "hwm_run_avoiding {HwmClearingFaults, HwmDeactivating} HwmFaulted HwmFatallyFaulted"
    by (rule hwm_run_avoiding.step[OF hwm_run_avoiding.start]) (simp_all add: hwm_step_iff)
qed

text \<open>Fatal faults are final: no sequence of admitted transitions leaves the fatal
  states, and the control layer reports the module as fatally faulted forever.\<close>

theorem fatal_fault_is_final:
  assumes "hwm_run_avoiding {} s t" "s = HwmFatallyFaulted \<or> s = HwmInitFailed"
  shows "ToRealtimeOperationalState t = Rt_kFatallyFaulted"
  using hwm_run_from_fatal[OF assms(1)] assms(2) by (auto simp: ToRealtimeOperationalState_def)

theorem fatal_fault_is_final_witness:
  "ToRealtimeOperationalState HwmFatallyFaulted = Rt_kFatallyFaulted"
proof (rule fatal_fault_is_final)
  show "hwm_run_avoiding {} HwmInitFailed HwmFatallyFaulted"
    by (rule hwm_run_avoiding.step[OF hwm_run_avoiding.start]) (simp_all add: hwm_step_iff)
qed simp

text \<open>An operational status survives its proto exactly when it obeys the constructor's
  rule that only a faulted status carries a reason.\<close>

theorem OperationalStatus_roundtrip:
  "OperationalStatus_FromProto (OperationalStatus_ToProto st) = Inr st \<longleftrightarrow>
     mk_OperationalStatus (os_state st) (os_fault_reason st) = Inr st"
  by (cases st; cases "os_state st")
     (auto simp: OperationalStatus_FromProto_def OperationalStatus_ToProto_def Disabled_def
       Enabled_def Faulted_def mk_OperationalStatus_def)

end
