(* ===== verification/Part_Manager.thy ===== *)
theory Part_Manager
  imports Rt_Monad Rt_Session Operational_Status
begin

text \<open>
  \<^verbatim>\<open>intrinsic/icon/control/realtime_part_manager.{h,cc}\<close>: the parts of a controller in a
  real-time cycle. Every cycle starts with \<^verbatim>\<open>BeginCycle\<close>, which reads all parts; sessions
  then mark parts as controlled; \<^verbatim>\<open>FinishCycle\<close> runs the safety action of every enabled part
  that no action controls and applies all commands.

  Actions and parts are plug-ins behind virtual functions. They are a record of functions over a
  world \<open>'w\<close> (everything the plug-ins and the hardware keep), the argument \<open>E\<close> of the definitions
  that call them. \<open>'ps\<close> is the status of one part (\<^verbatim>\<open>RealtimePartStatus\<close>). A call of an action
  also tells how many heap allocations the malloc guard counted.
\<close>

section \<open>Plug-ins\<close>

type_synonym slot_map = "nat \<Rightarrow> bool"

record ('w, 'ps) plugins =
  OnEnter :: "nat \<Rightarrow> slot_map \<Rightarrow> double \<Rightarrow> behavior_override_request \<Rightarrow> 'w \<Rightarrow> (rt_status \<times> nat) \<times> 'w"
  Sense :: "nat \<Rightarrow> slot_map \<Rightarrow> streaming_io_storage \<Rightarrow> signal_value list \<Rightarrow> double \<Rightarrow>
    behavior_override_request \<Rightarrow> 'w \<Rightarrow> (rt_status \<times> nat \<times> streaming_io_storage) \<times> 'w"
  Control :: "nat \<Rightarrow> slot_map \<Rightarrow> double \<Rightarrow> behavior_override_request \<Rightarrow> 'w \<Rightarrow> (rt_status \<times> nat) \<times> 'w"
  GetStateVariable :: "nat \<Rightarrow> 'w \<Rightarrow> get_state_variable"
  ReadStatus :: "nat \<Rightarrow> 'w \<Rightarrow> rt_status \<times> 'w"
  GetOperationalStatus :: "nat \<Rightarrow> 'w \<Rightarrow> rt_operational_status status_or"
  ApplyCommand :: "nat \<Rightarrow> 'w \<Rightarrow> rt_status \<times> 'w"
  HardwareDependencies :: "nat \<Rightarrow> 'w \<Rightarrow> hardware_group_set status_or"
  ExtractRealtimePartStatus :: "nat \<Rightarrow> int \<Rightarrow> rt_operational_status \<Rightarrow> 'w \<Rightarrow> 'ps"

section \<open>State\<close>

datatype requested_behavior =
    RB_UNKNOWN | RB_NORMAL_OPERATION | RB_PAUSE | RB_SAFE_STOP_0 | RB_SAFE_STOP_1_TIME_MONITORED
  | RB_SAFE_STOP_2_TIME_MONITORED

datatype button_status = BS_UNKNOWN | BS_NOT_AVAILABLE | BS_ENGAGED | BS_DISENGAGED

datatype mode_of_safe_operation =
    MSO_UNKNOWN | MSO_AUTOMATIC | MSO_TEACH_PENDANT_1 | MSO_TEACH_PENDANT_2 | MSO_CONFIGURATION
  | MSO_UPDATING

record safety_status =
  mode_of_safe_operation :: mode_of_safe_operation
  estop_button_status :: button_status
  enable_button_status :: button_status
  requested_behavior :: requested_behavior

record log_context =
  deployment_id :: string
  executive_session_id :: int
  executive_plan_id :: int
  executive_plan_action_id :: int
  skill_id :: int
  parent_skill_id :: int
  icon_session_id :: "int option"
  icon_action_id :: "int option"

definition empty_context :: log_context where
  "empty_context = \<lparr>deployment_id = [], executive_session_id = 0, executive_plan_id = 0,
     executive_plan_action_id = 0, skill_id = 0, parent_skill_id = 0, icon_session_id = None,
     icon_action_id = None\<rparr>"

record 'ps robot_status =
  part_statuses :: "'ps list"
  rs_safety_status :: safety_status

record 'ps publish_output =
  wall_time :: int
  timestamp_control :: int
  cycle :: nat
  robot_status :: "'ps robot_status"
  part_contexts :: "log_context list"

record part_info =
  part_name :: string
  safety_action :: action_instance
  controlled_by :: "int option"
  safety_action_active :: bool
  part_context :: log_context

text \<open>The fields of the part manager and the world. \<open>property_entries\<close> is the number of parts in the
  two part-property buffers, \<open>properties_in_use\<close> says that the pointers to this cycle's buffers are
  set; the property values themselves belong to the world. \<open>pause_transitions\<close> is the flag of the
  state manager that \<^verbatim>\<open>FinishCycle\<close> sets.\<close>

record ('w, 'ps) rt_sys =
  world :: 'w
  cycle_start :: "int option"
  part_states_buffer :: "operational_state list"
  part_states_free :: "operational_state list"
  part_infos :: "part_info list"
  property_entries :: nat
  properties_in_use :: bool
  current_robot_status :: "'ps publish_output option"
  robot_status_queue :: "'ps publish_output list"
  robot_status_queue_capacity :: nat
  robot_status_buffer :: "'ps publish_output option"
  current_safety_status :: safety_status
  pause_transitions :: bool

definition kSafetySpeedOverride :: double where "kSafetySpeedOverride = Fin 1"
definition kSafetyBehaviorOverride :: behavior_override_request where
  "kSafetyBehaviorOverride = BEHAVIOR_OVERRIDE_REQUEST_PAUSE"
definition kIsDone :: string where "kIsDone = ''intrinsic.is_done''"

section \<open>Operations\<close>

text \<open>\<^verbatim>\<open>SlotMap::GetRegistryForSlot\<close>, both the const and the mutable one: a slot is
  accessible when it is visible to the action and denotes a part.\<close>

definition GetRegistryForSlot :: "bool list \<Rightarrow> nat \<Rightarrow> slot_map" where
  "GetRegistryForSlot visibility num_parts slot_id =
     (\<not> (length visibility \<le> slot_id \<or> \<not> visibility ! slot_id \<or> num_parts \<le> slot_id))"

definition GetSlotMapForAction ::
  "bool list option \<Rightarrow> (('w, 'ps, 'z) rt_sys_scheme, slot_map) rt" where
  "GetSlotMapForAction visibility =
     (case visibility of
        None \<Rightarrow> rt_fail Undefined
      | Some vs \<Rightarrow> rt_gets (\<lambda>s. GetRegistryForSlot vs (length (part_infos s))))"

definition upd_part :: "nat \<Rightarrow> (part_info \<Rightarrow> part_info) \<Rightarrow> ('w, 'ps, 'z) rt_sys_scheme \<Rightarrow>
    ('w, 'ps, 'z) rt_sys_scheme" where
  "upd_part i f s = s\<lparr>part_infos := (part_infos s)[i := f (part_infos s ! i)]\<rparr>"

text \<open>A call into the world.\<close>

definition world_call :: "('w \<Rightarrow> 'a \<times> 'w) \<Rightarrow> (('w, 'ps, 'z) rt_sys_scheme, 'a) rt" where
  "world_call f s = (case f (world s) of (x, w) \<Rightarrow> (Inr x, s\<lparr>world := w\<rparr>))"

definition push_part_status :: "'ps \<Rightarrow> (('w, 'ps, 'z) rt_sys_scheme, unit) rt" where
  "push_part_status ps =
     rt_bind (rt_lift_st (\<lambda>s. case current_robot_status s of
                None \<Rightarrow> Inl Undefined
              | Some out \<Rightarrow> fv_push_back kMaxRealtimeParts (part_statuses (robot_status out)) ps))
       (\<lambda>l. rt_modify (\<lambda>s. s\<lparr>current_robot_status := map_option
          (\<lambda>out. out\<lparr>robot_status := (robot_status out)\<lparr>part_statuses := l\<rparr>\<rparr>) (current_robot_status s)\<rparr>))"

definition check_properties :: "nat \<Rightarrow> (('w, 'ps, 'z) rt_sys_scheme, unit) rt" where
  "check_properties i =
     rt_lift_st (\<lambda>s. if \<not> properties_in_use s then Inl Undefined
                     else if property_entries s \<le> i then Inl LogFatal else Inr ())"

definition begin_cycle_part ::
  "('w, 'ps) plugins \<Rightarrow> int \<Rightarrow> nat \<Rightarrow> (('w, 'ps, 'z) rt_sys_scheme, unit) rt" where
  "begin_cycle_part E t i =
     rt_bind (rt_modify (upd_part i (\<lambda>p. p\<lparr>controlled_by := None\<rparr>))) (\<lambda>_.
     rt_bind (check_properties i) (\<lambda>_.
     rt_bind (world_call (ReadStatus E i)) (\<lambda>status.
     rt_bind (rt_lift_st (\<lambda>s. GetOperationalStatus E i (world s))) (\<lambda>part_status.
     rt_bind (rt_modify (\<lambda>s. s\<lparr>part_states_free :=
                (part_states_free s)[i := ToOperationalState (ros_state part_status)]\<rparr>)) (\<lambda>_.
     rt_bind (rt_gets (\<lambda>s. ExtractRealtimePartStatus E i t part_status (world s))) (\<lambda>ps.
     rt_bind (push_part_status ps) (\<lambda>_.
       rt_check status)))))))"

definition BeginCycle ::
  "('w, 'ps) plugins \<Rightarrow> int \<Rightarrow> int \<Rightarrow> nat \<Rightarrow> (('w, 'ps, 'z) rt_sys_scheme, 'ps robot_status) rt" where
  "BeginCycle E t wall current_cycle =
     rt_bind (rt_gets cycle_start) (\<lambda>started.
     if started \<noteq> None then rt_fail (Error FailedPrecondition)
     else
       rt_bind (rt_modify (\<lambda>s. s\<lparr>cycle_start := Some t, properties_in_use := True,
          part_states_free := replicate (length (part_infos s)) Op_kFaulted\<rparr>)) (\<lambda>_.
       rt_finally
         (rt_bind (rt_modify (\<lambda>s. s\<lparr>current_robot_status :=
             Some \<lparr>wall_time = wall, timestamp_control = t, cycle = current_cycle,
                   robot_status = \<lparr>part_statuses = [], rs_safety_status = current_safety_status s\<rparr>,
                   part_contexts = []\<rparr>\<rparr>)) (\<lambda>_.
          rt_bind (rt_gets (\<lambda>s. length (part_infos s))) (\<lambda>n.
          rt_bind (rt_for [0..<n] (begin_cycle_part E t)) (\<lambda>_.
            rt_gets (\<lambda>s. robot_status (the (current_robot_status s)))))))
         (\<lambda>s. s\<lparr>part_states_buffer := part_states_free s\<rparr>)))"

definition MarkPartAsControlledByAction ::
  "nat \<Rightarrow> int \<Rightarrow> (('w, 'ps, 'z) rt_sys_scheme, unit) rt" where
  "MarkPartAsControlledByAction part_index action_id =
     rt_bind (rt_gets part_infos) (\<lambda>ps.
     if length ps \<le> part_index then rt_fail (Error InvalidArgument)
     else if controlled_by (ps ! part_index) \<noteq> None then rt_fail (Error FailedPrecondition)
     else rt_modify (upd_part part_index
            (\<lambda>p. p\<lparr>controlled_by := Some action_id, safety_action_active := False\<rparr>)))"

definition UnmarkPartAsControlledByAction :: "nat \<Rightarrow> (('w, 'ps, 'z) rt_sys_scheme, unit) rt" where
  "UnmarkPartAsControlledByAction part_index =
     rt_bind (rt_gets part_infos) (\<lambda>ps.
     if length ps \<le> part_index then rt_fail (Error InvalidArgument)
     else rt_modify (upd_part part_index (\<lambda>p. p\<lparr>controlled_by := None\<rparr>)))"

definition SetPartContext :: "nat \<Rightarrow> log_context \<Rightarrow> (('w, 'ps, 'z) rt_sys_scheme, unit) rt" where
  "SetPartContext part_index c =
     rt_bind (rt_gets part_infos) (\<lambda>ps.
     if length ps \<le> part_index then rt_fail (Error OutOfRange)
     else rt_modify (upd_part part_index (\<lambda>p. p\<lparr>part_context := c\<rparr>)))"

text \<open>The safety action of part \<open>i\<close>: its object is dereferenced without a check.\<close>

definition safety_action_handle :: "nat \<Rightarrow> (('w, 'ps, 'z) rt_sys_scheme, nat) rt" where
  "safety_action_handle i =
     rt_lift_st (\<lambda>s. case ai_action (safety_action (part_infos s ! i)) of
                       None \<Rightarrow> Inl Undefined | Some a \<Rightarrow> Inr a)"

definition upd_safety_io ::
  "nat \<Rightarrow> (streaming_io_storage \<Rightarrow> streaming_io_storage) \<Rightarrow> (('w, 'ps, 'z) rt_sys_scheme, unit) rt" where
  "upd_safety_io i f = rt_modify (upd_part i (\<lambda>p. p\<lparr>safety_action :=
     (safety_action p)\<lparr>streaming_io_storage := f (streaming_io_storage (safety_action p))\<rparr>\<rparr>))"

definition EnterSafetyActionIfRequired ::
  "('w, 'ps) plugins \<Rightarrow> slot_map \<Rightarrow> nat \<Rightarrow> (('w, 'ps, 'z) rt_sys_scheme, unit) rt" where
  "EnterSafetyActionIfRequired E sm i =
     rt_bind (rt_gets (\<lambda>s. part_infos s ! i)) (\<lambda>p.
     if controlled_by p \<noteq> None then rt_return ()
     else if safety_action_active p then rt_return ()
     else
       rt_bind (upd_safety_io i ResetRealtimeStreamingIoStorage) (\<lambda>_.
       rt_bind (safety_action_handle i) (\<lambda>a.
       rt_bind (world_call (OnEnter E a sm kSafetySpeedOverride kSafetyBehaviorOverride))
         (\<lambda>(on_enter_status, violations).
       if 0 < violations then rt_fail (Error ResourceExhausted)
       else
         rt_bind (rt_modify (upd_part i (\<lambda>p. p\<lparr>safety_action_active := on_enter_status = OkStatus\<rparr>)))
           (\<lambda>_. rt_check on_enter_status)))))"

datatype safety_action_status = SA_kUnknown | SA_kNotRequired | SA_kRunning | SA_kDone

definition RunSafetyActionIfRequired ::
  "('w, 'ps) plugins \<Rightarrow> nat \<Rightarrow> (('w, 'ps, 'z) rt_sys_scheme, safety_action_status) rt" where
  "RunSafetyActionIfRequired E i =
     rt_bind (rt_gets (\<lambda>s. visibility_by_slot_id (safety_action (part_infos s ! i)))) (\<lambda>vis.
     rt_bind (GetSlotMapForAction vis) (\<lambda>sm.
     rt_bind (EnterSafetyActionIfRequired E sm i) (\<lambda>_.
     rt_bind (rt_gets (\<lambda>s. part_infos s ! i)) (\<lambda>p.
     if \<not> safety_action_active p then rt_return SA_kNotRequired
     else
       rt_bind (safety_action_handle i) (\<lambda>a.
       rt_bind (world_call (Sense E a sm (streaming_io_storage (safety_action p))
                  (signal_values (safety_action p)) kSafetySpeedOverride kSafetyBehaviorOverride))
         (\<lambda>(sense_status, _, io).
       rt_bind (upd_safety_io i (\<lambda>_. io)) (\<lambda>_.
       rt_bind (rt_check sense_status) (\<lambda>_.
       rt_bind (world_call (Control E a sm kSafetySpeedOverride kSafetyBehaviorOverride))
         (\<lambda>(control_status, _).
       rt_bind (rt_check control_status) (\<lambda>_.
       rt_bind (rt_lift_st (\<lambda>s. GetStateVariable E a (world s) kIsDone)) (\<lambda>is_done.
         (case is_done of
            BoolV b \<Rightarrow> rt_return (if b then SA_kDone else SA_kRunning)
          | _ \<Rightarrow> rt_fail (Error Internal)))))))))))))"

text \<open>The context a part is published with.\<close>

definition published_context :: "part_info \<Rightarrow> log_context" where
  "published_context p =
     (case controlled_by p of
        None \<Rightarrow> part_context p
      | Some a \<Rightarrow> (part_context p)\<lparr>icon_action_id := Some a\<rparr>)"

text \<open>The body of the loop over the parts; the accumulator is \<^verbatim>\<open>action_status\<close> and
  \<^verbatim>\<open>all_active_safety_actions_done\<close>.\<close>

definition finish_cycle_part ::
  "('w, 'ps) plugins \<Rightarrow> nat \<Rightarrow> rt_status \<times> bool \<Rightarrow> (('w, 'ps, 'z) rt_sys_scheme, rt_status \<times> bool) rt" where
  "finish_cycle_part E i acc =
     rt_bind (rt_lift_st (\<lambda>s. GetOperationalStatus E i (world s))) (\<lambda>part_status.
     if ToOperationalState (ros_state part_status) \<noteq> Op_kEnabled then
       rt_bind (rt_modify (upd_part i
          (\<lambda>p. p\<lparr>safety_action_active := False, controlled_by := None\<rparr>))) (\<lambda>_. rt_return acc)
     else
       rt_bind (rt_try (RunSafetyActionIfRequired E i)) (\<lambda>r.
         case r of
           Inl e \<Rightarrow> rt_return (e, False)
         | Inr st \<Rightarrow>
             if st = SA_kNotRequired \<or> st = SA_kDone then rt_return acc
             else rt_return (fst acc, False)))"

fun finish_cycle_loop ::
  "('w, 'ps) plugins \<Rightarrow> nat list \<Rightarrow> rt_status \<times> bool \<Rightarrow> (('w, 'ps, 'z) rt_sys_scheme, rt_status \<times> bool) rt" where
  "finish_cycle_loop E [] acc = rt_return acc"
| "finish_cycle_loop E (i # is) acc =
     rt_bind (finish_cycle_part E i acc) (finish_cycle_loop E is)"

fun apply_commands ::
  "('w, 'ps) plugins \<Rightarrow> nat list \<Rightarrow> rt_status \<Rightarrow> (('w, 'ps, 'z) rt_sys_scheme, rt_status) rt" where
  "apply_commands E [] st = rt_return st"
| "apply_commands E (i # is) st =
     rt_bind (check_properties i) (\<lambda>_.
     rt_bind (world_call (ApplyCommand E i)) (\<lambda>r.
       if crash r then rt_fail r else apply_commands E is (OverwriteIfError st r)))"

text \<open>One context per part; the vector starts empty in every cycle and there are at most 8 parts, so
  its capacity is not reached.\<close>

definition push_contexts :: "(('w, 'ps, 'z) rt_sys_scheme, unit) rt" where
  "push_contexts =
     rt_modify (\<lambda>s. s\<lparr>current_robot_status := map_option
        (\<lambda>out. out\<lparr>part_contexts := part_contexts out @ map published_context (part_infos s)\<rparr>)
        (current_robot_status s)\<rparr>)"

text \<open>Publishing the status: a full queue drops it, the buffer always takes it.\<close>

definition publish_status :: "(('w, 'ps, 'z) rt_sys_scheme, unit) rt" where
  "publish_status =
     rt_modify (\<lambda>s. case current_robot_status s of
        None \<Rightarrow> s
      | Some out \<Rightarrow> s\<lparr>robot_status_queue :=
            (if length (robot_status_queue s) < robot_status_queue_capacity s
             then robot_status_queue s @ [out] else robot_status_queue s),
          robot_status_buffer := Some out, current_robot_status := None\<rparr>)"

definition FinishCycle :: "('w, 'ps) plugins \<Rightarrow> (('w, 'ps, 'z) rt_sys_scheme, unit) rt" where
  "FinishCycle E =
     rt_finally
       (rt_bind (rt_gets (\<lambda>s. cycle_start s = None)) (\<lambda>not_started.
        if not_started then rt_fail (Error FailedPrecondition)
        else rt_bind (rt_gets (\<lambda>s. current_robot_status s = None)) (\<lambda>unset.
        if unset then rt_fail (Error Internal)
        else
          rt_bind push_contexts (\<lambda>_.
          rt_bind publish_status (\<lambda>_.
          rt_bind (rt_gets (\<lambda>s. length (part_infos s))) (\<lambda>n.
          rt_bind (finish_cycle_loop E [0..<n] (OkStatus, True)) (\<lambda>(action_status, all_done).
          rt_bind (rt_modify (\<lambda>s. s\<lparr>pause_transitions := \<not> all_done\<rparr>)) (\<lambda>_.
          rt_bind (apply_commands E [0..<n] OkStatus) (\<lambda>part_error_status.
          rt_bind (rt_modify (\<lambda>s. s\<lparr>properties_in_use := False\<rparr>)) (\<lambda>_.
            if action_status \<noteq> OkStatus then rt_fail (Error Internal)
            else rt_check part_error_status))))))))))
       (\<lambda>s. s\<lparr>cycle_start := None\<rparr>)"

definition GetPartState ::
  "('w, 'ps) plugins \<Rightarrow> nat \<Rightarrow> (('w, 'ps, 'z) rt_sys_scheme, rt_operational_status) rt" where
  "GetPartState E part_index =
     rt_lift_st (\<lambda>s. if length (part_infos s) \<le> part_index then Inl (Error OutOfRange)
                     else GetOperationalStatus E part_index (world s))"

definition GetPartName :: "('w, 'ps, 'z) rt_sys_scheme \<Rightarrow> nat \<Rightarrow> string option" where
  "GetPartName s part_index =
     (if length (part_infos s) \<le> part_index then None else Some (part_name (part_infos s ! part_index)))"

definition GetHardwareDependencies ::
  "('w, 'ps) plugins \<Rightarrow> nat \<Rightarrow> (('w, 'ps, 'z) rt_sys_scheme, hardware_group_set) rt" where
  "GetHardwareDependencies E part_index =
     rt_lift_st (\<lambda>s. if length (part_infos s) \<le> part_index then Inl (Error OutOfRange)
                     else HardwareDependencies E part_index (world s))"

text \<open>No range check here: the callers pass indices of existing parts.\<close>

definition CheckUnfinishedSafetyAction ::
  "('w, 'ps) plugins \<Rightarrow> nat \<Rightarrow> (('w, 'ps, 'z) rt_sys_scheme, unit) rt" where
  "CheckUnfinishedSafetyAction E part_index =
     rt_fn (rt_bind (rt_gets part_infos) (\<lambda>ps.
     if length ps \<le> part_index then rt_fail Undefined
     else if \<not> safety_action_active (ps ! part_index) then rt_return ()
     else
       rt_bind (safety_action_handle part_index) (\<lambda>a.
       rt_bind (rt_lift_st (\<lambda>s. GetStateVariable E a (world s) kIsDone)) (\<lambda>is_done.
         case is_done of
           BoolV b \<Rightarrow> if \<not> b then rt_fail (Error Unavailable) else rt_return ()
         | _ \<Rightarrow> rt_fail (Error Internal)))))"

definition SetSafetyStatus :: "safety_status \<Rightarrow> (('w, 'ps, 'z) rt_sys_scheme, unit) rt" where
  "SetSafetyStatus st = rt_modify (\<lambda>s. s\<lparr>current_safety_status := st\<rparr>)"

definition MakePartInfoArray :: "(string \<times> action_instance) list \<Rightarrow> part_info list" where
  "MakePartInfoArray parts_and_safety_actions =
     map (\<lambda>(name, a). \<lparr>part_name = name, safety_action = a, controlled_by = None,
        safety_action_active = False, part_context = empty_context\<rparr>) parts_and_safety_actions"

section \<open>Effects on the parts\<close>

lemma length_upd_part [simp]: "length (part_infos (upd_part i f s)) = length (part_infos s)"
  by (simp add: upd_part_def)

lemma part_infos_upd_part:
  "i < length (part_infos s) \<Longrightarrow> j < length (part_infos s) \<Longrightarrow>
   part_infos (upd_part i f s) ! j = (if i = j then f (part_infos s ! j) else part_infos s ! j)"
  by (simp add: upd_part_def nth_list_update)

lemma upd_part_other [simp]:
  "world (upd_part i f s) = world s" "cycle_start (upd_part i f s) = cycle_start s"
  by (simp_all add: upd_part_def)

text \<open>What an operation on part \<open>i\<close> may change: that part only, and there the relation \<open>R\<close> holds
  between the part before and after.\<close>

definition only_part ::
  "nat \<Rightarrow> (part_info \<Rightarrow> part_info \<Rightarrow> bool) \<Rightarrow> ('w, 'ps, 'z) rt_sys_scheme \<Rightarrow>
   ('w, 'ps, 'z) rt_sys_scheme \<Rightarrow> bool" where
  "only_part i R s t \<longleftrightarrow> length (part_infos t) = length (part_infos s) \<and>
     (\<forall>j < length (part_infos s). j \<noteq> i \<longrightarrow> part_infos t ! j = part_infos s ! j) \<and>
     R (part_infos s ! i) (part_infos t ! i)"

lemma only_part_refl: "(\<And>p. R p p) \<Longrightarrow> part_infos t = part_infos s \<Longrightarrow> only_part i R s t"
  by (simp add: only_part_def)

lemma only_part_upd:
  "i < length (part_infos s) \<Longrightarrow> R (part_infos s ! i) (f (part_infos s ! i)) \<Longrightarrow>
   only_part i R s (upd_part i f s)"
  by (simp add: only_part_def part_infos_upd_part)

definition same_control :: "part_info \<Rightarrow> part_info \<Rightarrow> bool" where
  "same_control p q \<longleftrightarrow> controlled_by q = controlled_by p \<and>
     (controlled_by p \<noteq> None \<longrightarrow> safety_action_active q = safety_action_active p)"

lemma Enter_effect:
  assumes "EnterSafetyActionIfRequired E sm i s = (r, t)" "i < length (part_infos s)"
  shows "only_part i same_control s t \<and>
    (r = Inr () \<longrightarrow> controlled_by (part_infos s ! i) = None \<longrightarrow> safety_action_active (part_infos t ! i))"
  using assms
  by (auto simp: EnterSafetyActionIfRequired_def upd_safety_io_def safety_action_handle_def
      world_call_def rt_defs only_part_def same_control_def upd_part_def nth_list_update
      split: if_splits option.splits prod.splits sum.splits)

lemma Run_effect:
  assumes "RunSafetyActionIfRequired E i s = (r, t)" "i < length (part_infos s)"
  shows "only_part i same_control s t \<and>
    (\<forall>st. r = Inr st \<longrightarrow> controlled_by (part_infos s ! i) = None \<longrightarrow> safety_action_active (part_infos t ! i))"
proof (cases "visibility_by_slot_id (safety_action (part_infos s ! i))")
  case None
  then show ?thesis using assms(1)
    by (auto simp: RunSafetyActionIfRequired_def GetSlotMapForAction_def rt_defs only_part_def same_control_def)
next
  case (Some vs)
  define sm where "sm = GetRegistryForSlot vs (length (part_infos s))"
  obtain r1 s1 where en: "EnterSafetyActionIfRequired E sm i s = (r1, s1)" by fastforce
  note e = Enter_effect[OF en assms(2)]
  show ?thesis
  proof (cases r1)
    case (Inl x)
    then show ?thesis using assms(1) Some e en
      by (auto simp: RunSafetyActionIfRequired_def GetSlotMapForAction_def rt_defs sm_def)
  next
    case (Inr u)
    then show ?thesis using assms Some e en
      by (auto simp: RunSafetyActionIfRequired_def GetSlotMapForAction_def upd_safety_io_def
          safety_action_handle_def world_call_def rt_defs only_part_def same_control_def upd_part_def
          nth_list_update sm_def[symmetric]
          split: if_splits option.splits prod.splits sum.splits state_value.splits)
  qed
qed

text \<open>What the cycle guarantees for a part, given its operational status: an enabled part keeps its
  controller, and without one its safety action is active; a part that is not enabled has neither.\<close>

definition part_settled :: "rt_operational_status status_or \<Rightarrow> part_info \<Rightarrow> part_info \<Rightarrow> bool" where
  "part_settled st p q =
     (case st of
        Inl e \<Rightarrow> False
      | Inr x \<Rightarrow>
          if ros_state x = Rt_kEnabled
          then controlled_by q = controlled_by p \<and> (controlled_by p = None \<longrightarrow> safety_action_active q)
          else controlled_by q = None \<and> \<not> safety_action_active q)"

lemma ToOperationalState_enabled [simp]: "ToOperationalState s = Op_kEnabled \<longleftrightarrow> s = Rt_kEnabled"
  by (cases s) auto

definition any_part :: "part_info \<Rightarrow> part_info \<Rightarrow> bool" where "any_part p q = True"

lemma Run_proper:
  assumes "\<And>a w. GetStateVariable E a w kIsDone \<noteq> Inl OkStatus"
  shows "fst (RunSafetyActionIfRequired E i s) \<noteq> Inl OkStatus"
  using assms
  by (auto simp: RunSafetyActionIfRequired_def EnterSafetyActionIfRequired_def GetSlotMapForAction_def
      upd_safety_io_def safety_action_handle_def world_call_def rt_defs
      split: if_splits option.splits prod.splits sum.splits state_value.splits)

lemma only_part_mono: "only_part i R s t \<Longrightarrow> (\<And>p q. R p q \<Longrightarrow> R' p q) \<Longrightarrow> only_part i R' s t"
  by (auto simp: only_part_def)

lemma finish_part_effect:
  assumes "finish_cycle_part E i acc s = (r, t)" "i < length (part_infos s)"
    and proper: "\<And>a w. GetStateVariable E a w kIsDone \<noteq> Inl OkStatus"
  shows "only_part i any_part s t \<and>
    (\<forall>e d. r = Inr (e, d) \<longrightarrow> e = OkStatus \<longrightarrow> fst acc = OkStatus \<and>
       part_settled (GetOperationalStatus E i (world s)) (part_infos s ! i) (part_infos t ! i))"
proof -
  obtain r1 s1 where run: "RunSafetyActionIfRequired E i s = (r1, s1)" by fastforce
  have p: "r1 \<noteq> Inl OkStatus" using Run_proper[OF proper, of i s] run by simp
  from Run_effect[OF run assms(2)]
  have "only_part i any_part s s1" "controlled_by (part_infos s1 ! i) = controlled_by (part_infos s ! i)"
    "\<forall>st. r1 = Inr st \<longrightarrow> controlled_by (part_infos s ! i) = None \<longrightarrow> safety_action_active (part_infos s1 ! i)"
    by (auto simp: only_part_def any_part_def same_control_def)
  with p assms(1,2) run show ?thesis
    by (cases acc)
       (auto simp: finish_cycle_part_def rt_defs part_settled_def only_part_def any_part_def upd_part_def
         split: if_splits sum.splits)
qed

lemma finish_loop_effect:
  assumes "finish_cycle_loop E is acc s = (r, t)" "distinct is" "set is \<subseteq> {..<length (part_infos s)}"
    and proper: "\<And>a w. GetStateVariable E a w kIsDone \<noteq> Inl OkStatus"
    and stable: "\<And>j w. GetOperationalStatus E j w = op j"
  shows "length (part_infos t) = length (part_infos s) \<and>
    (\<forall>j < length (part_infos s). j \<notin> set is \<longrightarrow> part_infos t ! j = part_infos s ! j) \<and>
    (\<forall>d. r = Inr (OkStatus, d) \<longrightarrow> fst acc = OkStatus \<and>
       (\<forall>j \<in> set is. part_settled (op j) (part_infos s ! j) (part_infos t ! j)))"
  using assms(1-3)
proof (induction "is" arbitrary: acc s)
  case (Cons i "is")
  obtain r1 s1 where p1: "finish_cycle_part E i acc s = (r1, s1)" by fastforce
  have i: "i < length (part_infos s)" using Cons(4) by simp
  note e1 = finish_part_effect[OF p1 i proper]
  show ?case
  proof (cases r1)
    case (Inl x)
    then show ?thesis using Cons(2) p1 e1 by (auto simp: rt_defs only_part_def)
  next
    case (Inr acc1)
    then have rest: "finish_cycle_loop E is acc1 s1 = (r, t)" using Cons(2) p1 by (simp add: rt_defs)
    have "set is \<subseteq> {..<length (part_infos s1)}" using Cons(4) e1 by (auto simp: only_part_def)
    note e2 = Cons(1)[OF rest _ this]
    obtain e d where acc1: "acc1 = (e, d)" by fastforce
    show ?thesis using e1 e2 Cons(3,4) Inr acc1 stable[of i "world s"] by (fastforce simp: only_part_def)
  qed
qed (auto simp: rt_defs)

lemma finish_loop_end:
  assumes "finish_cycle_loop E [0..<length (part_infos s)] (OkStatus, True) s = (Inr (OkStatus, d), t)"
    and "\<And>a w. GetStateVariable E a w kIsDone \<noteq> Inl OkStatus" "\<And>j w. GetOperationalStatus E j w = op j"
  shows "length (part_infos t) = length (part_infos s)"
    "j < length (part_infos s) \<Longrightarrow> part_settled (op j) (part_infos s ! j) (part_infos t ! j)"
proof -
  have "distinct [0..<length (part_infos s)]"
    "set [0..<length (part_infos s)] \<subseteq> {..<length (part_infos s)}" by auto
  note e = finish_loop_effect[OF assms(1) this assms(2,3)]
  show "length (part_infos t) = length (part_infos s)" using e by blast
  show "part_settled (op j) (part_infos s ! j) (part_infos t ! j)" if "j < length (part_infos s)"
    using e that by auto
qed

lemma apply_commands_parts: "part_infos (snd (apply_commands E is st s)) = part_infos s"
  by (induction "is" arbitrary: st s)
     (auto simp: rt_defs world_call_def check_properties_def split: prod.splits sum.splits)

lemma pause_transitions_apply: "pause_transitions (snd (apply_commands E is st s)) = pause_transitions s"
  by (induction "is" arbitrary: st s)
     (auto simp: rt_defs world_call_def check_properties_def split: prod.splits sum.splits)

lemma FinishCycle_phases:
  fixes s t :: "('w, 'ps, 'z) rt_sys_scheme"
  assumes "FinishCycle E s = (Inr (), t)"
  obtains s1 s2 :: "('w, 'ps, 'z) rt_sys_scheme" and d where "part_infos s1 = part_infos s"
    "finish_cycle_loop E [0..<length (part_infos s1)] (OkStatus, True) s1 = (Inr (OkStatus, d), s2)"
    "part_infos t = part_infos s2" "pause_transitions t = (\<not> d)" "cycle_start t = None"
proof -
  have pub: "part_infos u = part_infos v" if "push_contexts v = (Inr (), w)" "publish_status w = (Inr (), u)"
    for u v w :: "('w, 'ps, 'z) rt_sys_scheme"
    using that by (auto simp: push_contexts_def publish_status_def rt_Inr_iff split: option.splits)
  from assms obtain w u d s2 pe s4 where
    "push_contexts s = (Inr (), w)" "publish_status w = (Inr (), u)" and
    loop: "finish_cycle_loop E [0..<length (part_infos u)] (OkStatus, True) u = (Inr (OkStatus, d), s2)" and
    app: "apply_commands E [0..<length (part_infos u)] OkStatus (s2\<lparr>pause_transitions := \<not> d\<rparr>) = (Inr pe, s4)"
    and t: "t = s4\<lparr>properties_in_use := False, cycle_start := None\<rparr>"
    by (auto simp: FinishCycle_def rt_Inr_iff split: if_splits)
  then have u: "part_infos u = part_infos s" by (blast intro: pub)
  have "part_infos t = part_infos s2" "pause_transitions t = (\<not> d)" "cycle_start t = None"
    using app apply_commands_parts[of E "[0..<length (part_infos u)]" OkStatus "s2\<lparr>pause_transitions := \<not> d\<rparr>"]
      pause_transitions_apply[of E "[0..<length (part_infos u)]" OkStatus "s2\<lparr>pause_transitions := \<not> d\<rparr>"]
    by (simp_all add: t)
  then show ?thesis by (rule that[OF u loop])
qed

lemma FinishCycle_settles:
  assumes "FinishCycle E s = (Inr (), t)"
    and "\<And>a w. GetStateVariable E a w kIsDone \<noteq> Inl OkStatus"
    and "\<And>j w. GetOperationalStatus E j w = op j"
  shows "length (part_infos t) = length (part_infos s)"
    and "j < length (part_infos s) \<Longrightarrow> part_settled (op j) (part_infos s ! j) (part_infos t ! j)"
proof -
  from assms(1) obtain s1 s2 :: "('a, 'b, 'c) rt_sys_scheme" and d where
    p: "part_infos s1 = part_infos s"
    "finish_cycle_loop E [0..<length (part_infos s1)] (OkStatus, True) s1 = (Inr (OkStatus, d), s2)"
    "part_infos t = part_infos s2"
    by (rule FinishCycle_phases)
  from finish_loop_end[OF p(2) assms(2,3)] p(1,3)
  show "length (part_infos t) = length (part_infos s)"
    "j < length (part_infos s) \<Longrightarrow> part_settled (op j) (part_infos s ! j) (part_infos t ! j)" by simp_all
qed

section \<open>Exclusive control\<close>

text \<open>No part is at once controlled by an action and by its safety action.\<close>

definition exclusive_control :: "part_info \<Rightarrow> bool" where
  "exclusive_control p \<longleftrightarrow> controlled_by p = None \<or> \<not> safety_action_active p"

definition pm_inv :: "('w, 'ps, 'z) rt_sys_scheme \<Rightarrow> bool" where
  "pm_inv s \<longleftrightarrow> (\<forall>p \<in> set (part_infos s). exclusive_control p)"

lemma pm_inv_same_parts: "part_infos t = part_infos s \<Longrightarrow> pm_inv t = pm_inv s"
  by (simp add: pm_inv_def)

lemma pm_inv_only_part:
  assumes "pm_inv s" "only_part i (\<lambda>p q. exclusive_control p \<longrightarrow> exclusive_control q) s t"
  shows "pm_inv t"
  using assms unfolding pm_inv_def only_part_def by (metis in_set_conv_nth)

lemma pm_inv_upd_part:
  assumes "\<And>p. exclusive_control p \<Longrightarrow> exclusive_control (f p)" "pm_inv s"
  shows "pm_inv (upd_part i f s)"
proof (cases "i < length (part_infos s)")
  case True
  then show ?thesis using assms by (intro pm_inv_only_part[OF assms(2), of i] only_part_upd) auto
next
  case False
  then show ?thesis using assms(2) by (simp add: upd_part_def pm_inv_def list_update_beyond)
qed

lemma pm_inv_modify [rt_rules]:
  "(\<And>s. part_infos (g s) = part_infos s) \<Longrightarrow> rt_inv pm_inv (rt_modify g)"
  by (rule rt_spec_modify) (simp add: pm_inv_def)

lemma pm_inv_modify_part [rt_rules]:
  "(\<And>p. exclusive_control p \<Longrightarrow> exclusive_control (f p)) \<Longrightarrow> rt_inv pm_inv (rt_modify (upd_part i f))"
  by (rule rt_spec_modify) (rule pm_inv_upd_part)

lemma pm_inv_world_call [rt_rules]: "rt_inv pm_inv (world_call f)"
  by (auto simp: rt_spec_def world_call_def pm_inv_def split: prod.splits)

definition pm_sized :: "nat \<Rightarrow> ('w, 'ps, 'z) rt_sys_scheme \<Rightarrow> bool" where
  "pm_sized n s \<longleftrightarrow> pm_inv s \<and> length (part_infos s) = n"

lemma pm_sized_Run:
  assumes "i < n"
  shows "rt_inv (pm_sized n) (RunSafetyActionIfRequired E i)"
proof -
  have "pm_sized n t" if "pm_sized n s" "RunSafetyActionIfRequired E i s = (r, t)" for s t r
  proof -
    have op: "only_part i same_control s t"
      using Run_effect[OF that(2)] assms that(1) by (simp add: pm_sized_def)
    then have "only_part i (\<lambda>p q. exclusive_control p \<longrightarrow> exclusive_control q) s t"
      by (rule only_part_mono) (auto simp: same_control_def exclusive_control_def)
    then show ?thesis using that(1) op pm_inv_only_part[of s i t]
      by (auto simp: pm_sized_def only_part_def)
  qed
  then show ?thesis by (blast intro: rt_specI)
qed

lemma pm_sized_modify [rt_rules]:
  "(\<And>s. part_infos (g s) = part_infos s) \<Longrightarrow> rt_inv (pm_sized n) (rt_modify g)"
  by (rule rt_spec_modify) (simp add: pm_sized_def pm_inv_def)

lemma pm_sized_modify_part [rt_rules]:
  "(\<And>p. exclusive_control p \<Longrightarrow> exclusive_control (f p)) \<Longrightarrow> rt_inv (pm_sized n) (rt_modify (upd_part i f))"
  by (rule rt_spec_modify) (simp add: pm_sized_def pm_inv_upd_part)

lemma pm_sized_world_call [rt_rules]: "rt_inv (pm_sized n) (world_call f)"
  by (auto simp: rt_spec_def world_call_def pm_sized_def pm_inv_def split: prod.splits)

lemma pm_sized_finish_part: "i < n \<Longrightarrow> rt_inv (pm_sized n) (finish_cycle_part E i acc)"
  unfolding finish_cycle_part_def
  by (intro rt_rules pm_sized_Run) (auto simp: exclusive_control_def)

lemma pm_sized_finish_loop: "set is \<subseteq> {..<n} \<Longrightarrow> rt_inv (pm_sized n) (finish_cycle_loop E is acc)"
  by (induction "is" arbitrary: acc) (auto intro!: rt_rules pm_sized_finish_part)

lemma pm_sized_apply: "rt_inv (pm_sized n) (apply_commands E is st)"
  by (induction "is" arbitrary: st) (auto simp: check_properties_def intro!: rt_rules)

lemma pm_inv_Mark: "rt_inv pm_inv (MarkPartAsControlledByAction i a)"
  unfolding MarkPartAsControlledByAction_def by (intro rt_rules) (simp add: exclusive_control_def)

lemma pm_inv_Unmark: "rt_inv pm_inv (UnmarkPartAsControlledByAction i)"
  unfolding UnmarkPartAsControlledByAction_def by (intro rt_rules) (simp add: exclusive_control_def)

lemma pm_inv_SetPartContext: "rt_inv pm_inv (SetPartContext i c)"
  unfolding SetPartContext_def by (intro rt_rules) (simp add: exclusive_control_def)

lemma pm_inv_Begin: "rt_inv pm_inv (BeginCycle E t wall c)"
  unfolding BeginCycle_def begin_cycle_part_def push_part_status_def check_properties_def
  by (intro rt_rules rt_inv_finally) (auto simp: exclusive_control_def pm_inv_def)

lemma pm_inv_sizedI: "(\<And>n. rt_inv (pm_sized n) m) \<Longrightarrow> rt_inv pm_inv m"
  by (fastforce simp: rt_spec_def pm_sized_def split: prod.splits sum.splits)

lemma pm_sized_gets_length:
  "rt_inv (pm_sized n) (f n) \<Longrightarrow> rt_inv (pm_sized n) (rt_bind (rt_gets (\<lambda>s. length (part_infos s))) f)"
  by (auto simp: rt_spec_def rt_defs pm_sized_def)

lemma pm_sized_finally_part:
  "rt_inv (pm_sized n) m \<Longrightarrow> (\<And>s. part_infos (g s) = part_infos s) \<Longrightarrow> rt_inv (pm_sized n) (rt_finally m g)"
  by (rule rt_inv_finally) (auto simp: pm_sized_def pm_inv_def)

lemma pm_inv_Finish: "rt_inv pm_inv (FinishCycle E)"
  unfolding FinishCycle_def push_contexts_def publish_status_def
  by (intro pm_inv_sizedI pm_sized_finally_part pm_sized_gets_length pm_sized_finish_loop pm_sized_apply
      rt_rules) (auto split: option.splits)

section \<open>Properties\<close>

text \<open>No operation of the part manager ever leaves a part under the control of an
  action and of its safety action at the same time, whatever the plug-ins do and whether the operation
  succeeds or fails.\<close>

theorem exclusive_control_invariant:
  assumes "pm_inv s"
  shows "pm_inv (snd (BeginCycle E t wall c s)) \<and> pm_inv (snd (FinishCycle E s)) \<and>
    pm_inv (snd (MarkPartAsControlledByAction i a s)) \<and>
    pm_inv (snd (UnmarkPartAsControlledByAction i s)) \<and> pm_inv (snd (SetPartContext i ctx s))"
  using assms by (simp add: rt_invD pm_inv_Begin pm_inv_Finish pm_inv_Mark pm_inv_Unmark pm_inv_SetPartContext)

text \<open>Sample plug-ins and a sample state: two enabled parts, an action that always succeeds.\<close>

definition sample_plugins :: "(nat, nat) plugins" where
  "sample_plugins = \<lparr>OnEnter = \<lambda>a sm sp ov w. ((OkStatus, 0), w + 1),
     Sense = \<lambda>a sm io sig sp ov w. ((OkStatus, 0, io), w + 1),
     Control = \<lambda>a sm sp ov w. ((OkStatus, 0), w + 1),
     GetStateVariable = \<lambda>a w n. Inr (BoolV True),
     ReadStatus = \<lambda>i w. (OkStatus, w),
     GetOperationalStatus = \<lambda>i w. Inr \<lparr>ros_state = Rt_kEnabled, ros_fault_reason = []\<rparr>,
     ApplyCommand = \<lambda>i w. (OkStatus, w),
     HardwareDependencies = \<lambda>i w. Inr \<lparr>operational_hardware = True, cell_control_hardware = False\<rparr>,
     ExtractRealtimePartStatus = \<lambda>i t st w. i\<rparr>"

definition sample_sys :: "(nat, nat) rt_sys" where
  "sample_sys = \<lparr>world = 0, cycle_start = Some 5, part_states_buffer = [], part_states_free = [],
     part_infos = (MakePartInfoArray [(''arm'', sample_instance 8 [True, False]),
        (''gripper'', sample_instance 9 [False, True])])
        [1 := \<lparr>part_name = ''gripper'', safety_action = sample_instance 9 [False, True],
           controlled_by = Some 3, safety_action_active = False, part_context = empty_context\<rparr>],
     property_entries = 2, properties_in_use = True,
     current_robot_status = Some \<lparr>wall_time = 0, timestamp_control = 5, cycle = 1,
        robot_status = \<lparr>part_statuses = [0, 1], rs_safety_status = \<lparr>mode_of_safe_operation = MSO_AUTOMATIC,
          estop_button_status = BS_DISENGAGED, enable_button_status = BS_UNKNOWN,
          requested_behavior = RB_NORMAL_OPERATION\<rparr>\<rparr>, part_contexts = []\<rparr>,
     robot_status_queue = [], robot_status_queue_capacity = 4, robot_status_buffer = None,
     current_safety_status = \<lparr>mode_of_safe_operation = MSO_AUTOMATIC,
          estop_button_status = BS_DISENGAGED, enable_button_status = BS_UNKNOWN,
          requested_behavior = RB_NORMAL_OPERATION\<rparr>,
     pause_transitions = True\<rparr>"

theorem exclusive_control_invariant_witness: "pm_inv (snd (FinishCycle sample_plugins sample_sys))"
proof -
  have "pm_inv sample_sys"
    by (simp add: pm_inv_def sample_sys_def exclusive_control_def MakePartInfoArray_def)
  from exclusive_control_invariant[OF this] show ?thesis by blast
qed

text \<open>C2 (safety). After a cycle that finished successfully, every enabled part is controlled by the
  action that a session marked it with, or else its safety action is active; parts that are not enabled
  have neither. The operational status is assumed not to change while the cycle finishes, and the
  \<^verbatim>\<open>is_done\<close> variable of an action to be a value or an error.\<close>

theorem no_uncontrolled_part:
  assumes "FinishCycle E s = (Inr (), t)"
    and "\<And>a w. GetStateVariable E a w kIsDone \<noteq> Inl OkStatus"
    and "\<And>j w. GetOperationalStatus E j w = op j"
    and "j < length (part_infos s)"
  shows "part_settled (op j) (part_infos s ! j) (part_infos t ! j)"
  by (rule FinishCycle_settles(2)[OF assms])

theorem no_uncontrolled_part_witness:
  "part_settled (Inr \<lparr>ros_state = Rt_kEnabled, ros_fault_reason = []\<rparr>) (part_infos sample_sys ! 0)
     (part_infos (snd (FinishCycle sample_plugins sample_sys)) ! 0)"
proof -
  have "fst (FinishCycle sample_plugins sample_sys) = Inr ()" by code_simp
  then have ok: "FinishCycle sample_plugins sample_sys = (Inr (), snd (FinishCycle sample_plugins sample_sys))"
    by (metis prod.collapse)
  show ?thesis
    by (rule no_uncontrolled_part[OF ok]) (simp_all add: sample_plugins_def sample_sys_def MakePartInfoArray_def)
qed

lemma cycle_start_begin_part: "rt_inv (\<lambda>s. cycle_start s = x) (begin_cycle_part E t i)"
  unfolding begin_cycle_part_def push_part_status_def check_properties_def
  by (intro rt_rules rt_spec_modify) (auto simp: rt_spec_def world_call_def split: prod.splits)

lemma cycle_start_Begin:
  assumes "cycle_start s = None"
  shows "cycle_start (snd (BeginCycle E t wall c s)) = Some t"
proof -
  let ?I = "\<lambda>s :: ('a, 'b, 'c) rt_sys_scheme. cycle_start s = Some t"
  have "rt_spec (\<lambda>s. cycle_start s = None) (BeginCycle E t wall c) (\<lambda>_. ?I) (\<lambda>_. ?I)"
    unfolding BeginCycle_def
    apply (rule rt_spec_bind[where R = "\<lambda>x s. x = None \<and> cycle_start s = None"])
     apply (rule rt_spec_gets, simp)
    apply (rule rt_spec_if)
     apply (rule rt_spec_fail, simp)
    apply (rule rt_spec_bind[where R = "\<lambda>_. ?I"])
     apply (rule rt_spec_modify, simp)
    apply (rule rt_spec_finally, simp)
    apply (intro rt_rules rt_spec_modify cycle_start_begin_part, simp)
    done
  then show ?thesis by (rule rt_spec_snd) (rule assms)
qed

text \<open>Cycles alternate: beginning a cycle twice is refused without any effect, a begun
  cycle stays open whatever goes wrong while reading the parts, and finishing closes it on every path.\<close>

theorem cycle_protocol:
  "cycle_start (snd (BeginCycle E t wall c s)) =
     Some (case cycle_start s of None \<Rightarrow> t | Some u \<Rightarrow> u) \<and>
   (cycle_start s = None \<or> BeginCycle E t wall c s = (Inl (Error FailedPrecondition), s)) \<and>
   cycle_start (snd (FinishCycle E s)) = None"
proof -
  have "cycle_start (snd (FinishCycle E s)) = None"
    by (simp add: FinishCycle_def rt_finally_def split: prod.splits)
  moreover have "BeginCycle E t wall c s = (Inl (Error FailedPrecondition), s)"
    if "cycle_start s \<noteq> None"
    using that by (simp add: BeginCycle_def rt_defs)
  ultimately show ?thesis using cycle_start_Begin[of s] by (cases "cycle_start s") auto
qed

text \<open>A part that is marked and unmarked in one cycle does not keep its running safety
  action: the next end of a cycle enters the safety action anew. (The header describes the opposite.)\<close>

theorem mark_unmark_restarts_safety_action:
  assumes "i < length (part_infos s)" "controlled_by (part_infos s ! i) = None"
    "safety_action_active (part_infos s ! i)"
  shows "rt_bind (MarkPartAsControlledByAction i a) (\<lambda>_. UnmarkPartAsControlledByAction i) s =
    (Inr (), upd_part i (\<lambda>p. p\<lparr>safety_action_active := False\<rparr>) s)"
  using assms
  by (cases "part_infos s ! i")
     (simp add: MarkPartAsControlledByAction_def UnmarkPartAsControlledByAction_def rt_defs upd_part_def)

theorem mark_unmark_restarts_safety_action_witness:
  "fst (rt_bind (MarkPartAsControlledByAction 0 7) (\<lambda>_. UnmarkPartAsControlledByAction 0)
     (upd_part 0 (\<lambda>p. p\<lparr>safety_action_active := True\<rparr>) sample_sys)) = Inr ()"
  using mark_unmark_restarts_safety_action
    [of 0 "upd_part 0 (\<lambda>p. p\<lparr>safety_action_active := True\<rparr>) sample_sys" 7]
  by (simp add: sample_sys_def MakePartInfoArray_def upd_part_def)


end
