(* ===== verification/Reaction_Manager.thy ===== *)
theory Reaction_Manager
  imports Part_Manager
begin

text \<open>
  \<^verbatim>\<open>intrinsic/icon/control/rtcl_reaction_manager.{h,cc}\<close>: evaluating the reactions of a
  session, notifying the non-real-time side and switching actions. The manager is a temporary object
  with pointers into the session manager; its state is the part manager's, extended by the fields that
  those pointers refer to. \<open>has_channels\<close> says that the channel pointer is set; the channels themselves
  (\<^verbatim>\<open>realtime_session_channels.h\<close>) belong to the non-real-time side.
\<close>

section \<open>State\<close>

record reaction_event =
  event_id :: int
  previous_action_id :: "int option"
  current_action_id :: "int option"

text \<open>A call of \<^verbatim>\<open>install_session_data_bridge\<close> that waits for the real-time thread:
  \<open>lock_free\<close> tells whether the caller has released the call's mutex, which \<^verbatim>\<open>TryLock\<close> needs.\<close>

record 'r install_call =
  new_session :: "'r realtime_session"
  lock_free :: bool

record 'r session_channels =
  install_calls :: "'r install_call list"
  install_results :: "rt_status list"
  bridge_closed :: bool
  finish_requested :: bool
  finish_done :: bool
  reaction_queue :: "reaction_event list"
  reaction_queue_capacity :: nat
  session_status_buffer :: rt_status

record ('w, 'ps) session_sys = "('w, 'ps) rt_sys" +
  heap :: heap
  channels :: "'ps robot_status session_channels"
  has_channels :: bool
  current_session :: "'ps robot_status realtime_session option"
  active_action_indices :: "nat option list"
  sm_session_id :: int
  session_status :: rt_status
  safety_status_message :: "safety_status option"
  part_indices :: "nat list"

text \<open>The \<^verbatim>\<open>EmptyAction\<close> that free-standing reactions are evaluated on.\<close>

definition EmptyAction_GetStateVariable :: get_state_variable where
  "EmptyAction_GetStateVariable name =
     (if name = kIsDone then Inr (BoolV True) else Inl (Error NotFound))"

section \<open>Helpers\<close>

text \<open>The loop stops at the shorter array.\<close>

definition slots_overlap :: "bool list \<Rightarrow> bool list \<Rightarrow> bool" where
  "slots_overlap v w = list_ex (\<lambda>(a, b). a \<and> b) (zip v w)"

definition ActionPairHasSlotOverlap :: "action_instance \<Rightarrow> action_instance \<Rightarrow> bool status_or" where
  "ActionPairHasSlotOverlap a b =
     (case (visibility_by_slot_id a, visibility_by_slot_id b) of
        (Some v, Some w) \<Rightarrow> Inr (slots_overlap v w)
      | _ \<Rightarrow> Inl Undefined)"

definition ReactionConditionMatches ::
  "get_state_variable \<Rightarrow> 'r realtime_reaction \<Rightarrow> 'r \<Rightarrow> bool status_or" where
  "ReactionConditionMatches get reaction r =
     (let matches_or = LookupAndEvaluate get (condition reaction) r
      in if from_action_index reaction \<noteq> None \<and> matches_or = Inl (Error Unavailable)
         then Inr False else matches_or)"

definition ShouldFire :: "'r realtime_reaction \<Rightarrow> bool \<Rightarrow> bool" where
  "ShouldFire reaction condition_matches = (\<not> fired reaction \<and> condition_matches)"

text \<open>Inserting into a full queue fails; the event is lost and the cycle goes on.\<close>

definition SendEvent ::
  "int \<Rightarrow> int option \<Rightarrow> int option \<Rightarrow> (('w, 'ps, 'z) session_sys_scheme, unit) rt" where
  "SendEvent rid cur nxt s =
     (if \<not> has_channels s then (Inl Undefined, s)
      else let c = channels s in
        if length (reaction_queue c) < reaction_queue_capacity c
        then (Inr (), s\<lparr>channels := c\<lparr>reaction_queue := reaction_queue c @
               [\<lparr>event_id = rid, previous_action_id = cur, current_action_id = nxt\<rparr>]\<rparr>\<rparr>)
        else (Inr (), s))"

definition GetSession ::
  "(('w, 'ps, 'z) session_sys_scheme, 'ps robot_status realtime_session) rt" where
  "GetSession = rt_lift_st (\<lambda>s. case current_session s of None \<Rightarrow> Inl Undefined | Some x \<Rightarrow> Inr x)"

definition GetAction :: "nat \<Rightarrow> (('w, 'ps, 'z) session_sys_scheme, addr) rt" where
  "GetAction action_index =
     rt_bind GetSession (\<lambda>session. rt_lift (GetActionFromSession session action_index))"

definition upd_reaction ::
  "nat \<Rightarrow> ('ps robot_status realtime_reaction \<Rightarrow> 'ps robot_status realtime_reaction) \<Rightarrow>
   ('w, 'ps, 'z) session_sys_scheme \<Rightarrow> ('w, 'ps, 'z) session_sys_scheme" where
  "upd_reaction i f s = s\<lparr>current_session := map_option
     (\<lambda>x. x\<lparr>reactions := (reactions x)[i := f (reactions x ! i)]\<rparr>) (current_session s)\<rparr>"

definition upd_instance ::
  "addr \<Rightarrow> (action_instance \<Rightarrow> action_instance) \<Rightarrow>
   ('w, 'ps, 'z) session_sys_scheme \<Rightarrow> ('w, 'ps, 'z) session_sys_scheme" where
  "upd_instance p f s = s\<lparr>heap := (heap s)(p := f (heap s p))\<rparr>"

definition set_active ::
  "nat \<Rightarrow> nat option \<Rightarrow> ('w, 'ps, 'z) session_sys_scheme \<Rightarrow> ('w, 'ps, 'z) session_sys_scheme" where
  "set_active k v s = s\<lparr>active_action_indices := (active_action_indices s)[k := v]\<rparr>"

text \<open>The element of a \<^verbatim>\<open>FixedArray\<close> of signals; the id is not checked against its size.\<close>

definition check_signal :: "addr \<Rightarrow> int \<Rightarrow> (('w, 'ps, 'z) session_sys_scheme, nat) rt" where
  "check_signal p sig = rt_lift_st (\<lambda>s.
     if 0 \<le> sig \<and> sig < int (length (signal_values (heap s p))) then Inr (nat sig) else Inl Undefined)"

section \<open>Evaluating one reaction\<close>

definition next_action_of ::
  "'ps robot_status realtime_reaction \<Rightarrow> (('w, 'ps, 'z) session_sys_scheme, int option) rt" where
  "next_action_of reaction =
     (case target_action_index reaction of
        None \<Rightarrow> rt_return None
      | Some t \<Rightarrow>
          rt_bind GetSession (\<lambda>session.
          if t < 0 \<or> length (actions session) \<le> size_t t then rt_fail (Error InvalidArgument)
          else case actions session ! size_t t of
            None \<Rightarrow> rt_fail (Error InvalidArgument)
          | Some p \<Rightarrow> rt_gets (\<lambda>s. Some (ai_id (heap s p)))))"

definition trigger_signal ::
  "'ps robot_status realtime_reaction \<Rightarrow> (('w, 'ps, 'z) session_sys_scheme, unit) rt" where
  "trigger_signal reaction =
     (case (triggered_signal_id reaction, from_action_index reaction) of
        (Some sig, Some f) \<Rightarrow>
          rt_bind (GetAction (size_t f)) (\<lambda>p.
          rt_bind (check_signal p sig) (\<lambda>k.
            rt_modify (upd_instance p (\<lambda>a. a\<lparr>signal_values :=
              (signal_values a)[k := (signal_values a ! k)\<lparr>current_value := True\<rparr>]\<rparr>))))
      | _ \<Rightarrow> rt_return ())"

definition EvaluateReactionAndSendEvent ::
  "nat \<Rightarrow> get_state_variable \<Rightarrow> 'ps robot_status \<Rightarrow> int option \<Rightarrow>
   (('w, 'ps, 'z) session_sys_scheme, bool) rt" where
  "EvaluateReactionAndSendEvent ri get r from_action_id =
     rt_bind GetSession (\<lambda>session.
     let reaction = reactions session ! ri in
     if from_action_index reaction \<noteq> None \<and> from_action_id = None then rt_fail (Error Internal)
     else
       rt_bind (rt_lift (ReactionConditionMatches get reaction r)) (\<lambda>condition_matches.
       let reaction = (if \<not> fire_once reaction \<and> \<not> condition_matches
                       then reaction\<lparr>fired := False\<rparr> else reaction) in
       rt_bind (rt_modify (upd_reaction ri (\<lambda>_. reaction))) (\<lambda>_.
       if \<not> ShouldFire reaction condition_matches then rt_return False
       else
         rt_bind (next_action_of reaction) (\<lambda>next_action_id.
         rt_bind (SendEvent (reaction_id reaction) from_action_id next_action_id) (\<lambda>_.
         rt_bind (trigger_signal reaction) (\<lambda>_.
         rt_bind (rt_modify (upd_reaction ri (\<lambda>x. x\<lparr>fired := True\<rparr>))) (\<lambda>_.
           rt_return (target_action_index reaction \<noteq> None))))))))"

section \<open>Switching actions\<close>

text \<open>The first loop of \<^verbatim>\<open>AssignActionToSuitableActionEntry\<close>: \<open>True\<close> when the action is
  already active.\<close>

fun scan_active ::
  "heap \<Rightarrow> 'r realtime_session \<Rightarrow> nat \<Rightarrow> action_instance \<Rightarrow> nat option list \<Rightarrow> bool status_or" where
  "scan_active h session index new_action [] = Inr False"
| "scan_active h session index new_action (None # as) = scan_active h session index new_action as"
| "scan_active h session index new_action (Some a # as) =
     (if a = index then Inr True
      else so_bind (GetActionFromSession session a) (\<lambda>p.
           so_bind (ActionPairHasSlotOverlap (h p) new_action) (\<lambda>b.
             if b then Inl (Error Internal) else scan_active h session index new_action as)))"

fun first_free :: "nat option list \<Rightarrow> nat option" where
  "first_free [] = None"
| "first_free (None # as) = Some 0"
| "first_free (Some a # as) = map_option Suc (first_free as)"

definition AssignActionToSuitableActionEntry ::
  "nat \<Rightarrow> (('w, 'ps, 'z) session_sys_scheme, unit) rt" where
  "AssignActionToSuitableActionEntry index =
     rt_bind GetSession (\<lambda>session.
     if length (actions session) \<le> index then rt_fail (Error Internal)
     else
       rt_bind (GetAction index) (\<lambda>p.
       rt_bind (rt_lift_st (\<lambda>s. scan_active (heap s) session index (heap s p) (active_action_indices s)))
         (\<lambda>already_active.
       if already_active then rt_return ()
       else rt_bind (rt_gets (\<lambda>s. first_free (active_action_indices s))) (\<lambda>free.
         case free of
           Some k \<Rightarrow> rt_modify (set_active k (Some index))
         | None \<Rightarrow> rt_fail (Error Internal)))))"

definition DeactivateAction :: "addr \<Rightarrow> (('w, 'ps, 'z) session_sys_scheme, unit) rt" where
  "DeactivateAction p = rt_modify (upd_instance p (\<lambda>a. a\<lparr>streaming_io_storage :=
     ResetRealtimeStreamingIoStorage (streaming_io_storage a)\<rparr>))"

definition preempt_entry :: "addr \<Rightarrow> nat \<Rightarrow> (('w, 'ps, 'z) session_sys_scheme, unit) rt" where
  "preempt_entry p k =
     rt_bind (rt_gets (\<lambda>s. active_action_indices s ! k)) (\<lambda>entry.
     case entry of
       None \<Rightarrow> rt_return ()
     | Some a \<Rightarrow>
         rt_bind (GetAction a) (\<lambda>q.
         rt_bind (rt_lift_st (\<lambda>s. ActionPairHasSlotOverlap (heap s p) (heap s q))) (\<lambda>overlap.
         if overlap then rt_bind (DeactivateAction q) (\<lambda>_. rt_modify (set_active k None))
         else rt_return ())))"

definition preempt_overlapping :: "nat \<Rightarrow> (('w, 'ps, 'z) session_sys_scheme, unit) rt" where
  "preempt_overlapping index =
     rt_bind (GetAction index) (\<lambda>p.
     rt_bind (rt_gets (\<lambda>s. length (active_action_indices s))) (\<lambda>n.
       rt_for [0..<n] (preempt_entry p)))"

text \<open>The object and the slot map of an action instance; both pointers are dereferenced.\<close>

definition action_object :: "addr \<Rightarrow> (('w, 'ps, 'z) session_sys_scheme, nat \<times> slot_map) rt" where
  "action_object p =
     rt_bind (rt_gets (\<lambda>s. heap s p)) (\<lambda>inst.
     rt_bind (GetSlotMapForAction (visibility_by_slot_id inst)) (\<lambda>sm.
     case ai_action inst of None \<Rightarrow> rt_fail Undefined | Some a \<Rightarrow> rt_return (a, sm)))"

definition reset_fired :: "nat \<Rightarrow> ('w, 'ps, 'z) session_sys_scheme \<Rightarrow> ('w, 'ps, 'z) session_sys_scheme" where
  "reset_fired index s = s\<lparr>current_session := map_option (\<lambda>x. x\<lparr>reactions := map (\<lambda>r.
     if map_option size_t (from_action_index r) = Some index then r\<lparr>fired := False\<rparr> else r)
       (reactions x)\<rparr>) (current_session s)\<rparr>"

definition start_action ::
  "('w, 'ps) plugins \<Rightarrow> double \<Rightarrow> behavior_override_request \<Rightarrow> nat \<Rightarrow>
   (('w, 'ps, 'z) session_sys_scheme, unit) rt" where
  "start_action E speed_override override index =
     rt_bind GetSession (\<lambda>session.
     if length (actions session) \<le> index then rt_fail (Error InvalidArgument)
     else
       rt_bind (GetAction index) (\<lambda>p.
       rt_bind (rt_gets (\<lambda>s. supported_behavior_overrides (heap s p))) (\<lambda>supported.
       if \<not> ActionSupportsRequestedOverrideBehavior supported override then rt_fail (Error Aborted)
       else
         rt_bind (action_object p) (\<lambda>(a, sm).
         rt_bind (world_call (OnEnter E a sm speed_override override)) (\<lambda>(on_enter_status, violations).
         if 0 < violations then rt_fail (Error ResourceExhausted)
         else
           rt_bind (rt_check on_enter_status) (\<lambda>_.
           rt_bind (rt_modify (reset_fired index)) (\<lambda>_.
             AssignActionToSuitableActionEntry index)))))))"

definition StartActions ::
  "('w, 'ps) plugins \<Rightarrow> nat list \<Rightarrow> double \<Rightarrow> behavior_override_request \<Rightarrow>
   (('w, 'ps, 'z) session_sys_scheme, unit) rt" where
  "StartActions E action_indices speed_override override =
     rt_bind (rt_for action_indices preempt_overlapping) (\<lambda>_.
       rt_for action_indices (start_action E speed_override override))"

fun find_active :: "nat \<Rightarrow> nat option list \<Rightarrow> nat option" where
  "find_active index [] = None"
| "find_active index (a # as) =
     (if a = Some index then Some 0 else map_option Suc (find_active index as))"

definition DeactivateActionByIndex :: "nat \<Rightarrow> (('w, 'ps, 'z) session_sys_scheme, bool) rt" where
  "DeactivateActionByIndex index =
     rt_bind (rt_gets (\<lambda>s. find_active index (active_action_indices s))) (\<lambda>found.
     case found of
       None \<Rightarrow> rt_return False
     | Some k \<Rightarrow>
         rt_bind GetSession (\<lambda>session.
         if length (actions session) \<le> index then rt_fail LogFatal
         else
           rt_bind (case actions session ! index of
                      None \<Rightarrow> rt_return ()
                    | Some p \<Rightarrow> DeactivateAction p) (\<lambda>_.
           rt_bind (rt_modify (set_active k None)) (\<lambda>_. rt_return True))))"

section \<open>Handling all reactions of a cycle\<close>

fun requested_actions :: "'r realtime_session \<Rightarrow> nat list \<Rightarrow> nat list \<Rightarrow> nat list status_or" where
  "requested_actions session [] acc = Inr acc"
| "requested_actions session (i # is) acc =
     (if length (reactions session) \<le> i then Inl (Error OutOfRange)
      else case target_action_index (reactions session ! i) of
        None \<Rightarrow> requested_actions session is acc
      | Some t \<Rightarrow> so_bind (fv_push_back kMaxRealtimeParts acc (size_t t))
                   (requested_actions session is))"

definition CheckReactionEffects :: "nat list \<Rightarrow> (('w, 'ps, 'z) session_sys_scheme, unit) rt" where
  "CheckReactionEffects triggered_reactions =
     rt_bind (rt_gets current_session) (\<lambda>cs.
     case cs of
       None \<Rightarrow> rt_fail (Error Internal)
     | Some session \<Rightarrow>
         rt_bind (rt_lift (requested_actions session triggered_reactions [])) (\<lambda>requested.
         rt_bind (rt_lift_st (\<lambda>s. GetFirstSlotOverlap (heap s) session requested)) (\<lambda>conflict.
           if conflict \<noteq> None then rt_fail (Error ResourceExhausted) else rt_return ())))"

definition execute_reaction ::
  "nat \<Rightarrow> nat list \<Rightarrow> (('w, 'ps, 'z) session_sys_scheme, nat list) rt" where
  "execute_reaction ri started =
     rt_bind GetSession (\<lambda>session.
     if length (reactions session) \<le> ri then rt_fail Undefined
     else
       let reaction = reactions session ! ri in
       rt_bind (if stop_associated_action reaction
                then (case from_action_index reaction of
                        Some f \<Rightarrow> rt_bind (DeactivateActionByIndex (size_t f)) (\<lambda>_. rt_return ())
                      | None \<Rightarrow> rt_return ())
                else rt_return ()) (\<lambda>_.
       case target_action_index reaction of
         None \<Rightarrow> rt_return started
       | Some t \<Rightarrow>
           if length (actions session) \<le> size_t t then rt_fail Undefined
           else if actions session ! size_t t = None then rt_fail (Error InvalidArgument)
           else if size_t t \<in> set started then rt_return started
           else rt_lift (fv_push_back kMaxRealtimeParts started (size_t t))))"

definition sense_started ::
  "('w, 'ps) plugins \<Rightarrow> double \<Rightarrow> behavior_override_request \<Rightarrow> nat \<Rightarrow>
   (('w, 'ps, 'z) session_sys_scheme, unit) rt" where
  "sense_started E speed_override override index =
     rt_bind (GetAction index) (\<lambda>p.
     rt_bind (action_object p) (\<lambda>(a, sm).
     rt_bind (rt_gets (\<lambda>s. heap s p)) (\<lambda>inst.
     rt_bind (world_call (Sense E a sm (streaming_io_storage inst) (signal_values inst)
                speed_override override)) (\<lambda>(sense_status, _, io).
     rt_bind (rt_modify (upd_instance p (\<lambda>x. x\<lparr>streaming_io_storage := io\<rparr>))) (\<lambda>_.
     if sense_status = OkStatus then rt_return ()
     else if crash sense_status then rt_fail sense_status
     else rt_bind (DeactivateActionByIndex index) (\<lambda>_. rt_fail sense_status))))))"

definition ExecuteRtReactions ::
  "('w, 'ps) plugins \<Rightarrow> double \<Rightarrow> behavior_override_request \<Rightarrow> nat list \<Rightarrow>
   (('w, 'ps, 'z) session_sys_scheme, unit) rt" where
  "ExecuteRtReactions E speed_override override triggered_reactions =
     rt_bind (rt_fold triggered_reactions execute_reaction []) (\<lambda>actions_to_start.
     rt_bind (StartActions E actions_to_start speed_override override) (\<lambda>_.
       rt_for actions_to_start (sense_started E speed_override override)))"

definition check_reaction_parts ::
  "('w, 'ps) plugins \<Rightarrow> 'ps robot_status realtime_reaction \<Rightarrow> (('w, 'ps, 'z) session_sys_scheme, unit) rt" where
  "check_reaction_parts E reaction =
     rt_for [0..<length (required_parts_by_index (condition reaction))] (\<lambda>j.
       if \<not> required_parts_by_index (condition reaction) ! j then rt_return ()
       else rt_bind (GetPartState E j) (\<lambda>st.
         if ros_state st = Rt_kEnabled \<or> ros_state st = Rt_kDisabled then rt_return ()
         else rt_fail (Error FailedPrecondition)))"

definition check_and_add_rt_reaction ::
  "nat \<Rightarrow> nat list \<Rightarrow> (('w, 'ps, 'z) session_sys_scheme, nat list) rt" where
  "check_and_add_rt_reaction ri triggered =
     rt_bind GetSession (\<lambda>session.
     let reaction = reactions session ! ri;
         same = (\<lambda>i. from_action_index (reactions session ! i) = from_action_index reaction \<and>
                     target_action_index (reactions session ! i) = target_action_index reaction)
     in case find same triggered of
          None \<Rightarrow> rt_lift (fv_push_back kMaxRealtimeParts triggered ri)
        | Some i \<Rightarrow>
            if stop_associated_action (reactions session ! i) \<noteq> stop_associated_action reaction
            then rt_fail (Error InvalidArgument) else rt_return triggered)"

definition handle_free_standing ::
  "'ps robot_status \<Rightarrow> nat \<Rightarrow> nat list \<Rightarrow> (('w, 'ps, 'z) session_sys_scheme, nat list) rt" where
  "handle_free_standing r ri triggered =
     rt_bind GetSession (\<lambda>session.
     if from_action_index (reactions session ! ri) \<noteq> None then rt_return triggered
     else
       rt_bind (EvaluateReactionAndSendEvent ri EmptyAction_GetStateVariable r None) (\<lambda>trigger.
         if trigger then check_and_add_rt_reaction ri triggered else rt_return triggered))"

definition save_previous_signal ::
  "'ps robot_status realtime_reaction \<Rightarrow> (('w, 'ps, 'z) session_sys_scheme, unit) rt" where
  "save_previous_signal reaction =
     (case (triggered_signal_id reaction, from_action_index reaction) of
        (Some sig, Some f) \<Rightarrow>
          rt_bind (GetAction (size_t f)) (\<lambda>p.
          rt_bind (check_signal p sig) (\<lambda>k.
            rt_modify (upd_instance p (\<lambda>a. a\<lparr>signal_values := (signal_values a)[k :=
              (signal_values a ! k)\<lparr>previous_value := current_value (signal_values a ! k)\<rparr>]\<rparr>))))
      | _ \<Rightarrow> rt_return ())"

definition handle_associated ::
  "('w, 'ps) plugins \<Rightarrow> 'ps robot_status \<Rightarrow> nat \<Rightarrow> nat \<Rightarrow> int \<Rightarrow> nat \<Rightarrow> nat list \<Rightarrow>
   (('w, 'ps, 'z) session_sys_scheme, nat list) rt" where
  "handle_associated E r active_index a active_id ri triggered =
     rt_bind GetSession (\<lambda>session.
     let reaction = reactions session ! ri in
     if map_option size_t (from_action_index reaction) \<noteq> Some active_index then rt_return triggered
     else
       rt_bind (save_previous_signal reaction) (\<lambda>_.
       rt_bind (rt_gets (\<lambda>s. GetStateVariable E a (world s))) (\<lambda>get.
       rt_bind (EvaluateReactionAndSendEvent ri get r (Some active_id)) (\<lambda>trigger.
         if trigger then check_and_add_rt_reaction ri triggered else rt_return triggered))))"

definition handle_active_entry ::
  "('w, 'ps) plugins \<Rightarrow> 'ps robot_status \<Rightarrow> nat \<Rightarrow> nat list \<Rightarrow>
   (('w, 'ps, 'z) session_sys_scheme, nat list) rt" where
  "handle_active_entry E r k triggered =
     rt_bind (rt_gets (\<lambda>s. active_action_indices s ! k)) (\<lambda>entry.
     case entry of
       None \<Rightarrow> rt_return triggered
     | Some idx \<Rightarrow>
         rt_bind GetSession (\<lambda>session.
         if length (actions session) \<le> idx then rt_fail (Error NotFound)
         else case actions session ! idx of
           None \<Rightarrow> rt_fail (Error Internal)
         | Some p \<Rightarrow>
             rt_bind (rt_gets (\<lambda>s. heap s p)) (\<lambda>inst.
             case ai_action inst of
               None \<Rightarrow> rt_fail (Error Internal)
             | Some a \<Rightarrow>
                 rt_fold [0..<length (reactions session)]
                   (handle_associated E r idx a (ai_id inst)) triggered)))"

definition HandleReactions ::
  "('w, 'ps) plugins \<Rightarrow> double \<Rightarrow> behavior_override_request \<Rightarrow> 'ps robot_status \<Rightarrow>
   (('w, 'ps, 'z) session_sys_scheme, unit) rt" where
  "HandleReactions E speed_override override r =
     rt_fn (rt_bind (rt_gets current_session) (\<lambda>cs.
     case cs of
       None \<Rightarrow> rt_fail (Error Internal)
     | Some session \<Rightarrow>
         rt_bind (rt_for (reactions session) (check_reaction_parts E)) (\<lambda>_.
         rt_bind (rt_fold [0..<length (reactions session)] (handle_free_standing r) []) (\<lambda>triggered.
         rt_bind (rt_gets (\<lambda>s. length (active_action_indices s))) (\<lambda>n.
         rt_bind (rt_fold [0..<n] (handle_active_entry E r) triggered) (\<lambda>triggered.
         rt_bind (CheckReactionEffects triggered) (\<lambda>_.
           ExecuteRtReactions E speed_override override triggered)))))))"

section \<open>Overlap tests\<close>

text \<open>What the switching code needs of an overlap test: it decides whether two holders share a slot.\<close>

locale overlap_test =
  fixes overlap :: "'a \<Rightarrow> 'a \<Rightarrow> bool" and slots_used :: "'a \<Rightarrow> nat set"
  assumes overlap_iff: "overlap a b \<longleftrightarrow> slots_used a \<inter> slots_used b \<noteq> {}"
begin

lemma overlap_sym: "overlap a b = overlap b a"
  by (auto simp: overlap_iff)

lemma overlap_self: "overlap a a \<longleftrightarrow> slots_used a \<noteq> {}"
  by (simp add: overlap_iff)

lemma no_overlap_disjoint: "\<not> overlap a b \<Longrightarrow> slots_used a \<inter> slots_used b = {}"
  by (simp add: overlap_iff)

end

lemma list_ex_zip: "list_ex P (zip xs ys) \<longleftrightarrow> (\<exists>i < min (length xs) (length ys). P (xs ! i, ys ! i))"
  by (force simp: list_ex_iff set_zip)

interpretation slots: overlap_test slots_overlap "visible_from 0"
  by unfold_locales (auto simp: slots_overlap_def list_ex_zip visible_from_0)

lemma ActionPairHasSlotOverlap_iff:
  "ActionPairHasSlotOverlap a b = Inr x \<Longrightarrow> x \<longleftrightarrow> slots_of a \<inter> slots_of b \<noteq> {}"
  using slots.overlap_iff
  by (auto simp: ActionPairHasSlotOverlap_def slots_of_def visible_from_0 split: option.splits)

section \<open>The table of active actions\<close>

definition act_ok :: "(nat \<Rightarrow> nat set) \<Rightarrow> nat option list \<Rightarrow> bool" where
  "act_ok u A \<longleftrightarrow> (\<forall>i < length A. \<forall>j < length A. i \<noteq> j \<longrightarrow>
     (\<forall>a b. A ! i = Some a \<longrightarrow> A ! j = Some b \<longrightarrow> a \<noteq> b \<and> u a \<inter> u b = {}))"

lemma act_okD:
  "act_ok u A \<Longrightarrow> i < length A \<Longrightarrow> j < length A \<Longrightarrow> i \<noteq> j \<Longrightarrow> A ! i = Some a \<Longrightarrow> A ! j = Some b \<Longrightarrow>
   a \<noteq> b \<and> u a \<inter> u b = {}"
  unfolding act_ok_def by blast

lemma act_ok_clear:
  assumes "act_ok u A"
  shows "act_ok u (A[k := None])"
  unfolding act_ok_def
proof (intro allI impI)
  fix i j a b
  assume *: "i < length (A[k := None])" "j < length (A[k := None])" "i \<noteq> j"
    "A[k := None] ! i = Some a" "A[k := None] ! j = Some b"
  then have "i \<noteq> k" "j \<noteq> k" by auto
  with * show "a \<noteq> b \<and> u a \<inter> u b = {}" by (intro act_okD[OF assms, of i j]) simp_all
qed

lemma act_ok_assign:
  assumes "act_ok u A" "\<And>a. Some a \<in> set A \<Longrightarrow> a \<noteq> x \<and> u a \<inter> u x = {}"
  shows "act_ok u (A[k := Some x])"
  unfolding act_ok_def
proof (intro allI impI)
  fix i j a b
  assume *: "i < length (A[k := Some x])" "j < length (A[k := Some x])" "i \<noteq> j"
    "A[k := Some x] ! i = Some a" "A[k := Some x] ! j = Some b"
  have mem: "Some c \<in> set A" if "l < length A" "A ! l = Some c" for l c
    using that nth_mem[of l A] by simp
  consider "i = k" "j \<noteq> k" | "j = k" "i \<noteq> k" | "i \<noteq> k" "j \<noteq> k" using *(3) by blast
  then show "a \<noteq> b \<and> u a \<inter> u b = {}"
  proof cases
    case 1
    with * show ?thesis using assms(2)[OF mem[of j b]] by auto
  next
    case 2
    with * show ?thesis using assms(2)[OF mem[of i a]] by auto
  next
    case 3
    with * show ?thesis by (intro act_okD[OF assms(1), of i j]) simp_all
  qed
qed

lemma act_ok_empty: "act_ok u (replicate n None)"
  by (simp add: act_ok_def)

definition slots :: "('w, 'ps, 'z) session_sys_scheme \<Rightarrow> nat \<Rightarrow> nat set" where
  "slots s i = (case current_session s of None \<Rightarrow> {} | Some x \<Rightarrow> uses (heap s) x i)"

definition act_inv :: "nat \<Rightarrow> ('w, 'ps, 'z) session_sys_scheme \<Rightarrow> bool" where
  "act_inv n s \<longleftrightarrow> length (active_action_indices s) = n \<and> act_ok (slots s) (active_action_indices s)"

lemma slots_cong:
  "map_option actions (current_session t) = map_option actions (current_session s) \<Longrightarrow>
   (\<And>p. visibility_by_slot_id (heap t p) = visibility_by_slot_id (heap s p)) \<Longrightarrow> slots t = slots s"
  by (auto simp: slots_def uses_def slots_of_def GetActionFromSession_def fun_eq_iff
      split: option.splits sum.splits)

lemma slots_simps [simp]:
  "slots (s\<lparr>world := w\<rparr>) = slots s" "slots (s\<lparr>channels := c\<rparr>) = slots s"
  "slots (set_active k v s) = slots s" "slots (reset_fired i s) = slots s"
  by (rule slots_cong; simp add: set_active_def reset_fired_def option.map_comp o_def)+

lemma slots_upd_reaction [simp]: "slots (upd_reaction i f s) = slots s"
  by (rule slots_cong) (simp_all add: upd_reaction_def option.map_comp o_def)

lemma slots_upd_instance [simp]:
  "(\<And>a. visibility_by_slot_id (f a) = visibility_by_slot_id a) \<Longrightarrow> slots (upd_instance p f s) = slots s"
  by (rule slots_cong) (simp_all add: upd_instance_def)

lemma active_simps [simp]:
  "active_action_indices (upd_reaction i f s) = active_action_indices s"
  "active_action_indices (upd_instance p g s) = active_action_indices s"
  "active_action_indices (reset_fired j s) = active_action_indices s"
  "active_action_indices (set_active k v s) = (active_action_indices s)[k := v]"
  by (simp_all add: upd_reaction_def upd_instance_def reset_fired_def set_active_def)

lemma act_inv_modify [rt_rules]:
  "(\<And>s. slots (g s) = slots s) \<Longrightarrow> (\<And>s. active_action_indices (g s) = active_action_indices s) \<Longrightarrow>
   rt_inv (act_inv n) (rt_modify g)"
  by (rule rt_spec_modify) (simp add: act_inv_def)

lemma act_inv_clear [rt_rules]: "rt_inv (act_inv n) (rt_modify (set_active k None))"
  by (rule rt_spec_modify) (simp add: act_inv_def act_ok_clear)

lemma act_inv_world_call [rt_rules]: "rt_inv (act_inv n) (world_call f)"
  by (auto simp: rt_spec_def world_call_def act_inv_def split: prod.splits)

lemma act_inv_SendEvent [rt_rules]: "rt_inv (act_inv n) (SendEvent a b c)"
  by (auto simp: rt_spec_def SendEvent_def act_inv_def Let_def)

lemma scan_active_Cons_False:
  "scan_active h x i new (Some a # A) = Inr False \<longleftrightarrow> a \<noteq> i \<and>
     (\<exists>p. GetActionFromSession x a = Inr p \<and> ActionPairHasSlotOverlap (h p) new = Inr False) \<and>
     scan_active h x i new A = Inr False"
  by (auto simp: status_simps split: if_splits)

lemma scan_active_False:
  "scan_active h x i new A = Inr False \<Longrightarrow> Some a \<in> set A \<Longrightarrow>
     a \<noteq> i \<and> uses h x a \<inter> slots_of new = {}"
proof (induction A)
  case (Cons e A)
  show ?case
  proof (cases e)
    case None
    then show ?thesis using Cons by simp
  next
    case (Some c)
    then obtain p where c: "c \<noteq> i" "GetActionFromSession x c = Inr p"
      "ActionPairHasSlotOverlap (h p) new = Inr False" "scan_active h x i new A = Inr False"
      using Cons(2) unfolding Some scan_active_Cons_False by blast
    have "uses h x c \<inter> slots_of new = {}"
      using ActionPairHasSlotOverlap_iff[OF c(3)] c(2) by (auto simp: uses_def)
    then show ?thesis using c Cons(1,3) Some by auto
  qed
qed simp

lemma scan_active_True: "scan_active h x i new A = Inr True \<Longrightarrow> Some i \<in> set A"
  by (induction h x i new A rule: scan_active.induct) (auto simp: status_simps split: if_splits)

lemma first_free_Some: "first_free A = Some k \<Longrightarrow> k < length A \<and> A ! k = None"
  by (induction A arbitrary: k rule: first_free.induct) auto

text \<open>Assigning an entry: on success the action is active, everything else is unchanged.\<close>

lemma Assign_cases:
  assumes "AssignActionToSuitableActionEntry i s = (r, t)"
  obtains e where "r = Inl e" "t = s"
  | "r = Inr ()" "t = s" "Some i \<in> set (active_action_indices s)"
  | k where "r = Inr ()" "t = set_active k (Some i) s" "k < length (active_action_indices s)"
      "active_action_indices s ! k = None"
      "\<And>a. Some a \<in> set (active_action_indices s) \<Longrightarrow> a \<noteq> i \<and> slots s a \<inter> slots s i = {}"
proof (cases "\<exists>x p b. current_session s = Some x \<and> i < length (actions x) \<and> GetActionFromSession x i = Inr p \<and>
    scan_active (heap s) x i (heap s p) (active_action_indices s) = Inr b")
  case False
  then have "\<exists>e. r = Inl e \<and> t = s" using assms
    by (auto simp: AssignActionToSuitableActionEntry_def GetSession_def GetAction_def rt_defs not_le
        split: option.splits sum.splits if_splits prod.splits)
  then show ?thesis using that(1) by blast
next
  case True
  then obtain x p b where x: "current_session s = Some x" "i < length (actions x)" "GetActionFromSession x i = Inr p"
    "scan_active (heap s) x i (heap s p) (active_action_indices s) = Inr b" by blast
  note run = AssignActionToSuitableActionEntry_def GetSession_def GetAction_def rt_defs
  show ?thesis
  proof (cases b)
    case True
    then show ?thesis
      using assms x scan_active_True[of "heap s" x i "heap s p" "active_action_indices s"] that(2)
      by (auto simp: run)
  next
    case False
    then have "scan_active (heap s) x i (heap s p) (active_action_indices s) = Inr False" using x(4) by simp
    then have "a \<noteq> i \<and> slots s a \<inter> slots s i = {}" if "Some a \<in> set (active_action_indices s)" for a
      using scan_active_False that x(1,3) by (simp add: slots_def uses_def)
    then show ?thesis
      using assms x False that(1,3) first_free_Some[of "active_action_indices s"]
      by (cases "first_free (active_action_indices s)") (auto simp: run)
  qed
qed

lemma act_inv_Assign: "rt_inv (act_inv n) (AssignActionToSuitableActionEntry i)"
proof -
  have "act_inv n t" if "act_inv n s" "AssignActionToSuitableActionEntry i s = (r, t)" for s t r
    using that(2)
  proof (cases rule: Assign_cases)
    case (3 k)
    then show ?thesis using that(1) by (auto simp: act_inv_def intro!: act_ok_assign)
  qed (use that(1) in auto)
  then show ?thesis by (blast intro: rt_specI)
qed

lemma act_inv_GetSession [rt_rules]: "rt_inv (act_inv n) GetSession"
  unfolding GetSession_def by (rule rt_rules)

lemma act_inv_GetAction [rt_rules]: "rt_inv (act_inv n) (GetAction i)"
  unfolding GetAction_def by (intro rt_rules)

lemma act_inv_DeactivateAction [rt_rules]: "rt_inv (act_inv n) (DeactivateAction p)"
  unfolding DeactivateAction_def by (intro rt_rules) simp_all

lemma act_inv_action_object [rt_rules]: "rt_inv (act_inv n) (action_object p)"
  unfolding action_object_def GetSlotMapForAction_def by (intro rt_rules)

lemma act_inv_start_action: "rt_inv (act_inv n) (start_action E v ov i)"
  unfolding start_action_def by (intro rt_rules act_inv_Assign) simp_all

lemma act_inv_StartActions [rt_rules]: "rt_inv (act_inv n) (StartActions E is v ov)"
  unfolding StartActions_def preempt_overlapping_def preempt_entry_def
  by (intro rt_rules act_inv_start_action)

lemma act_inv_DeactivateByIndex [rt_rules]: "rt_inv (act_inv n) (DeactivateActionByIndex i)"
  unfolding DeactivateActionByIndex_def by (intro rt_rules)

lemma act_inv_Evaluate [rt_rules]: "rt_inv (act_inv n) (EvaluateReactionAndSendEvent ri get r fid)"
  unfolding EvaluateReactionAndSendEvent_def next_action_of_def trigger_signal_def check_signal_def Let_def
  by (intro rt_rules) simp_all

lemma act_inv_HandleReactions: "rt_inv (act_inv n) (HandleReactions E v ov r)"
  unfolding HandleReactions_def check_reaction_parts_def GetPartState_def handle_free_standing_def
    handle_active_entry_def handle_associated_def save_previous_signal_def check_signal_def
    check_and_add_rt_reaction_def CheckReactionEffects_def ExecuteRtReactions_def execute_reaction_def
    sense_started_def Let_def
  by (intro rt_rules) simp_all

section \<open>Started actions are active\<close>

lemma world_call_Inr:
  "world_call f s = (Inr x, t) \<longleftrightarrow> (\<exists>w. f (world s) = (x, w) \<and> t = s\<lparr>world := w\<rparr>)"
  by (auto simp: world_call_def split: prod.splits)

lemma GetSession_Inr: "GetSession s = (Inr x, t) \<longleftrightarrow> current_session s = Some x \<and> t = s"
  by (auto simp: GetSession_def rt_defs split: option.splits)

lemma GetAction_Inr:
  "GetAction i s = (Inr p, t) \<longleftrightarrow>
     (\<exists>x. current_session s = Some x \<and> GetActionFromSession x i = Inr p) \<and> t = s"
  by (auto simp: GetAction_def rt_Inr_iff GetSession_Inr)

lemma action_object_Inr: "action_object p s = (Inr y, t) \<Longrightarrow> t = s"
  by (auto simp: action_object_def GetSlotMapForAction_def rt_Inr_iff split: option.splits)

definition active_set :: "('w, 'ps, 'z) session_sys_scheme \<Rightarrow> nat set" where
  "active_set s = {a. Some a \<in> set (active_action_indices s)}"

lemma set_fill_entry:
  "k < length A \<Longrightarrow> A ! k = None \<Longrightarrow> Some x \<in> set (A[k := Some i]) \<longleftrightarrow> x = i \<or> Some x \<in> set A"
  by (induction A arbitrary: k) (auto split: nat.splits)

lemma Assign_active:
  assumes "AssignActionToSuitableActionEntry i s = (Inr (), t)"
  shows "active_set t = insert i (active_set s)"
  using assms
proof (cases rule: Assign_cases)
  case (3 k)
  then show ?thesis
    by (auto simp: active_set_def set_fill_entry)
qed (auto simp: active_set_def)

lemma start_action_active:
  assumes "start_action E v ov i s = (Inr (), t)"
  shows "active_set t = insert i (active_set s)"
proof -
  from assms obtain w where "AssignActionToSuitableActionEntry i (reset_fired i (s\<lparr>world := w\<rparr>)) = (Inr (), t)"
    by (auto simp: start_action_def rt_Inr_iff GetSession_Inr GetAction_Inr world_call_Inr
        dest!: action_object_Inr split: if_splits)
  then show ?thesis using Assign_active by (fastforce simp: active_set_def)
qed

lemma start_actions_active:
  "rt_for is (start_action E v ov) s = (Inr (), t) \<Longrightarrow> active_set t = set is \<union> active_set s"
  by (induction "is" arbitrary: s) (auto simp: rt_Inr_iff dest!: start_action_active)

lemma StartActions_active:
  assumes "StartActions E is v ov s = (Inr (), t)"
  shows "set is \<subseteq> active_set t"
  using assms by (auto simp: StartActions_def rt_Inr_iff dest!: start_actions_active)

lemma act_inv_exclusive:
  assumes "act_inv n s"
  shows "slots_exclusive (slots s) (active_set s)"
  unfolding slots_exclusive_def active_set_def
proof (intro ballI impI)
  fix a b assume "a \<in> {a. Some a \<in> set (active_action_indices s)}" "b \<in> {a. Some a \<in> set (active_action_indices s)}" "a \<noteq> b"
  then obtain i j where "i < length (active_action_indices s)" "active_action_indices s ! i = Some a"
    "j < length (active_action_indices s)" "active_action_indices s ! j = Some b" "i \<noteq> j"
    by (force simp: in_set_conv_nth)
  then show "slots s a \<inter> slots s b = {}" using assms by (auto simp: act_inv_def dest: act_okD)
qed

section \<open>Edge triggering\<close>

text \<open>The specification of a reaction's trigger: the new fired flag and whether an event is due.\<close>

definition edge_step :: "bool \<Rightarrow> bool \<Rightarrow> bool \<Rightarrow> bool \<times> bool" where
  "edge_step once was_fired matches = (if matches then True else once \<and> was_fired, matches \<and> \<not> was_fired)"

fun count_events :: "bool \<Rightarrow> bool \<Rightarrow> bool list \<Rightarrow> nat" where
  "count_events once was_fired [] = 0"
| "count_events once was_fired (m # ms) =
     (case edge_step once was_fired m of (f, ev) \<Rightarrow> (if ev then 1 else 0) + count_events once f ms)"

fun rising_edges :: "bool \<Rightarrow> bool list \<Rightarrow> nat" where
  "rising_edges prev [] = 0"
| "rising_edges prev (m # ms) = (if m \<and> \<not> prev then 1 else 0) + rising_edges m ms"

lemma count_events_edges: "count_events False was_fired ms = rising_edges was_fired ms"
  by (induction ms arbitrary: was_fired) (auto simp: edge_step_def)

lemma count_events_once: "count_events True was_fired ms = (if \<not> was_fired \<and> True \<in> set ms then 1 else 0)"
  by (induction ms arbitrary: was_fired) (auto simp: edge_step_def)

definition reaction_at :: "('w, 'ps, 'z) session_sys_scheme \<Rightarrow> nat \<Rightarrow> 'ps robot_status realtime_reaction option" where
  "reaction_at s ri = (case current_session s of
     None \<Rightarrow> None | Some x \<Rightarrow> if ri < length (reactions x) then Some (reactions x ! ri) else None)"

lemma reaction_at_upd [simp]:
  "reaction_at (upd_reaction i f s) ri = (if i = ri then map_option f (reaction_at s ri) else reaction_at s ri)"
  by (auto simp: reaction_at_def upd_reaction_def nth_list_update split: option.splits)

lemma channels_upd_reaction [simp]:
  "channels (upd_reaction i f s) = channels s" "has_channels (upd_reaction i f s) = has_channels s"
  by (simp_all add: upd_reaction_def)

lemma ReactionConditionMatches_fired [simp]:
  "ReactionConditionMatches get (r\<lparr>fired := b\<rparr>) st = ReactionConditionMatches get r st"
  by (simp add: ReactionConditionMatches_def Let_def)

text \<open>The outcome of evaluating a reaction whose condition has a value.\<close>

lemma next_action_state: "next_action_of reaction s = (r, t) \<Longrightarrow> t = s"
  by (auto simp: next_action_of_def GetSession_def rt_defs split: option.splits if_splits prod.splits sum.splits)

lemma SendEvent_Inr:
  "SendEvent a b c s = (Inr u, t) \<Longrightarrow> has_channels s \<and> reaction_at t = reaction_at s \<and> has_channels t \<and>
     reaction_queue (channels t) = reaction_queue (channels s) @
       (if length (reaction_queue (channels s)) < reaction_queue_capacity (channels s)
        then [\<lparr>event_id = a, previous_action_id = b, current_action_id = c\<rparr>] else [])"
  by (auto simp: SendEvent_def Let_def reaction_at_def fun_eq_iff split: if_splits)

lemma trigger_signal_Inr:
  "trigger_signal reaction s = (Inr u, t) \<Longrightarrow> reaction_at t = reaction_at s \<and> channels t = channels s"
  by (auto simp: trigger_signal_def rt_Inr_iff GetAction_Inr check_signal_def reaction_at_def upd_instance_def
      fun_eq_iff split: option.splits)

lemma evaluate_edge:
  assumes run: "EvaluateReactionAndSendEvent ri get r fid s = (Inr b, t)"
    and rx: "reaction_at s ri = Some rx" and m: "ReactionConditionMatches get rx r = Inr m"
    and e: "edge_step (fire_once rx) (fired rx) m = (f, ev)"
  shows "map_option fired (reaction_at t ri) = Some f \<and> b = (ev \<and> target_action_index rx \<noteq> None) \<and>
    (\<exists>nxt. reaction_queue (channels t) = reaction_queue (channels s) @
      (if ev \<and> length (reaction_queue (channels s)) < reaction_queue_capacity (channels s)
       then [\<lparr>event_id = reaction_id rx, previous_action_id = fid, current_action_id = nxt\<rparr>] else []))"
proof -
  obtain x where x: "current_session s = Some x" "ri < length (reactions x)" "reactions x ! ri = rx"
    using rx by (auto simp: reaction_at_def split: option.splits if_splits)
  show ?thesis using run x m e rx
    by (auto simp: EvaluateReactionAndSendEvent_def rt_Inr_iff GetSession_Inr Let_def ShouldFire_def
        edge_step_def dest!: next_action_state SendEvent_Inr trigger_signal_Inr split: if_splits)
qed

text \<open>A pure notification (no target action, no signal) over the statuses of several cycles.\<close>

lemma evaluate_notification:
  assumes "reaction_at s ri = Some rx" "target_action_index rx = None" "triggered_signal_id rx = None"
    "from_action_index rx = None \<or> fid \<noteq> None" "has_channels s"
    "ReactionConditionMatches get rx r = Inr m" "edge_step (fire_once rx) (fired rx) m = (f, ev)"
    "length (reaction_queue (channels s)) < reaction_queue_capacity (channels s)"
  obtains t where "EvaluateReactionAndSendEvent ri get r fid s = (Inr False, t)"
    "reaction_at t ri = Some (rx\<lparr>fired := f\<rparr>)" "has_channels t"
    "reaction_queue_capacity (channels t) = reaction_queue_capacity (channels s)"
    "reaction_queue (channels t) = reaction_queue (channels s) @ (if ev then
       [\<lparr>event_id = reaction_id rx, previous_action_id = fid, current_action_id = None\<rparr>] else [])"
proof -
  obtain x where x: "current_session s = Some x" "ri < length (reactions x)" "reactions x ! ri = rx"
    using assms(1) by (auto simp: reaction_at_def split: option.splits if_splits)
  show ?thesis
    using assms x
    by (intro that[of "snd (EvaluateReactionAndSendEvent ri get r fid s)"])
       (auto simp: EvaluateReactionAndSendEvent_def rt_defs GetSession_def Let_def ShouldFire_def
         next_action_of_def trigger_signal_def SendEvent_def upd_reaction_def reaction_at_def
         edge_step_def split: if_splits prod.splits)
qed

definition evaluate_cycles ::
  "nat \<Rightarrow> get_state_variable \<Rightarrow> int option \<Rightarrow> 'ps robot_status list \<Rightarrow> (('w, 'ps, 'z) session_sys_scheme, unit) rt" where
  "evaluate_cycles ri get fid rs =
     rt_for rs (\<lambda>r. rt_bind (EvaluateReactionAndSendEvent ri get r fid) (\<lambda>_. rt_return ()))"

lemma evaluate_cycles_events:
  assumes "list_all2 (\<lambda>r m. ReactionConditionMatches get rx r = Inr m) rs ms"
    "reaction_at s ri = Some (rx\<lparr>fired := b\<rparr>)" "target_action_index rx = None"
    "triggered_signal_id rx = None" "from_action_index rx = None \<or> fid \<noteq> None" "has_channels s"
    "length (reaction_queue (channels s)) + length rs \<le> reaction_queue_capacity (channels s)"
  shows "\<exists>t. evaluate_cycles ri get fid rs s = (Inr (), t) \<and>
    reaction_queue (channels t) = reaction_queue (channels s) @
      replicate (count_events (fire_once rx) b ms)
        \<lparr>event_id = reaction_id rx, previous_action_id = fid, current_action_id = None\<rparr>"
  using assms
proof (induction rs ms arbitrary: s b rule: list_all2_induct)
  case Nil
  then show ?case by (simp add: evaluate_cycles_def rt_defs)
next
  case (Cons r rs m ms)
  let ?rx = "rx\<lparr>fired := b\<rparr>"
  let ?ev = "\<lparr>event_id = reaction_id rx, previous_action_id = fid, current_action_id = None\<rparr>"
  obtain f ev where e: "edge_step (fire_once rx) b m = (f, ev)" by fastforce
  obtain u where u: "EvaluateReactionAndSendEvent ri get r fid s = (Inr False, u)"
    "reaction_at u ri = Some (rx\<lparr>fired := f\<rparr>)" "has_channels u"
    "reaction_queue_capacity (channels u) = reaction_queue_capacity (channels s)"
    "reaction_queue (channels u) = reaction_queue (channels s) @ (if ev then [?ev] else [])"
  proof (rule evaluate_notification[of s ri ?rx fid get r m f ev])
    show "ReactionConditionMatches get ?rx r = Inr m" using Cons.hyps(1) by simp
    show "edge_step (fire_once ?rx) (fired ?rx) m = (f, ev)" using e by simp
    show "reaction_at s ri = Some ?rx" "has_channels s" using Cons.prems by simp_all
    show "target_action_index ?rx = None" "triggered_signal_id ?rx = None"
      "from_action_index ?rx = None \<or> fid \<noteq> None" using Cons.prems by simp_all
    show "length (reaction_queue (channels s)) < reaction_queue_capacity (channels s)"
      using Cons.prems(6) by simp
  qed (use that in simp)
  have "\<exists>t. evaluate_cycles ri get fid rs u = (Inr (), t) \<and>
    reaction_queue (channels t) = reaction_queue (channels u) @
      replicate (count_events (fire_once rx) f ms) ?ev"
    using Cons.IH[OF u(2)] Cons.prems u by (auto split: if_splits)
  then show ?case using u e by (auto simp: evaluate_cycles_def rt_defs)
qed

section \<open>Samples\<close>

definition sample_channels :: "nat robot_status session_channels" where
  "sample_channels = \<lparr>install_calls = [], install_results = [], bridge_closed = False,
     finish_requested = False, finish_done = False, reaction_queue = [], reaction_queue_capacity = 8,
     session_status_buffer = OkStatus\<rparr>"

definition sample_session_sys :: "nat robot_status realtime_session \<Rightarrow> nat option list \<Rightarrow> (nat, nat) session_sys" where
  "sample_session_sys session active = rt_sys.extend sample_sys
     \<lparr>heap = sample_heap, channels = sample_channels, has_channels = True,
      current_session = Some session, active_action_indices = active, sm_session_id = 1,
      session_status = OkStatus, safety_status_message = None, part_indices = [0, 1]\<rparr>"

definition always_reaction :: "int \<Rightarrow> int option \<Rightarrow> 'r realtime_reaction" where
  "always_reaction i target = \<lparr>from_action_index = None,
     condition = \<lparr>elements = [AllOfClause []], required_parts_by_index = replicate 8 False\<rparr>,
     reaction_id = i, target_action_index = target, fired = False, fire_once = False,
     stop_associated_action = True, triggered_signal_id = None\<rparr>"

definition nine_reactions :: "'r realtime_session" where
  "nine_reactions = \<lparr>session_id = 1, stop_active_actions = True, actions_to_start = [],
     actions = map Some [0..<9], reactions = map (\<lambda>i. always_reaction i (Some i)) [0..8]\<rparr>"

definition sample_robot_status :: "nat robot_status" where
  "sample_robot_status = \<lparr>part_statuses = [0, 1], rs_safety_status = current_safety_status sample_sys\<rparr>"

lemma act_ok_single: "act_ok u [Some a, None]"
  by (auto simp: act_ok_def nth_Cons split: nat.splits)

lemma sample_act_inv: "act_inv 2 (sample_session_sys session [Some a, None])"
  by (simp add: act_inv_def sample_session_sys_def act_ok_single rt_sys.defs)

section \<open>Properties\<close>

text \<open>At every moment no two active actions of a session are the same or share a part
  slot, and the table of active actions keeps its size: starting actions and handling the reactions of
  a cycle preserve this on every path, errors of the plug-ins included.\<close>

theorem active_actions_exclusive:
  assumes "act_inv n s"
  shows "act_inv n (snd (HandleReactions E v ov r s)) \<and> act_inv n (snd (StartActions E is v ov s)) \<and>
    slots_exclusive (slots s) (active_set s)"
  by (intro conjI rt_invD[OF act_inv_HandleReactions] rt_invD[OF act_inv_StartActions]
      act_inv_exclusive[OF assms]) (rule assms)+

theorem active_actions_exclusive_witness:
  "act_inv 2 (snd (StartActions sample_plugins [0, 1] (Fin 1) 0
     (sample_session_sys sample_session [Some 2, None])))"
proof -
  have "act_inv 2 (sample_session_sys sample_session [Some 2, None])"
    by (rule sample_act_inv)
  from active_actions_exclusive[OF this] show ?thesis by blast
qed

text \<open>When starting actions succeeds, every requested action is active, and together
  with the actions that stayed active they use disjoint slots: overlapping actions were preempted.\<close>

theorem started_actions_are_active:
  assumes "StartActions E is v ov s = (Inr (), t)" "act_inv n s"
  shows "set is \<subseteq> active_set t \<and> slots_exclusive (slots t) (active_set t)"
  using StartActions_active[OF assms(1)] act_inv_exclusive[of n t]
    rt_invD[OF act_inv_StartActions assms(2), of E "is" v ov] assms(1)
  by simp

theorem started_actions_are_active_witness:
  "{0, 1} \<subseteq> active_set (snd (StartActions sample_plugins [0, 1] (Fin 1) 0
     (sample_session_sys sample_session [Some 2, None])))"
proof -
  let ?s = "sample_session_sys sample_session [Some 2, None]"
  have "fst (StartActions sample_plugins [0, 1] (Fin 1) 0 ?s) = Inr ()" by code_simp
  then have run: "StartActions sample_plugins [0, 1] (Fin 1) 0 ?s =
      (Inr (), snd (StartActions sample_plugins [0, 1] (Fin 1) 0 ?s))"
    by (metis prod.collapse)
  have "act_inv 2 ?s"
    by (rule sample_act_inv)
  from started_actions_are_active[OF run this] show ?thesis by simp
qed

text \<open>C8 (refinement). The trigger logic of one evaluation is an edge detector: the fired flag and the event follow
  it exactly, the event reaches the queue unless the queue is full, and the evaluation returns true, which asks for an action
  switch, exactly when an event is due and the reaction has a target: a reaction that only notifies triggers and returns false.\<close>

theorem reaction_is_edge_detector:
  assumes "EvaluateReactionAndSendEvent ri get r fid s = (Inr b, t)"
    and "reaction_at s ri = Some rx" "ReactionConditionMatches get rx r = Inr m"
    and "edge_step (fire_once rx) (fired rx) m = (f, ev)"
  shows "map_option fired (reaction_at t ri) = Some f \<and> b = (ev \<and> target_action_index rx \<noteq> None) \<and>
    (\<exists>nxt. reaction_queue (channels t) = reaction_queue (channels s) @
      (if ev \<and> length (reaction_queue (channels s)) < reaction_queue_capacity (channels s)
       then [\<lparr>event_id = reaction_id rx, previous_action_id = fid, current_action_id = nxt\<rparr>] else []))"
  by (rule evaluate_edge[OF assms])

theorem reaction_is_edge_detector_witness:
  "map_option fired (reaction_at (snd (EvaluateReactionAndSendEvent 0 EmptyAction_GetStateVariable
     sample_robot_status None (sample_session_sys nine_reactions [None, None]))) 0) = Some True"
proof -
  let ?s = "sample_session_sys nine_reactions [None, None]"
  let ?run = "EvaluateReactionAndSendEvent 0 EmptyAction_GetStateVariable sample_robot_status None ?s"
  have "fst ?run = Inr True" by code_simp
  then have run: "?run = (Inr True, snd ?run)" by (metis prod.collapse)
  have rx: "reaction_at ?s 0 = Some (always_reaction 0 (Some 0))"
    by (simp add: reaction_at_def sample_session_sys_def nine_reactions_def rt_sys.defs upto_rec1)
  have m: "ReactionConditionMatches EmptyAction_GetStateVariable
      (always_reaction 0 (Some 0)) sample_robot_status = Inr True"
    by (subst ReactionConditionMatches_def)
       (simp add: always_reaction_def LookupAndEvaluate_def EvaluateConditionElementRtcl.simps Let_def)
  have "edge_step (fire_once (always_reaction 0 (Some 0) :: nat robot_status realtime_reaction))
      (fired (always_reaction 0 (Some 0) :: nat robot_status realtime_reaction)) True = (True, True)"
    by (simp add: edge_step_def always_reaction_def)
  from reaction_is_edge_detector[OF run rx m this] show ?thesis by simp
qed

text \<open>Over any number of cycles a reaction that only notifies sends one event per
  rising edge of its condition, or with \<^verbatim>\<open>fire_once\<close> a single event at the first match, as
  long as the queue has room.\<close>

theorem one_event_per_rising_edge:
  assumes "list_all2 (\<lambda>r m. ReactionConditionMatches get rx r = Inr m) rs ms"
    and "reaction_at s ri = Some rx" "target_action_index rx = None" "triggered_signal_id rx = None"
    and "from_action_index rx = None \<or> fid \<noteq> None" "has_channels s"
    and "length (reaction_queue (channels s)) + length rs \<le> reaction_queue_capacity (channels s)"
  shows "\<exists>t. evaluate_cycles ri get fid rs s = (Inr (), t) \<and>
    reaction_queue (channels t) = reaction_queue (channels s) @
      replicate (if fire_once rx then (if \<not> fired rx \<and> True \<in> set ms then 1 else 0)
                 else rising_edges (fired rx) ms)
        \<lparr>event_id = reaction_id rx, previous_action_id = fid, current_action_id = None\<rparr>"
proof -
  have "rx = rx\<lparr>fired := fired rx\<rparr>" by simp
  with assms(2) have "reaction_at s ri = Some (rx\<lparr>fired := fired rx\<rparr>)" by simp
  from evaluate_cycles_events[OF assms(1) this assms(3-7)] show ?thesis
    by (cases "fire_once rx") (simp_all add: count_events_edges count_events_once)
qed

definition notify_session :: "'r realtime_session" where
  "notify_session = \<lparr>session_id = 1, stop_active_actions = True, actions_to_start = [],
     actions = [], reactions = [always_reaction 4 None]\<rparr>"

theorem one_event_per_rising_edge_witness:
  "\<exists>t. evaluate_cycles 0 EmptyAction_GetStateVariable None
      [sample_robot_status, sample_robot_status] (sample_session_sys notify_session [None, None]) = (Inr (), t) \<and>
    reaction_queue (channels t) =
      [\<lparr>event_id = 4, previous_action_id = None, current_action_id = None\<rparr>]"
proof -
  have m: "list_all2 (\<lambda>r m. ReactionConditionMatches EmptyAction_GetStateVariable
      (always_reaction 4 None :: nat robot_status realtime_reaction) r = Inr m)
      [sample_robot_status, sample_robot_status] [True, True]"
    by (simp add: ReactionConditionMatches_def always_reaction_def LookupAndEvaluate_def
        EvaluateConditionElementRtcl.simps Let_def)
  have rx: "reaction_at (sample_session_sys notify_session [None, None]) 0 = Some (always_reaction 4 None)"
    by (simp add: reaction_at_def sample_session_sys_def notify_session_def rt_sys.defs)
  from one_event_per_rising_edge[OF m rx, of None] show ?thesis
    by (simp add: always_reaction_def sample_session_sys_def sample_channels_def rt_sys.defs)
qed

text \<open>A session with nine reactions that switch actions passes the session check, but when
  all nine trigger in one cycle, the vector of triggered reactions overflows its capacity of eight and
  the real-time process is aborted.\<close>

theorem nine_triggered_reactions_abort:
  "VerifySessionData sample_heap (nine_reactions :: nat robot_status realtime_session) = OkStatus \<and>
   fst (HandleReactions sample_plugins (Fin 1) BEHAVIOR_OVERRIDE_REQUEST_UNKNOWN sample_robot_status
     (sample_session_sys nine_reactions [None, None])) = Inl LogFatal"
  by code_simp

end
