(* ===== verification/Session_Manager.thy ===== *)
theory Session_Manager
  imports Reaction_Manager
begin

text \<open>
  \<^verbatim>\<open>intrinsic/icon/control/rtcl_session_manager.{h,cc}\<close>: one session in the real-time
  thread, with the channels of \<^verbatim>\<open>realtime_session_channels.h\<close> and the single-cycle function
  bridge of \<^verbatim>\<open>realtime_function_bridge.h\<close> through which the non-real-time thread installs
  session data. \<^verbatim>\<open>ExecuteCycle\<close> is the whole work of a cycle: finish if asked to, install new
  data, sense, handle reactions, control; any error ends the session and tells the other side.
\<close>

section \<open>The function bridge\<close>

text \<open>\<^verbatim>\<open>SimpleRealtimeFunctionBridge::ServiceCall\<close>: the oldest outstanding call is executed if
  its mutex can be taken without waiting; otherwise it stays for a later attempt. The handler's status
  goes to the caller.\<close>

definition ServiceCall ::
  "('ps robot_status realtime_session \<Rightarrow> (('w, 'ps, 'z) session_sys_scheme, rt_status) rt) \<Rightarrow>
   (('w, 'ps, 'z) session_sys_scheme, bool) rt" where
  "ServiceCall handler =
     rt_bind (rt_gets (\<lambda>s. install_calls (channels s))) (\<lambda>calls.
     case calls of
       [] \<Rightarrow> rt_return False
     | c # cs \<Rightarrow>
         if \<not> lock_free c then rt_return False
         else
           rt_bind (handler (new_session c)) (\<lambda>st.
           rt_bind (rt_modify (\<lambda>s. s\<lparr>channels := (channels s)\<lparr>install_calls := cs,
              install_results := install_results (channels s) @ [st]\<rparr>\<rparr>)) (\<lambda>_.
             rt_return True)))"

definition CloseBridge :: "(('w, 'ps, 'z) session_sys_scheme, unit) rt" where
  "CloseBridge = rt_modify (\<lambda>s. s\<lparr>channels := (channels s)\<lparr>bridge_closed := True\<rparr>\<rparr>)"

section \<open>Ending a session\<close>

text \<open>The status of a call whose error is logged and otherwise ignored.\<close>

definition ignore_error :: "('s, 'a) rt \<Rightarrow> ('s, unit) rt" where
  "ignore_error m = rt_bind (rt_try m) (\<lambda>_. rt_return ())"

definition release_part :: "nat \<Rightarrow> (('w, 'ps, 'z) session_sys_scheme, unit) rt" where
  "release_part i =
     rt_bind (ignore_error (SetPartContext i empty_context)) (\<lambda>_.
     rt_bind (rt_gets (\<lambda>s. current_session s \<noteq> None)) (\<lambda>has_session.
       rt_when has_session (ignore_error (UnmarkPartAsControlledByAction i))))"

definition clear_session :: "('w, 'ps, 'z) session_sys_scheme \<Rightarrow> ('w, 'ps, 'z) session_sys_scheme" where
  "clear_session s = s\<lparr>current_session := None,
     active_action_indices := map (\<lambda>_. None) (active_action_indices s), has_channels := False\<rparr>"

definition CleanupAndNotify :: "(('w, 'ps, 'z) session_sys_scheme, unit) rt" where
  "CleanupAndNotify =
     rt_bind (rt_gets part_indices) (\<lambda>parts.
     rt_bind (rt_for parts release_part) (\<lambda>_.
     rt_bind (rt_gets has_channels) (\<lambda>has.
     rt_bind (rt_when has
       (rt_bind CloseBridge (\<lambda>_.
        rt_bind (ServiceCall (\<lambda>_. rt_return (Error Aborted))) (\<lambda>_. rt_return ())))) (\<lambda>_.
     rt_bind (rt_modify clear_session) (\<lambda>_.
       rt_when has (rt_modify (\<lambda>s. s\<lparr>channels := (channels s)\<lparr>finish_done := True\<rparr>\<rparr>)))))))"

definition SetErrorCleanupNotify :: "rt_status \<Rightarrow> (('w, 'ps, 'z) session_sys_scheme, unit) rt" where
  "SetErrorCleanupNotify status =
     rt_bind (rt_modify (\<lambda>s. s\<lparr>session_status := status\<rparr>)) (\<lambda>_.
     rt_bind (rt_gets has_channels) (\<lambda>has.
     rt_bind (rt_when has
       (rt_bind (rt_modify (\<lambda>s. s\<lparr>channels := (channels s)\<lparr>session_status_buffer := status\<rparr>\<rparr>)) (\<lambda>_.
        rt_bind (ServiceCall (\<lambda>_. rt_return status)) (\<lambda>_. rt_return ())))) (\<lambda>_.
       CleanupAndNotify)))"

definition FinishSessionIfRequested :: "(('w, 'ps, 'z) session_sys_scheme, unit) rt" where
  "FinishSessionIfRequested =
     rt_bind (rt_gets (\<lambda>s. has_channels s \<and> finish_requested (channels s))) (\<lambda>b.
       rt_when b CleanupAndNotify)"

section \<open>Creating a session\<close>

text \<open>The constructor, then the log contexts of the parts; if a part does not exist, the destructor of
  the new manager ends the session again. \<open>part_indices\<close> is the set of parts in iteration order.\<close>

definition Create ::
  "int \<Rightarrow> nat list \<Rightarrow> log_context \<Rightarrow> safety_status option \<Rightarrow> (('w, 'ps, 'z) session_sys_scheme, unit) rt" where
  "Create sid parts ctx safety =
     (if kMaxRealtimeParts < length parts then rt_fail (Error FailedPrecondition)
      else
        rt_bind (rt_modify (\<lambda>s. s\<lparr>sm_session_id := sid, has_channels := True, current_session := None,
           active_action_indices := replicate (length (part_infos s)) None,
           session_status := OkStatus, safety_status_message := safety, part_indices := parts,
           channels := (channels s)\<lparr>session_status_buffer := OkStatus\<rparr>\<rparr>)) (\<lambda>_.
        rt_bind (rt_try (rt_for parts (\<lambda>i. SetPartContext i (ctx\<lparr>icon_session_id := Some sid\<rparr>)))) (\<lambda>r.
          case r of
            Inr u \<Rightarrow> rt_return ()
          | Inl e \<Rightarrow> rt_bind CleanupAndNotify (\<lambda>_. rt_fail e))))"

section \<open>Safety requests\<close>

definition IsSafetyRequestingToTerminateSession :: "('w, 'ps, 'z) session_sys_scheme \<Rightarrow> bool" where
  "IsSafetyRequestingToTerminateSession s =
     (case safety_status_message s of
        None \<Rightarrow> False
      | Some m \<Rightarrow> requested_behavior m = RB_SAFE_STOP_1_TIME_MONITORED \<or>
                  requested_behavior m = RB_SAFE_STOP_0)"

definition IsSafetyRequestingToPauseCurrentSession :: "('w, 'ps, 'z) session_sys_scheme \<Rightarrow> bool" where
  "IsSafetyRequestingToPauseCurrentSession s =
     (case safety_status_message s of
        None \<Rightarrow> False
      | Some m \<Rightarrow> requested_behavior m = RB_SAFE_STOP_2_TIME_MONITORED \<or>
                  requested_behavior m = RB_PAUSE)"

definition IsSafetyBlockingSessionCreation :: "('w, 'ps, 'z) session_sys_scheme \<Rightarrow> bool" where
  "IsSafetyBlockingSessionCreation s = IsSafetyRequestingToTerminateSession s"

section \<open>New session data\<close>

text \<open>The fired flags carry over to reactions with the same id, from the first match.\<close>

definition keep_fired ::
  "'r realtime_session option \<Rightarrow> 'r realtime_session \<Rightarrow> 'r realtime_session" where
  "keep_fired old new =
     (case old of
        None \<Rightarrow> new
      | Some o' \<Rightarrow> new\<lparr>reactions := map (\<lambda>r.
          case find (\<lambda>x. reaction_id x = reaction_id r) (reactions o') of
            None \<Rightarrow> r | Some x \<Rightarrow> r\<lparr>fired := fired x\<rparr>) (reactions new)\<rparr>)"

definition drop_deleted :: "'r realtime_session \<Rightarrow> nat option list \<Rightarrow> nat option list" where
  "drop_deleted session = map (\<lambda>e. case e of
     None \<Rightarrow> None
   | Some i \<Rightarrow> if length (actions session) \<le> i then None
               else if actions session ! i = None then None else Some i)"

definition HandleNewSessionDataImpl ::
  "('w, 'ps) plugins \<Rightarrow> double \<Rightarrow> behavior_override_request \<Rightarrow> 'ps robot_status realtime_session \<Rightarrow>
   (('w, 'ps, 'z) session_sys_scheme, unit) rt" where
  "HandleNewSessionDataImpl E speed_override override new =
     rt_bind (rt_gets session_status) (\<lambda>st.
     rt_bind (rt_check st) (\<lambda>_.
     rt_bind (rt_gets IsSafetyBlockingSessionCreation) (\<lambda>blocked.
     if blocked then rt_fail (Error Unavailable)
     else
       rt_bind (rt_modify (\<lambda>s. let x = keep_fired (current_session s) new in
          s\<lparr>current_session := Some x,
            active_action_indices :=
              (if stop_active_actions x then map (\<lambda>_. None) (active_action_indices s)
               else drop_deleted x (active_action_indices s))\<rparr>)) (\<lambda>_.
       rt_bind GetSession (\<lambda>session.
       rt_bind (rt_lift_st (\<lambda>s. GetFirstSlotOverlap (heap s) session (actions_to_start session))) (\<lambda>overlap.
       if overlap \<noteq> None then rt_fail (Error InvalidArgument)
       else StartActions E (actions_to_start session) speed_override override))))))"

definition HandleNewSessionData ::
  "('w, 'ps) plugins \<Rightarrow> double \<Rightarrow> behavior_override_request \<Rightarrow>
   (('w, 'ps, 'z) session_sys_scheme, unit) rt" where
  "HandleNewSessionData E speed_override override =
     rt_bind (rt_gets (\<lambda>s. length (install_results (channels s)))) (\<lambda>n.
     rt_bind (ServiceCall (\<lambda>new.
        rt_bind (rt_try (HandleNewSessionDataImpl E speed_override override new))
          (\<lambda>r. rt_return (status_of r)))) (\<lambda>ticked.
     if ticked then rt_bind (rt_gets (\<lambda>s. install_results (channels s) ! n)) rt_check
     else rt_return ()))"

section \<open>The cycle\<close>

definition active_instance ::
  "nat \<Rightarrow> (('w, 'ps, 'z) session_sys_scheme, addr) rt" where
  "active_instance i =
     rt_bind GetSession (\<lambda>session.
     if length (actions session) \<le> i then rt_fail (Error NotFound)
     else case actions session ! i of None \<Rightarrow> rt_fail (Error Internal) | Some p \<Rightarrow> rt_return p)"

definition sense_action ::
  "('w, 'ps) plugins \<Rightarrow> double \<Rightarrow> behavior_override_request \<Rightarrow> nat option \<Rightarrow>
   (('w, 'ps, 'z) session_sys_scheme, unit) rt" where
  "sense_action E speed_override override entry =
     (case entry of
        None \<Rightarrow> rt_return ()
      | Some i \<Rightarrow>
          rt_bind (active_instance i) (\<lambda>p.
          rt_bind (action_object p) (\<lambda>(a, sm).
          rt_bind (rt_gets (\<lambda>s. heap s p)) (\<lambda>inst.
          if \<not> ActionSupportsRequestedOverrideBehavior (supported_behavior_overrides inst) override
          then rt_fail (Error Aborted)
          else
            rt_bind (world_call (Sense E a sm (streaming_io_storage inst) (signal_values inst)
                       speed_override override)) (\<lambda>(sense_status, violations, io).
            rt_bind (rt_modify (upd_instance p (\<lambda>x. x\<lparr>streaming_io_storage := io\<rparr>))) (\<lambda>_.
              if 0 < violations then rt_fail (Error ResourceExhausted) else rt_check sense_status))))))"

definition RunSense ::
  "('w, 'ps) plugins \<Rightarrow> double \<Rightarrow> behavior_override_request \<Rightarrow>
   (('w, 'ps, 'z) session_sys_scheme, unit) rt" where
  "RunSense E speed_override override =
     rt_bind (rt_gets current_session) (\<lambda>cs.
     if cs = None then rt_fail (Error Internal)
     else rt_bind (rt_gets active_action_indices) (\<lambda>active.
       rt_for active (sense_action E speed_override override)))"

definition mark_visible ::
  "bool list \<Rightarrow> int \<Rightarrow> nat \<Rightarrow> (('w, 'ps, 'z) session_sys_scheme, unit) rt" where
  "mark_visible vs aid i = (if vs ! i then MarkPartAsControlledByAction i aid else rt_return ())"

definition control_action ::
  "('w, 'ps) plugins \<Rightarrow> double \<Rightarrow> behavior_override_request \<Rightarrow> nat option \<Rightarrow>
   (('w, 'ps, 'z) session_sys_scheme, unit) rt" where
  "control_action E speed_override override entry =
     (case entry of
        None \<Rightarrow> rt_return ()
      | Some i \<Rightarrow>
          rt_bind (active_instance i) (\<lambda>p.
          rt_bind (action_object p) (\<lambda>(a, sm).
          rt_bind (rt_gets (\<lambda>s. heap s p)) (\<lambda>inst.
          let vs = the (visibility_by_slot_id inst) in
          rt_bind (rt_for [0..<length vs] (mark_visible vs (ai_id inst))) (\<lambda>_.
          if \<not> ActionSupportsRequestedOverrideBehavior (supported_behavior_overrides inst) override
          then rt_fail (Error Aborted)
          else
            rt_bind (world_call (Control E a sm speed_override override)) (\<lambda>(control_status, violations).
              if 0 < violations then rt_fail (Error ResourceExhausted) else rt_check control_status))))))"

definition RunControl ::
  "('w, 'ps) plugins \<Rightarrow> double \<Rightarrow> behavior_override_request \<Rightarrow>
   (('w, 'ps, 'z) session_sys_scheme, unit) rt" where
  "RunControl E speed_override override =
     rt_bind (rt_gets current_session) (\<lambda>cs.
     if cs = None then rt_fail (Error Internal)
     else rt_bind (rt_gets active_action_indices) (\<lambda>active.
       rt_for active (control_action E speed_override override)))"

text \<open>\<^verbatim>\<open>if (status = step; !status.ok()) { SetErrorCleanupNotify(status); return status; }\<close>\<close>

definition or_cleanup :: "(('w, 'ps, 'z) session_sys_scheme, unit) rt \<Rightarrow>
    (('w, 'ps, 'z) session_sys_scheme, unit) rt" where
  "or_cleanup m =
     rt_bind (rt_try m) (\<lambda>r.
       if status_of r = OkStatus then rt_return ()
       else rt_bind (SetErrorCleanupNotify (status_of r)) (\<lambda>_. rt_fail (status_of r)))"

definition ExecuteCycle ::
  "('w, 'ps) plugins \<Rightarrow> double \<Rightarrow> 'ps robot_status \<Rightarrow> (('w, 'ps, 'z) session_sys_scheme, unit) rt" where
  "ExecuteCycle E speed_override0 r =
     rt_bind FinishSessionIfRequested (\<lambda>_.
     rt_bind (rt_gets IsSafetyRequestingToPauseCurrentSession) (\<lambda>pause.
     let override = (if pause then BEHAVIOR_OVERRIDE_REQUEST_PAUSE else BEHAVIOR_OVERRIDE_REQUEST_UNKNOWN);
         speed_override = (if pause then Fin 0 else speed_override0) in
     rt_bind (rt_gets has_channels) (\<lambda>has.
     if \<not> has then rt_return ()
     else
       rt_bind (or_cleanup (HandleNewSessionData E speed_override override)) (\<lambda>_.
       rt_bind (rt_gets current_session) (\<lambda>cs.
       if cs = None then rt_return ()
       else
         rt_bind (or_cleanup (RunSense E speed_override override)) (\<lambda>_.
         rt_bind (rt_gets IsSafetyRequestingToTerminateSession) (\<lambda>terminate.
         rt_bind (or_cleanup (if terminate then rt_fail (Error Unavailable) else rt_return ())) (\<lambda>_.
         rt_bind (or_cleanup (HandleReactions E speed_override override r)) (\<lambda>_.
           or_cleanup (RunControl E speed_override override))))))))))"


section \<open>Ending a session, in one step\<close>

text \<open>Ending a session cannot fail; its whole effect is \<open>closed_state\<close>.\<close>

definition released :: "bool \<Rightarrow> part_info \<Rightarrow> part_info" where
  "released unmark p = p\<lparr>part_context := empty_context,
     controlled_by := (if unmark then None else controlled_by p)\<rparr>"

definition released_parts :: "bool \<Rightarrow> nat list \<Rightarrow> part_info list \<Rightarrow> part_info list" where
  "released_parts unmark is ps =
     map (\<lambda>j. if j \<in> set is then released unmark (ps ! j) else ps ! j) [0..<length ps]"

definition answer_call :: "rt_status \<Rightarrow> 'r session_channels \<Rightarrow> 'r session_channels" where
  "answer_call st c =
     (case install_calls c of
        [] \<Rightarrow> c
      | k # ks \<Rightarrow> if lock_free k
                   then c\<lparr>install_calls := ks, install_results := install_results c @ [st]\<rparr> else c)"

definition closed_state :: "('w, 'ps, 'z) session_sys_scheme \<Rightarrow> ('w, 'ps, 'z) session_sys_scheme" where
  "closed_state s = clear_session (s\<lparr>
     part_infos := released_parts (current_session s \<noteq> None) (part_indices s) (part_infos s),
     channels := (if has_channels s
       then (answer_call (Error Aborted) (channels s))\<lparr>bridge_closed := True, finish_done := True\<rparr>
       else channels s)\<rparr>)"

lemma released_idem [simp]: "released b (released b p) = released b p"
  by (simp add: released_def)

lemma release_part_eq:
  "release_part i s = (Inr (), s\<lparr>part_infos := released_parts (current_session s \<noteq> None) [i] (part_infos s)\<rparr>)"
proof -
  have "released_parts b [i] ps = ps[i := released b (ps ! i)]" for b ps
    by (intro nth_equalityI) (auto simp: released_parts_def nth_list_update)
  then show ?thesis
    by (cases "length (part_infos s) \<le> i"; cases "current_session s")
       (simp_all add: release_part_def ignore_error_def SetPartContext_def UnmarkPartAsControlledByAction_def
         rt_defs crash_def upd_part_def released_def list_update_beyond)
qed

lemma released_parts_comp:
  "released_parts b is (released_parts b [i] ps) = released_parts b (i # is) ps"
  by (intro nth_equalityI) (auto simp: released_parts_def)

lemma release_parts_eq:
  "rt_for is release_part s =
     (Inr (), s\<lparr>part_infos := released_parts (current_session s \<noteq> None) is (part_infos s)\<rparr>)"
proof (induction "is" arbitrary: s)
  case Nil
  have "released_parts b [] ps = ps" for b ps by (simp add: released_parts_def map_nth)
  then show ?case by (simp add: rt_defs)
next
  case (Cons i "is")
  then show ?case by (simp add: rt_bind_def release_part_eq released_parts_comp)
qed

lemma ServiceCall_pure:
  "fst (ServiceCall (\<lambda>_. rt_return st) s) \<in> range Inr"
  "snd (ServiceCall (\<lambda>_. rt_return st) s) = s\<lparr>channels := answer_call st (channels s)\<rparr>"
  by (auto simp: ServiceCall_def answer_call_def rt_defs split: list.splits)

lemma ServiceCall_pure_bind:
  "rt_bind (ServiceCall (\<lambda>_. rt_return st)) (\<lambda>_. rt_return ()) s =
     (Inr (), s\<lparr>channels := answer_call st (channels s)\<rparr>)"
  using ServiceCall_pure[of st s] by (cases "ServiceCall (\<lambda>_. rt_return st) s") (auto simp: rt_defs)

lemma answer_call_fields [simp]:
  "bridge_closed (answer_call st c) = bridge_closed c" "finish_done (answer_call st c) = finish_done c"
  "finish_requested (answer_call st c) = finish_requested c"
  "session_status_buffer (answer_call st c) = session_status_buffer c"
  "reaction_queue (answer_call st c) = reaction_queue c"
  "answer_call st (c\<lparr>bridge_closed := b\<rparr>) = (answer_call st c)\<lparr>bridge_closed := b\<rparr>"
  by (simp_all add: answer_call_def split: list.splits)

lemma CleanupAndNotify_eq: "CleanupAndNotify s = (Inr (), closed_state s)"
proof -
  have answer: "rt_bind CloseBridge (\<lambda>_. rt_bind (ServiceCall (\<lambda>_. rt_return st)) (\<lambda>_. rt_return ())) u =
      (Inr (), u\<lparr>channels := (answer_call st (channels u))\<lparr>bridge_closed := True\<rparr>\<rparr>)"
    for st and u :: "('a, 'b, 'c) session_sys_scheme"
    by (simp add: CloseBridge_def rt_bind_modify ServiceCall_pure_bind)
  show ?thesis
    by (cases "has_channels s")
       (simp_all add: CleanupAndNotify_def rt_bind_gets rt_when_def rt_bind_modify rt_bind_run[OF release_parts_eq]
         rt_bind_run[OF answer] closed_state_def clear_session_def rt_return_def rt_modify_def)
qed

definition failed_state :: "rt_status \<Rightarrow> ('w, 'ps, 'z) session_sys_scheme \<Rightarrow> ('w, 'ps, 'z) session_sys_scheme" where
  "failed_state st s = closed_state (s\<lparr>session_status := st, channels := (if has_channels s
     then answer_call st ((channels s)\<lparr>session_status_buffer := st\<rparr>) else channels s)\<rparr>)"

lemma SetErrorCleanupNotify_eq: "SetErrorCleanupNotify st s = (Inr (), failed_state st s)"
proof -
  have answer: "rt_bind (rt_modify (\<lambda>s. s\<lparr>channels := (channels s)\<lparr>session_status_buffer := st\<rparr>\<rparr>))
      (\<lambda>_. rt_bind (ServiceCall (\<lambda>_. rt_return st)) (\<lambda>_. rt_return ())) u =
      (Inr (), u\<lparr>channels := answer_call st ((channels u)\<lparr>session_status_buffer := st\<rparr>)\<rparr>)"
    for u :: "('a, 'b, 'c) session_sys_scheme"
    by (simp add: rt_bind_modify ServiceCall_pure_bind)
  show ?thesis
    by (cases "has_channels s")
       (simp_all add: SetErrorCleanupNotify_def rt_bind_modify rt_bind_gets rt_when_def
         rt_bind_run[OF answer] CleanupAndNotify_eq failed_state_def)
qed

lemma or_cleanup_Inr:
  "or_cleanup m s = (Inr u, t) \<longleftrightarrow> m s = (Inr (), t) \<or> m s = (Inl OkStatus, t)"
  by (cases "m s"; cases "fst (m s)")
     (auto simp: or_cleanup_def rt_defs SetErrorCleanupNotify_eq crash_def split: if_splits)

lemma or_cleanup_Inl:
  "or_cleanup m s = (Inl e, t) \<longleftrightarrow> e \<noteq> OkStatus \<and>
     (\<exists>u. m s = (Inl e, u) \<and> t = (if crash e then u else failed_state e u))"
  by (cases "m s"; cases "fst (m s)")
     (auto simp: or_cleanup_def rt_defs SetErrorCleanupNotify_eq crash_def split: if_splits)

section \<open>An open session\<close>

text \<open>What no step of a cycle changes before the session is ended: its parts, its channels, the safety
  message, and that session data is installed.\<close>

definition sess_open ::
  "nat list \<Rightarrow> safety_status option \<Rightarrow> bool \<Rightarrow> ('w, 'ps, 'z) session_sys_scheme \<Rightarrow> bool" where
  "sess_open P m installed s \<longleftrightarrow> has_channels s \<and> part_indices s = P \<and> safety_status_message s = m \<and>
     (installed \<longrightarrow> current_session s \<noteq> None)"

lemma update_fields [simp]:
  "has_channels (upd_reaction i f s) = has_channels s" "part_indices (upd_reaction i f s) = part_indices s"
  "safety_status_message (upd_reaction i f s) = safety_status_message s"
  "has_channels (upd_instance p g s) = has_channels s" "part_indices (upd_instance p g s) = part_indices s"
  "safety_status_message (upd_instance p g s) = safety_status_message s"
  "current_session (upd_instance p g s) = current_session s"
  "has_channels (set_active k v s) = has_channels s" "part_indices (set_active k v s) = part_indices s"
  "safety_status_message (set_active k v s) = safety_status_message s"
  "current_session (set_active k v s) = current_session s"
  "has_channels (reset_fired j s) = has_channels s" "part_indices (reset_fired j s) = part_indices s"
  "safety_status_message (reset_fired j s) = safety_status_message s"
  "has_channels (upd_part l h s) = has_channels s" "part_indices (upd_part l h s) = part_indices s"
  "safety_status_message (upd_part l h s) = safety_status_message s"
  "current_session (upd_part l h s) = current_session s"
  "current_session (upd_reaction i f s) = None \<longleftrightarrow> current_session s = None"
  "current_session (reset_fired j s) = None \<longleftrightarrow> current_session s = None"
  "part_infos (upd_reaction i f s) = part_infos s" "part_infos (upd_instance p g s) = part_infos s"
  "part_infos (set_active k v s) = part_infos s" "part_infos (reset_fired j s) = part_infos s"
  by (simp_all add: upd_reaction_def upd_instance_def set_active_def reset_fired_def upd_part_def)

lemmas step_defs =
  GetSession_def GetAction_def DeactivateAction_def action_object_def GetSlotMapForAction_def
  start_action_def StartActions_def preempt_overlapping_def preempt_entry_def
  AssignActionToSuitableActionEntry_def DeactivateActionByIndex_def EvaluateReactionAndSendEvent_def
  next_action_of_def trigger_signal_def check_signal_def Let_def

text \<open>The steps of a cycle change actions, reactions, the world and the queue of events; to the parts they only add
  marks. A predicate that those changes keep is kept by every step.\<close>

locale session_frame =
  fixes I :: "('w, 'ps, 'z) session_sys_scheme \<Rightarrow> bool"
  assumes keep: "part_infos t = part_infos s \<Longrightarrow> has_channels t = has_channels s \<Longrightarrow> part_indices t = part_indices s \<Longrightarrow>
      safety_status_message t = safety_status_message s \<Longrightarrow>
      (current_session s \<noteq> None \<Longrightarrow> current_session t \<noteq> None) \<Longrightarrow> I s \<Longrightarrow> I t"
    and mark: "I s \<Longrightarrow>
      I (upd_part i (\<lambda>p. p\<lparr>controlled_by := Some a, safety_action_active := False\<rparr>) s)"
begin

lemma modify:
  "(\<And>s. part_infos (g s) = part_infos s) \<Longrightarrow> (\<And>s. has_channels (g s) = has_channels s) \<Longrightarrow>
   (\<And>s. part_indices (g s) = part_indices s) \<Longrightarrow> (\<And>s. safety_status_message (g s) = safety_status_message s) \<Longrightarrow>
   (\<And>s. current_session s \<noteq> None \<Longrightarrow> current_session (g s) \<noteq> None) \<Longrightarrow> rt_inv I (rt_modify g)"
  by (rule rt_spec_modify) (rule keep)

lemma modify_mark: "rt_inv I (rt_modify (upd_part i (\<lambda>p. p\<lparr>controlled_by := Some a, safety_action_active := False\<rparr>)))"
  by (rule rt_spec_modify) (rule mark)

lemma world: "rt_inv I (world_call f)"
  by (auto simp: rt_spec_def world_call_def split: prod.splits intro: keep[rotated -1])

lemma send: "rt_inv I (SendEvent x y z)"
  by (auto simp: rt_spec_def SendEvent_def Let_def intro: keep[rotated -1])

lemma keeps_StartActions: "rt_inv I (StartActions E is v ov)"
  unfolding step_defs by (intro rt_rules world modify) simp_all

lemma keeps_HandleReactions: "rt_inv I (HandleReactions E v ov r)"
  unfolding HandleReactions_def check_reaction_parts_def GetPartState_def handle_free_standing_def
    handle_active_entry_def handle_associated_def save_previous_signal_def
    check_and_add_rt_reaction_def CheckReactionEffects_def ExecuteRtReactions_def execute_reaction_def
    sense_started_def step_defs
  by (intro rt_rules world send modify) simp_all

lemma keeps_RunSense: "rt_inv I (RunSense E v ov)"
  unfolding RunSense_def sense_action_def active_instance_def step_defs by (intro rt_rules world modify) simp_all

lemma keeps_RunControl: "rt_inv I (RunControl E v ov)"
  unfolding RunControl_def control_action_def mark_visible_def MarkPartAsControlledByAction_def
    active_instance_def step_defs
  by (intro rt_rules world modify_mark)

lemma keeps_ServiceCall: "(\<And>x. rt_inv I (h x)) \<Longrightarrow> rt_inv I (ServiceCall h)"
  unfolding ServiceCall_def
  by (rule rt_inv_bind[OF rt_inv_gets]) (auto split: list.split intro!: rt_rules modify)

lemma keeps_HandleNewSessionData: "rt_inv I (HandleNewSessionData E v ov)"
  unfolding HandleNewSessionData_def HandleNewSessionDataImpl_def GetSession_def
  by (intro rt_rules keeps_ServiceCall keeps_StartActions modify) (simp_all add: Let_def)

end

interpretation sess: session_frame "sess_open P m installed" for P m installed
  by unfold_locales (auto simp: sess_open_def)

section \<open>The three kinds of cycle\<close>

lemma has_channels_closed [simp]: "\<not> has_channels (closed_state s)"
  by (simp add: closed_state_def clear_session_def)

definition safety_override :: "('w, 'ps, 'z) session_sys_scheme \<Rightarrow> behavior_override_request" where
  "safety_override s = (if IsSafetyRequestingToPauseCurrentSession s then BEHAVIOR_OVERRIDE_REQUEST_PAUSE
     else BEHAVIOR_OVERRIDE_REQUEST_UNKNOWN)"

definition safety_speed :: "('w, 'ps, 'z) session_sys_scheme \<Rightarrow> double \<Rightarrow> double" where
  "safety_speed s v = (if IsSafetyRequestingToPauseCurrentSession s then Fin 0 else v)"

definition open_cycle ::
  "('w, 'ps) plugins \<Rightarrow> double \<Rightarrow> behavior_override_request \<Rightarrow> 'ps robot_status \<Rightarrow>
   (('w, 'ps, 'z) session_sys_scheme, unit) rt" where
  "open_cycle E v ov r =
     rt_bind (or_cleanup (HandleNewSessionData E v ov)) (\<lambda>_.
     rt_bind (rt_gets current_session) (\<lambda>cs.
     if cs = None then rt_return ()
     else
       rt_bind (or_cleanup (RunSense E v ov)) (\<lambda>_.
       rt_bind (rt_gets IsSafetyRequestingToTerminateSession) (\<lambda>terminate.
       rt_bind (or_cleanup (if terminate then rt_fail (Error Unavailable) else rt_return ())) (\<lambda>_.
       rt_bind (or_cleanup (HandleReactions E v ov r)) (\<lambda>_. or_cleanup (RunControl E v ov)))))))"

lemma FinishSessionIfRequested_eq:
  "FinishSessionIfRequested s =
     (Inr (), if has_channels s \<and> finish_requested (channels s) then closed_state s else s)"
  by (simp add: FinishSessionIfRequested_def rt_bind_gets rt_when_def CleanupAndNotify_eq rt_return_def)

lemma ExecuteCycle_eq:
  "ExecuteCycle E v r s =
     (if \<not> has_channels s then (Inr (), s)
      else if finish_requested (channels s) then (Inr (), closed_state s)
      else open_cycle E (safety_speed s v) (safety_override s) r s)"
  unfolding ExecuteCycle_def rt_bind_run[OF FinishSessionIfRequested_eq]
    safety_speed_def safety_override_def open_cycle_def rt_bind_gets Let_def
  by (cases "has_channels s \<and> finish_requested (channels s)"; cases "IsSafetyRequestingToPauseCurrentSession s")
     (auto simp: rt_return_def)

lemma rt_spec_or_cleanup:
  assumes "rt_inv I m"
  shows "rt_spec I (or_cleanup m) (\<lambda>_. I)
    (\<lambda>e t. e \<noteq> OkStatus \<and> (\<not> crash e \<longrightarrow> (\<exists>u. I u \<and> t = failed_state e u)))"
proof (rule rt_specI)
  fix s x t assume "I s" "or_cleanup m s = (Inr x, t)"
  then show "I t" unfolding or_cleanup_Inr by (blast dest: rt_specD_Inr[OF assms] rt_specD_Inl[OF assms])
next
  fix s e t assume "I s" "or_cleanup m s = (Inl e, t)"
  then show "e \<noteq> OkStatus \<and> (\<not> crash e \<longrightarrow> (\<exists>u. I u \<and> t = failed_state e u))"
    unfolding or_cleanup_Inl by (auto dest: rt_specD_Inl[OF assms])
qed

lemma open_cycle_fails:
  assumes "open_cycle E v ov r s = (Inl e, t)" "\<not> crash e" "sess_open P m c s"
  obtains u where "e \<noteq> OkStatus" "t = failed_state e u" "sess_open P m c u"
proof -
  let ?E = "\<lambda>e t. e \<noteq> OkStatus \<and> (\<not> crash e \<longrightarrow> (\<exists>u. sess_open P m c u \<and> t = failed_state e u))"
  have gets: "rt_spec (sess_open P m c) (rt_gets f) (\<lambda>_. sess_open P m c) ?E" for f :: "_ \<Rightarrow> 'd"
    by (rule rt_spec_gets)
  have "rt_spec (sess_open P m c) (open_cycle E v ov r) (\<lambda>_. sess_open P m c) ?E"
    unfolding open_cycle_def
    by (intro rt_spec_bind[OF rt_spec_or_cleanup] rt_spec_bind[OF gets] rt_spec_if rt_spec_return
        rt_spec_or_cleanup sess.keeps_HandleNewSessionData sess.keeps_RunSense sess.keeps_HandleReactions
        sess.keeps_RunControl rt_spec_gets rt_rules)
  from rt_specD_Inl[OF this assms(3,1)] assms(2) that show ?thesis by blast
qed

lemma released_parts_nth:
  "j < length ps \<Longrightarrow> released_parts b is ps ! j = (if j \<in> set is then released b (ps ! j) else ps ! j)"
  by (simp add: released_parts_def)

text \<open>When ending the session keeps the predicate, too, the whole cycle does.\<close>

locale session_inv = session_frame +
  assumes closed: "I s \<Longrightarrow> I (closed_state s)" and failed: "I s \<Longrightarrow> I (failed_state e s)"
begin

lemma keeps_or_cleanup:
  assumes "rt_inv I m"
  shows "rt_inv I (or_cleanup m)"
proof (rule rt_specI)
  fix s x t assume "I s" "or_cleanup m s = (Inr x, t)"
  then show "I t" unfolding or_cleanup_Inr by (blast dest: rt_specD_Inr[OF assms] rt_specD_Inl[OF assms])
next
  fix s e t assume "I s" "or_cleanup m s = (Inl e, t)"
  then obtain u where u: "m s = (Inl e, u)" "t = (if crash e then u else failed_state e u)"
    unfolding or_cleanup_Inl by blast
  have "I u" by (rule rt_specD_Inl[OF assms \<open>I s\<close> u(1)])
  then show "I t" by (simp add: u(2) failed)
qed

lemma keeps_open_cycle: "rt_inv I (open_cycle E v ov r)"
  unfolding open_cycle_def
  by (intro rt_rules keeps_or_cleanup keeps_HandleNewSessionData keeps_RunSense keeps_HandleReactions keeps_RunControl)

lemma keeps_ExecuteCycle: "rt_inv I (ExecuteCycle E v r)"
  by (rule rt_specI)
     (auto simp: ExecuteCycle_eq closed split: if_splits
       dest: rt_specD_Inr[OF keeps_open_cycle] rt_specD_Inl[OF keeps_open_cycle])

end

section \<open>Control marks the parts\<close>

text \<open>\<open>controls_on s t\<close>: between the two states only marks were added and the world moved on.\<close>

definition controls_on ::
  "('w, 'ps, 'z) session_sys_scheme \<Rightarrow> ('w, 'ps, 'z) session_sys_scheme \<Rightarrow> bool" where
  "controls_on s t \<longleftrightarrow> heap t = heap s \<and> current_session t = current_session s \<and>
     active_action_indices t = active_action_indices s \<and> safety_status_message t = safety_status_message s \<and>
     has_channels t = has_channels s \<and> length (part_infos t) = length (part_infos s) \<and>
     (\<forall>j < length (part_infos s). \<forall>a. controlled_by (part_infos s ! j) = Some a \<longrightarrow>
        controlled_by (part_infos t ! j) = Some a)"

lemma controls_on_refl: "controls_on s s"
  by (simp add: controls_on_def)

lemma controls_on_world: "controls_on s (s\<lparr>world := w\<rparr>)"
  by (simp add: controls_on_def)

lemma controls_on_trans: "controls_on s t \<Longrightarrow> controls_on t u \<Longrightarrow> controls_on s u"
  by (simp add: controls_on_def)

definition marked :: "nat \<Rightarrow> int \<Rightarrow> ('w, 'ps, 'z) session_sys_scheme \<Rightarrow> bool" where
  "marked j a s \<longleftrightarrow> j < length (part_infos s) \<and> controlled_by (part_infos s ! j) = Some a"

lemma marked_mono: "controls_on s t \<Longrightarrow> marked j a s \<Longrightarrow> marked j a t"
  by (simp add: controls_on_def marked_def)

lemma Mark_Inr:
  fixes s t :: "('w, 'ps, 'z) session_sys_scheme"
  assumes "MarkPartAsControlledByAction j a s = (Inr (), t)"
  shows "controls_on s t \<and> marked j a t"
proof -
  have "t = upd_part j (\<lambda>p. p\<lparr>controlled_by := Some a, safety_action_active := False\<rparr>) s"
    "j < length (part_infos s)" "controlled_by (part_infos s ! j) = None"
    using assms by (auto simp: MarkPartAsControlledByAction_def rt_Inr_iff rt_bind_gets rt_fail_def
        rt_modify_def split: if_splits)
  then show ?thesis
    by (auto simp: controls_on_def marked_def upd_part_def nth_list_update)
qed

lemma mark_loop_Inr:
  "rt_for js (mark_visible vs a) s = (Inr (), t) \<Longrightarrow>
     controls_on s t \<and> (\<forall>j \<in> set js. vs ! j \<longrightarrow> marked j a t)"
proof (induction js arbitrary: s)
  case Nil
  then show ?case by (simp add: rt_return_Inr controls_on_refl)
next
  case (Cons j js)
  then obtain u where u: "mark_visible vs a j s = (Inr (), u)" "rt_for js (mark_visible vs a) u = (Inr (), t)"
    by (auto simp: rt_bind_Inr)
  have "controls_on s u \<and> (vs ! j \<longrightarrow> marked j a u)"
    using u(1) by (cases "vs ! j") (auto simp: mark_visible_def rt_return_Inr controls_on_refl dest: Mark_Inr)
  with Cons.IH[OF u(2)] show ?case by (auto intro: controls_on_trans marked_mono)
qed

lemma active_instance_Inr:
  "active_instance i s = (Inr p, t) \<longleftrightarrow> t = s \<and>
     (\<exists>x. current_session s = Some x \<and> i < length (actions x) \<and> actions x ! i = Some p)"
  by (auto simp: active_instance_def rt_Inr_iff GetSession_Inr not_le split: if_splits option.splits)

text \<open>What a successful cycle guarantees of an active action: its instance exists, it supports the
  requested behaviour, and every slot it sees is a part marked with its id.\<close>

definition in_control :: "behavior_override_request \<Rightarrow> nat \<Rightarrow> ('w, 'ps, 'z) session_sys_scheme \<Rightarrow> bool" where
  "in_control ov i s \<longleftrightarrow> (\<exists>x p vs. current_session s = Some x \<and> i < length (actions x) \<and> actions x ! i = Some p \<and>
     ActionSupportsRequestedOverrideBehavior (supported_behavior_overrides (heap s p)) ov \<and>
     visibility_by_slot_id (heap s p) = Some vs \<and>
     (\<forall>j < length vs. vs ! j \<longrightarrow> marked j (ai_id (heap s p)) s))"

lemma in_control_mono: "controls_on s t \<Longrightarrow> in_control ov i s \<Longrightarrow> in_control ov i t"
  unfolding in_control_def using marked_mono[of s t] by (fastforce simp: controls_on_def)

lemma control_action_Inr:
  fixes s t :: "('w, 'ps, 'z) session_sys_scheme"
  assumes "control_action E v ov (Some i) s = (Inr (), t)"
  shows "controls_on s t \<and> in_control ov i t"
proof -
  from assms obtain p as s1 where p: "active_instance i s = (Inr p, s)" and
    as: "action_object p s = (Inr as, s1)" and
    k: "(case as of (a, sm) \<Rightarrow> rt_bind (rt_gets (\<lambda>s. heap s p)) (\<lambda>inst.
          let vs = the (visibility_by_slot_id inst) in
          rt_bind (rt_for [0..<length vs] (mark_visible vs (ai_id inst))) (\<lambda>_.
          if \<not> ActionSupportsRequestedOverrideBehavior (supported_behavior_overrides inst) ov
          then rt_fail (Error Aborted)
          else
            rt_bind (world_call (Control E a sm v ov)) (\<lambda>(control_status, violations).
              if 0 < violations then rt_fail (Error ResourceExhausted) else rt_check control_status)))) s1 =
        (Inr (), t)"
    by (auto simp: control_action_def rt_bind_Inr active_instance_Inr)
  from as obtain vs where vs: "visibility_by_slot_id (heap s p) = Some vs" and s1: "s1 = s"
    by (auto simp: action_object_def GetSlotMapForAction_def rt_Inr_iff split: option.splits)
  obtain x where x: "current_session s = Some x" "i < length (actions x)" "actions x ! i = Some p"
    using p by (auto simp: active_instance_Inr)
  from k obtain u w where u: "rt_for [0..<length vs] (mark_visible vs (ai_id (heap s p))) s = (Inr (), u)"
    and ov: "ActionSupportsRequestedOverrideBehavior (supported_behavior_overrides (heap s p)) ov"
    and t: "t = u\<lparr>world := w\<rparr>"
    by (auto simp: s1 vs Let_def rt_Inr_iff world_call_Inr split: prod.splits if_splits)
  from mark_loop_Inr[OF u] have c: "controls_on s u" and m: "\<forall>j < length vs. vs ! j \<longrightarrow> marked j (ai_id (heap s p)) u"
    by auto
  then have "in_control ov i u" using x vs ov by (auto simp: in_control_def controls_on_def)
  moreover have "controls_on u t" by (simp add: t controls_on_world)
  ultimately show ?thesis using controls_on_trans[OF c] in_control_mono by blast
qed

lemma control_loop_Inr:
  "rt_for es (control_action E v ov) s = (Inr (), t) \<Longrightarrow>
     controls_on s t \<and> (\<forall>i. Some i \<in> set es \<longrightarrow> in_control ov i t)"
proof (induction es arbitrary: s)
  case Nil
  then show ?case by (simp add: rt_return_Inr controls_on_refl)
next
  case (Cons e es)
  then obtain u where u: "control_action E v ov e s = (Inr (), u)" "rt_for es (control_action E v ov) u = (Inr (), t)"
    by (auto simp: rt_bind_Inr)
  have "controls_on s u \<and> (\<forall>i. e = Some i \<longrightarrow> in_control ov i u)"
  proof (cases e)
    case None
    then show ?thesis using u(1) by (simp add: control_action_def rt_return_Inr controls_on_refl)
  next
    case (Some i)
    then show ?thesis using control_action_Inr u(1) by blast
  qed
  with Cons.IH[OF u(2)] show ?case by (auto intro: controls_on_trans in_control_mono)
qed

lemma RunControl_Inr:
  assumes "RunControl E v ov s = (Inr (), t)"
  shows "controls_on s t \<and> (\<forall>i \<in> active_set t. in_control ov i t)"
  using assms control_loop_Inr[of "active_action_indices s" E v ov s t]
  by (auto simp: RunControl_def rt_Inr_iff active_set_def controls_on_def split: if_splits)

text \<open>Control never fails with an OK status.\<close>

definition real_error :: "('s, 'a) rt \<Rightarrow> bool" where
  "real_error m \<longleftrightarrow> (\<forall>s t. m s \<noteq> (Inl OkStatus, t))"

lemma real_error_rules:
  "real_error (rt_return x)" "real_error (rt_gets f)" "real_error (rt_check e)" "real_error (rt_modify g)"
  "e \<noteq> OkStatus \<Longrightarrow> real_error (rt_fail e)" "real_error (world_call h)"
  by (auto simp: real_error_def rt_defs world_call_def split: prod.splits if_splits)

lemma real_error_bind: "real_error m \<Longrightarrow> (\<And>x. real_error (f x)) \<Longrightarrow> real_error (rt_bind m f)"
  by (fastforce simp: real_error_def rt_bind_def split: prod.splits sum.splits)

lemma real_error_for: "(\<And>x. real_error (b x)) \<Longrightarrow> real_error (rt_for xs b)"
  by (induction xs) (auto intro: real_error_rules real_error_bind)

lemma real_error_splits:
  "real_error m \<Longrightarrow> real_error n \<Longrightarrow> real_error (if b then m else n)"
  "real_error m \<Longrightarrow> (\<And>y. real_error (k y)) \<Longrightarrow> real_error (case opt of None \<Rightarrow> m | Some y \<Rightarrow> k y)"
  "(\<And>x y. real_error (l x y)) \<Longrightarrow> real_error (case p of (x, y) \<Rightarrow> l x y)"
  by (auto split: option.splits prod.splits)

lemma real_error_GetSession: "real_error GetSession"
  by (auto simp: real_error_def GetSession_def rt_defs split: option.splits)

lemma real_error_RunControl: "real_error (RunControl E v ov)"
  unfolding RunControl_def control_action_def active_instance_def action_object_def GetSlotMapForAction_def
    mark_visible_def MarkPartAsControlledByAction_def Let_def
  by (intro real_error_bind real_error_for real_error_splits real_error_rules real_error_GetSession) simp_all

lemma cycle_ends_with_control:
  assumes "ExecuteCycle E v r s = (Inr (), t)" "current_session t \<noteq> None" "has_channels t"
  obtains u where "RunControl E (safety_speed s v) (safety_override s) u = (Inr (), t)"
proof -
  have "open_cycle E (safety_speed s v) (safety_override s) r s = (Inr (), t)"
    using assms by (auto simp: ExecuteCycle_eq split: if_splits)
  then obtain u where "or_cleanup (RunControl E (safety_speed s v) (safety_override s)) u = (Inr (), t)"
    using assms(2) unfolding open_cycle_def rt_bind_Inr rt_gets_Inr
    by (force simp: rt_return_Inr rt_bind_Inr rt_gets_Inr split: if_splits)
  then show ?thesis
    using that real_error_RunControl[of E "safety_speed s v" "safety_override s"]
    unfolding or_cleanup_Inr real_error_def by blast
qed

section \<open>Exclusive slots through a whole cycle\<close>

text \<open>What the non-real-time side promises of new session data: an action that is active keeps its
  index or is gone, unless the data stops all active actions.\<close>

definition installable ::
  "('w, 'ps, 'z) session_sys_scheme \<Rightarrow> 'r realtime_session \<Rightarrow> bool" where
  "installable s new \<longleftrightarrow> stop_active_actions new \<or>
     (\<forall>i \<in> active_set s. i < length (actions new) \<longrightarrow> actions new ! i = None \<or>
        (\<exists>x. current_session s = Some x \<and> i < length (actions x) \<and> actions x ! i = actions new ! i))"

definition next_install_ok :: "('w, 'ps, 'z) session_sys_scheme \<Rightarrow> bool" where
  "next_install_ok s \<longleftrightarrow>
     (case install_calls (channels s) of [] \<Rightarrow> True | c # _ \<Rightarrow> installable s (new_session c))"

lemma keep_fired_fields [simp]:
  "actions (keep_fired old new) = actions new"
  "stop_active_actions (keep_fired old new) = stop_active_actions new"
  "actions_to_start (keep_fired old new) = actions_to_start new"
  by (simp_all add: keep_fired_def split: option.splits)

lemma drop_deleted_nth:
  "k < length A \<Longrightarrow> drop_deleted x A ! k = Some i \<longleftrightarrow>
     A ! k = Some i \<and> i < length (actions x) \<and> actions x ! i \<noteq> None"
  by (auto simp: drop_deleted_def split: option.splits)

lemma uses_same_action:
  "i < length (actions x) \<Longrightarrow> i < length (actions y) \<Longrightarrow> actions x ! i = actions y ! i \<Longrightarrow>
   uses h x i = uses h y i"
  by (simp add: uses_def GetActionFromSession_def)

lemma act_ok_drop_deleted:
  assumes ok: "act_ok (slots s) (active_action_indices s)" and new: "installable s x" "\<not> stop_active_actions x"
  shows "act_ok (uses (heap s) x) (drop_deleted x (active_action_indices s))"
proof -
  let ?A = "active_action_indices s"
  have same: "uses (heap s) x i = slots s i"
    if k: "k < length ?A" "?A ! k = Some i" "i < length (actions x)" "actions x ! i \<noteq> None" for k i
  proof -
    have "i \<in> active_set s" using k(1,2) nth_mem[of k ?A] by (simp add: active_set_def)
    then obtain y where "current_session s = Some y" "i < length (actions y)" "actions y ! i = actions x ! i"
      using new k(3,4) by (auto simp: installable_def)
    then show ?thesis using k(3) uses_same_action[of i x y] by (simp add: slots_def)
  qed
  have len: "length (drop_deleted x ?A) = length ?A" by (simp add: drop_deleted_def)
  show ?thesis unfolding act_ok_def len
  proof (intro allI impI)
    fix k l i j assume *: "k < length ?A" "l < length ?A" "k \<noteq> l"
      "drop_deleted x ?A ! k = Some i" "drop_deleted x ?A ! l = Some j"
    from *(4,5) have i: "?A ! k = Some i" "i < length (actions x)" "actions x ! i \<noteq> None"
      and j: "?A ! l = Some j" "j < length (actions x)" "actions x ! j \<noteq> None"
      by (simp_all add: drop_deleted_nth[OF *(1)] drop_deleted_nth[OF *(2)])
    show "i \<noteq> j \<and> uses (heap s) x i \<inter> uses (heap s) x j = {}"
      using act_okD[OF ok *(1,2,3) i(1) j(1)] same[OF *(1) i] same[OF *(2) j] by simp
  qed
qed

lemma act_ok_none [simp]: "act_ok u (map (\<lambda>_. None) A)"
  by (simp add: act_ok_def)

lemma act_inv_idle: "length (active_action_indices s) = n \<Longrightarrow> act_inv n (clear_session s)"
  by (simp add: act_inv_def clear_session_def)

lemma act_inv_closed: "act_inv n s \<Longrightarrow> act_inv n (closed_state s)"
  unfolding closed_state_def by (rule act_inv_idle) (simp add: act_inv_def)

lemma act_inv_failed: "act_inv n s \<Longrightarrow> act_inv n (failed_state e s)"
  unfolding failed_state_def closed_state_def by (rule act_inv_idle) (simp add: act_inv_def)

lemma act_inv_install:
  assumes "act_inv n s" "installable s new"
  shows "act_inv n (let x = keep_fired (current_session s) new in
          s\<lparr>current_session := Some x,
            active_action_indices :=
              (if stop_active_actions x then map (\<lambda>_. None) (active_action_indices s)
               else drop_deleted x (active_action_indices s))\<rparr>)"
proof (cases "stop_active_actions new")
  case True
  then show ?thesis using assms(1) by (simp add: act_inv_def Let_def)
next
  case False
  let ?x = "keep_fired (current_session s) new"
  have "act_ok (uses (heap s) ?x) (drop_deleted ?x (active_action_indices s))"
    using assms False by (intro act_ok_drop_deleted) (auto simp: act_inv_def installable_def)
  moreover have "slots (s\<lparr>current_session := Some ?x, active_action_indices := A\<rparr>) = uses (heap s) ?x" for A
    by (simp add: slots_def fun_eq_iff)
  ultimately show ?thesis using assms(1) False by (simp add: act_inv_def Let_def drop_deleted_def)
qed

lemma act_inv_Impl:
  "rt_spec (\<lambda>s. act_inv n s \<and> installable s new) (HandleNewSessionDataImpl E v ov new)
     (\<lambda>_. act_inv n) (\<lambda>_. act_inv n)"
proof -
  let ?P = "\<lambda>s :: ('a, 'b, 'c) session_sys_scheme. act_inv n s \<and> installable s new"
  let ?I = "act_inv n :: ('a, 'b, 'c) session_sys_scheme \<Rightarrow> bool"
  have pre: "rt_spec ?P m (\<lambda>_. ?P) (\<lambda>_. ?I)" if "rt_spec ?P m (\<lambda>_. ?P) (\<lambda>_. ?P)" for m :: "(('a, 'b, 'c) session_sys_scheme, 'd) rt"
    using that by (rule rt_spec_conseq) auto
  have mod: "rt_spec ?P (rt_modify g) (\<lambda>_. ?I) (\<lambda>_. ?I)" if "\<And>s. ?P s \<Longrightarrow> ?I (g s)" for g
    using that by (rule rt_spec_modify)
  have new: "rt_spec ?P (rt_modify (\<lambda>s. let x = keep_fired (current_session s) new in
          s\<lparr>current_session := Some x,
            active_action_indices :=
              (if stop_active_actions x then map (\<lambda>_. None) (active_action_indices s)
               else drop_deleted x (active_action_indices s))\<rparr>)) (\<lambda>_. ?I) (\<lambda>_. ?I)"
    by (rule mod) (rule act_inv_install, auto)
  show ?thesis
    unfolding HandleNewSessionDataImpl_def
    by (rule rt_spec_bind[where R = "\<lambda>_. ?P"], rule rt_spec_gets, simp,
        rule rt_spec_bind[where R = "\<lambda>_. ?P"], rule rt_spec_check, simp, simp,
        rule rt_spec_bind[where R = "\<lambda>_. ?P"], rule rt_spec_gets, simp,
        rule rt_spec_if, rule rt_spec_fail, simp,
        rule rt_spec_bind[OF new])
       (intro rt_rules)
qed

lemma act_inv_HandleNew:
  "rt_spec (\<lambda>s. act_inv n s \<and> next_install_ok s) (HandleNewSessionData E v ov)
     (\<lambda>_. act_inv n) (\<lambda>_. act_inv n)"
proof (rule rt_spec_split)
  fix s0 :: "('a, 'b, 'c) session_sys_scheme"
  assume s0: "act_inv n s0 \<and> next_install_ok s0"
  let ?I = "act_inv n :: ('a, 'b, 'c) session_sys_scheme \<Rightarrow> bool"
  have service: "rt_spec (\<lambda>s. s = s0) (ServiceCall h) (\<lambda>_. ?I) (\<lambda>_. ?I)"
    if h: "\<And>new. rt_spec (\<lambda>s. act_inv n s \<and> installable s new) (h new) (\<lambda>_. ?I) (\<lambda>_. ?I)"
    for h :: "'b robot_status realtime_session \<Rightarrow> (('a, 'b, 'c) session_sys_scheme, rt_status) rt"
    unfolding ServiceCall_def
  proof (rule rt_spec_bind[where R = "\<lambda>calls s. s = s0 \<and> calls = install_calls (channels s0)"])
    fix calls
    show "rt_spec (\<lambda>s. s = s0 \<and> calls = install_calls (channels s0))
      (case calls of [] \<Rightarrow> rt_return False
       | c # cs \<Rightarrow> if \<not> lock_free c then rt_return False else
           rt_bind (h (new_session c)) (\<lambda>st.
           rt_bind (rt_modify (\<lambda>s. s\<lparr>channels := (channels s)\<lparr>install_calls := cs,
              install_results := install_results (channels s) @ [st]\<rparr>\<rparr>)) (\<lambda>_. rt_return True)))
      (\<lambda>_. ?I) (\<lambda>_. ?I)"
    proof (cases calls)
      case Nil
      then show ?thesis using s0 by (auto intro: rt_spec_return)
    next
      case (Cons c cs)
      have "rt_spec (\<lambda>s. s = s0 \<and> calls = install_calls (channels s0)) (h (new_session c)) (\<lambda>_. ?I) (\<lambda>_. ?I)"
        by (rule rt_spec_pre[OF _ h]) (use s0 Cons in \<open>auto simp: next_install_ok_def dest!: sym[of "_ # _"]\<close>)
      then show ?thesis
        using s0 by (auto simp: Cons intro!: rt_spec_return rt_spec_bind rt_rules)
    qed
  qed (rule rt_spec_gets, simp)
  have handler: "rt_spec (\<lambda>s. act_inv n s \<and> installable s new)
      (rt_bind (rt_try (HandleNewSessionDataImpl E v ov new)) (\<lambda>r. rt_return (status_of r)))
      (\<lambda>_. ?I) (\<lambda>_. ?I)" for new :: "'b robot_status realtime_session"
    by (rule rt_spec_bind[where R = "\<lambda>_. ?I"], rule rt_spec_try, rule rt_spec_conseq[OF act_inv_Impl])
       (auto intro: rt_spec_return)
  show "rt_spec (\<lambda>s. s = s0) (HandleNewSessionData E v ov) (\<lambda>_. ?I) (\<lambda>_. ?I)"
    unfolding HandleNewSessionData_def
    by (rule rt_spec_bind[where R = "\<lambda>_ s. s = s0"], rule rt_spec_gets, simp,
        rule rt_spec_bind[OF service[OF handler]])
       (intro rt_rules)
qed

lemma act_inv_or_cleanup:
  assumes "rt_spec P m (\<lambda>_. act_inv n) (\<lambda>_. act_inv n)"
  shows "rt_spec P (or_cleanup m) (\<lambda>_. act_inv n) (\<lambda>_. act_inv n)"
proof (rule rt_specI)
  fix s x t assume "P s" "or_cleanup m s = (Inr x, t)"
  then show "act_inv n t" unfolding or_cleanup_Inr by (blast dest: rt_specD_Inr[OF assms] rt_specD_Inl[OF assms])
next
  fix s e t assume "P s" "or_cleanup m s = (Inl e, t)"
  then obtain u where u: "m s = (Inl e, u)" "t = (if crash e then u else failed_state e u)"
    unfolding or_cleanup_Inl by blast
  have "act_inv n u" by (rule rt_specD_Inl[OF assms \<open>P s\<close> u(1)])
  then show "act_inv n t" by (simp add: u(2) act_inv_failed)
qed

lemma act_inv_RunSense: "rt_inv (act_inv n) (RunSense E v ov)"
  unfolding RunSense_def sense_action_def active_instance_def by (intro rt_rules) simp_all

lemma act_inv_upd_part [rt_rules]: "rt_inv (act_inv n) (rt_modify (upd_part i f))"
proof (rule act_inv_modify)
  fix s :: "('a, 'b, 'c) session_sys_scheme"
  show "slots (upd_part i f s) = slots s" by (rule slots_cong) (simp_all add: upd_part_def)
qed (simp add: upd_part_def)

lemma act_inv_RunControl: "rt_inv (act_inv n) (RunControl E v ov)"
  unfolding RunControl_def control_action_def active_instance_def mark_visible_def
    MarkPartAsControlledByAction_def Let_def
  by (intro rt_rules)

lemma act_inv_open_cycle:
  "rt_spec (\<lambda>s. act_inv n s \<and> next_install_ok s) (open_cycle E v ov r) (\<lambda>_. act_inv n) (\<lambda>_. act_inv n)"
  unfolding open_cycle_def
  by (rule rt_spec_bind[OF act_inv_or_cleanup[OF act_inv_HandleNew]])
     (intro rt_rules act_inv_or_cleanup act_inv_RunSense act_inv_HandleReactions act_inv_RunControl)

section \<open>What the safety requests leave of a cycle\<close>

lemma failed_state_fields:
  assumes "has_channels u" "t = failed_state e u"
  shows "\<not> has_channels t" "current_session t = None" "active_set t = {}" "session_status t = e"
    "session_status_buffer (channels t) = e" "bridge_closed (channels t)" "finish_done (channels t)"
    "part_indices t = part_indices u" "length (part_infos t) = length (part_infos u)"
  by (auto simp: assms failed_state_def closed_state_def clear_session_def active_set_def released_parts_def)

lemma failed_state_part:
  "t = failed_state e u \<Longrightarrow> i \<in> set (part_indices u) \<Longrightarrow> i < length (part_infos t) \<Longrightarrow>
   part_infos t ! i = released (current_session u \<noteq> None) (part_infos u ! i)"
  by (simp add: failed_state_def closed_state_def clear_session_def released_parts_def)

lemma plugins_sense: "sense_action (E\<lparr>Control := c, OnEnter := oe\<rparr>) = sense_action E"
  by (intro ext) (simp add: sense_action_def cong: option.case_cong if_cong)

lemma plugins_RunSense: "RunSense (E\<lparr>Control := c, OnEnter := oe\<rparr>) = RunSense E"
  by (intro ext) (simp add: RunSense_def plugins_sense cong: if_cong)

lemma Impl_blocked:
  assumes "IsSafetyRequestingToTerminateSession s"
  shows "HandleNewSessionDataImpl E v ov new s =
    (Inl (if session_status s = OkStatus then Error Unavailable else session_status s), s)"
  using assms
  by (simp add: HandleNewSessionDataImpl_def IsSafetyBlockingSessionCreation_def rt_defs)

lemma rt_bind_cong_state: "m s = m' s \<Longrightarrow> rt_bind m f s = rt_bind m' f s"
  by (simp add: rt_bind_def)

lemma ServiceCall_cong: "(\<And>new. h new s = h' new s) \<Longrightarrow> ServiceCall h s = ServiceCall h' s"
  unfolding ServiceCall_def rt_bind_gets
  by (auto split: list.splits intro: rt_bind_cong_state)

lemma HandleNew_terminating:
  assumes "IsSafetyRequestingToTerminateSession s"
  shows "HandleNewSessionData (E\<lparr>Control := c, OnEnter := oe\<rparr>) v ov s = HandleNewSessionData E v ov s"
proof -
  have "rt_try (HandleNewSessionDataImpl (E\<lparr>Control := c, OnEnter := oe\<rparr>) v ov new) s =
      rt_try (HandleNewSessionDataImpl E v ov new) s" for new
    by (simp add: rt_try_def Impl_blocked[OF assms])
  then show ?thesis unfolding HandleNewSessionData_def rt_bind_gets
    by (intro rt_bind_cong_state ServiceCall_cong)
qed

lemma terminating_sense:
  assumes "sess_open P m b s" "IsSafetyRequestingToTerminateSession s"
  shows "rt_bind (or_cleanup (RunSense E v ov)) (\<lambda>_.
      rt_bind (rt_gets IsSafetyRequestingToTerminateSession) (\<lambda>terminate.
      rt_bind (or_cleanup (if terminate then rt_fail (Error Unavailable) else rt_return ())) k)) s =
    (case or_cleanup (RunSense E v ov) s of
       (Inl e, t) \<Rightarrow> (Inl e, t)
     | (Inr _, t) \<Rightarrow> (Inl (Error Unavailable), failed_state (Error Unavailable) t))"
proof -
  have "IsSafetyRequestingToTerminateSession t"
    if "or_cleanup (RunSense E v ov) s = (Inr x, t)" for x t
    using rt_specD_Inr[OF rt_spec_or_cleanup[OF sess.keeps_RunSense] assms(1) that] assms
    by (simp add: sess_open_def IsSafetyRequestingToTerminateSession_def)
  moreover have "or_cleanup (rt_fail (Error Unavailable)) t =
      (Inl (Error Unavailable), failed_state (Error Unavailable) t)" for t :: "('a, 'b, 'c) session_sys_scheme"
    by (simp add: or_cleanup_Inl rt_fail_def crash_def)
  ultimately show ?thesis
    by (cases "or_cleanup (RunSense E v ov) s"; cases "fst (or_cleanup (RunSense E v ov) s)")
       (auto simp: rt_bind_def[of "or_cleanup (RunSense E v ov)"] rt_bind_gets rt_bind_def[of "or_cleanup (rt_fail _)"])
qed

lemma terminating_stops:
  assumes stop: "IsSafetyRequestingToTerminateSession s" and has: "has_channels s"
  shows "open_cycle E v ov r s = open_cycle (E\<lparr>Control := c, OnEnter := oe\<rparr>) v ov r s"
    and "current_session s \<noteq> None \<Longrightarrow> \<exists>e. fst (open_cycle E v ov r s) = Inl e"
proof -
  let ?E = "E\<lparr>Control := c, OnEnter := oe\<rparr>"
  let ?I = "sess_open (part_indices s) (safety_status_message s) (current_session s \<noteq> None)"
  obtain a u where a: "or_cleanup (HandleNewSessionData E v ov) s = (a, u)" by fastforce
  have a': "or_cleanup (HandleNewSessionData ?E v ov) s = (a, u)"
    using a unfolding or_cleanup_def
    by (subst rt_bind_cong_state[of _ _ "rt_try (HandleNewSessionData E v ov)"])
       (simp_all add: rt_try_def HandleNew_terminating[OF stop])
  have s: "?I s" by (simp add: sess_open_def has)
  have u: "?I u" "IsSafetyRequestingToTerminateSession u" if "a = Inr ()"
    using rt_specD_Inr[OF rt_spec_or_cleanup[OF sess.keeps_HandleNewSessionData] s a[unfolded that]] stop
    by (simp_all add: sess_open_def IsSafetyRequestingToTerminateSession_def)
  show "open_cycle E v ov r s = open_cycle ?E v ov r s"
  proof (cases a)
    case (Inl e)
    then show ?thesis using a a' by (simp add: open_cycle_def rt_bind_def)
  next
    case (Inr x)
    then have Inr_unit: "a = Inr ()" by simp
    have run: "rt_bind (or_cleanup (HandleNewSessionData E v ov)) f s = f () u"
      "rt_bind (or_cleanup (HandleNewSessionData ?E v ov)) f s = f () u" for f :: "unit \<Rightarrow> (_, unit) rt"
      using a a' Inr by (simp_all add: rt_bind_def)
    show ?thesis
      unfolding open_cycle_def run rt_bind_gets[of current_session]
      by (cases "current_session u = None")
         (simp_all only: terminating_sense[OF u[OF Inr_unit]] plugins_RunSense if_True if_False simp_thms)
  qed
  show "\<exists>e. fst (open_cycle E v ov r s) = Inl e" if "current_session s \<noteq> None"
  proof (cases a)
    case (Inl e)
    then show ?thesis using a by (simp add: open_cycle_def rt_bind_def)
  next
    case (Inr x)
    then have Inr_unit: "a = Inr ()" by simp
    then have "current_session u \<noteq> None" using u(1) that by (simp add: sess_open_def)
    moreover have "rt_bind (or_cleanup (HandleNewSessionData E v ov)) f s = f () u"
      for f :: "unit \<Rightarrow> (_, unit) rt"
      using a Inr by (simp add: rt_bind_def)
    ultimately show ?thesis
      unfolding open_cycle_def rt_bind_gets[of current_session]
      by (auto simp: terminating_sense[OF u[OF Inr_unit]] split: prod.split sum.split)
  qed
qed

end
