(* ===== verification/Session_Cycle.thy ===== *)
theory Session_Cycle
  imports Session_Manager
begin

text \<open>
  The properties of \<^verbatim>\<open>RtclSessionManager::ExecuteCycle\<close> (rtcl_session_manager.cc), and of a
  whole real-time cycle: what ending a session leaves behind, how the safety requests act, which parts
  a successful cycle controls, and that the slots of active actions stay exclusive.
\<close>

section \<open>Ending a session\<close>

text \<open>Whatever error a cycle returns, the session is over in the same cycle: the channels
  are let go after the error has been put into the status buffer, the bridge is closed and
  \<^verbatim>\<open>finish_done\<close> posted; no action is active; every part of the session has lost its log
  context and its controller; and all later cycles do nothing.\<close>

theorem error_ends_session:
  assumes "ExecuteCycle E v r s = (Inl e, t)" "\<not> crash e"
  shows "\<not> has_channels t \<and> current_session t = None \<and> active_set t = {} \<and>
    session_status t = e \<and> session_status_buffer (channels t) = e \<and> e \<noteq> OkStatus \<and>
    bridge_closed (channels t) \<and> finish_done (channels t) \<and>
    (\<forall>i < length (part_infos t). i \<in> set (part_indices s) \<longrightarrow>
       part_context (part_infos t ! i) = empty_context \<and>
       (current_session s \<noteq> None \<longrightarrow> controlled_by (part_infos t ! i) = None)) \<and>
    ExecuteCycle E' v' r' t = (Inr (), t)"
proof -
  have s: "has_channels s" and run: "open_cycle E (safety_speed s v) (safety_override s) r s = (Inl e, t)"
    using assms(1) by (auto simp: ExecuteCycle_eq split: if_splits)
  have "sess_open (part_indices s) (safety_status_message s) (current_session s \<noteq> None) s"
    by (simp add: sess_open_def s)
  from open_cycle_fails[OF run assms(2) this] obtain u where u: "e \<noteq> OkStatus" "t = failed_state e u"
    and "sess_open (part_indices s) (safety_status_message s) (current_session s \<noteq> None) u" by blast
  then have f: "has_channels u" "part_indices u = part_indices s" "current_session s \<noteq> None \<longrightarrow> current_session u \<noteq> None"
    by (simp_all add: sess_open_def)
  show ?thesis
    using failed_state_fields[OF f(1) u(2)] failed_state_part[OF u(2)] u(1) f(2,3)
    by (auto simp: released_def ExecuteCycle_eq)
qed

text \<open>A sample: the only active action fails in \<^verbatim>\<open>Sense\<close>.\<close>

definition failing_plugins :: "(nat, nat) plugins" where
  "failing_plugins = sample_plugins\<lparr>Sense := \<lambda>a sm io sig sp ov w.
     ((if a < 8 then Error Internal else OkStatus, 0, io), w)\<rparr>"

theorem error_ends_session_witness:
  "session_status_buffer (channels (snd (ExecuteCycle failing_plugins (Fin 1) sample_robot_status
     (sample_session_sys sample_session [Some 2, None])))) = Error Internal"
proof -
  let ?run = "ExecuteCycle failing_plugins (Fin 1) sample_robot_status
     (sample_session_sys sample_session [Some 2, None])"
  have "fst ?run = Inl (Error Internal)" by code_simp
  then have "?run = (Inl (Error Internal), snd ?run)" by (metis prod.collapse)
  from error_ends_session[OF this] show ?thesis by (simp add: crash_def)
qed

text \<open>C7 (liveness). A request to finish is served by the next cycle: it succeeds without calling any
  action, the session is closed and \<^verbatim>\<open>finish_done\<close> posted; an outstanding installation
  whose lock is free is answered; no later cycle does anything.\<close>

theorem finish_request_is_served:
  assumes "has_channels s" "finish_requested (channels s)" "ExecuteCycle E v r s = (res, t)"
  shows "res = Inr () \<and> finish_done (channels t) \<and> bridge_closed (channels t) \<and> \<not> has_channels t \<and>
    current_session t = None \<and> active_set t = {} \<and> world t = world s \<and>
    install_results (channels t) = install_results (channels s) @
      (case install_calls (channels s) of c # _ \<Rightarrow> if lock_free c then [Error Aborted] else [] | [] \<Rightarrow> []) \<and>
    ExecuteCycle E' v' r' t = (Inr (), t)"
proof -
  have "res = Inr ()" "t = closed_state s" using assms by (simp_all add: ExecuteCycle_eq)
  then show ?thesis
    using assms(1)
    by (auto simp: ExecuteCycle_eq closed_state_def clear_session_def active_set_def answer_call_def
        split: list.split)
qed

definition finishing_sys :: "(nat, nat) session_sys" where
  "finishing_sys = (sample_session_sys sample_session [Some 2, None])
     \<lparr>channels := sample_channels\<lparr>finish_requested := True\<rparr>\<rparr>"

theorem finish_request_is_served_witness:
  "finish_done (channels (snd (ExecuteCycle sample_plugins (Fin 1) sample_robot_status finishing_sys)))"
proof -
  have s: "has_channels finishing_sys" "finish_requested (channels finishing_sys)"
    by (simp_all add: finishing_sys_def sample_session_sys_def rt_sys.defs)
  from finish_request_is_served[OF s prod.collapse[symmetric]] show ?thesis by blast
qed

section \<open>Safety requests\<close>

text \<open>C6 (safety). While safety requests a stop 0 or a stop 1, a cycle of an open session that has not been asked to finish
  never enters or controls an action (its result does not depend on those functions of the actions), and if session data
  is installed it ends in an error, even if no action is active, and with it the session: unless the process crashes, it is closed
  afterwards.\<close>

theorem safety_stop_ends_session:
  assumes "IsSafetyRequestingToTerminateSession s" "has_channels s" "\<not> finish_requested (channels s)"
  shows "ExecuteCycle E v r s = ExecuteCycle (E\<lparr>Control := c, OnEnter := oe\<rparr>) v r s \<and>
    (current_session s = None \<or>
     (\<exists>e t. ExecuteCycle E v r s = (Inl e, t) \<and> (\<not> crash e \<longrightarrow> \<not> has_channels t \<and> current_session t = None)))"
proof -
  have cycle: "ExecuteCycle E' v r s = open_cycle E' (safety_speed s v) (safety_override s) r s" for E'
    using assms(2,3) by (simp add: ExecuteCycle_eq)
  have closed: "\<not> has_channels t \<and> current_session t = None"
    if "open_cycle E (safety_speed s v) (safety_override s) r s = (Inl e, t)" "\<not> crash e" for e t
  proof -
    have "sess_open (part_indices s) (safety_status_message s) False s" using assms(2) by (simp add: sess_open_def)
    from open_cycle_fails[OF that this] obtain u where "t = failed_state e u" .
    then show ?thesis by (simp add: failed_state_def closed_state_def clear_session_def)
  qed
  have "\<exists>e t. open_cycle E (safety_speed s v) (safety_override s) r s = (Inl e, t)" if "current_session s \<noteq> None"
    using terminating_stops(2)[OF assms(1,2) that, of E "safety_speed s v" "safety_override s" r]
    by (cases "open_cycle E (safety_speed s v) (safety_override s) r s") simp
  with closed have "current_session s = None \<or> (\<exists>e t. open_cycle E (safety_speed s v) (safety_override s) r s = (Inl e, t) \<and>
      (\<not> crash e \<longrightarrow> \<not> has_channels t \<and> current_session t = None))" by meson
  with terminating_stops(1)[OF assms(1,2)] show ?thesis unfolding cycle by (rule conjI)
qed

definition stopped_sys :: "(nat, nat) session_sys" where
  "stopped_sys = (sample_session_sys sample_session [Some 2, None])
     \<lparr>safety_status_message := Some \<lparr>mode_of_safe_operation = MSO_AUTOMATIC, estop_button_status = BS_ENGAGED,
        enable_button_status = BS_UNKNOWN, requested_behavior = RB_SAFE_STOP_1_TIME_MONITORED\<rparr>\<rparr>"

theorem safety_stop_ends_session_witness:
  "\<exists>e t. ExecuteCycle sample_plugins (Fin 1) sample_robot_status stopped_sys = (Inl e, t) \<and>
     (crash e \<or> \<not> has_channels t \<and> current_session t = None)"
proof -
  have s: "IsSafetyRequestingToTerminateSession stopped_sys" "has_channels stopped_sys"
    "\<not> finish_requested (channels stopped_sys)" "current_session stopped_sys \<noteq> None"
    by (simp_all add: stopped_sys_def sample_session_sys_def sample_channels_def rt_sys.defs
        IsSafetyRequestingToTerminateSession_def)
  from safety_stop_ends_session[OF s(1-3), of sample_plugins "Fin 1" sample_robot_status
      "Control sample_plugins" "OnEnter sample_plugins"] s(4)
  show ?thesis by blast
qed

section \<open>Control of the parts\<close>

lemma cycle_in_control:
  assumes "ExecuteCycle E v r s = (Inr (), t)" "has_channels t" "current_session t = Some x" "i \<in> active_set t"
  shows "in_control (safety_override s) i t"
proof -
  have "current_session t \<noteq> None" using assms(3) by simp
  from cycle_ends_with_control[OF assms(1) this assms(2)] obtain u where
    "RunControl E (safety_speed s v) (safety_override s) u = (Inr (), t)" by blast
  from RunControl_Inr[OF this] assms(4) show ?thesis by blast
qed

lemma failed_cycle_part:
  assumes "ExecuteCycle E v r s = (Inl e, t)" "\<not> crash e"
    and "j \<in> set (part_indices s)" "j < length (part_infos t)"
  shows "part_context (part_infos t ! j) = empty_context"
    and "current_session s \<noteq> None \<Longrightarrow> controlled_by (part_infos t ! j) = None"
proof -
  have s: "has_channels s" and run: "open_cycle E (safety_speed s v) (safety_override s) r s = (Inl e, t)"
    using assms(1) by (auto simp: ExecuteCycle_eq split: if_splits)
  have "sess_open (part_indices s) (safety_status_message s) (current_session s \<noteq> None) s"
    by (simp add: sess_open_def s)
  from open_cycle_fails[OF run assms(2) this] obtain u where u: "t = failed_state e u"
    and "sess_open (part_indices s) (safety_status_message s) (current_session s \<noteq> None) u" by blast
  then have f: "part_indices u = part_indices s" "current_session s \<noteq> None \<longrightarrow> current_session u \<noteq> None"
    by (simp_all add: sess_open_def)
  have "part_infos t ! j = released (current_session u \<noteq> None) (part_infos u ! j)"
    using failed_state_part[OF u, of j] assms(3,4) f(1) by simp
  then show "part_context (part_infos t ! j) = empty_context"
    "current_session s \<noteq> None \<Longrightarrow> controlled_by (part_infos t ! j) = None"
    using f(2) by (simp_all add: released_def)
qed

text \<open>After a successful cycle every active action is in control of exactly what it sees:
  its instance exists, it supports the behaviour that safety requests, and each part whose slot is
  visible to it is marked as controlled by this action and by no other.\<close>

theorem cycle_gives_control:
  assumes "ExecuteCycle E v r s = (Inr (), t)" "has_channels t" "current_session t = Some x" "i \<in> active_set t"
  shows "\<exists>p vs. actions x ! i = Some p \<and> visibility_by_slot_id (heap t p) = Some vs \<and>
    (\<forall>j < length vs. vs ! j \<longrightarrow> j < length (part_infos t) \<and>
       controlled_by (part_infos t ! j) = Some (ai_id (heap t p))) \<and>
    ActionSupportsRequestedOverrideBehavior (supported_behavior_overrides (heap t p)) (safety_override s)"
  using cycle_in_control[OF assms] assms(3) by (auto simp: in_control_def marked_def)

text \<open>A sample state whose parts are free, as at the beginning of a cycle.\<close>

definition fresh_sys :: "(nat, nat) session_sys" where
  "fresh_sys = (sample_session_sys sample_session [Some 2, None])
     \<lparr>part_infos := map (\<lambda>p. p\<lparr>controlled_by := None\<rparr>) (part_infos sample_sys)\<rparr>"

definition fresh_cycle :: "unit status_or \<times> (nat, nat) session_sys" where
  "fresh_cycle = ExecuteCycle sample_plugins (Fin 1) sample_robot_status fresh_sys"

lemma fresh_cycle_Inr: "fresh_cycle = (Inr (), snd fresh_cycle)"
proof -
  have "fst fresh_cycle = Inr ()" by code_simp
  then show ?thesis by (metis prod.collapse)
qed

theorem cycle_gives_control_witness:
  "\<exists>a. controlled_by (part_infos (snd fresh_cycle) ! 0) = Some a"
proof -
  have run: "ExecuteCycle sample_plugins (Fin 1) sample_robot_status fresh_sys = (Inr (), snd fresh_cycle)"
    using fresh_cycle_Inr by (simp add: fresh_cycle_def)
  have t: "has_channels (snd fresh_cycle)"
    "map_option actions (current_session (snd fresh_cycle)) = Some [Some 0, Some 1, Some 2]"
    "active_action_indices (snd fresh_cycle) = [Some 2, None]"
    "visibility_by_slot_id (heap (snd fresh_cycle) 2) = Some [True, True]"
    by code_simp+
  obtain x where x: "current_session (snd fresh_cycle) = Some x" "actions x = [Some 0, Some 1, Some 2]"
    using t(2) by auto
  have "2 \<in> active_set (snd fresh_cycle)" using t(3) by (simp add: active_set_def)
  from cycle_gives_control[OF run t(1) x(1) this] x(2) t(4) show ?thesis by auto
qed

text \<open>C5 (invariant). Through a whole cycle - installation of session data, sensing, reactions, control
  and every way of ending the session - no two active actions are the same or share a part slot, when the
  installed data keeps the actions that are active (as the non-real-time side promises).\<close>

theorem cycle_keeps_slots_exclusive:
  assumes "act_inv n s" "next_install_ok s"
  shows "act_inv n (snd (ExecuteCycle E v r s)) \<and>
    slots_exclusive (slots (snd (ExecuteCycle E v r s))) (active_set (snd (ExecuteCycle E v r s)))"
proof -
  have "act_inv n (snd (ExecuteCycle E v r s))"
    using assms rt_spec_snd[OF act_inv_open_cycle, of n s] by (simp add: ExecuteCycle_eq act_inv_closed)
  then show ?thesis by (simp add: act_inv_exclusive)
qed

definition installing_sys :: "(nat, nat) session_sys" where
  "installing_sys = fresh_sys\<lparr>channels := sample_channels\<lparr>install_calls :=
     [\<lparr>new_session = sample_session, lock_free = True\<rparr>]\<rparr>\<rparr>"

theorem cycle_keeps_slots_exclusive_witness:
  "act_inv 2 (snd (ExecuteCycle sample_plugins (Fin 1) sample_robot_status installing_sys))"
proof -
  have "act_inv 2 (sample_session_sys sample_session [Some 2, None])" by (rule sample_act_inv)
  then have "act_inv 2 installing_sys"
    by (simp add: act_inv_def installing_sys_def fresh_sys_def sample_session_sys_def rt_sys.defs slots_def[abs_def])
  moreover have "next_install_ok installing_sys"
    by (simp add: next_install_ok_def installable_def installing_sys_def fresh_sys_def sample_session_def)
  ultimately show ?thesis using cycle_keeps_slots_exclusive by blast
qed

section \<open>A whole real-time cycle\<close>

text \<open>C3 (safety). When a session whose data was installed before the cycle fails in it, with an error and not a crash of the
  process, and the end of the same cycle succeeds, that puts the safety action of every enabled part of the session in control:
  no part is left with the commands of a dead session. The status that a part reports is the same whenever it is read at the end of the cycle, and no action
  answers \<^verbatim>\<open>kIsDone\<close> with an OK status in place of a value.\<close>

theorem failed_session_falls_back:
  assumes "ExecuteCycle E v r s = (Inl e, t)" "\<not> crash e" "current_session s \<noteq> None"
    and "FinishCycle E t = (Inr (), u)"
    and "\<And>a w. GetStateVariable E a w kIsDone \<noteq> Inl OkStatus" "\<And>i w. GetOperationalStatus E i w = op i"
    and "j \<in> set (part_indices s)" "j < length (part_infos t)" "op j = Inr st" "ros_state st = Rt_kEnabled"
  shows "controlled_by (part_infos u ! j) = None \<and> safety_action_active (part_infos u ! j)"
  using FinishCycle_settles(2)[OF assms(4-6,8)] failed_cycle_part(2)[OF assms(1,2,7,8,3)] assms(9,10)
  by (simp add: part_settled_def)

definition failed_cycle :: "unit status_or \<times> (nat, nat) session_sys" where
  "failed_cycle = ExecuteCycle failing_plugins (Fin 1) sample_robot_status fresh_sys"

theorem failed_session_falls_back_witness:
  "safety_action_active (part_infos (snd (FinishCycle failing_plugins (snd failed_cycle))) ! 1)"
proof -
  let ?fin = "FinishCycle failing_plugins (snd failed_cycle)"
  have "fst failed_cycle = Inl (Error Internal)" by code_simp
  then have run: "ExecuteCycle failing_plugins (Fin 1) sample_robot_status fresh_sys =
      (Inl (Error Internal), snd failed_cycle)"
    unfolding failed_cycle_def by (metis prod.collapse)
  have "fst ?fin = Inr ()" by code_simp
  then have fin: "?fin = (Inr (), snd ?fin)" by (metis prod.collapse)
  have n: "1 < length (part_infos (snd failed_cycle))" by code_simp
  show ?thesis
    by (rule conjunct2[OF failed_session_falls_back[OF run _ _ fin _ _ _ n,
          of "\<lambda>_. Inr \<lparr>ros_state = Rt_kEnabled, ros_fault_reason = []\<rparr>"
             "\<lparr>ros_state = Rt_kEnabled, ros_fault_reason = []\<rparr>"]])
       (simp_all add: crash_def failing_plugins_def sample_plugins_def fresh_sys_def sample_session_sys_def
         rt_sys.defs)
qed

text \<open>C4 (safety). When a cycle succeeds and is finished, every enabled part that an active action sees
  is controlled by this action, and its safety action is not active.\<close>

theorem active_action_keeps_control:
  assumes "ExecuteCycle E v r s = (Inr (), t)" "has_channels t" "current_session t = Some x"
    and "i \<in> active_set t" "actions x ! i = Some p" "visibility_by_slot_id (heap t p) = Some vs"
    and "j < length vs" "vs ! j" "FinishCycle E t = (Inr (), u)" "pm_inv t"
    and "\<And>a w. GetStateVariable E a w kIsDone \<noteq> Inl OkStatus" "\<And>i w. GetOperationalStatus E i w = op i"
    and "op j = Inr st" "ros_state st = Rt_kEnabled"
  shows "controlled_by (part_infos u ! j) = Some (ai_id (heap t p)) \<and> \<not> safety_action_active (part_infos u ! j)"
proof -
  have "marked j (ai_id (heap t p)) t"
    using cycle_in_control[OF assms(1-4)] assms(3,5-8) by (auto simp: in_control_def)
  then have j: "j < length (part_infos t)" "controlled_by (part_infos t ! j) = Some (ai_id (heap t p))"
    by (simp_all add: marked_def)
  have c: "controlled_by (part_infos u ! j) = Some (ai_id (heap t p))"
    using FinishCycle_settles(2)[OF assms(9,11,12) j(1)] assms(13,14) j(2) by (simp add: part_settled_def)
  have "length (part_infos u) = length (part_infos t)" by (rule FinishCycle_settles(1)[OF assms(9,11,12)])
  moreover have "pm_inv u" using rt_invD[OF pm_inv_Finish assms(10), of E] assms(9) by simp
  ultimately have "exclusive_control (part_infos u ! j)" using j(1) by (simp add: pm_inv_def)
  then show ?thesis using c by (simp add: exclusive_control_def)
qed

theorem active_action_keeps_control_witness:
  "\<exists>a. controlled_by (part_infos (snd (FinishCycle sample_plugins (snd fresh_cycle))) ! 1) = Some a"
proof -
  let ?fin = "FinishCycle sample_plugins (snd fresh_cycle)"
  have run: "ExecuteCycle sample_plugins (Fin 1) sample_robot_status fresh_sys = (Inr (), snd fresh_cycle)"
    using fresh_cycle_Inr by (simp add: fresh_cycle_def)
  have "fst ?fin = Inr ()" by code_simp
  then have fin: "?fin = (Inr (), snd ?fin)" by (metis prod.collapse)
  have t: "has_channels (snd fresh_cycle)"
    "map_option actions (current_session (snd fresh_cycle)) = Some [Some 0, Some 1, Some 2]"
    "active_action_indices (snd fresh_cycle) = [Some 2, None]"
    "visibility_by_slot_id (heap (snd fresh_cycle) 2) = Some [True, True]"
    "map safety_action_active (part_infos (snd fresh_cycle)) = [False, False]"
    by code_simp+
  obtain x where x: "current_session (snd fresh_cycle) = Some x" "actions x = [Some 0, Some 1, Some 2]"
    using t(2) by auto
  have "2 \<in> active_set (snd fresh_cycle)" using t(3) by (simp add: active_set_def)
  moreover have "pm_inv (snd fresh_cycle)" using t(5) by (auto simp: pm_inv_def exclusive_control_def)
  ultimately show ?thesis
    using active_action_keeps_control[OF run t(1) x(1) _ _ t(4) _ _ fin, of 2 1
        "\<lambda>_. Inr \<lparr>ros_state = Rt_kEnabled, ros_fault_reason = []\<rparr>"] x(2)
    by (auto simp: sample_plugins_def)
qed

end
