(* ===== verification/Binary_Futex.thy ===== *)
theory Binary_Futex
  imports Icon_Prelude
begin

text \<open>
  \<^verbatim>\<open>intrinsic/icon/interprocess/binary_futex.{h,cc}\<close>: a binary semaphore in shared memory.
  Each operation is one atomic access of a 32-bit word and, when threads have to be woken or put to sleep, a
  \<^verbatim>\<open>futex\<close> system call. The wait loop is a function of what the kernel answers and of what
  other threads do to the word while this thread sleeps.
\<close>

section \<open>Atomic operations\<close>

definition kReady :: "32 word" where "kReady = 0"
definition kPosted :: "32 word" where "kPosted = 1"
definition kClosed :: "32 word" where "kClosed = 2"

definition mk_BinaryFutex :: "bool \<Rightarrow> 32 word" where
  "mk_BinaryFutex posted = (if posted then kPosted else kReady)"

definition Futex_Post :: "32 word \<Rightarrow> rt_status \<times> 32 word" where
  "Futex_Post v =
     (if v = kReady then (OkStatus, kPosted)
      else if v = kClosed then (Error Aborted, v) else (OkStatus, v))"

text \<open>The free function \<^verbatim>\<open>TryWait\<close>: the value before the reset, and the new value.\<close>

definition futex_take :: "32 word \<Rightarrow> 32 word \<times> 32 word" where
  "futex_take v = (v, if v = kPosted then kReady else v)"

definition Futex_TryWait :: "32 word \<Rightarrow> bool option \<times> 32 word" where
  "Futex_TryWait v =
     (case futex_take v of (old, v') \<Rightarrow>
        (if old = kReady then Some False else if old = kPosted then Some True else None, v'))"

definition Futex_Close :: "32 word \<Rightarrow> 32 word" where
  "Futex_Close v = kClosed"

section \<open>Waiting\<close>

text \<open>What other threads do to the futex, and the ways the system call comes back:
  \<open>FR_woken\<close> covers a wake-up as well as \<^verbatim>\<open>EAGAIN\<close> and \<^verbatim>\<open>EINTR\<close>.\<close>

datatype futex_op = OpPost | OpTryWait | OpClose

fun futex_apply :: "futex_op \<Rightarrow> 32 word \<Rightarrow> 32 word" where
  "futex_apply OpPost v = snd (Futex_Post v)"
| "futex_apply OpTryWait v = snd (Futex_TryWait v)"
| "futex_apply OpClose v = Futex_Close v"

datatype futex_reply = FR_woken | FR_timed_out | FR_error

text \<open>The loop of \<^verbatim>\<open>Wait\<close>. A script holds, per system call, the operations of other threads
  until it returns, and its reply. \<open>None\<close>: still asleep when the script is over.\<close>

fun Futex_Wait :: "(futex_op list \<times> futex_reply) list \<Rightarrow> 32 word \<Rightarrow> (rt_status \<times> 32 word) option" where
  "Futex_Wait script v =
     (case futex_take v of (val, v') \<Rightarrow>
        if val = kReady then
          (case script of
             [] \<Rightarrow> None
           | (ops, reply) # rest \<Rightarrow>
               let u = fold futex_apply ops v' in
               (case reply of
                  FR_woken \<Rightarrow> Futex_Wait rest u
                | FR_timed_out \<Rightarrow> Some (Error DeadlineExceeded, u)
                | FR_error \<Rightarrow> Some (Error Internal, u)))
        else if val = kClosed then Some (Error Aborted, v')
        else if val = kPosted then Some (OkStatus, v')
        else Some (Error Internal, v'))"

declare Futex_Wait.simps [simp del]

section \<open>Tokens\<close>

lemmas futex_defs = kReady_def kPosted_def kClosed_def Futex_Post_def futex_take_def Futex_TryWait_def
  Futex_Close_def

definition futex_valid :: "32 word \<Rightarrow> bool" where
  "futex_valid v \<longleftrightarrow> v = kReady \<or> v = kPosted \<or> v = kClosed"

lemma futex_distinct [simp]:
  "kReady \<noteq> kPosted" "kReady \<noteq> kClosed" "kPosted \<noteq> kClosed" "kPosted \<noteq> kReady" "kClosed \<noteq> kReady" "kClosed \<noteq> kPosted"
  by (simp_all add: futex_defs)

declare futex_apply.simps [simp del]

lemma futex_apply_values [simp]:
  "futex_apply OpPost v = (if v = kReady then kPosted else v)"
  "futex_apply OpTryWait v = (if v = kPosted then kReady else v)"
  "futex_apply OpClose v = kClosed"
  by (auto simp: futex_apply.simps Futex_Post_def Futex_TryWait_def futex_take_def Futex_Close_def)

definition taken :: "futex_op \<Rightarrow> 32 word \<Rightarrow> nat" where
  "taken op v = (if op = OpTryWait \<and> fst (Futex_TryWait v) = Some True then 1 else 0)"

text \<open>How many threads of a sequence of operations got the token.\<close>

fun acquisitions :: "futex_op list \<Rightarrow> 32 word \<Rightarrow> nat" where
  "acquisitions [] v = 0"
| "acquisitions (op # ops) v = taken op v + acquisitions ops (futex_apply op v)"

definition token :: "32 word \<Rightarrow> nat" where
  "token v = (if v = kPosted then 1 else 0)"

lemma taken_token: "taken op v + token (futex_apply op v) \<le> token v + (if op = OpPost then 1 else 0)"
  by (cases op) (auto simp: taken_def token_def Futex_TryWait_def futex_take_def)

lemma acquisitions_bound:
  "acquisitions ops v + token (fold futex_apply ops v) \<le> token v + length (filter ((=) OpPost) ops)"
proof (induction ops arbitrary: v)
  case (Cons op ops)
  define w where "w = futex_apply op v"
  then show ?case using Cons.IH[of w] taken_token[of op v] by (auto simp del: futex_apply_values)
qed simp

lemma futex_valid_fold: "futex_valid v \<Longrightarrow> futex_valid (fold futex_apply ops v)"
proof (induction ops arbitrary: v)
  case (Cons op ops)
  then have "futex_valid (futex_apply op v)" by (cases op) (auto simp: futex_valid_def)
  then show ?case using Cons.IH by simp
qed simp

lemma futex_closed_fold: "fold futex_apply ops kClosed = kClosed"
proof (induction ops)
  case (Cons op ops)
  then show ?case by (cases op) simp_all
qed simp

lemma no_post_no_token:
  "v = kReady \<or> v = kClosed \<Longrightarrow> OpPost \<notin> set ops \<Longrightarrow>
   fold futex_apply ops v = kReady \<or> fold futex_apply ops v = kClosed"
proof (induction ops arbitrary: v)
  case (Cons op ops)
  then have "futex_apply op v = kReady \<or> futex_apply op v = kClosed"
    by (cases op) auto
  then show ?case using Cons by simp
qed simp

lemma Futex_Wait_simps [simp]:
  "Futex_Wait script kPosted = Some (OkStatus, kReady)"
  "Futex_Wait script kClosed = Some (Error Aborted, kClosed)"
  "Futex_Wait [] kReady = None"
  "Futex_Wait ((ops, reply) # rest) kReady =
     (case reply of
        FR_woken \<Rightarrow> Futex_Wait rest (fold futex_apply ops kReady)
      | FR_timed_out \<Rightarrow> Some (Error DeadlineExceeded, fold futex_apply ops kReady)
      | FR_error \<Rightarrow> Some (Error Internal, fold futex_apply ops kReady))"
  by (subst Futex_Wait.simps; simp add: futex_take_def Let_def)+

lemma Futex_Wait_outcome:
  assumes "Futex_Wait script v = Some (r, u)" "futex_valid v"
  shows "(r = OkStatus \<longrightarrow> u = kReady \<and> (v = kPosted \<or> (\<exists>(ops, reply) \<in> set script. OpPost \<in> set ops))) \<and>
    (r = Error Aborted \<longrightarrow> u = kClosed) \<and>
    r \<in> {OkStatus, Error Aborted, Error DeadlineExceeded, Error Internal}"
  using assms
proof (induction script arbitrary: v)
  case Nil
  then show ?case by (auto simp: futex_valid_def)
next
  case (Cons step rest)
  obtain ops reply where s: "step = (ops, reply)" by fastforce
  let ?w = "fold futex_apply ops kReady"
  have w: "futex_valid ?w" by (rule futex_valid_fold) (simp add: futex_valid_def)
  have post: "OpPost \<in> set ops" if "?w = kPosted"
    using that no_post_no_token[of kReady ops] by auto
  consider "v = kPosted" | "v = kClosed" | "v = kReady" using Cons.prems(2) by (auto simp: futex_valid_def)
  then show ?case
  proof cases
    case 3
    then show ?thesis
      using Cons.prems(1) Cons.IH[OF _ w] post s by (cases reply) auto
  qed (use Cons.prems(1) in auto)
qed

text \<open>A wait ends as soon as the word holds a token or is closed after a wake-up.\<close>

lemma Futex_Wait_returns:
  assumes "futex_valid v" "(ops, FR_woken) \<in> set script" "fold futex_apply ops kReady \<noteq> kReady"
  shows "\<exists>r u. Futex_Wait script v = Some (r, u)"
  using assms(1,2)
proof (induction script arbitrary: v)
  case (Cons step rest)
  obtain ops' reply where s: "step = (ops', reply)" by fastforce
  let ?w = "fold futex_apply ops' kReady"
  have w: "futex_valid ?w" by (rule futex_valid_fold) (simp add: futex_valid_def)
  consider "v = kPosted" | "v = kClosed" | "v = kReady" using Cons.prems(1) by (auto simp: futex_valid_def)
  then show ?case
  proof cases
    case 3
    have "\<exists>r u. Futex_Wait rest ?w = Some (r, u)" if "reply = FR_woken"
    proof (cases "(ops, FR_woken) = step")
      case True
      then have "?w = kPosted \<or> ?w = kClosed" using assms(3) w s by (auto simp: futex_valid_def)
      then show ?thesis by auto
    next
      case False
      then show ?thesis using Cons.IH[OF w] Cons.prems(2) by simp
    qed
    then show ?thesis using 3 s by (cases reply) auto
  qed auto
qed simp

section \<open>Properties\<close>

text \<open>C37 (invariant). The futex is a binary semaphore: whatever any number of threads do in whatever order,
  no more of them get through \<^verbatim>\<open>TryWait\<close> than there were posts (plus one if it was posted before),
  at most one token is left, the word keeps one of its three values, and a closed futex stays closed.\<close>

theorem futex_is_binary_semaphore:
  assumes "futex_valid v"
  shows "acquisitions ops v + token (fold futex_apply ops v) \<le> token v + length (filter ((=) OpPost) ops) \<and>
    futex_valid (fold futex_apply ops v) \<and> (v = kClosed \<longrightarrow> fold futex_apply ops v = kClosed)"
  using acquisitions_bound futex_valid_fold[OF assms] futex_closed_fold by blast

theorem futex_is_binary_semaphore_witness:
  "acquisitions [OpPost, OpPost, OpTryWait, OpTryWait] kReady \<le> 2"
  using futex_is_binary_semaphore[of kReady "[OpPost, OpPost, OpTryWait, OpTryWait]"]
  by (simp add: futex_valid_def token_def)

text \<open>A waiting thread wakes up: once another thread's post (or close) is in the word at a
  return of the system call, the wait ends, whatever happens before; and when it ends with success, it
  holds the token of a post, which it has taken from the word.\<close>

theorem futex_wait_ends:
  assumes "futex_valid v" "(ops, FR_woken) \<in> set script" "fold futex_apply ops kReady \<noteq> kReady"
  shows "\<exists>r u. Futex_Wait script v = Some (r, u) \<and>
    (r = OkStatus \<longrightarrow> u = kReady \<and> (v = kPosted \<or> (\<exists>(ops, reply) \<in> set script. OpPost \<in> set ops)))"
  using Futex_Wait_returns[OF assms] Futex_Wait_outcome[OF _ assms(1)] by blast

theorem futex_wait_ends_witness:
  "\<exists>r u. Futex_Wait [([OpPost, OpTryWait], FR_woken), ([OpPost], FR_woken)] kReady = Some (r, u)"
  using futex_wait_ends[of kReady "[OpPost]" "[([OpPost, OpTryWait], FR_woken), ([OpPost], FR_woken)]"]
  by (auto simp: futex_valid_def)

end
