(* ===== verification/Remote_Trigger.thy ===== *)
theory Remote_Trigger
  imports Binary_Futex Rt_Monad
begin

text \<open>
  \<^verbatim>\<open>intrinsic/icon/interprocess/remote_trigger/remote_trigger_client.cc\<close> and
  \<^verbatim>\<open>remote_trigger_server.cc\<close>: calling a function in another process over a pair of futexes. The
  first part has the client's operations as the hardware module manager uses them; the futexes are shared
  with other processes and belong to a world whose operations are a record of functions. The second part
  interleaves one client with one server, step by step on the futex words.
\<close>

section \<open>Clients and requests\<close>

text \<open>\<open>'c\<close> identifies a client. \<open>started\<close> is the flag \<^verbatim>\<open>request_started_\<close> of each client.
  An \<^verbatim>\<open>AsyncRequest\<close> is a pointer to the flag and the futex of its client, or null. The deadline
  \<open>None\<close> is the infinite future.\<close>

record ('c, 'w) trigger_env =
  is_connected :: "'c \<Rightarrow> bool"
  post_request :: "'c \<Rightarrow> 'w \<Rightarrow> rt_status \<times> 'w"
  try_wait_response :: "'c \<Rightarrow> 'w \<Rightarrow> bool option \<times> 'w"
  response_value :: "'c \<Rightarrow> 'w \<Rightarrow> 32 word \<times> 'w"
  await_response :: "'c \<Rightarrow> int option \<Rightarrow> 'w \<Rightarrow> rt_status \<times> 'w"
  clock_now :: "'w \<Rightarrow> int \<times> 'w"

record ('c, 'w) trigger_sys =
  hw :: 'w
  started :: "'c \<Rightarrow> bool"

type_synonym 'c async_request = "'c option"

definition hw_call :: "('w \<Rightarrow> 'a \<times> 'w) \<Rightarrow> (('c, 'w, 'z) trigger_sys_scheme, 'a) rt" where
  "hw_call f s = (case f (hw s) of (x, w) \<Rightarrow> (Inr x, s\<lparr>hw := w\<rparr>))"

definition set_started ::
  "'c \<Rightarrow> bool \<Rightarrow> ('c, 'w, 'z) trigger_sys_scheme \<Rightarrow> ('c, 'w, 'z) trigger_sys_scheme" where
  "set_started c b s = s\<lparr>started := (started s)(c := b)\<rparr>"

definition AsyncRequest_Valid :: "'c async_request \<Rightarrow> (('c, 'w, 'z) trigger_sys_scheme, bool) rt" where
  "AsyncRequest_Valid r = (case r of None \<Rightarrow> rt_return False | Some c \<Rightarrow> rt_gets (\<lambda>s. started s c))"

text \<open>A request is the client that it belongs to, or \<open>None\<close> for the default constructed one. The pointer to the
  response survives \<^verbatim>\<open>WaitUntil\<close>, which clears the other pointer only, so that \<^verbatim>\<open>Ready\<close> of an
  answered request still reads the response in the code; here it is False then. No caller can see the difference: those that keep
  a request ask \<^verbatim>\<open>Valid\<close>, too, which is False in both, and the polling loop drops a request it has waited for.\<close>

definition AsyncRequest_Ready ::
  "('c, 'w, 'e) trigger_env_scheme \<Rightarrow> 'c async_request \<Rightarrow> (('c, 'w, 'z) trigger_sys_scheme, bool) rt" where
  "AsyncRequest_Ready E r =
     (case r of
        None \<Rightarrow> rt_return False
      | Some c \<Rightarrow> rt_bind (hw_call (response_value E c)) (\<lambda>v. rt_return (0 < v)))"

text \<open>The status of the wait, and the request afterwards.\<close>

definition AsyncRequest_WaitUntil ::
  "('c, 'w, 'e) trigger_env_scheme \<Rightarrow> int option \<Rightarrow> 'c async_request \<Rightarrow>
   (('c, 'w, 'z) trigger_sys_scheme, rt_status \<times> 'c async_request) rt" where
  "AsyncRequest_WaitUntil E deadline r =
     rt_bind (AsyncRequest_Valid r) (\<lambda>valid.
     case r of
       None \<Rightarrow> rt_return (Error FailedPrecondition, r)
     | Some c \<Rightarrow>
         if \<not> valid then rt_return (Error FailedPrecondition, r)
         else
           rt_bind (hw_call (await_response E c deadline)) (\<lambda>response.
           rt_bind (rt_modify (set_started c False)) (\<lambda>_. rt_return (response, None))))"

text \<open>The destructor clears the flag; a move assignment takes the other pointer over and leaves the flag of
  the request that it overwrites alone.\<close>

definition AsyncRequest_destroy :: "'c async_request \<Rightarrow> (('c, 'w, 'z) trigger_sys_scheme, unit) rt" where
  "AsyncRequest_destroy r =
     (case r of None \<Rightarrow> rt_return () | Some c \<Rightarrow> rt_modify (set_started c False))"

definition AsyncRequest_move_assign :: "'c async_request \<Rightarrow> 'c async_request \<Rightarrow> 'c async_request" where
  "AsyncRequest_move_assign this other = other"

definition TriggerAsync ::
  "('c, 'w, 'e) trigger_env_scheme \<Rightarrow> 'c \<Rightarrow> (('c, 'w, 'z) trigger_sys_scheme, 'c async_request) rt" where
  "TriggerAsync E c =
     (if \<not> is_connected E c then rt_fail (Error InvalidArgument)
      else
        rt_bind (rt_gets (\<lambda>s. started s c)) (\<lambda>active.
        if active then rt_fail (Error AlreadyExists)
        else
          rt_bind (rt_modify (set_started c True)) (\<lambda>_.
          rt_bind (hw_call (try_wait_response E c)) (\<lambda>left_over.
          if left_over = None then rt_fail (Error FailedPrecondition)
          else
            rt_bind (hw_call (post_request E c)) (\<lambda>st.
            rt_bind (rt_check st) (\<lambda>_. rt_return (Some c)))))))"

definition Trigger ::
  "('c, 'w, 'e) trigger_env_scheme \<Rightarrow> int option \<Rightarrow> 'c \<Rightarrow> (('c, 'w, 'z) trigger_sys_scheme, unit) rt" where
  "Trigger E deadline c =
     (if \<not> is_connected E c then rt_fail (Error InvalidArgument)
      else
        rt_bind (hw_call (clock_now E)) (\<lambda>t.
        if (case deadline of None \<Rightarrow> False | Some d \<Rightarrow> d < t) then rt_fail (Error DeadlineExceeded)
        else
          rt_bind (rt_gets (\<lambda>s. started s c)) (\<lambda>active.
          if active then rt_fail (Error AlreadyExists)
          else
            rt_bind (rt_modify (set_started c True)) (\<lambda>_.
            rt_finally
              (rt_bind (hw_call (post_request E c)) (\<lambda>st.
               rt_bind (rt_check st) (\<lambda>_.
               rt_bind (hw_call (await_response E c deadline)) rt_check)))
              (set_started c False)))))"

section \<open>The protocol\<close>

text \<open>One client thread that uses \<^verbatim>\<open>TriggerAsync\<close> and \<^verbatim>\<open>WaitUntil\<close>, and the
  server's loop \<^verbatim>\<open>Run\<close>, with every access of a futex word as a step of its own. The last three
  fields are history: how many requests were posted, for which of them the callback has run to its end, and
  which were reported to the client as done. A request that the server takes counts as the latest one.\<close>

datatype client_pc = C_idle | C_started | C_cleared | C_pending
datatype server_pc = S_waiting | S_running nat | S_finished nat | S_stopped

record trigger_protocol =
  request_word :: "32 word"
  response_word :: "32 word"
  request_started :: bool
  client_at :: client_pc
  server_at :: server_pc
  requests :: nat
  executed :: "nat list"
  acknowledged :: "nat list"

definition trigger_init :: trigger_protocol where
  "trigger_init = \<lparr>request_word = mk_BinaryFutex False, response_word = mk_BinaryFutex False,
     request_started = False, client_at = C_idle, server_at = S_waiting, requests = 0, executed = [],
     acknowledged = []\<rparr>"

inductive trigger_step :: "bool \<Rightarrow> trigger_protocol \<Rightarrow> trigger_protocol \<Rightarrow> bool" for timeouts where
  start: "client_at s = C_idle \<Longrightarrow> \<not> request_started s \<Longrightarrow>
    trigger_step timeouts s (s\<lparr>client_at := C_started, request_started := True\<rparr>)"
| clear: "client_at s = C_started \<Longrightarrow> Futex_TryWait (response_word s) = (Some b, v) \<Longrightarrow>
    trigger_step timeouts s (s\<lparr>client_at := C_cleared, response_word := v\<rparr>)"
| clear_gone: "client_at s = C_started \<Longrightarrow> Futex_TryWait (response_word s) = (None, v) \<Longrightarrow>
    trigger_step timeouts s (s\<lparr>client_at := C_idle, response_word := v\<rparr>)"
| post: "client_at s = C_cleared \<Longrightarrow> Futex_Post (request_word s) = (OkStatus, v) \<Longrightarrow>
    trigger_step timeouts s (s\<lparr>client_at := C_pending, request_word := v, requests := requests s + 1\<rparr>)"
| post_gone: "client_at s = C_cleared \<Longrightarrow> Futex_Post (request_word s) = (Error e, v) \<Longrightarrow>
    trigger_step timeouts s (s\<lparr>client_at := C_idle, request_word := v\<rparr>)"
| wait_done: "client_at s = C_pending \<Longrightarrow> futex_take (response_word s) = (kPosted, v) \<Longrightarrow>
    trigger_step timeouts s (s\<lparr>client_at := C_idle, response_word := v, request_started := False,
      acknowledged := acknowledged s @ [requests s]\<rparr>)"
| wait_gone: "client_at s = C_pending \<Longrightarrow> futex_take (response_word s) = (kClosed, v) \<Longrightarrow>
    trigger_step timeouts s (s\<lparr>client_at := C_idle, response_word := v, request_started := False\<rparr>)"
| wait_timeout: "client_at s = C_pending \<Longrightarrow> timeouts \<Longrightarrow>
    trigger_step timeouts s (s\<lparr>client_at := C_idle, request_started := False\<rparr>)"
| serve: "server_at s = S_waiting \<Longrightarrow> futex_take (request_word s) = (kPosted, v) \<Longrightarrow>
    trigger_step timeouts s (s\<lparr>server_at := S_running (requests s), request_word := v\<rparr>)"
| callback: "server_at s = S_running k \<Longrightarrow>
    trigger_step timeouts s (s\<lparr>server_at := S_finished k, executed := executed s @ [k]\<rparr>)"
| answer: "server_at s = S_finished k \<Longrightarrow> Futex_Post (response_word s) = (OkStatus, v) \<Longrightarrow>
    trigger_step timeouts s (s\<lparr>server_at := S_waiting, response_word := v\<rparr>)"
| shutdown: "server_at s = S_waiting \<Longrightarrow>
    trigger_step timeouts s (s\<lparr>server_at := S_stopped, response_word := Futex_Close (response_word s)\<rparr>)"

inductive trigger_reachable :: "bool \<Rightarrow> trigger_protocol \<Rightarrow> bool" for timeouts where
  init: "trigger_reachable timeouts trigger_init"
| step: "trigger_reachable timeouts s \<Longrightarrow> trigger_step timeouts s t \<Longrightarrow> trigger_reachable timeouts t"

section \<open>Without timeouts\<close>

text \<open>Where the server can be for each position of the client.\<close>

definition client_server_phase :: "trigger_protocol \<Rightarrow> bool" where
  "client_server_phase s \<longleftrightarrow>
     (if server_at s = S_stopped then response_word s = kClosed
      else if client_at s \<noteq> C_pending
      then server_at s = S_waiting \<and> request_word s = kReady \<and> response_word s = kReady
      else server_at s = S_waiting \<and> request_word s = kPosted \<and> response_word s = kReady \<and> requests s \<notin> set (executed s) \<or>
        server_at s = S_running (requests s) \<and> request_word s = kReady \<and> response_word s = kReady \<and>
          requests s \<notin> set (executed s) \<or>
        server_at s = S_finished (requests s) \<and> request_word s = kReady \<and> response_word s = kReady \<and>
          requests s \<in> set (executed s) \<or>
        server_at s = S_waiting \<and> request_word s = kReady \<and> response_word s = kPosted \<and> requests s \<in> set (executed s))"

definition trigger_inv :: "trigger_protocol \<Rightarrow> bool" where
  "trigger_inv s \<longleftrightarrow> client_server_phase s \<and> set (acknowledged s) \<subseteq> set (executed s) \<and> distinct (executed s) \<and>
     (\<forall>k \<in> set (executed s). k \<le> requests s)"

lemma trigger_inv_init: "trigger_inv trigger_init"
  by (simp add: trigger_inv_def client_server_phase_def trigger_init_def mk_BinaryFutex_def)

lemma trigger_inv_step: "trigger_step False s t \<Longrightarrow> trigger_inv s \<Longrightarrow> trigger_inv t"
  by (erule trigger_step.cases)
     (auto simp: trigger_inv_def client_server_phase_def Futex_TryWait_def Futex_Post_def futex_take_def Futex_Close_def
       split: if_splits)

lemma trigger_reachable_inv: "trigger_reachable False s \<Longrightarrow> trigger_inv s"
  by (induction rule: trigger_reachable.induct) (auto intro: trigger_inv_init trigger_inv_step)

lemma hw_call_Inr: "hw_call f s = (Inr x, t) \<longleftrightarrow> (\<exists>w. f (hw s) = (x, w) \<and> t = s\<lparr>hw := w\<rparr>)"
  by (auto simp: hw_call_def split: prod.splits)

lemma TriggerAsync_Inr:
  "TriggerAsync E c s = (Inr r, t) \<longleftrightarrow> is_connected E c \<and> \<not> started s c \<and> r = Some c \<and>
     (\<exists>b w u. try_wait_response E c (hw s) = (Some b, w) \<and> post_request E c w = (OkStatus, u) \<and>
        t = set_started c True (s\<lparr>hw := u\<rparr>))"
  by (auto simp: TriggerAsync_def rt_Inr_iff hw_call_Inr set_started_def split: if_splits)

lemma TriggerAsync_started:
  "is_connected E c \<Longrightarrow> started s c \<Longrightarrow> TriggerAsync E c s = (Inl (Error AlreadyExists), s)"
  by (simp add: TriggerAsync_def rt_defs)

section \<open>Properties\<close>

text \<open>C35 (safety). As long as the client never gives a request up, whatever the two processes' steps are
  interleaved with: what the client is told is done, the server has done, and it has run the callback of
  every request at most once.\<close>

theorem acknowledged_requests_ran:
  assumes "trigger_reachable False s"
  shows "set (acknowledged s) \<subseteq> set (executed s) \<and> distinct (executed s) \<and>
    set (executed s) \<subseteq> {..requests s}"
  using trigger_reachable_inv[OF assms] by (auto simp: trigger_inv_def)

text \<open>The run of one request, with the states in between written out by their last step.\<close>

definition exchanged :: trigger_protocol where
  "exchanged = trigger_init\<lparr>requests := 1, executed := [1], acknowledged := [1]\<rparr>"

lemma exchanged_reachable: "trigger_reachable b exchanged"
proof -
  let ?s1 = "trigger_init\<lparr>client_at := C_started, request_started := True\<rparr>"
  let ?s2 = "?s1\<lparr>client_at := C_cleared, response_word := kReady\<rparr>"
  let ?s3 = "?s2\<lparr>client_at := C_pending, request_word := kPosted, requests := 1\<rparr>"
  let ?s4 = "?s3\<lparr>server_at := S_running 1, request_word := kReady\<rparr>"
  let ?s5 = "?s4\<lparr>server_at := S_finished 1, executed := [1]\<rparr>"
  let ?s6 = "?s5\<lparr>server_at := S_waiting, response_word := kPosted\<rparr>"
  let ?s7 = "?s6\<lparr>client_at := C_idle, response_word := kReady, request_started := False, acknowledged := [1]\<rparr>"
  note vals = trigger_init_def mk_BinaryFutex_def Futex_TryWait_def Futex_Post_def futex_take_def
  note go = trigger_reachable.step[where timeouts = b]
  have "trigger_reachable b ?s1" by (rule go[OF trigger_reachable.init trigger_step.start]) (simp_all add: vals)
  then have "trigger_reachable b ?s2"
    by (rule go) (rule trigger_step.clear[where b = False], simp_all add: vals)
  then have "trigger_reachable b ?s3"
    using trigger_step.post[of ?s2 kPosted b] by (auto intro: go simp: vals)
  then have "trigger_reachable b ?s4"
    using trigger_step.serve[of ?s3 kReady b] by (auto intro: go simp: vals)
  then have "trigger_reachable b ?s5"
    using trigger_step.callback[of ?s4 1 b] by (auto intro: go simp: vals)
  then have "trigger_reachable b ?s6"
    using trigger_step.answer[of ?s5 1 kPosted b] by (auto intro: go simp: vals)
  then have "trigger_reachable b ?s7"
    using trigger_step.wait_done[of ?s6 kReady b] by (auto intro: go simp: vals)
  then show ?thesis by (simp add: exchanged_def vals)
qed

theorem acknowledged_requests_ran_witness: "set (acknowledged exchanged) \<subseteq> set (executed exchanged)"
  using acknowledged_requests_ran[OF exchanged_reachable] by blast

text \<open>With timeouts this is lost: a client that gives up a request and sends the next one can be
  told that the second is done when only the callback of the first has run, since the late answer to the
  first cannot be told from an answer to the second.\<close>

theorem late_answer_acknowledges_next_request:
  "\<exists>s. trigger_reachable True s \<and> client_at s = C_idle \<and> requests s = 2 \<and> acknowledged s = [2] \<and> executed s = [1]"
proof -
  let ?s1 = "trigger_init\<lparr>client_at := C_started, request_started := True\<rparr>"
  let ?s2 = "?s1\<lparr>client_at := C_cleared, response_word := kReady\<rparr>"
  let ?s3 = "?s2\<lparr>client_at := C_pending, request_word := kPosted, requests := 1\<rparr>"
  let ?s4 = "?s3\<lparr>server_at := S_running 1, request_word := kReady\<rparr>"
  let ?s5 = "?s4\<lparr>client_at := C_idle, request_started := False\<rparr>"
  let ?s6 = "?s5\<lparr>client_at := C_started, request_started := True\<rparr>"
  let ?s7 = "?s6\<lparr>client_at := C_cleared, response_word := kReady\<rparr>"
  let ?s8 = "?s7\<lparr>client_at := C_pending, request_word := kPosted, requests := Suc 1\<rparr>"
  let ?s9 = "?s8\<lparr>server_at := S_finished 1, executed := [1]\<rparr>"
  let ?s10 = "?s9\<lparr>server_at := S_waiting, response_word := kPosted\<rparr>"
  let ?s11 = "?s10\<lparr>client_at := C_idle, response_word := kReady, request_started := False, acknowledged := [Suc 1]\<rparr>"
  note vals = trigger_init_def mk_BinaryFutex_def Futex_TryWait_def Futex_Post_def futex_take_def
  note go = trigger_reachable.step[where timeouts = True]
  have "trigger_reachable True ?s1" by (rule go[OF trigger_reachable.init trigger_step.start]) (simp_all add: vals)
  then have "trigger_reachable True ?s2"
    by (rule go) (rule trigger_step.clear[where b = False], simp_all add: vals)
  then have "trigger_reachable True ?s3"
    using trigger_step.post[of ?s2 kPosted True] by (auto intro: go simp: vals)
  then have "trigger_reachable True ?s4"
    using trigger_step.serve[of ?s3 kReady True] by (auto intro: go simp: vals)
  then have "trigger_reachable True ?s5"
    by (rule go) (rule trigger_step.wait_timeout, simp_all)
  then have "trigger_reachable True ?s6"
    by (rule go) (rule trigger_step.start, simp_all)
  then have "trigger_reachable True ?s7"
    by (rule go) (rule trigger_step.clear[where b = False], simp_all add: vals)
  then have "trigger_reachable True ?s8"
    using trigger_step.post[of ?s7 kPosted True] by (auto intro: go simp: vals)
  then have "trigger_reachable True ?s9"
    using trigger_step.callback[of ?s8 1 True] by (auto intro: go simp: vals)
  then have "trigger_reachable True ?s10"
    using trigger_step.answer[of ?s9 1 kPosted True] by (auto intro: go simp: vals)
  then have "trigger_reachable True ?s11"
    using trigger_step.wait_done[of ?s10 kReady True] by (auto intro: go simp: vals)
  then show ?thesis by (intro exI[of _ ?s11]) (simp add: vals)
qed

text \<open>A client has one request at a time: a triggered request is valid, a second trigger is
  refused without any effect, and waiting for the request, whatever comes of it, frees the client. A request
  that is overwritten by a move assignment leaves its client blocked for good.\<close>

theorem one_request_per_client:
  assumes "TriggerAsync E c s = (Inr r, t)"
  shows "fst (AsyncRequest_Valid r t) = Inr True \<and> TriggerAsync E c t = (Inl (Error AlreadyExists), t) \<and>
    \<not> started (snd (AsyncRequest_WaitUntil E d r t)) c \<and>
    (d' \<noteq> c \<longrightarrow> TriggerAsync E d' t = (Inr r', u) \<longrightarrow>
       fst (rt_bind (AsyncRequest_WaitUntil E d (AsyncRequest_move_assign r r')) (\<lambda>(_, q).
            rt_bind (AsyncRequest_destroy q) (\<lambda>_. TriggerAsync E c)) u) = Inl (Error AlreadyExists))"
proof -
  have c: "is_connected E c" "r = Some c" "started t c"
    using assms by (auto simp: TriggerAsync_Inr set_started_def)
  have wait: "\<not> started (snd (AsyncRequest_WaitUntil E d r t)) c"
    using c by (simp add: AsyncRequest_WaitUntil_def AsyncRequest_Valid_def rt_defs hw_call_def set_started_def
        split: prod.splits)
  have "fst (rt_bind (AsyncRequest_WaitUntil E d (AsyncRequest_move_assign r r')) (\<lambda>(_, q).
            rt_bind (AsyncRequest_destroy q) (\<lambda>_. TriggerAsync E c)) u) = Inl (Error AlreadyExists)"
    if "d' \<noteq> c" "TriggerAsync E d' t = (Inr r', u)"
  proof -
    have u: "r' = Some d'" "started u d'" "started u c"
      using that c(3) by (auto simp: TriggerAsync_Inr set_started_def)
    then show ?thesis using that(1) c(1)
      by (auto simp: AsyncRequest_move_assign_def AsyncRequest_WaitUntil_def AsyncRequest_Valid_def rt_defs hw_call_def
          set_started_def AsyncRequest_destroy_def TriggerAsync_def split: prod.splits)
  qed
  then show ?thesis using c wait by (auto simp: AsyncRequest_Valid_def rt_gets_def TriggerAsync_started)
qed

text \<open>A sample world in which every other process answers at once; its state counts the posts.\<close>

definition sample_trigger_env :: "('c, nat) trigger_env" where
  "sample_trigger_env = \<lparr>is_connected = \<lambda>_. True, post_request = \<lambda>c w. (OkStatus, w + 1),
     try_wait_response = \<lambda>c w. (Some False, w), response_value = \<lambda>c w. (kPosted, w),
     await_response = \<lambda>c d w. (OkStatus, w), clock_now = \<lambda>w. (int w, w)\<rparr>"

theorem one_request_per_client_witness:
  "TriggerAsync sample_trigger_env (0 :: nat) \<lparr>hw = 1, started = (\<lambda>_. False)(0 := True)\<rparr> =
     (Inl (Error AlreadyExists), \<lparr>hw = 1, started = (\<lambda>_. False)(0 := True)\<rparr>)"
proof -
  let ?t = "\<lparr>hw = 1, started = (\<lambda>_. False)(0 := True)\<rparr> :: (nat, nat) trigger_sys"
  have "TriggerAsync sample_trigger_env (0 :: nat) \<lparr>hw = 0, started = \<lambda>_. False\<rparr> = (Inr (Some 0), ?t)"
    by (auto simp: TriggerAsync_Inr sample_trigger_env_def set_started_def)
  from one_request_per_client[OF this] show ?thesis by blast
qed

end
