(* ===== verification/Hardware_Module_Manager.thy ===== *)
theory Hardware_Module_Manager
  imports Remote_Trigger Operational_Status
begin

text \<open>
  \<^verbatim>\<open>intrinsic/icon/hal/hardware_module_manager.{h,cc}\<close>: the manager of all hardware modules
  of a controller. It reads and writes them in every cycle, forwards requests for transitions to them, and
  combines their states. Hardware modules are other processes; they are called through remote triggers.
\<close>

section \<open>State\<close>

datatype trigger_kind =
    T_Prepare | T_Activate | T_Deactivate | T_EnableMotion | T_DisableMotion | T_ClearFaults
  | T_ReadStatus | T_ApplyCommand

type_synonym hwm_client = "nat \<times> trigger_kind"

datatype request_state = RS_kUnknown | RS_kActive | RS_kPartiallyDone | RS_kDone

datatype transition_request =
    TR_kEnableMotion | TR_kDisableMotion | TR_kDisableMotionSkipCellControlHardware | TR_kClearFaults

datatype hardware_group = kAllHardware | kOperationalHardware | kCellControlHardware

text \<open>One entry of \<^verbatim>\<open>hwm_proxy_data_\<close>. The proxy pointers are never null: \<^verbatim>\<open>Add\<close> is
  the only place that creates entries. A module is identified by its index.\<close>

record hwm_data =
  hwm_name :: string
  async_request :: "hwm_client async_request"
  rt_async_request :: "hwm_client async_request"
  async_request_start_time :: int
  cached_state :: state_code
  cached_message :: string
  cell_control_hardware_keep_enabled :: bool

text \<open>\<open>hw_state\<close> reads the state of a module from shared memory, \<open>hw_mark_cycle\<close> is the update
  of the cycle counter that \<^verbatim>\<open>ApplyCommandAsync\<close> makes before it triggers.\<close>

record 'w hwm_env = "(hwm_client, 'w) trigger_env" +
  hw_state :: "nat \<Rightarrow> 'w \<Rightarrow> (state_code \<times> string) \<times> 'w"
  hw_mark_cycle :: "nat \<Rightarrow> 'w \<Rightarrow> unit \<times> 'w"

record 'w hwm_sys = "(hwm_client, 'w) trigger_sys" +
  hwms :: "hwm_data list"
  clock_driver :: "nat option"
  pending_transition_request :: "transition_request option"
  current_command_id :: "64 word"
  request_timeout :: int
  transitions_paused :: bool
  cached_request_state :: request_state
  combined_fault_reason :: "string option"

definition kFaultReasonMaxLength :: nat where "kFaultReasonMaxLength = 1024"

text \<open>\<^verbatim>\<open>FixedString::append\<close> cuts off what does not fit.\<close>

definition fs_append :: "nat \<Rightarrow> string \<Rightarrow> string \<Rightarrow> string" where
  "fs_append max_size s t = take max_size (s @ t)"

definition upd_hwm :: "nat \<Rightarrow> (hwm_data \<Rightarrow> hwm_data) \<Rightarrow> 'w hwm_sys \<Rightarrow> 'w hwm_sys" where
  "upd_hwm i f s = s\<lparr>hwms := (hwms s)[i := f (hwms s ! i)]\<rparr>"

definition IsInGroup :: "hwm_data \<Rightarrow> hardware_group \<Rightarrow> bool" where
  "IsInGroup d grp =
     (case grp of
        kAllHardware \<Rightarrow> True
      | kOperationalHardware \<Rightarrow> \<not> cell_control_hardware_keep_enabled d
      | kCellControlHardware \<Rightarrow> cell_control_hardware_keep_enabled d)"

definition ToRealtimeOperationalStatus :: "state_code \<Rightarrow> string \<Rightarrow> rt_operational_status" where
  "ToRealtimeOperationalStatus code message =
     (let st = ToRealtimeOperationalState code in
      \<lparr>ros_state = st,
       ros_fault_reason = (if st = Rt_kFatallyFaulted \<or> st = Rt_kFaultedConnected
                           then take kFaultReasonMaxLength message else [])\<rparr>)"

definition Add :: "string \<Rightarrow> bool \<Rightarrow> bool \<Rightarrow> int \<Rightarrow> ('w hwm_sys, unit) rt" where
  "Add name proxy_drives_clock has_cell_control_hardware t =
     rt_bind (rt_gets clock_driver) (\<lambda>driver.
     if proxy_drives_clock \<and> driver \<noteq> None then rt_fail (Error FailedPrecondition)
     else rt_modify (\<lambda>s. s\<lparr>hwms := hwms s @ [\<lparr>hwm_name = name, async_request = None,
            rt_async_request = None, async_request_start_time = t, cached_state = HwmDeactivated,
            cached_message = [], cell_control_hardware_keep_enabled = has_cell_control_hardware\<rparr>],
          clock_driver := (if proxy_drives_clock then Some (length (hwms s)) else driver)\<rparr>))"

section \<open>Reading and writing\<close>

text \<open>Errors are collected in a message; the model keeps whether it is empty. \<open>trigger_or_note\<close> is a
  trigger whose error goes to the message.\<close>

definition trigger_or_note ::
  "'w hwm_env \<Rightarrow> hwm_client \<Rightarrow> bool \<Rightarrow> ('w hwm_sys, hwm_client async_request \<times> bool) rt" where
  "trigger_or_note E c failed =
     rt_bind (rt_try (TriggerAsync E c)) (\<lambda>r.
       rt_return (case r of Inl e \<Rightarrow> (None, True) | Inr req \<Rightarrow> (req, failed)))"

definition ReadStatus_async :: "'w hwm_env \<Rightarrow> nat \<Rightarrow> bool \<Rightarrow> ('w hwm_sys, hwm_client async_request \<times> bool) rt" where
  "ReadStatus_async E i = trigger_or_note E (i, T_ReadStatus)"

definition wait_or_note ::
  "'w hwm_env \<Rightarrow> int option \<Rightarrow> hwm_client async_request \<Rightarrow> bool \<Rightarrow> ('w hwm_sys, bool) rt" where
  "wait_or_note E deadline r failed =
     rt_bind (AsyncRequest_Valid r) (\<lambda>valid.
     if \<not> valid then rt_return failed
     else rt_bind (AsyncRequest_WaitUntil E deadline r) (\<lambda>(status, _).
       rt_return (failed \<or> status \<noteq> OkStatus)))"

definition wait_rt_request :: "'w hwm_env \<Rightarrow> int option \<Rightarrow> nat \<Rightarrow> bool \<Rightarrow> ('w hwm_sys, bool) rt" where
  "wait_rt_request E deadline i failed =
     rt_bind (rt_gets (\<lambda>s. rt_async_request (hwms s ! i))) (\<lambda>r.
     rt_bind (AsyncRequest_Valid r) (\<lambda>valid.
     if \<not> valid then rt_return failed
     else
       rt_bind (wait_or_note E deadline r failed) (\<lambda>failed'.
       rt_bind (rt_modify (upd_hwm i (\<lambda>d. d\<lparr>rt_async_request := None\<rparr>))) (\<lambda>_. rt_return failed'))))"

definition start_read :: "'w hwm_env \<Rightarrow> nat \<Rightarrow> bool \<Rightarrow> ('w hwm_sys, bool) rt" where
  "start_read E i failed =
     rt_bind (ReadStatus_async E i failed) (\<lambda>(r, failed').
     rt_bind (AsyncRequest_Valid r) (\<lambda>valid.
     rt_bind (rt_modify (upd_hwm i (\<lambda>d. d\<lparr>rt_async_request := (if valid then r else None)\<rparr>))) (\<lambda>_.
       rt_return failed')))"

definition followers :: "'w hwm_sys \<Rightarrow> nat list" where
  "followers s = filter (\<lambda>i. clock_driver s \<noteq> Some i) [0..<length (hwms s)]"

definition Read :: "'w hwm_env \<Rightarrow> int option \<Rightarrow> ('w hwm_sys, unit) rt" where
  "Read E deadline =
     rt_bind (rt_gets clock_driver) (\<lambda>driver.
     rt_bind (case driver of
                None \<Rightarrow> rt_return False
              | Some d \<Rightarrow> rt_bind (ReadStatus_async E d False) (\<lambda>(r, failed). wait_or_note E deadline r failed))
       (\<lambda>failed.
     rt_bind (rt_gets followers) (\<lambda>others.
     rt_bind (rt_fold others (start_read E) failed) (\<lambda>failed.
     rt_bind (rt_fold others (wait_rt_request E deadline) failed) (\<lambda>failed.
       if failed then rt_fail (Error Aborted) else rt_return ())))))"

definition ApplyCommand_async ::
  "'w hwm_env \<Rightarrow> nat \<Rightarrow> state_code \<Rightarrow> bool \<Rightarrow> ('w hwm_sys, hwm_client async_request \<times> bool) rt" where
  "ApplyCommand_async E i code failed =
     (if code \<noteq> HwmMotionEnabled then rt_return (None, failed)
      else rt_bind (hw_call (hw_mark_cycle E i)) (\<lambda>_. trigger_or_note E (i, T_ApplyCommand) failed))"

definition start_write :: "'w hwm_env \<Rightarrow> nat \<Rightarrow> bool \<Rightarrow> ('w hwm_sys, bool) rt" where
  "start_write E i failed =
     rt_bind (rt_gets (\<lambda>s. cached_state (hwms s ! i))) (\<lambda>code.
     rt_bind (ApplyCommand_async E i code failed) (\<lambda>(r, failed').
     rt_bind (AsyncRequest_Valid r) (\<lambda>valid.
     rt_bind (rt_modify (upd_hwm i (\<lambda>d. d\<lparr>rt_async_request := (if valid then r else None)\<rparr>))) (\<lambda>_.
       rt_return failed'))))"

definition Write :: "'w hwm_env \<Rightarrow> int option \<Rightarrow> ('w hwm_sys, unit) rt" where
  "Write E deadline =
     rt_bind (rt_gets followers) (\<lambda>others.
     rt_bind (rt_fold others (start_write E) False) (\<lambda>failed.
     rt_bind (rt_gets (\<lambda>s. length (hwms s))) (\<lambda>n.
     rt_bind (rt_fold [0..<n] (wait_rt_request E deadline) failed) (\<lambda>failed.
     rt_bind (rt_gets clock_driver) (\<lambda>driver.
     rt_bind (case driver of
                None \<Rightarrow> rt_return failed
              | Some d \<Rightarrow>
                  rt_bind (rt_gets (\<lambda>s. cached_state (hwms s ! d))) (\<lambda>code.
                  rt_bind (ApplyCommand_async E d code failed) (\<lambda>(r, failed'). wait_or_note E deadline r failed')))
       (\<lambda>failed. if failed then rt_fail (Error Aborted) else rt_return ()))))))"

section \<open>Transitions\<close>

fun request_target :: "transition_request \<Rightarrow> state_code" where
  "request_target TR_kEnableMotion = HwmMotionEnabling"
| "request_target TR_kDisableMotion = HwmMotionDisabling"
| "request_target TR_kDisableMotionSkipCellControlHardware = HwmMotionDisabling"
| "request_target TR_kClearFaults = HwmClearingFaults"

definition merge_guard :: "transition_guard_result \<Rightarrow> transition_guard_result \<Rightarrow> transition_guard_result" where
  "merge_guard merged result =
     (if merged = kAllowed \<or> result = kAllowed then kAllowed
      else if merged = kProhibited \<or> result = kProhibited then kProhibited else merged)"

fun guard_loop ::
  "bool \<Rightarrow> state_code \<Rightarrow> hwm_data list \<Rightarrow> transition_guard_result \<Rightarrow> transition_guard_result" where
  "guard_loop skip to [] merged = merged"
| "guard_loop skip to (d # ds) merged =
     (if skip \<and> cell_control_hardware_keep_enabled d then guard_loop skip to ds merged
      else guard_loop skip to ds (merge_guard merged (HardwareModuleTransitionGuard (cached_state d) to)))"

definition CheckTransitionGuard :: "hwm_data list \<Rightarrow> transition_request \<Rightarrow> transition_guard_result status_or" where
  "CheckTransitionGuard ds request =
     (if ds = [] then Inr kNoOp
      else
        let merged = guard_loop (request = TR_kDisableMotionSkipCellControlHardware) (request_target request) ds kNoOp
        in if merged = kProhibited then Inl (Error FailedPrecondition)
           else if merged = kNoOp then Inr kNoOp else Inr kAllowed)"

text \<open>\<open>request_idle\<close>: the module has no valid request.\<close>

definition request_idle :: "'w hwm_sys \<Rightarrow> hwm_data \<Rightarrow> bool" where
  "request_idle s d = (case async_request d of None \<Rightarrow> True | Some c \<Rightarrow> \<not> started s c)"

definition RequestTransition :: "transition_request \<Rightarrow> ('w hwm_sys, 64 word option) rt" where
  "RequestTransition request =
     rt_bind (rt_gets pending_transition_request) (\<lambda>pending.
     case pending of
       Some p \<Rightarrow> if p = request then rt_fail OkStatus else rt_fail (Error ResourceExhausted)
     | None \<Rightarrow>
         rt_bind (rt_gets (\<lambda>s. hwms s \<noteq> [] \<and> find (request_idle s) (hwms s) = None)) (\<lambda>all_busy.
         if all_busy then rt_fail (Error ResourceExhausted)
         else
           rt_bind (rt_lift_st (\<lambda>s. CheckTransitionGuard (hwms s) request)) (\<lambda>guard_result.
           if guard_result = kNoOp then rt_return None
           else
             rt_bind (rt_modify (\<lambda>s. s\<lparr>pending_transition_request := Some request,
                current_command_id := current_command_id s + 1\<rparr>)) (\<lambda>_.
             rt_gets (\<lambda>s. Some (current_command_id s))))))"

definition PendingTransitionRequest :: "64 word \<Rightarrow> 'w hwm_sys \<Rightarrow> transition_request option" where
  "PendingTransitionRequest command_id s =
     (if command_id \<noteq> current_command_id s then None else pending_transition_request s)"

definition GetRequestState :: "'w hwm_sys \<Rightarrow> request_state" where
  "GetRequestState s = (if pending_transition_request s \<noteq> None then RS_kActive else cached_request_state s)"

definition GetRequestStateOf :: "64 word \<Rightarrow> 'w hwm_sys \<Rightarrow> request_state status_or" where
  "GetRequestStateOf command_id s =
     (if command_id \<noteq> current_command_id s then Inl (Error FailedPrecondition) else Inr (GetRequestState s))"

definition PauseTransitions :: "bool \<Rightarrow> ('w hwm_sys, unit) rt" where
  "PauseTransitions pause = rt_modify (\<lambda>s. s\<lparr>transitions_paused := pause\<rparr>)"

text \<open>The first loop of \<^verbatim>\<open>ProcessTransitionRequestAsync\<close> finishes requests that are answered.\<close>

definition finish_request :: "'w hwm_env \<Rightarrow> nat \<Rightarrow> ('w hwm_sys, unit) rt" where
  "finish_request E i =
     rt_bind (rt_gets (\<lambda>s. hwms s ! i)) (\<lambda>d.
     rt_bind (AsyncRequest_Valid (async_request d)) (\<lambda>valid.
     if \<not> valid then rt_return ()
     else
       rt_bind (AsyncRequest_Ready E (async_request d)) (\<lambda>ready.
       if ready then
         rt_bind (AsyncRequest_WaitUntil E None (async_request d)) (\<lambda>(status, r).
         rt_bind (rt_modify (upd_hwm i (\<lambda>d. d\<lparr>async_request := r\<rparr>))) (\<lambda>_. rt_check status))
       else
         rt_bind (hw_call (clock_now E)) (\<lambda>t.
         rt_bind (rt_gets request_timeout) (\<lambda>timeout.
           if timeout < t - async_request_start_time d then rt_fail (Error DeadlineExceeded)
           else rt_return ())))))"

fun request_trigger :: "transition_request \<Rightarrow> trigger_kind" where
  "request_trigger TR_kEnableMotion = T_EnableMotion"
| "request_trigger TR_kDisableMotion = T_DisableMotion"
| "request_trigger TR_kDisableMotionSkipCellControlHardware = T_DisableMotion"
| "request_trigger TR_kClearFaults = T_ClearFaults"

definition forward_request :: "'w hwm_env \<Rightarrow> transition_request \<Rightarrow> nat \<Rightarrow> ('w hwm_sys, unit) rt" where
  "forward_request E request i =
     rt_bind (rt_gets (\<lambda>s. hwms s ! i)) (\<lambda>d.
     rt_bind (AsyncRequest_Valid (async_request d)) (\<lambda>valid.
     if valid then rt_return ()
     else if request = TR_kDisableMotionSkipCellControlHardware \<and> cell_control_hardware_keep_enabled d
     then rt_return ()
     else
       rt_bind (TriggerAsync E (i, request_trigger request)) (\<lambda>r.
       rt_bind (rt_modify (upd_hwm i (\<lambda>d. d\<lparr>async_request := AsyncRequest_move_assign (async_request d) r\<rparr>))) (\<lambda>_.
       rt_bind (hw_call (clock_now E)) (\<lambda>t.
         rt_modify (upd_hwm i (\<lambda>d. d\<lparr>async_request_start_time := t\<rparr>)))))))"

definition ProcessTransitionRequestAsync :: "'w hwm_env \<Rightarrow> ('w hwm_sys, unit) rt" where
  "ProcessTransitionRequestAsync E =
     rt_bind (rt_gets transitions_paused) (\<lambda>paused.
     if paused then rt_return ()
     else
       rt_bind (rt_gets (\<lambda>s. length (hwms s))) (\<lambda>n.
       rt_bind (rt_for [0..<n] (finish_request E)) (\<lambda>_.
       rt_bind (rt_gets pending_transition_request) (\<lambda>pending.
       case pending of
         None \<Rightarrow> rt_return ()
       | Some request \<Rightarrow>
           rt_bind (rt_for [0..<n] (forward_request E request)) (\<lambda>_.
             rt_modify (\<lambda>s. s\<lparr>pending_transition_request := None\<rparr>))))))"

section \<open>Blocking calls\<close>

text \<open>\<^verbatim>\<open>append_status\<close> keeps the code of the first error.\<close>

definition append_status :: "rt_status option \<Rightarrow> rt_status \<Rightarrow> rt_status option" where
  "append_status first_error st = (case first_error of None \<Rightarrow> Some st | Some e \<Rightarrow> Some e)"

definition start_call ::
  "'w hwm_env \<Rightarrow> trigger_kind \<Rightarrow> nat \<Rightarrow> rt_status option \<Rightarrow> ('w hwm_sys, rt_status option) rt" where
  "start_call E kind i first_error =
     rt_bind (rt_gets (\<lambda>s. async_request (hwms s ! i))) (\<lambda>r.
     rt_bind (AsyncRequest_Ready E r) (\<lambda>ready.
     rt_bind (AsyncRequest_Valid r) (\<lambda>valid.
     rt_bind (if ready \<and> valid then
                rt_bind (hw_call (clock_now E)) (\<lambda>t.
                rt_bind (AsyncRequest_WaitUntil E (Some t) r) (\<lambda>(status, r').
                rt_bind (rt_modify (upd_hwm i (\<lambda>d. d\<lparr>async_request := r'\<rparr>))) (\<lambda>_. rt_check status)))
              else rt_return ()) (\<lambda>_.
     rt_bind (rt_try (TriggerAsync E (i, kind))) (\<lambda>request.
       case request of
         Inr r' \<Rightarrow>
           rt_bind (rt_modify (upd_hwm i (\<lambda>d. d\<lparr>async_request :=
              AsyncRequest_move_assign (async_request d) r'\<rparr>))) (\<lambda>_. rt_return first_error)
       | Inl e \<Rightarrow>
           rt_bind (rt_modify (upd_hwm i (\<lambda>d. d\<lparr>async_request :=
              AsyncRequest_move_assign (async_request d) None\<rparr>))) (\<lambda>_.
             rt_return (append_status first_error (Error Aborted))))))))"

definition await_call ::
  "'w hwm_env \<Rightarrow> int option \<Rightarrow> nat \<Rightarrow> bool \<times> rt_status option \<Rightarrow>
   ('w hwm_sys, bool \<times> rt_status option) rt" where
  "await_call E deadline i acc =
     rt_bind (rt_gets (\<lambda>s. async_request (hwms s ! i))) (\<lambda>r.
     rt_bind (AsyncRequest_Valid r) (\<lambda>valid.
     if \<not> valid then rt_return acc
     else
       rt_bind (AsyncRequest_WaitUntil E deadline r) (\<lambda>(status, r').
       rt_bind (rt_modify (upd_hwm i (\<lambda>d. d\<lparr>async_request := r'\<rparr>))) (\<lambda>_.
         rt_return (True, if status = OkStatus then snd acc else append_status (snd acc) status)))))"

definition check_final_state ::
  "'w hwm_env \<Rightarrow> state_code list \<Rightarrow> nat \<Rightarrow> rt_status option \<Rightarrow> ('w hwm_sys, rt_status option) rt" where
  "check_final_state E final_states i first_error =
     rt_bind (hw_call (hw_state E i)) (\<lambda>(code, _).
       rt_return (if code \<in> set final_states then first_error
                  else append_status first_error (Error Unavailable)))"

definition fail_if_error :: "rt_status option \<Rightarrow> ('w hwm_sys, unit) rt" where
  "fail_if_error first_error = (case first_error of None \<Rightarrow> rt_return () | Some e \<Rightarrow> rt_fail e)"

definition BlockingMultiHardwareModuleCallRT ::
  "'w hwm_env \<Rightarrow> trigger_kind \<Rightarrow> int option \<Rightarrow> state_code list \<Rightarrow> ('w hwm_sys, unit) rt" where
  "BlockingMultiHardwareModuleCallRT E kind deadline final_states =
     rt_bind (rt_gets (\<lambda>s. length (hwms s))) (\<lambda>n.
     rt_bind (rt_fold [0..<n] (start_call E kind) None) (\<lambda>first_error.
     rt_bind (fail_if_error first_error) (\<lambda>_.
     rt_bind (rt_fold [0..<n] (await_call E deadline) (False, first_error)) (\<lambda>(found_valid_request, first_error).
     if \<not> found_valid_request \<and> 0 < n then rt_fail (Error Internal)
     else
       rt_bind (fail_if_error first_error) (\<lambda>_.
       rt_bind (if final_states \<noteq> [] then rt_fold [0..<n] (check_final_state E final_states) first_error
                else rt_return first_error) (\<lambda>first_error.
       rt_bind (hw_call (clock_now E)) (\<lambda>t.
         if (case deadline of None \<Rightarrow> False | Some d \<Rightarrow> d < t) then rt_fail (Error DeadlineExceeded)
         else fail_if_error first_error)))))))"

definition Activate :: "'w hwm_env \<Rightarrow> int option \<Rightarrow> ('w hwm_sys, unit) rt" where
  "Activate E deadline = BlockingMultiHardwareModuleCallRT E T_Activate deadline [HwmActivated]"

definition Deactivate :: "'w hwm_env \<Rightarrow> int option \<Rightarrow> ('w hwm_sys, unit) rt" where
  "Deactivate E deadline = BlockingMultiHardwareModuleCallRT E T_Deactivate deadline [HwmDeactivated]"

definition TryDeactivate :: "'w hwm_env \<Rightarrow> int option \<Rightarrow> ('w hwm_sys, unit) rt" where
  "TryDeactivate E deadline = BlockingMultiHardwareModuleCallRT E T_Deactivate deadline
     [HwmDeactivated, HwmFatallyFaulted, HwmInitFailed]"

section \<open>Combined state\<close>

definition cached_states_loop :: "hwm_data list \<Rightarrow> rt_operational_state" where
  "cached_states_loop ds =
     fold (\<lambda>d combined. GetMaximumSeverity combined (ToRealtimeOperationalState (cached_state d))) ds Rt_kEnabled"

definition GetCombinedOperationalState :: "'w hwm_sys \<Rightarrow> rt_operational_state" where
  "GetCombinedOperationalState s = cached_states_loop (hwms s)"

definition GetCellControlState :: "'w hwm_sys \<Rightarrow> rt_operational_state" where
  "GetCellControlState s = cached_states_loop (filter cell_control_hardware_keep_enabled (hwms s))"

definition CheckAnyInOneOfStates :: "'w hwm_sys \<Rightarrow> state_code list \<Rightarrow> hardware_group \<Rightarrow> bool" where
  "CheckAnyInOneOfStates s states grp =
     list_ex (\<lambda>d. IsInGroup d grp \<and> list_ex (\<lambda>st. cached_state d = st) states) (hwms s)"

definition CheckAllInOneOfStates :: "'w hwm_sys \<Rightarrow> state_code list \<Rightarrow> hardware_group \<Rightarrow> bool" where
  "CheckAllInOneOfStates s states grp =
     list_all (\<lambda>d. \<not> IsInGroup d grp \<or> list_ex (\<lambda>st. cached_state d = st) states) (hwms s)"

definition GetHardwareModuleState :: "'w hwm_sys \<Rightarrow> string \<Rightarrow> (state_code \<times> string) option" where
  "GetHardwareModuleState s name =
     map_option (\<lambda>d. (cached_state d, cached_message d)) (find (\<lambda>d. hwm_name d = name) (hwms s))"

definition GetHardwareModuleConfig :: "'w hwm_sys \<Rightarrow> string \<Rightarrow> bool status_or" where
  "GetHardwareModuleConfig s name =
     (case find (\<lambda>d. hwm_name d = name) (hwms s) of
        None \<Rightarrow> Inl (Error NotFound) | Some d \<Rightarrow> Inr (cell_control_hardware_keep_enabled d))"

definition request_state_of :: "nat \<Rightarrow> nat \<Rightarrow> request_state" where
  "request_state_of busy n =
     (if busy = n then RS_kActive else if busy = 0 then RS_kDone else RS_kPartiallyDone)"

definition read_state :: "'w hwm_env \<Rightarrow> nat \<Rightarrow> ('w hwm_sys, unit) rt" where
  "read_state E i =
     rt_bind (hw_call (hw_state E i)) (\<lambda>(code, message).
       rt_modify (upd_hwm i (\<lambda>d. d\<lparr>cached_state := code, cached_message := message\<rparr>)))"

definition is_faulted :: "state_code \<Rightarrow> bool" where
  "is_faulted code \<longleftrightarrow> code = HwmFaulted \<or> code = HwmInitFailed \<or> code = HwmFatallyFaulted"

text \<open>The accumulator is \<^verbatim>\<open>tmp_fault_reason\<close> and \<^verbatim>\<open>found_faulted_hwm\<close>.\<close>

definition note_fault :: "hwm_data \<Rightarrow> string \<times> bool \<Rightarrow> string \<times> bool" where
  "note_fault d acc =
     (case acc of (reason, found) \<Rightarrow>
        let code = cached_state d;
            found' = (found \<or> code = HwmClearingFaults \<or> is_faulted code) in
        if is_faulted code \<and> cached_message d \<noteq> [] then
          let full_message = take kFaultReasonMaxLength
                (CHR 0x27 # hwm_name d @ CHR 0x27 # '': '' @ cached_message d);
              reason' = (if reason \<noteq> [] then fs_append kFaultReasonMaxLength reason ''; '' else reason)
          in (fs_append kFaultReasonMaxLength reason' full_message, found')
        else (reason, found'))"

definition new_fault_reason :: "hwm_data list \<Rightarrow> string option \<Rightarrow> string option" where
  "new_fault_reason ds old =
     (case fold note_fault ds ([], False) of (tmp_fault_reason, found_faulted_hwm) \<Rightarrow>
        if \<not> found_faulted_hwm then None
        else if tmp_fault_reason \<noteq> [] then Some tmp_fault_reason else old)"

definition UpdateState :: "'w hwm_env \<Rightarrow> ('w hwm_sys, unit) rt" where
  "UpdateState E =
     rt_bind (rt_modify (\<lambda>s. s\<lparr>cached_request_state :=
        request_state_of (length (filter (\<lambda>d. \<not> request_idle s d) (hwms s))) (length (hwms s))\<rparr>)) (\<lambda>_.
     rt_bind (rt_gets (\<lambda>s. length (hwms s))) (\<lambda>n.
     rt_bind (rt_for [0..<n] (read_state E)) (\<lambda>_.
       rt_modify (\<lambda>s. s\<lparr>combined_fault_reason := new_fault_reason (hwms s) (combined_fault_reason s)\<rparr>))))"

section \<open>The merged guard\<close>

definition concerned :: "transition_request \<Rightarrow> hwm_data \<Rightarrow> bool" where
  "concerned request d \<longleftrightarrow> \<not> (request = TR_kDisableMotionSkipCellControlHardware \<and> cell_control_hardware_keep_enabled d)"

definition guard_of :: "transition_request \<Rightarrow> hwm_data \<Rightarrow> transition_guard_result" where
  "guard_of request d = HardwareModuleTransitionGuard (cached_state d) (request_target request)"

lemma guard_loop_Cons:
  "guard_loop (request = TR_kDisableMotionSkipCellControlHardware) (request_target request) (d # ds) merged =
     guard_loop (request = TR_kDisableMotionSkipCellControlHardware) (request_target request) ds
       (if concerned request d then merge_guard merged (guard_of request d) else merged)"
  by (simp add: concerned_def guard_of_def)

lemma merge_guard_result:
  "merge_guard merged r = (if merged = kAllowed \<or> r = kAllowed then kAllowed
     else if merged = kProhibited \<or> r = kProhibited then kProhibited else kNoOp)"
  by (cases merged; cases r) (simp_all add: merge_guard_def)

lemma guard_loop_result:
  "guard_loop (request = TR_kDisableMotionSkipCellControlHardware) (request_target request) ds merged =
     (if merged = kAllowed \<or> (\<exists>d \<in> set ds. concerned request d \<and> guard_of request d = kAllowed) then kAllowed
      else if merged = kProhibited \<or> (\<exists>d \<in> set ds. concerned request d \<and> guard_of request d = kProhibited)
      then kProhibited else kNoOp)"
proof (induction ds arbitrary: merged)
  case Nil
  show ?case by (cases merged) simp_all
next
  case (Cons d ds)
  show ?case unfolding guard_loop_Cons Cons.IH merge_guard_result
    by (cases "concerned request d"; cases merged; cases "guard_of request d") simp_all
qed

lemma CheckTransitionGuard_result:
  "CheckTransitionGuard ds request =
     (if \<exists>d \<in> set ds. concerned request d \<and> guard_of request d = kAllowed then Inr kAllowed
      else if \<exists>d \<in> set ds. concerned request d \<and> guard_of request d = kProhibited
      then Inl (Error FailedPrecondition) else Inr kNoOp)"
  by (cases "ds = []") (auto simp: CheckTransitionGuard_def guard_loop_result Let_def)

section \<open>Forwarding a request\<close>

text \<open>Forwarding only ever starts requests.\<close>

definition more_started :: "'w hwm_sys \<Rightarrow> 'w hwm_sys \<Rightarrow> bool" where
  "more_started s t \<longleftrightarrow> length (hwms t) = length (hwms s) \<and> (\<forall>c. started s c \<longrightarrow> started t c)"

lemma set_started_fields [simp]:
  "hwms (set_started c b s) = hwms s" "started (set_started c b s) c' = (if c' = c then b else started s c')"
  "pending_transition_request (set_started c b s) = pending_transition_request s"
  "transitions_paused (set_started c b s) = transitions_paused s"
  by (simp_all add: set_started_def)

lemma upd_hwm_fields [simp]:
  "started (upd_hwm i f s) = started s" "length (hwms (upd_hwm i f s)) = length (hwms s)"
  "pending_transition_request (upd_hwm i f s) = pending_transition_request s"
  "transitions_paused (upd_hwm i f s) = transitions_paused s" "hw (upd_hwm i f s) = hw s"
  "clock_driver (upd_hwm i f s) = clock_driver s"
  by (simp_all add: upd_hwm_def)

lemma hwms_upd_hwm:
  "j < length (hwms s) \<Longrightarrow> hwms (upd_hwm i f s) ! j = (if j = i then f (hwms s ! j) else hwms s ! j)"
  by (simp add: upd_hwm_def nth_list_update)

lemma AsyncRequest_Valid_eq:
  "AsyncRequest_Valid (async_request d) s = (Inr (\<not> request_idle s d), s)"
  by (simp add: AsyncRequest_Valid_def request_idle_def rt_defs split: option.splits)

lemma forward_request_Inr:
  assumes "forward_request E request i s = (Inr (), t)"
  obtains "t = s" "\<not> request_idle s (hwms s ! i) \<or> \<not> concerned request (hwms s ! i)"
  | w time where "t = upd_hwm i (\<lambda>d. d\<lparr>async_request_start_time := time\<rparr>)
      (upd_hwm i (\<lambda>d. d\<lparr>async_request := Some (i, request_trigger request)\<rparr>)
        (set_started (i, request_trigger request) True (s\<lparr>hw := w\<rparr>)))"
proof (cases "request_idle s (hwms s ! i) \<and> concerned request (hwms s ! i)")
  case False
  then have "t = s" using assms
    by (auto simp: forward_request_def rt_bind_gets rt_bind_run[OF AsyncRequest_Valid_eq] concerned_def rt_return_Inr
        split: if_splits)
  then show ?thesis using that(1) False by blast
next
  case True
  then obtain r u where trig: "TriggerAsync E (i, request_trigger request) s = (Inr r, u)"
    and rest: "rt_bind (rt_modify (upd_hwm i (\<lambda>d. d\<lparr>async_request := AsyncRequest_move_assign (async_request d) r\<rparr>))) (\<lambda>_.
       rt_bind (hw_call (clock_now E)) (\<lambda>t. rt_modify (upd_hwm i (\<lambda>d. d\<lparr>async_request_start_time := t\<rparr>)))) u = (Inr (), t)"
    using assms
    by (auto simp: forward_request_def rt_bind_gets rt_bind_run[OF AsyncRequest_Valid_eq] concerned_def rt_bind_Inr)
  from trig obtain w where u: "r = Some (i, request_trigger request)"
    "u = set_started (i, request_trigger request) True (s\<lparr>hw := w\<rparr>)"
    by (auto simp: TriggerAsync_Inr)
  from rest obtain time w' where "t = upd_hwm i (\<lambda>d. d\<lparr>async_request_start_time := time\<rparr>)
      ((upd_hwm i (\<lambda>d. d\<lparr>async_request := r\<rparr>) u)\<lparr>hw := w'\<rparr>)"
    by (auto simp: rt_bind_modify rt_bind_Inr hw_call_Inr rt_modify_Inr AsyncRequest_move_assign_def)
  then show ?thesis by (intro that(2)[of time w']) (simp add: u upd_hwm_def set_started_def)
qed

lemma forward_request_effect:
  assumes "forward_request E request i s = (Inr (), t)" "i < length (hwms s)"
  shows "more_started s t \<and> (\<forall>j < length (hwms s). j \<noteq> i \<longrightarrow> hwms t ! j = hwms s ! j) \<and>
    concerned request (hwms t ! i) = concerned request (hwms s ! i) \<and>
    (concerned request (hwms s ! i) \<longrightarrow> \<not> request_idle t (hwms t ! i))"
  using assms(1)
proof (cases rule: forward_request_Inr)
  case (2 w time)
  then show ?thesis using assms(2)
    by (auto simp: more_started_def hwms_upd_hwm concerned_def request_idle_def)
qed (auto simp: more_started_def)

lemma request_idle_mono: "more_started s t \<Longrightarrow> \<not> request_idle s d \<Longrightarrow> \<not> request_idle t d"
  by (auto simp: more_started_def request_idle_def split: option.splits)

lemma forward_loop_effect:
  "rt_for is (forward_request E request) s = (Inr (), t) \<Longrightarrow> set is \<subseteq> {..<length (hwms s)} \<Longrightarrow> distinct is \<Longrightarrow>
     more_started s t \<and> (\<forall>j < length (hwms s). j \<notin> set is \<longrightarrow> hwms t ! j = hwms s ! j) \<and>
     (\<forall>j \<in> set is. concerned request (hwms t ! j) \<longrightarrow> \<not> request_idle t (hwms t ! j))"
proof (induction "is" arbitrary: s)
  case Nil
  then show ?case by (simp add: rt_return_Inr more_started_def)
next
  case (Cons i "is")
  then obtain u where u: "forward_request E request i s = (Inr (), u)" "rt_for is (forward_request E request) u = (Inr (), t)"
    by (auto simp: rt_bind_Inr)
  have i: "i < length (hwms s)" using Cons.prems(2) by simp
  note e = forward_request_effect[OF u(1) i]
  have len: "length (hwms u) = length (hwms s)" using e by (simp add: more_started_def)
  have ih: "more_started u t \<and> (\<forall>j < length (hwms u). j \<notin> set is \<longrightarrow> hwms t ! j = hwms u ! j) \<and>
     (\<forall>j \<in> set is. concerned request (hwms t ! j) \<longrightarrow> \<not> request_idle t (hwms t ! j))"
    using Cons.IH[OF u(2)] Cons.prems(2,3) len by simp
  have ti: "hwms t ! i = hwms u ! i" using ih Cons.prems(3) i len by simp
  have "concerned request (hwms t ! i) \<longrightarrow> \<not> request_idle t (hwms t ! i)"
    using e ti ih request_idle_mono by metis
  then show ?case using e ih len by (auto simp: more_started_def)
qed

lemma kept_rt:
  "(\<And>s. I (g s) = I s) \<Longrightarrow> rt_inv I (rt_modify g)"
  by (rule rt_spec_modify) simp

lemma kept_hw_call: "(\<And>s w. I (s\<lparr>hw := w\<rparr>) = I s) \<Longrightarrow> rt_inv I (hw_call f)"
  by (auto simp: rt_spec_def hw_call_def split: prod.splits)

lemma finish_request_effect:
  "rt_inv (\<lambda>s. length (hwms s) = n \<and> pending_transition_request s = p) (finish_request E i)"
  unfolding finish_request_def AsyncRequest_Valid_def AsyncRequest_Ready_def AsyncRequest_WaitUntil_def
  by (intro rt_rules kept_rt kept_hw_call) simp_all

lemma finish_requests_effect:
  assumes "rt_for is (finish_request E) s = (Inr (), t)"
  shows "length (hwms t) = length (hwms s) \<and> pending_transition_request t = pending_transition_request s"
proof -
  let ?I = "\<lambda>u. length (hwms u) = length (hwms s) \<and>
    pending_transition_request u = pending_transition_request s"
  have "rt_inv ?I (rt_for is (finish_request E))" by (rule rt_inv_for) (rule finish_request_effect)
  from rt_invD[OF this, of s] assms show ?thesis by simp
qed

lemma Process_effect:
  assumes "ProcessTransitionRequestAsync E s = (Inr (), t)" "\<not> transitions_paused s"
    "pending_transition_request s = Some request"
  shows "pending_transition_request t = None \<and>
    (\<forall>d \<in> set (hwms t). concerned request d \<longrightarrow> \<not> request_idle t d)"
proof -
  let ?n = "length (hwms s)"
  obtain u v where u: "rt_for [0..<?n] (finish_request E) s = (Inr (), u)"
    and v: "(case pending_transition_request u of None \<Rightarrow> rt_return () | Some request \<Rightarrow>
        rt_bind (rt_for [0..<?n] (forward_request E request))
          (\<lambda>_. rt_modify (\<lambda>s. s\<lparr>pending_transition_request := None\<rparr>))) u = (Inr (), t)"
    using assms(1,2) by (auto simp: ProcessTransitionRequestAsync_def rt_bind_gets rt_bind_Inr)
  from finish_requests_effect[OF u] have n: "length (hwms u) = ?n" "pending_transition_request u = Some request"
    using assms(3) by simp_all
  then obtain w where w: "rt_for [0..<?n] (forward_request E request) u = (Inr (), w)"
    and t: "t = w\<lparr>pending_transition_request := None\<rparr>"
    using v by (auto simp: rt_Inr_iff)
  have "set [0..<?n] \<subseteq> {..<length (hwms u)}" using n by auto
  from forward_loop_effect[OF w this] have
    f: "more_started u w" "\<forall>j < ?n. concerned request (hwms w ! j) \<longrightarrow> \<not> request_idle w (hwms w ! j)" by auto
  have len: "length (hwms w) = ?n" using f(1) n by (simp add: more_started_def)
  have "request_idle t d = request_idle w d" for d by (simp add: request_idle_def t cong: option.case_cong)
  then show ?thesis using f(2) len by (auto simp: t in_set_conv_nth)
qed

section \<open>What a write touches\<close>

text \<open>The accesses that \<^verbatim>\<open>Write\<close> may make when only the modules in \<open>en\<close> get commands: each of
  them keeps \<open>I\<close>. Nothing is said about posting a command to another module.\<close>

definition command_safe :: "'w hwm_env \<Rightarrow> (nat \<Rightarrow> bool) \<Rightarrow> ('w \<Rightarrow> bool) \<Rightarrow> bool" where
  "command_safe E en I \<longleftrightarrow>
     (\<forall>w. I w \<longrightarrow> (\<forall>c. I (snd (try_wait_response E c w)) \<and> (\<forall>d. I (snd (await_response E c d w)))) \<and>
       (\<forall>i. en i \<longrightarrow> I (snd (post_request E (i, T_ApplyCommand) w)) \<and> I (snd (hw_mark_cycle E i w))))"

definition write_inv :: "('w \<Rightarrow> bool) \<Rightarrow> state_code list \<Rightarrow> nat option \<Rightarrow> 'w hwm_sys \<Rightarrow> bool" where
  "write_inv I cs drv s \<longleftrightarrow> I (hw s) \<and> map cached_state (hwms s) = cs \<and> clock_driver s = drv"

lemma command_safeD:
  assumes "command_safe E en I" "I w"
  shows "I (snd (try_wait_response E c w))" "I (snd (await_response E c d w))"
    "en i \<Longrightarrow> I (snd (post_request E (i, T_ApplyCommand) w))" "en i \<Longrightarrow> I (snd (hw_mark_cycle E i w))"
  using assms unfolding command_safe_def by blast+

lemma write_inv_hw_call:
  "(\<And>w. I w \<Longrightarrow> I (snd (f w))) \<Longrightarrow> rt_inv (write_inv I cs drv) (hw_call f)"
  by (fastforce simp: rt_spec_def hw_call_def write_inv_def split: prod.splits)

lemma cached_state_upd_hwm:
  "(\<And>d. cached_state (f d) = cached_state d) \<Longrightarrow>
   map cached_state (hwms (upd_hwm i f s)) = map cached_state (hwms s)"
  by (cases "i < length (hwms s)")
     (auto intro!: nth_equalityI simp: upd_hwm_def nth_list_update list_update_beyond)

lemma write_inv_upd_hwm:
  "(\<And>d. cached_state (f d) = cached_state d) \<Longrightarrow> rt_inv (write_inv I cs drv) (rt_modify (upd_hwm i f))"
  by (rule rt_spec_modify) (simp add: write_inv_def cached_state_upd_hwm)

lemma write_inv_started: "rt_inv (write_inv I cs drv) (rt_modify (set_started c b))"
  by (rule rt_spec_modify) (simp add: write_inv_def set_started_def)

lemma write_inv_wait:
  assumes "command_safe E en I"
  shows "rt_inv (write_inv I cs drv) (wait_or_note E deadline r failed)"
  unfolding wait_or_note_def AsyncRequest_Valid_def AsyncRequest_WaitUntil_def
  by (intro rt_rules write_inv_hw_call write_inv_started command_safeD(2)[OF assms])

lemma write_inv_wait_rt:
  assumes "command_safe E en I"
  shows "rt_inv (write_inv I cs drv) (wait_rt_request E deadline i failed)"
  unfolding wait_rt_request_def AsyncRequest_Valid_def
  by (intro rt_rules write_inv_wait[OF assms] write_inv_upd_hwm) simp

lemma write_inv_apply:
  assumes "command_safe E en I" "code = HwmMotionEnabled \<Longrightarrow> en i"
  shows "rt_inv (write_inv I cs drv) (ApplyCommand_async E i code failed)"
proof (cases "code = HwmMotionEnabled")
  case True
  then have i: "en i" by (rule assms(2))
  show ?thesis
    unfolding ApplyCommand_async_def trigger_or_note_def TriggerAsync_def
    by (intro rt_rules write_inv_hw_call write_inv_started command_safeD[OF assms(1)] i)
qed (simp add: ApplyCommand_async_def rt_inv_return)

lemma write_inv_read_code:
  assumes "i < length cs" "rt_inv (write_inv I cs drv) (k (cs ! i))"
  shows "rt_inv (write_inv I cs drv) (rt_bind (rt_gets (\<lambda>s. cached_state (hwms s ! i))) k)"
proof (rule rt_inv_gets_const[where v = "cs ! i"])
  show "rt_inv (write_inv I cs drv) (k (cs ! i))" by (rule assms(2))
  fix s assume "write_inv I cs drv s"
  then have "cs = map cached_state (hwms s)" by (simp add: write_inv_def)
  then show "cached_state (hwms s ! i) = cs ! i" using assms(1) by simp
qed

lemma write_inv_start_write:
  assumes "command_safe E en I" "i < length cs" "cs ! i = HwmMotionEnabled \<Longrightarrow> en i"
  shows "rt_inv (write_inv I cs drv) (start_write E i failed)"
  unfolding start_write_def AsyncRequest_Valid_def
  by (rule write_inv_read_code[OF assms(2)])
     (intro rt_rules write_inv_apply[OF assms(1)] write_inv_upd_hwm; simp add: assms(3))

lemma write_inv_Write:
  assumes "command_safe E en I" "\<And>i. i < length cs \<Longrightarrow> cs ! i = HwmMotionEnabled \<Longrightarrow> en i"
    and "\<And>d. drv = Some d \<Longrightarrow> d < length cs"
  shows "rt_inv (write_inv I cs drv) (Write E deadline)"
proof -
  define others where "others = filter (\<lambda>i. drv \<noteq> Some i) [0..<length cs]"
  have len: "length (hwms s) = length cs" if "write_inv I cs drv s" for s
  proof -
    have "cs = map cached_state (hwms s)" using that by (simp add: write_inv_def)
    then show ?thesis by simp
  qed
  have others: "followers s = others" if "write_inv I cs drv s" for s
    using that len[OF that] by (simp add: followers_def others_def write_inv_def)
  have start: "rt_inv (write_inv I cs drv) (rt_fold others (start_write E) False)"
    by (rule rt_inv_fold_set) (rule write_inv_start_write[OF assms(1)], auto simp: others_def assms(2))
  have driver: "rt_inv (write_inv I cs drv) (case drv of
      None \<Rightarrow> rt_return failed
    | Some d \<Rightarrow>
        rt_bind (rt_gets (\<lambda>s. cached_state (hwms s ! d))) (\<lambda>code.
        rt_bind (ApplyCommand_async E d code failed) (\<lambda>(r, failed'). wait_or_note E deadline r failed')))" for failed
  proof (cases drv)
    case (Some d)
    then have d: "d < length cs" using assms(3) by blast
    have "rt_inv (write_inv I cs drv) (rt_bind (rt_gets (\<lambda>s. cached_state (hwms s ! d))) (\<lambda>code.
        rt_bind (ApplyCommand_async E d code failed) (\<lambda>(r, failed'). wait_or_note E deadline r failed')))"
      by (rule write_inv_read_code[OF d])
         (intro rt_rules write_inv_apply[OF assms(1)] write_inv_wait[OF assms(1)] assms(2)[OF d])
    then show ?thesis by (simp add: Some)
  qed (simp add: rt_inv_return)
  show ?thesis
    unfolding Write_def
    by (rule rt_inv_gets_const[OF others], assumption, rule rt_inv_bind[OF start],
        rule rt_inv_bind, rule rt_inv_gets, rule rt_inv_bind, rule rt_inv_fold, rule write_inv_wait_rt[OF assms(1)],
        rule rt_inv_gets_const[where v = drv], simp add: write_inv_def, rule rt_inv_bind[OF driver], intro rt_rules)
qed

section \<open>Severity and fault reasons\<close>

lemma cached_states_loop_max:
  "fold (\<lambda>d combined. GetMaximumSeverity combined (ToRealtimeOperationalState (cached_state d))) ds c =
     Max (insert c ((\<lambda>d. ToRealtimeOperationalState (cached_state d)) ` set ds))"
proof (induction ds arbitrary: c)
  case (Cons d ds)
  let ?S = "(\<lambda>d. ToRealtimeOperationalState (cached_state d)) ` set ds"
  let ?st = "ToRealtimeOperationalState (cached_state d)"
  have "Max (insert (max c ?st) ?S) = Max (insert c (insert ?st ?S))"
    by (cases "?S = {}") (simp_all add: max.assoc)
  then show ?case
    using Cons.IH[of "max c ?st"] by (simp add: GetMaximumSeverity_max)
qed simp

lemma cached_states_loop_Max:
  "cached_states_loop ds = Max (insert Rt_kEnabled ((\<lambda>d. ToRealtimeOperationalState (cached_state d)) ` set ds))"
  by (simp add: cached_states_loop_def cached_states_loop_max)

lemma ToRealtimeOperationalState_enabled:
  "ToRealtimeOperationalState code = Rt_kEnabled \<longleftrightarrow> code = HwmMotionEnabled"
  by (cases code) (simp_all add: ToRealtimeOperationalState_def)

lemma cached_states_loop_enabled:
  "cached_states_loop ds = Rt_kEnabled \<longleftrightarrow> (\<forall>d \<in> set ds. cached_state d = HwmMotionEnabled)"
proof -
  have least: "st \<le> Rt_kEnabled \<longleftrightarrow> st = Rt_kEnabled" for st
    by (cases st) (simp_all add: severity_order)
  have "cached_states_loop ds = Rt_kEnabled \<longleftrightarrow> cached_states_loop ds \<le> Rt_kEnabled"
    by (simp add: least)
  also have "\<dots> \<longleftrightarrow> (\<forall>d \<in> set ds. ToRealtimeOperationalState (cached_state d) \<le> Rt_kEnabled)"
    unfolding cached_states_loop_Max by (subst Max_le_iff) auto
  also have "\<dots> \<longleftrightarrow> (\<forall>d \<in> set ds. ToRealtimeOperationalState (cached_state d) = Rt_kEnabled)"
    by (simp only: least)
  finally show ?thesis by (simp add: ToRealtimeOperationalState_enabled)
qed

definition has_fault_message :: "hwm_data \<Rightarrow> bool" where
  "has_fault_message d \<longleftrightarrow> is_faulted (cached_state d) \<and> cached_message d \<noteq> []"

definition faulted_or_clearing :: "hwm_data \<Rightarrow> bool" where
  "faulted_or_clearing d \<longleftrightarrow> cached_state d = HwmClearingFaults \<or> is_faulted (cached_state d)"

lemma note_fault_result:
  "(fst (note_fault d acc) = [] \<longleftrightarrow> fst acc = [] \<and> \<not> has_fault_message d) \<and>
   (snd (note_fault d acc) \<longleftrightarrow> snd acc \<or> faulted_or_clearing d)"
  by (auto simp: note_fault_def has_fault_message_def faulted_or_clearing_def Let_def fs_append_def
      kFaultReasonMaxLength_def split: prod.splits)

lemma note_faults_result:
  "(fst (fold note_fault ds acc) = [] \<longleftrightarrow> fst acc = [] \<and> (\<forall>d \<in> set ds. \<not> has_fault_message d)) \<and>
   (snd (fold note_fault ds acc) \<longleftrightarrow> snd acc \<or> (\<exists>d \<in> set ds. faulted_or_clearing d))"
proof (induction ds arbitrary: acc)
  case (Cons d ds)
  show ?case using Cons[of "note_fault d acc"] note_fault_result[of d acc] by auto
qed simp

lemma new_fault_reason_result:
  "(\<forall>d \<in> set ds. \<not> faulted_or_clearing d) \<Longrightarrow> new_fault_reason ds old = None"
  "\<exists>d \<in> set ds. faulted_or_clearing d \<Longrightarrow> \<forall>d \<in> set ds. \<not> has_fault_message d \<Longrightarrow> new_fault_reason ds old = old"
  "\<exists>d \<in> set ds. has_fault_message d \<Longrightarrow> new_fault_reason ds old \<noteq> None"
  using note_faults_result[of ds "([], False)"]
  by (cases "fold note_fault ds ([], False)";
      force simp: new_fault_reason_def has_fault_message_def faulted_or_clearing_def)+

lemma read_states_effect:
  "rt_for is (read_state E) s = (r, t) \<Longrightarrow> r = Inr () \<and> combined_fault_reason t = combined_fault_reason s \<and>
     cached_request_state t = cached_request_state s \<and> length (hwms t) = length (hwms s)"
proof (induction "is" arbitrary: s)
  case (Cons i "is")
  obtain code msg w where call: "hw_state E i (hw s) = ((code, msg), w)" by (metis prod.collapse)
  let ?f = "\<lambda>d. d\<lparr>cached_state := code, cached_message := msg\<rparr>"
  define u where "u = upd_hwm i ?f (s\<lparr>hw := w\<rparr>)"
  have u: "read_state E i s = (Inr (), u)"
    by (simp add: read_state_def rt_defs hw_call_def call u_def)
  have "combined_fault_reason u = combined_fault_reason s" "cached_request_state u = cached_request_state s"
    "length (hwms u) = length (hwms s)" by (simp_all add: u_def upd_hwm_def)
  then show ?case using Cons.IH[of u] Cons.prems
    by (simp add: rt_bind_run[where m = "read_state E i" and s = s and x = "()" and t = u, OF u])
qed (simp add: rt_return_def)

lemma UpdateState_effect:
  assumes "UpdateState E s = (r, t)"
  shows "r = Inr () \<and> length (hwms t) = length (hwms s) \<and>
    combined_fault_reason t = new_fault_reason (hwms t) (combined_fault_reason s) \<and>
    cached_request_state t =
      request_state_of (length (filter (\<lambda>d. \<not> request_idle s d) (hwms s))) (length (hwms s))"
proof -
  let ?s = "s\<lparr>cached_request_state :=
        request_state_of (length (filter (\<lambda>d. \<not> request_idle s d) (hwms s))) (length (hwms s))\<rparr>"
  obtain q u where u: "rt_for [0..<length (hwms s)] (read_state E) ?s = (q, u)" by fastforce
  from read_states_effect[OF u] have e: "q = Inr ()" "combined_fault_reason u = combined_fault_reason s"
    "cached_request_state u = cached_request_state ?s" "length (hwms u) = length (hwms s)" by simp_all
  then have "t = u\<lparr>combined_fault_reason := new_fault_reason (hwms u) (combined_fault_reason u)\<rparr>" "r = Inr ()"
    using assms u by (simp_all add: UpdateState_def rt_bind_modify rt_bind_gets rt_bind_run[where s = ?s] rt_modify_def)
  then show ?thesis using e by simp
qed

lemma RequestTransition_result:
  "RequestTransition request s =
     (case pending_transition_request s of
        Some p \<Rightarrow> (Inl (if p = request then OkStatus else Error ResourceExhausted), s)
      | None \<Rightarrow>
          if hwms s \<noteq> [] \<and> \<not> (\<exists>d \<in> set (hwms s). request_idle s d) then (Inl (Error ResourceExhausted), s)
          else if \<exists>d \<in> set (hwms s). concerned request d \<and> guard_of request d = kAllowed
          then (Inr (Some (current_command_id s + 1)),
                s\<lparr>pending_transition_request := Some request, current_command_id := current_command_id s + 1\<rparr>)
          else if \<exists>d \<in> set (hwms s). concerned request d \<and> guard_of request d = kProhibited
          then (Inl (Error FailedPrecondition), s)
          else (Inr None, s))"
  by (auto simp: RequestTransition_def rt_defs CheckTransitionGuard_result find_None_iff split: option.split)

section \<open>Properties\<close>

text \<open>The outcome of requesting a transition on every branch. A request is accepted - it
  becomes pending under a new command id - exactly when none is pending, some module is idle and some module
  that the request concerns may make the transition; every other outcome leaves the state unchanged. The same
  request while it is pending gives a \<^verbatim>\<open>RealtimeStatusOr\<close> without a value whose status is OK.\<close>

theorem RequestTransition_outcome:
  "RequestTransition request s =
     (case pending_transition_request s of
        Some p \<Rightarrow> (Inl (if p = request then OkStatus else Error ResourceExhausted), s)
      | None \<Rightarrow>
          if hwms s \<noteq> [] \<and> \<not> (\<exists>d \<in> set (hwms s). request_idle s d) then (Inl (Error ResourceExhausted), s)
          else if \<exists>d \<in> set (hwms s). concerned request d \<and> guard_of request d = kAllowed
          then (Inr (Some (current_command_id s + 1)),
                s\<lparr>pending_transition_request := Some request, current_command_id := current_command_id s + 1\<rparr>)
          else if \<exists>d \<in> set (hwms s). concerned request d \<and> guard_of request d = kProhibited
          then (Inl (Error FailedPrecondition), s)
          else (Inr None, s))"
  by (rule RequestTransition_result)

text \<open>When transitions are not paused and processing succeeds, a pending request is no longer
  pending, and every hardware module that it concerns has a request on its way.\<close>

theorem pending_request_is_forwarded:
  assumes "ProcessTransitionRequestAsync E s = (Inr (), t)" "\<not> transitions_paused s"
    and "pending_transition_request s = Some request"
  shows "pending_transition_request t = None \<and>
    (\<forall>d \<in> set (hwms t). concerned request d \<longrightarrow> \<not> request_idle t d)"
  by (rule Process_effect[OF assms])

text \<open>A sample: one activated module whose process carries out every trigger at once, except that it never
  answers a request to enable motion. The state of the world is the state of the module.\<close>

definition sample_hwm_env :: "state_code hwm_env" where
  "sample_hwm_env = \<lparr>is_connected = \<lambda>_. True,
     post_request = \<lambda>(i, k) w. (OkStatus, case k of T_Deactivate \<Rightarrow> HwmDeactivated | T_Activate \<Rightarrow> HwmActivated
        | T_EnableMotion \<Rightarrow> HwmMotionEnabling | _ \<Rightarrow> w),
     try_wait_response = \<lambda>c w. (Some False, w),
     response_value = \<lambda>(i, k) w. (if k = T_EnableMotion then kReady else kPosted, w),
     await_response = \<lambda>c d w. (OkStatus, w), clock_now = \<lambda>w. (0, w),
     hw_state = \<lambda>i w. ((w, []), w), hw_mark_cycle = \<lambda>i w. ((), w)\<rparr>"

definition sample_hwm :: "state_code \<Rightarrow> hwm_data" where
  "sample_hwm code = \<lparr>hwm_name = ''arm'', async_request = None, rt_async_request = None,
     async_request_start_time = 0, cached_state = code, cached_message = [],
     cell_control_hardware_keep_enabled = False\<rparr>"

definition sample_hwm_sys :: "state_code \<Rightarrow> state_code hwm_sys" where
  "sample_hwm_sys code = \<lparr>hw = code, started = \<lambda>_. False, hwms = [sample_hwm code], clock_driver = None,
     pending_transition_request = None, current_command_id = 0, request_timeout = 60, transitions_paused = False,
     cached_request_state = RS_kDone, combined_fault_reason = None\<rparr>"

definition enabling_sys :: "state_code hwm_sys" where
  "enabling_sys = snd (RequestTransition TR_kEnableMotion (sample_hwm_sys HwmActivated))"

lemma enabling_run: "ProcessTransitionRequestAsync sample_hwm_env enabling_sys =
  (Inr (), snd (ProcessTransitionRequestAsync sample_hwm_env enabling_sys))"
proof -
  have "fst (ProcessTransitionRequestAsync sample_hwm_env enabling_sys) = Inr ()" by code_simp
  then show ?thesis by (metis prod.collapse)
qed

theorem pending_request_is_forwarded_witness:
  "pending_transition_request (snd (ProcessTransitionRequestAsync sample_hwm_env enabling_sys)) = None"
proof -
  have "\<not> transitions_paused enabling_sys" "pending_transition_request enabling_sys = Some TR_kEnableMotion"
    by code_simp+
  from pending_request_is_forwarded[OF enabling_run this] show ?thesis by blast
qed

text \<open>C34 (safety). Commands are applied to enabled hardware only: any property of the world that is kept by
  waiting, and by commands to the modules whose last known state is motion-enabled, survives a write, even
  if a command to any other module would destroy it.\<close>

theorem commands_only_to_enabled_modules:
  assumes "command_safe E (\<lambda>i. i < length (hwms s) \<and> cached_state (hwms s ! i) = HwmMotionEnabled) I" "I (hw s)"
    and "case clock_driver s of None \<Rightarrow> True | Some d \<Rightarrow> d < length (hwms s)"
  shows "I (hw (snd (Write E deadline s)))"
proof -
  let ?cs = "map cached_state (hwms s)"
  have "rt_inv (write_inv I ?cs (clock_driver s)) (Write E deadline)"
    by (rule write_inv_Write[OF assms(1)]) (use assms(3) in auto)
  from rt_invD[OF this, of s] assms(2) show ?thesis by (simp add: write_inv_def)
qed

text \<open>A sample world that lists the modules that were sent a command.\<close>

definition recording_env :: "nat list hwm_env" where
  "recording_env = \<lparr>is_connected = \<lambda>_. True,
     post_request = \<lambda>(i, k) w. (OkStatus, if k = T_ApplyCommand then w @ [i] else w),
     try_wait_response = \<lambda>c w. (Some False, w), response_value = \<lambda>c w. (kPosted, w),
     await_response = \<lambda>c d w. (OkStatus, w), clock_now = \<lambda>w. (0, w),
     hw_state = \<lambda>i w. ((HwmActivated, []), w), hw_mark_cycle = \<lambda>i w. ((), w)\<rparr>"

definition recording_sys :: "nat list hwm_sys" where
  "recording_sys = \<lparr>hw = [], started = \<lambda>_. False, hwms = [sample_hwm HwmFaulted, sample_hwm HwmMotionEnabled],
     clock_driver = Some 0, pending_transition_request = None, current_command_id = 0, request_timeout = 60,
     transitions_paused = False, cached_request_state = RS_kDone, combined_fault_reason = None\<rparr>"

theorem commands_only_to_enabled_modules_witness:
  "0 \<notin> set (hw (snd (Write recording_env None recording_sys)))"
proof -
  have "command_safe recording_env
      (\<lambda>i. i < length (hwms recording_sys) \<and> cached_state (hwms recording_sys ! i) = HwmMotionEnabled) (\<lambda>w. 0 \<notin> set w)"
    by (auto simp: command_safe_def recording_env_def recording_sys_def sample_hwm_def less_Suc_eq)
  from commands_only_to_enabled_modules[OF this] show ?thesis by (simp add: recording_sys_def)
qed

text \<open>The combined state is the most severe state of all modules: none is more severe, and
  the controller is enabled only if every module is. Among the modules of a group, asking whether any is
  in some states is the dual of asking whether all are in the other states.\<close>

theorem combined_state_is_most_severe:
  "(\<forall>d \<in> set (hwms s). ToRealtimeOperationalState (cached_state d) \<le> GetCombinedOperationalState s) \<and>
   (GetCombinedOperationalState s = Rt_kEnabled \<longleftrightarrow> (\<forall>d \<in> set (hwms s). cached_state d = HwmMotionEnabled)) \<and>
   GetCellControlState s \<le> GetCombinedOperationalState s \<and>
   (CheckAllInOneOfStates s states grp \<longleftrightarrow>
      \<not> CheckAnyInOneOfStates s (filter (\<lambda>c. c \<notin> set states) (map cached_state (hwms s))) grp)"
proof (intro conjI)
  show "\<forall>d \<in> set (hwms s). ToRealtimeOperationalState (cached_state d) \<le> GetCombinedOperationalState s"
    by (auto simp: GetCombinedOperationalState_def cached_states_loop_Max intro: Max_ge)
  show "GetCombinedOperationalState s = Rt_kEnabled \<longleftrightarrow> (\<forall>d \<in> set (hwms s). cached_state d = HwmMotionEnabled)"
    unfolding GetCombinedOperationalState_def by (rule cached_states_loop_enabled)
  show "GetCellControlState s \<le> GetCombinedOperationalState s"
    unfolding GetCombinedOperationalState_def GetCellControlState_def cached_states_loop_Max
    by (rule Max_mono) auto
qed (auto simp: CheckAllInOneOfStates_def CheckAnyInOneOfStates_def list_all_iff list_ex_iff)

theorem combined_state_is_most_severe_witness:
  "Rt_kFaultedConnected \<le> GetCombinedOperationalState recording_sys \<and>
   GetCombinedOperationalState recording_sys \<noteq> Rt_kEnabled"
proof -
  have "sample_hwm HwmFaulted \<in> set (hwms recording_sys)" "cached_state (sample_hwm HwmFaulted) = HwmFaulted"
    by (simp_all add: recording_sys_def sample_hwm_def)
  then show ?thesis
    using combined_state_is_most_severe[of recording_sys "[]" kAllHardware]
    by (fastforce simp: ToRealtimeOperationalState_def)
qed

text \<open>The fault reason outlives the fault: it appears with the first faulted module that has
  a message, stays while any module is still faulted or clearing its faults, and goes when none is. The
  request state is done only if no module is busy.\<close>

theorem fault_reason_lifetime:
  assumes "UpdateState E s = (r, t)"
  shows "r = Inr () \<and>
    ((\<forall>d \<in> set (hwms t). \<not> faulted_or_clearing d) \<longrightarrow> combined_fault_reason t = None) \<and>
    ((\<exists>d \<in> set (hwms t). faulted_or_clearing d) \<longrightarrow> combined_fault_reason s \<noteq> None \<longrightarrow>
       combined_fault_reason t \<noteq> None) \<and>
    ((\<exists>d \<in> set (hwms t). has_fault_message d) \<longrightarrow> combined_fault_reason t \<noteq> None) \<and>
    (cached_request_state t = RS_kDone \<longrightarrow> (\<forall>d \<in> set (hwms s). request_idle s d))"
proof -
  note e = UpdateState_effect[OF assms]
  note result = new_fault_reason_result[where ds = "hwms t" and old = "combined_fault_reason s"]
  have "(\<exists>d \<in> set (hwms t). faulted_or_clearing d) \<longrightarrow> combined_fault_reason s \<noteq> None \<longrightarrow>
      combined_fault_reason t \<noteq> None"
    using e result(2,3) by metis
  moreover have "cached_request_state t = RS_kDone \<longrightarrow> (\<forall>d \<in> set (hwms s). request_idle s d)"
    using e by (auto simp: request_state_of_def filter_empty_conv split: if_splits)
  moreover have "r = Inr ()" using e by blast
  moreover have "(\<forall>d \<in> set (hwms t). \<not> faulted_or_clearing d) \<longrightarrow> combined_fault_reason t = None"
    using e result(1) by metis
  moreover have "(\<exists>d \<in> set (hwms t). has_fault_message d) \<longrightarrow> combined_fault_reason t \<noteq> None"
    using e result(3) by metis
  ultimately show ?thesis by blast
qed

text \<open>A sample: the module is still clearing its faults, a fault reason is known from before.\<close>

definition faulted_sys :: "state_code hwm_sys" where
  "faulted_sys = (sample_hwm_sys HwmClearingFaults)\<lparr>combined_fault_reason := Some ''limit''\<rparr>"

theorem fault_reason_lifetime_witness:
  "combined_fault_reason (snd (UpdateState sample_hwm_env faulted_sys)) \<noteq> None"
proof -
  let ?t = "snd (UpdateState sample_hwm_env faulted_sys)"
  have run: "UpdateState sample_hwm_env faulted_sys = (Inr (), ?t)"
  proof -
    have "fst (UpdateState sample_hwm_env faulted_sys) = Inr ()" by code_simp
    then show ?thesis by (metis prod.collapse)
  qed
  have "list_ex faulted_or_clearing (hwms ?t)" "combined_fault_reason faulted_sys \<noteq> None" by code_simp+
  then show ?thesis using fault_reason_lifetime[OF run] by (simp add: list_ex_iff)
qed

text \<open>Deactivating the hardware while a module is still enabling motion overwrites the request to
  enable without freeing its client: after the next activation, every request to enable motion fails with
  AlreadyExists.\<close>

theorem deactivation_blocks_enabling:
  "fst (rt_bind (ProcessTransitionRequestAsync sample_hwm_env) (\<lambda>_.
        rt_bind (Deactivate sample_hwm_env None) (\<lambda>_.
        rt_bind (Activate sample_hwm_env None) (\<lambda>_.
        rt_bind (UpdateState sample_hwm_env) (\<lambda>_.
        rt_bind (RequestTransition TR_kEnableMotion) (\<lambda>_.
          ProcessTransitionRequestAsync sample_hwm_env))))) enabling_sys) = Inl (Error AlreadyExists)"
  by code_simp

end
