(* ===== verification/Async_Buffer.thy ===== *)
theory Async_Buffer
  imports Icon_Prelude
begin

text \<open>
  \<^verbatim>\<open>intrinsic/icon/utils/async_buffer.h\<close>: a triple buffer between one producer and one
  consumer without locks. Three slots rotate through three roles; which slot has which role is one atomic
  word that both threads change by compare-and-swap. The first part has the operations as they run alone,
  the second part interleaves the two threads at every atomic access.
\<close>

section \<open>Operations\<close>

record async_state =
  active_index :: nat
  mailbox_index :: nat
  free_index :: nat
  mailbox_full :: bool

record 'a async_buffer =
  ab_state :: async_state
  ab_checked_out :: bool
  ab_buffers :: "'a list"

definition IsConsistent :: "async_state \<Rightarrow> bool" where
  "IsConsistent st \<longleftrightarrow> active_index st < 3 \<and> mailbox_index st < 3 \<and> free_index st < 3 \<and>
     active_index st \<noteq> mailbox_index st \<and> mailbox_index st \<noteq> free_index st \<and> free_index st \<noteq> active_index st"

definition initial_state :: async_state where
  "initial_state = \<lparr>active_index = 0, mailbox_index = 1, free_index = 2, mailbox_full = False\<rparr>"

definition mk_AsyncBuffer :: "'a \<Rightarrow> 'a async_buffer" where
  "mk_AsyncBuffer x = \<lparr>ab_state = initial_state, ab_checked_out = False, ab_buffers = [x, x, x]\<rparr>"

text \<open>The slot of the free buffer.\<close>

definition AB_GetFreeBuffer :: "'a async_buffer \<Rightarrow> nat \<times> 'a async_buffer" where
  "AB_GetFreeBuffer b = (free_index (ab_state b), b\<lparr>ab_checked_out := True\<rparr>)"

text \<open>The next state words of the two compare-and-swap loops.\<close>

definition fetch_next :: "async_state \<Rightarrow> async_state" where
  "fetch_next st =
     (if mailbox_full st
      then st\<lparr>active_index := mailbox_index st, mailbox_index := active_index st, mailbox_full := False\<rparr> else st)"

definition commit_next :: "async_state \<Rightarrow> async_state" where
  "commit_next st = \<lparr>active_index = active_index st, mailbox_index = free_index st,
     free_index = mailbox_index st, mailbox_full = True\<rparr>"

definition AB_GetActiveBuffer :: "'a async_buffer \<Rightarrow> (bool \<times> 'a) \<times> 'a async_buffer" where
  "AB_GetActiveBuffer b =
     (let next = fetch_next (ab_state b) in
      ((mailbox_full (ab_state b), ab_buffers b ! active_index next), b\<lparr>ab_state := next\<rparr>))"

definition AB_CommitFreeBuffer :: "'a async_buffer \<Rightarrow> bool \<times> 'a async_buffer" where
  "AB_CommitFreeBuffer b =
     (if \<not> ab_checked_out b then (False, b)
      else (True, b\<lparr>ab_state := commit_next (ab_state b), ab_checked_out := False\<rparr>))"

text \<open>What the producer does with a value: get the free buffer, assign to it, commit.\<close>

definition AB_write :: "'a \<Rightarrow> 'a async_buffer \<Rightarrow> 'a async_buffer" where
  "AB_write x b =
     (case AB_GetFreeBuffer b of (i, b') \<Rightarrow>
        snd (AB_CommitFreeBuffer (b'\<lparr>ab_buffers := (ab_buffers b')[i := x]\<rparr>)))"

lemmas async_defs = IsConsistent_def initial_state_def fetch_next_def commit_next_def

lemma fetch_next_consistent [simp]: "IsConsistent st \<Longrightarrow> IsConsistent (fetch_next st)"
  by (auto simp: async_defs)

lemma commit_next_consistent [simp]: "IsConsistent st \<Longrightarrow> IsConsistent (commit_next st)"
  by (auto simp: async_defs)

section \<open>The buffer as a register\<close>

text \<open>The contract that the users of such a buffer rely on: what is read is what was written last.\<close>

locale latest_value_buffer =
  fixes valid :: "'b \<Rightarrow> bool" and put :: "'a \<Rightarrow> 'b \<Rightarrow> 'b" and fetch :: "'b \<Rightarrow> 'a \<times> 'b"
  assumes valid_write: "valid b \<Longrightarrow> valid (put x b)"
    and valid_fetch: "valid b \<Longrightarrow> valid (snd (fetch b))"
    and fetch_write: "valid b \<Longrightarrow> fst (fetch (put x b)) = x"
    and fetch_again: "valid b \<Longrightarrow> fst (fetch (snd (fetch b))) = fst (fetch b)"
begin

lemma valid_writes: "valid b \<Longrightarrow> valid (fold put xs b)"
  by (induction xs arbitrary: b) (auto simp: valid_write)

lemma fetch_writes: "valid b \<Longrightarrow> xs \<noteq> [] \<Longrightarrow> fst (fetch (fold put xs b)) = last xs"
  by (induction xs rule: rev_induct) (auto simp: fetch_write valid_writes)

lemma fetch_unwritten: "valid b \<Longrightarrow> fst (fetch (((\<lambda>b. snd (fetch b)) ^^ n) b)) = fst (fetch b)"
proof -
  assume "valid b"
  then have "valid (((\<lambda>b. snd (fetch b)) ^^ n) b) \<and>
      fst (fetch (((\<lambda>b. snd (fetch b)) ^^ n) b)) = fst (fetch b)"
    by (induction n) (auto simp: valid_fetch fetch_again)
  then show ?thesis by blast
qed

end

definition ab_valid :: "'a async_buffer \<Rightarrow> bool" where
  "ab_valid b \<longleftrightarrow> IsConsistent (ab_state b) \<and> length (ab_buffers b) = 3"

definition ab_fetch :: "'a async_buffer \<Rightarrow> 'a \<times> 'a async_buffer" where
  "ab_fetch b = (case AB_GetActiveBuffer b of ((full, x), b') \<Rightarrow> (x, b'))"

lemma mk_AsyncBuffer_valid [simp]: "ab_valid (mk_AsyncBuffer x)"
  by (simp add: ab_valid_def mk_AsyncBuffer_def async_defs)

lemmas ab_defs = ab_valid_def AB_write_def AB_GetFreeBuffer_def AB_CommitFreeBuffer_def ab_fetch_def
  AB_GetActiveBuffer_def

interpretation async: latest_value_buffer ab_valid AB_write ab_fetch
proof
  fix b :: "'a async_buffer" and x :: 'a
  assume b: "ab_valid b"
  show "ab_valid (AB_write x b)" "ab_valid (snd (ab_fetch b))" using b by (simp_all add: ab_defs Let_def)
  show "fst (ab_fetch (AB_write x b)) = x"
    using b by (auto simp: ab_defs fetch_next_def commit_next_def IsConsistent_def)
  show "fst (ab_fetch (snd (ab_fetch b))) = fst (ab_fetch b)"
    by (simp add: ab_defs Let_def fetch_next_def)
qed

section \<open>Two threads\<close>

text \<open>\<open>P_filling i\<close>: the producer has the pointer to slot \<open>i\<close>; \<open>P_swapping i cur\<close>: it has loaded the state
  word \<open>cur\<close> in the loop of \<^verbatim>\<open>CommitFreeBuffer\<close>. \<open>C_holding i\<close>: the consumer has the pointer to
  slot \<open>i\<close>; \<open>C_fetching cur\<close>: it has loaded \<open>cur\<close> in the loop of \<^verbatim>\<open>GetActiveBuffer\<close>, and no
  longer uses the old pointer. \<open>commits\<close> is the history of committed values, \<open>fetched\<close> how many there
  were when the consumer got its pointer. The producer may change its slot in any number of steps. An exchange that fails
  changes nothing; it and the load of the next round are one step (\<open>commit_retry\<close>, \<open>fetch_retry\<close>).\<close>

datatype producer_pc = P_idle | P_filling nat | P_swapping nat async_state
datatype consumer_pc = C_holding nat | C_fetching async_state

record 'a async_sys =
  word :: async_state
  slots :: "'a list"
  producer :: producer_pc
  consumer :: consumer_pc
  commits :: "'a list"
  fetched :: nat

definition async_init :: "'a \<Rightarrow> 'a async_sys" where
  "async_init x = \<lparr>word = initial_state, slots = [x, x, x], producer = P_idle, consumer = C_holding 0,
     commits = [], fetched = 0\<rparr>"

inductive async_step :: "'a async_sys \<Rightarrow> 'a async_sys \<Rightarrow> bool" where
  get_free: "producer s = P_idle \<or> producer s = P_filling i \<Longrightarrow>
    async_step s (s\<lparr>producer := P_filling (free_index (word s))\<rparr>)"
| fill: "producer s = P_filling i \<Longrightarrow> async_step s (s\<lparr>slots := (slots s)[i := x]\<rparr>)"
| commit_load: "producer s = P_filling i \<Longrightarrow> async_step s (s\<lparr>producer := P_swapping i (word s)\<rparr>)"
| commit_swap: "producer s = P_swapping i cur \<Longrightarrow> word s = cur \<Longrightarrow>
    async_step s (s\<lparr>word := commit_next cur, producer := P_idle, commits := commits s @ [slots s ! i]\<rparr>)"
| commit_retry: "producer s = P_swapping i cur \<Longrightarrow> word s \<noteq> cur \<Longrightarrow>
    async_step s (s\<lparr>producer := P_swapping i (word s)\<rparr>)"
| fetch_load: "consumer s = C_holding j \<Longrightarrow> async_step s (s\<lparr>consumer := C_fetching (word s)\<rparr>)"
| fetch_swap: "consumer s = C_fetching cur \<Longrightarrow> word s = cur \<Longrightarrow>
    async_step s (s\<lparr>word := fetch_next cur, consumer := C_holding (active_index (fetch_next cur)),
      fetched := length (commits s)\<rparr>)"
| fetch_retry: "consumer s = C_fetching cur \<Longrightarrow> word s \<noteq> cur \<Longrightarrow>
    async_step s (s\<lparr>consumer := C_fetching (word s)\<rparr>)"

inductive async_reachable :: "'a \<Rightarrow> 'a async_sys \<Rightarrow> bool" for x where
  init: "async_reachable x (async_init x)"
| step: "async_reachable x s \<Longrightarrow> async_step s t \<Longrightarrow> async_reachable x t"

definition producer_inv :: "'a async_sys \<Rightarrow> bool" where
  "producer_inv s \<longleftrightarrow>
     (case producer s of
        P_idle \<Rightarrow> True
      | P_filling i \<Rightarrow> i = free_index (word s)
      | P_swapping i cur \<Rightarrow> i = free_index (word s) \<and> free_index cur = i)"

definition consumer_inv :: "'a \<Rightarrow> 'a async_sys \<Rightarrow> bool" where
  "consumer_inv x s \<longleftrightarrow>
     (case consumer s of
        C_holding j \<Rightarrow> j = active_index (word s) \<and> slots s ! j = (x # commits s) ! fetched s
      | C_fetching cur \<Rightarrow> active_index cur = active_index (word s))"

definition mailbox_inv :: "'a \<Rightarrow> 'a async_sys \<Rightarrow> bool" where
  "mailbox_inv x s \<longleftrightarrow>
     slots s ! (if mailbox_full (word s) then mailbox_index (word s) else active_index (word s)) =
       last (x # commits s)"

definition async_inv :: "'a \<Rightarrow> 'a async_sys \<Rightarrow> bool" where
  "async_inv x s \<longleftrightarrow> IsConsistent (word s) \<and> length (slots s) = 3 \<and> fetched s \<le> length (commits s) \<and>
     producer_inv s \<and> consumer_inv x s \<and> mailbox_inv x s"

lemmas async_inv_defs = async_inv_def producer_inv_def consumer_inv_def mailbox_inv_def

lemma async_inv_init: "async_inv x (async_init x)"
  by (simp add: async_inv_defs async_init_def async_defs)

lemma last_nth_length: "(x # xs) ! length xs = last (x # xs)"
  by (cases xs rule: rev_cases) (auto simp: nth_append)

lemma nth_snoc: "n \<le> length xs \<Longrightarrow> (x # xs @ [y]) ! n = (x # xs) ! n"
  by (cases n) (auto simp: nth_append)

lemma async_inv_step:
  assumes "async_inv x s" "async_step s t"
  shows "async_inv x t"
  using assms(2)
proof (cases rule: async_step.cases)
  case (commit_swap i cur)
  have inv: "producer_inv s" "consumer_inv x s" and n: "fetched s \<le> length (commits s)" "IsConsistent (word s)"
    using assms(1) by (simp_all add: async_inv_def)
  have i: "i = free_index (word s)" using inv(1) unfolding producer_inv_def commit_swap(2) by simp
  have old: "(x # commits s @ [slots s ! i]) ! fetched s = (x # commits s) ! fetched s" by (rule nth_snoc[OF n(1)])
  have "consumer_inv x t" using inv(2)
    by (simp add: commit_swap(1) consumer_inv_def commit_next_def old commit_swap(3)[symmetric] split: consumer_pc.splits)
  moreover have "mailbox_inv x t"
    by (simp add: commit_swap(1) mailbox_inv_def commit_next_def i commit_swap(3)[symmetric])
  ultimately show ?thesis
    using assms(1) commit_next_consistent[OF n(2)]
    by (simp add: async_inv_def producer_inv_def commit_swap(1) commit_swap(3)[symmetric])
next
  case (fetch_swap cur)
  then show ?thesis using assms(1)
    by (auto simp: async_inv_defs fetch_next_def IsConsistent_def last_nth_length split: producer_pc.splits)
next
  case (fill i y)
  then show ?thesis using assms(1)
    by (auto simp: async_inv_defs IsConsistent_def nth_list_update split: consumer_pc.splits if_splits)
next
  case (get_free i)
  then show ?thesis using assms(1) by (cases "consumer s") (auto simp: async_inv_defs)
next
  case (commit_load i)
  then show ?thesis using assms(1) by (cases "consumer s") (auto simp: async_inv_defs)
next
  case (commit_retry i cur)
  then show ?thesis using assms(1) by (cases "consumer s") (auto simp: async_inv_defs)
next
  case (fetch_load j)
  then show ?thesis using assms(1) by (cases "producer s") (auto simp: async_inv_defs)
next
  case (fetch_retry cur)
  then show ?thesis using assms(1) by (cases "producer s") (auto simp: async_inv_defs)
qed

lemma async_reachable_inv: "async_reachable x s \<Longrightarrow> async_inv x s"
  by (induction rule: async_reachable.induct) (auto simp: async_inv_init intro: async_inv_step)

section \<open>Properties\<close>

text \<open>C33 (safety). However the producer and the consumer are interleaved, they never use the same slot, and
  what the consumer holds stays the value that was the last one committed when it fetched (the initial value
  if there was none); a fetch that completes gets the last committed value.\<close>

theorem consumer_holds_latest_commit:
  assumes "async_reachable x s" "consumer s = C_holding j"
  shows "slots s ! j = (x # commits s) ! fetched s \<and> producer s \<noteq> P_filling j \<and>
    (\<forall>cur. producer s \<noteq> P_swapping j cur) \<and>
    (\<forall>t u k. async_step t u \<longrightarrow> async_reachable x t \<longrightarrow> consumer t \<noteq> consumer u \<longrightarrow> consumer u = C_holding k \<longrightarrow>
       slots u ! k = last (x # commits t))"
proof -
  have "async_inv x s" by (rule async_reachable_inv[OF assms(1)])
  then have s: "slots s ! j = (x # commits s) ! fetched s" "producer s \<noteq> P_filling j"
    "\<forall>cur. producer s \<noteq> P_swapping j cur"
    using assms(2) by (auto simp: async_inv_defs IsConsistent_def)
  have "slots u ! k = last (x # commits t)"
    if "async_step t u" "async_reachable x t" "consumer t \<noteq> consumer u" "consumer u = C_holding k" for t u k
  proof -
    have "async_inv x u" using async_inv_step[OF async_reachable_inv that(1)] that(2) by blast
    moreover have "fetched u = length (commits t) \<and> commits u = commits t"
      using that by (auto elim!: async_step.cases)
    ultimately show ?thesis using that(4) by (auto simp: async_inv_defs last_nth_length)
  qed
  then show ?thesis using s by blast
qed

text \<open>A sample run: a value is committed and fetched.\<close>

lemma exchange_reachable:
  "async_reachable (0 :: nat) \<lparr>word = \<lparr>active_index = 2, mailbox_index = 0, free_index = 1, mailbox_full = False\<rparr>,
     slots = [0, 0, 7], producer = P_idle, consumer = C_holding 2, commits = [7], fetched = 1\<rparr>"
proof -
  let ?s0 = "async_init (0 :: nat)"
  let ?s1 = "?s0\<lparr>producer := P_filling 2\<rparr>"
  let ?s2 = "?s1\<lparr>slots := [0, 0, 7]\<rparr>"
  let ?s3 = "?s2\<lparr>producer := P_swapping 2 initial_state\<rparr>"
  let ?s4 = "?s3\<lparr>word := commit_next initial_state, producer := P_idle, commits := [7]\<rparr>"
  let ?s5 = "?s4\<lparr>consumer := C_fetching (commit_next initial_state)\<rparr>"
  let ?s6 = "?s5\<lparr>word := fetch_next (commit_next initial_state), consumer := C_holding 2, fetched := 1\<rparr>"
  note vals = async_init_def async_defs
  have "async_reachable 0 ?s1" using async_reachable.step[OF async_reachable.init async_step.get_free[of ?s0]]
    by (simp add: vals)
  then have "async_reachable 0 ?s2" using async_step.fill[of ?s1 2 7] by (auto intro: async_reachable.step simp: vals)
  then have "async_reachable 0 ?s3"
    using async_step.commit_load[of ?s2 2] by (auto intro: async_reachable.step simp: vals)
  then have "async_reachable 0 ?s4"
    using async_step.commit_swap[of ?s3 2 initial_state] by (auto intro: async_reachable.step simp: vals)
  then have "async_reachable 0 ?s5"
    using async_step.fetch_load[of ?s4 0] by (auto intro: async_reachable.step simp: vals)
  then have "async_reachable 0 ?s6"
    using async_step.fetch_swap[of ?s5 "commit_next initial_state"]
    by (auto intro: async_reachable.step simp: vals)
  then show ?thesis by (simp add: vals)
qed

theorem consumer_holds_latest_commit_witness: "[0, 0, 7] ! 2 = [0, 7 :: nat] ! 1"
  using consumer_holds_latest_commit[OF exchange_reachable] by simp

text \<open>Used by one thread at a time, the triple buffer is a register: after any writes, the
  consumer reads the last value, as often as it likes.\<close>

theorem async_buffer_is_register:
  assumes "ab_valid b" "xs \<noteq> []"
  shows "fst (ab_fetch (fold AB_write xs b)) = last xs \<and>
    fst (ab_fetch (((\<lambda>b. snd (ab_fetch b)) ^^ n) (fold AB_write xs b))) = last xs"
  using async.fetch_writes[OF assms] async.fetch_unwritten[OF async.valid_writes[OF assms(1)]] by simp

theorem async_buffer_is_register_witness:
  "fst (ab_fetch (fold AB_write [1, 2, 3] (mk_AsyncBuffer (0 :: int)))) = 3"
  using async_buffer_is_register[OF mk_AsyncBuffer_valid, of "[1, 2, 3 :: int]"] by simp

end
