(* ===== verification/Safety_Message_Handler.thy ===== *)
theory Safety_Message_Handler
  imports Part_Manager "HOL-Library.Word"
begin

text \<open>
  \<^verbatim>\<open>intrinsic/icon/control/rtcl_safety_message_handler.cc\<close> and
  \<^verbatim>\<open>hal/lib/fieldbus/value_pattern_utils.cc\<close>: in every cycle the safety statuses of all configured
  devices are merged into one, field by field, so that the most severe value wins; a digital input that matches
  a pattern injects a request to pause.
\<close>

unbundle bit_operations_syntax

section \<open>Merging\<close>

text \<open>The values of \<^verbatim>\<open>enum RequestedBehavior\<close> (\<^verbatim>\<open>safety_status.fbs\<close>).\<close>

fun behavior_value :: "requested_behavior \<Rightarrow> nat" where
  "behavior_value RB_UNKNOWN = 0"
| "behavior_value RB_NORMAL_OPERATION = 1"
| "behavior_value RB_SAFE_STOP_1_TIME_MONITORED = 2"
| "behavior_value RB_SAFE_STOP_2_TIME_MONITORED = 3"
| "behavior_value RB_SAFE_STOP_0 = 4"
| "behavior_value RB_PAUSE = 5"

definition CombineRequestedBehavior :: "requested_behavior \<Rightarrow> requested_behavior \<Rightarrow> requested_behavior" where
  "CombineRequestedBehavior a b =
     (if a = RB_SAFE_STOP_0 \<or> b = RB_SAFE_STOP_0 then RB_SAFE_STOP_0
      else if a = RB_SAFE_STOP_1_TIME_MONITORED \<or> b = RB_SAFE_STOP_1_TIME_MONITORED
      then RB_SAFE_STOP_1_TIME_MONITORED
      else if a = RB_SAFE_STOP_2_TIME_MONITORED \<or> b = RB_SAFE_STOP_2_TIME_MONITORED
      then RB_SAFE_STOP_2_TIME_MONITORED
      else if a = RB_PAUSE \<or> b = RB_PAUSE then RB_PAUSE
      else if behavior_value b < behavior_value a then a else b)"

definition CombineModeOfSafeOperation ::
  "mode_of_safe_operation \<Rightarrow> mode_of_safe_operation \<Rightarrow> mode_of_safe_operation" where
  "CombineModeOfSafeOperation a b =
     (if a = MSO_UPDATING \<or> b = MSO_UPDATING then MSO_UPDATING
      else if a = MSO_CONFIGURATION \<or> b = MSO_CONFIGURATION then MSO_CONFIGURATION
      else if a = MSO_TEACH_PENDANT_2 \<or> b = MSO_TEACH_PENDANT_2 then MSO_TEACH_PENDANT_2
      else if a = MSO_TEACH_PENDANT_1 \<or> b = MSO_TEACH_PENDANT_1 then MSO_TEACH_PENDANT_1
      else if a = MSO_AUTOMATIC \<or> b = MSO_AUTOMATIC then MSO_AUTOMATIC else MSO_UNKNOWN)"

definition CombineButtonStatus :: "button_status \<Rightarrow> button_status \<Rightarrow> button_status" where
  "CombineButtonStatus a b =
     (if a = BS_ENGAGED \<or> b = BS_ENGAGED then BS_ENGAGED
      else if a = BS_DISENGAGED \<or> b = BS_DISENGAGED then BS_DISENGAGED
      else if a = BS_NOT_AVAILABLE \<or> b = BS_NOT_AVAILABLE then BS_NOT_AVAILABLE else BS_UNKNOWN)"

definition CombineEStopButtonStatus :: "button_status \<Rightarrow> button_status \<Rightarrow> button_status" where
  "CombineEStopButtonStatus = CombineButtonStatus"

definition CombineEnableButtonStatus :: "button_status \<Rightarrow> button_status \<Rightarrow> button_status" where
  "CombineEnableButtonStatus a b =
     (if a = BS_DISENGAGED \<or> b = BS_DISENGAGED then BS_DISENGAGED
      else if a = BS_ENGAGED \<or> b = BS_ENGAGED then BS_ENGAGED
      else if a = BS_NOT_AVAILABLE \<or> b = BS_NOT_AVAILABLE then BS_NOT_AVAILABLE else BS_UNKNOWN)"

section \<open>The digital input\<close>

record value_pattern =
  expected_value :: "32 word"
  signal_mask :: "32 word"

text \<open>The signals of a digital input; a signal can be null.\<close>

definition input_value :: "bool option list \<Rightarrow> 32 word" where
  "input_value signals =
     fold (\<lambda>i w. case signals ! i of None \<Rightarrow> w | Some b \<Rightarrow> if b then set_bit i w else unset_bit i w)
       [0..<min (length signals) 32] 0"

text \<open>The interface, or its signals, can be null.\<close>

definition SignalIsActive :: "value_pattern list \<Rightarrow> bool option list option \<Rightarrow> bool" where
  "SignalIsActive match_patterns input =
     (case input of
        None \<Rightarrow> False
      | Some signals \<Rightarrow> list_ex (\<lambda>p. expected_value p = (input_value signals AND signal_mask p)) match_patterns)"

definition ValidateValuePattern :: "32 word \<Rightarrow> 32 word \<Rightarrow> nat \<Rightarrow> rt_status" where
  "ValidateValuePattern msk expected num_input_bits =
     (if msk = 0 then Error InvalidArgument
      else if num_input_bits = 0 then Error InvalidArgument
      else if 32 < num_input_bits then Error InvalidArgument
      else if 2 ^ num_input_bits \<le> unat msk then Error InvalidArgument
      else if 2 ^ num_input_bits \<le> unat expected then Error InvalidArgument
      else OkStatus)"

definition kMaxPatterns :: nat where "kMaxPatterns = 32"

fun validate_patterns :: "nat \<Rightarrow> value_pattern list \<Rightarrow> value_pattern list status_or" where
  "validate_patterns n [] = Inr []"
| "validate_patterns n (p # ps) =
     (if ValidateValuePattern (signal_mask p) (expected_value p) n \<noteq> OkStatus then Inl (Error InvalidArgument)
      else so_bind (validate_patterns n ps) (\<lambda>qs. Inr (p # qs)))"

text \<open>\<open>lookup\<close> finds a digital input by module and interface name: an error, a null interface, or its
  signals, which may be null.\<close>

record expected_signal =
  signal_module :: string
  signal_interface :: string
  patterns :: "value_pattern list"

definition ParseExpectedSignal ::
  "(string \<Rightarrow> string \<Rightarrow> bool option list option option status_or) \<Rightarrow> expected_signal \<Rightarrow>
   value_pattern list status_or" where
  "ParseExpectedSignal lookup sig =
     (if kMaxPatterns < length (patterns sig) then Inl (Error InvalidArgument)
      else
        so_bind (lookup (signal_module sig) (signal_interface sig)) (\<lambda>interface.
        case interface of
          None \<Rightarrow> Inl (Error InvalidArgument)
        | Some None \<Rightarrow> Inl (Error InvalidArgument)
        | Some (Some signals) \<Rightarrow> validate_patterns (length signals) (patterns sig)))"

section \<open>The handler\<close>

text \<open>\<open>inputs\<close>: the statuses of the devices, null for one that is gone; \<open>pause_signal\<close>: the patterns
  of the pause signal, if configured, with the current digital input.\<close>

definition empty_safety_status :: safety_status where
  "empty_safety_status = \<lparr>mode_of_safe_operation = MSO_UNKNOWN, estop_button_status = BS_UNKNOWN,
     enable_button_status = BS_UNKNOWN, requested_behavior = RB_UNKNOWN\<rparr>"

definition merge_status :: "safety_status option \<Rightarrow> safety_status \<Rightarrow> safety_status" where
  "merge_status interface acc =
     (case interface of
        None \<Rightarrow> acc
      | Some m \<Rightarrow>
          \<lparr>mode_of_safe_operation =
             CombineModeOfSafeOperation (mode_of_safe_operation acc) (mode_of_safe_operation m),
           estop_button_status = CombineEStopButtonStatus (estop_button_status acc) (estop_button_status m),
           enable_button_status = CombineEnableButtonStatus (enable_button_status acc) (enable_button_status m),
           requested_behavior = CombineRequestedBehavior (requested_behavior acc) (requested_behavior m)\<rparr>)"

definition SafetyHandler_Update ::
  "safety_status option list \<Rightarrow> (value_pattern list \<times> bool option list option) option \<Rightarrow> safety_status" where
  "SafetyHandler_Update inputs pause_signal =
     (let m = fold merge_status inputs empty_safety_status in
      case pause_signal of
        None \<Rightarrow> m
      | Some (match_patterns, input) \<Rightarrow>
          if SignalIsActive match_patterns input
          then m\<lparr>requested_behavior := CombineRequestedBehavior (requested_behavior m) RB_PAUSE\<rparr> else m)"

definition GetConfiguredBehaviorOverrides :: "behavior_override_request list" where
  "GetConfiguredBehaviorOverrides = [BEHAVIOR_OVERRIDE_REQUEST_PAUSE]"

section \<open>Severity\<close>

text \<open>The orders that the comments of the source name, as ranks.\<close>

fun behavior_rank :: "requested_behavior \<Rightarrow> nat" where
  "behavior_rank RB_UNKNOWN = 0"
| "behavior_rank RB_NORMAL_OPERATION = 1"
| "behavior_rank RB_PAUSE = 2"
| "behavior_rank RB_SAFE_STOP_2_TIME_MONITORED = 3"
| "behavior_rank RB_SAFE_STOP_1_TIME_MONITORED = 4"
| "behavior_rank RB_SAFE_STOP_0 = 5"

fun mode_rank :: "mode_of_safe_operation \<Rightarrow> nat" where
  "mode_rank MSO_UNKNOWN = 0"
| "mode_rank MSO_AUTOMATIC = 1"
| "mode_rank MSO_TEACH_PENDANT_1 = 2"
| "mode_rank MSO_TEACH_PENDANT_2 = 3"
| "mode_rank MSO_CONFIGURATION = 4"
| "mode_rank MSO_UPDATING = 5"

fun estop_rank :: "button_status \<Rightarrow> nat" where
  "estop_rank BS_UNKNOWN = 0"
| "estop_rank BS_NOT_AVAILABLE = 1"
| "estop_rank BS_DISENGAGED = 2"
| "estop_rank BS_ENGAGED = 3"

fun enable_rank :: "button_status \<Rightarrow> nat" where
  "enable_rank BS_UNKNOWN = 0"
| "enable_rank BS_NOT_AVAILABLE = 1"
| "enable_rank BS_ENGAGED = 2"
| "enable_rank BS_DISENGAGED = 3"

text \<open>A way of merging in which the more severe value wins.\<close>

locale severity =
  fixes combine :: "'a \<Rightarrow> 'a \<Rightarrow> 'a" and rank :: "'a \<Rightarrow> nat" and unknown :: 'a
  assumes rank_combine: "rank (combine a b) = max (rank a) (rank b)"
    and rank_unknown: "rank unknown = 0"
    and rank_inj: "rank a = rank b \<Longrightarrow> a = b"
begin

lemma combine_comm: "combine a b = combine b a"
  by (rule rank_inj) (simp add: rank_combine max.commute)

lemma combine_assoc: "combine (combine a b) c = combine a (combine b c)"
  by (rule rank_inj) (simp add: rank_combine max.assoc)

lemma rank_fold: "rank (fold (\<lambda>x acc. combine acc x) xs a) = Max (insert (rank a) (rank ` set xs))"
proof (induction xs arbitrary: a)
  case (Cons x xs)
  have "Max (insert (max (rank a) (rank x)) (rank ` set xs)) = Max (insert (rank a) (insert (rank x) (rank ` set xs)))"
    by (cases "xs = []") (simp_all add: max.assoc)
  then show ?case using Cons.IH by (simp add: rank_combine)
qed simp

lemma fold_upper: "x \<in> set xs \<Longrightarrow> rank x \<le> rank (fold (\<lambda>x acc. combine acc x) xs unknown)"
  by (simp add: rank_fold)

lemma fold_attained: "fold (\<lambda>x acc. combine acc x) xs unknown \<in> insert unknown (set xs)"
proof -
  have "rank (fold (\<lambda>x acc. combine acc x) xs unknown) \<in> insert (rank unknown) (rank ` set xs)"
    unfolding rank_fold by (rule Max_in) simp_all
  then show ?thesis using rank_inj by auto
qed

lemma fold_set: "set xs = set ys \<Longrightarrow> fold (\<lambda>x acc. combine acc x) xs unknown = fold (\<lambda>x acc. combine acc x) ys unknown"
  by (rule rank_inj) (simp add: rank_fold)

end

interpretation behavior: severity CombineRequestedBehavior behavior_rank RB_UNKNOWN
proof
  show "behavior_rank (CombineRequestedBehavior a b) = max (behavior_rank a) (behavior_rank b)" for a b
    by (cases a; cases b) (simp_all add: CombineRequestedBehavior_def)
  show "behavior_rank a = behavior_rank b \<Longrightarrow> a = b" for a b by (cases a; cases b) simp_all
qed simp

interpretation mode: severity CombineModeOfSafeOperation mode_rank MSO_UNKNOWN
proof
  show "mode_rank (CombineModeOfSafeOperation a b) = max (mode_rank a) (mode_rank b)" for a b
    by (cases a; cases b) (simp_all add: CombineModeOfSafeOperation_def)
  show "mode_rank a = mode_rank b \<Longrightarrow> a = b" for a b by (cases a; cases b) simp_all
qed simp

interpretation estop: severity CombineEStopButtonStatus estop_rank BS_UNKNOWN
proof
  show "estop_rank (CombineEStopButtonStatus a b) = max (estop_rank a) (estop_rank b)" for a b
    by (cases a; cases b) (simp_all add: CombineEStopButtonStatus_def CombineButtonStatus_def)
  show "estop_rank a = estop_rank b \<Longrightarrow> a = b" for a b by (cases a; cases b) simp_all
qed simp

interpretation enable: severity CombineEnableButtonStatus enable_rank BS_UNKNOWN
proof
  show "enable_rank (CombineEnableButtonStatus a b) = max (enable_rank a) (enable_rank b)" for a b
    by (cases a; cases b) (simp_all add: CombineEnableButtonStatus_def)
  show "enable_rank a = enable_rank b \<Longrightarrow> a = b" for a b by (cases a; cases b) simp_all
qed simp

definition connected :: "safety_status option list \<Rightarrow> safety_status list" where
  "connected inputs = List.map_filter id inputs"

lemma set_connected: "set (connected inputs) = {m. Some m \<in> set inputs}"
  by (force simp: connected_def List.map_filter_def)

lemma merge_fields:
  "mode_of_safe_operation (fold merge_status inputs acc) =
     fold (\<lambda>x acc. CombineModeOfSafeOperation acc x) (map mode_of_safe_operation (connected inputs)) (mode_of_safe_operation acc)"
  "estop_button_status (fold merge_status inputs acc) =
     fold (\<lambda>x acc. CombineEStopButtonStatus acc x) (map estop_button_status (connected inputs)) (estop_button_status acc)"
  "enable_button_status (fold merge_status inputs acc) =
     fold (\<lambda>x acc. CombineEnableButtonStatus acc x) (map enable_button_status (connected inputs)) (enable_button_status acc)"
  "requested_behavior (fold merge_status inputs acc) =
     fold (\<lambda>x acc. CombineRequestedBehavior acc x) (map requested_behavior (connected inputs)) (requested_behavior acc)"
  by (induction inputs arbitrary: acc)
     (simp_all add: connected_def List.map_filter_def merge_status_def split: option.splits)

definition pause_active :: "(value_pattern list \<times> bool option list option) option \<Rightarrow> bool" where
  "pause_active pause_signal = (case pause_signal of None \<Rightarrow> False | Some (ps, input) \<Rightarrow> SignalIsActive ps input)"

lemma Update_fields:
  "mode_of_safe_operation (SafetyHandler_Update inputs p) =
     fold (\<lambda>x acc. CombineModeOfSafeOperation acc x) (map mode_of_safe_operation (connected inputs)) MSO_UNKNOWN"
  "estop_button_status (SafetyHandler_Update inputs p) =
     fold (\<lambda>x acc. CombineEStopButtonStatus acc x) (map estop_button_status (connected inputs)) BS_UNKNOWN"
  "enable_button_status (SafetyHandler_Update inputs p) =
     fold (\<lambda>x acc. CombineEnableButtonStatus acc x) (map enable_button_status (connected inputs)) BS_UNKNOWN"
  "requested_behavior (SafetyHandler_Update inputs p) =
     fold (\<lambda>x acc. CombineRequestedBehavior acc x)
       (map requested_behavior (connected inputs) @ (if pause_active p then [RB_PAUSE] else [])) RB_UNKNOWN"
  by (simp_all add: SafetyHandler_Update_def pause_active_def merge_fields empty_safety_status_def Let_def
      split: option.splits)

section \<open>Patterns\<close>

lemma bit_input_fold:
  "n \<le> length signals \<Longrightarrow> n \<le> 32 \<Longrightarrow>
   bit (fold (\<lambda>i w. case signals ! i of None \<Rightarrow> w | Some b \<Rightarrow> if b then set_bit i w else unset_bit i w) [0..<n] (0 :: 32 word)) k
     \<longleftrightarrow> k < n \<and> signals ! k = Some True"
proof (induction n)
  case (Suc n)
  then show ?case
    by (cases "signals ! n") (auto simp: bit_simps less_Suc_eq)
qed simp

lemma bit_input_value:
  "bit (input_value signals) k \<longleftrightarrow> k < min (length signals) 32 \<and> signals ! k = Some True"
  unfolding input_value_def by (rule bit_input_fold) simp_all

section \<open>Properties\<close>

text \<open>The merged safety status never understates a device: in every field it is at least as severe
  as the status of each connected device, and of the pause signal when it is active; it is one of these values
  (or unknown), and does not depend on the order of the devices.\<close>

theorem merged_status_is_most_severe:
  assumes "Some m \<in> set inputs"
  shows "behavior_rank (requested_behavior m) \<le> behavior_rank (requested_behavior (SafetyHandler_Update inputs p)) \<and>
    mode_rank (mode_of_safe_operation m) \<le> mode_rank (mode_of_safe_operation (SafetyHandler_Update inputs p)) \<and>
    estop_rank (estop_button_status m) \<le> estop_rank (estop_button_status (SafetyHandler_Update inputs p)) \<and>
    enable_rank (enable_button_status m) \<le> enable_rank (enable_button_status (SafetyHandler_Update inputs p)) \<and>
    (pause_active p \<longrightarrow> behavior_rank RB_PAUSE \<le> behavior_rank (requested_behavior (SafetyHandler_Update inputs p))) \<and>
    requested_behavior (SafetyHandler_Update inputs p) \<in>
      {RB_UNKNOWN} \<union> requested_behavior ` {m. Some m \<in> set inputs} \<union> (if pause_active p then {RB_PAUSE} else {}) \<and>
    (set inputs' = set inputs \<longrightarrow> SafetyHandler_Update inputs' p = SafetyHandler_Update inputs p)"
proof (intro conjI impI)
  have m: "m \<in> set (connected inputs)" using assms by (simp add: set_connected)
  show "behavior_rank (requested_behavior m) \<le> behavior_rank (requested_behavior (SafetyHandler_Update inputs p))"
    unfolding Update_fields by (rule behavior.fold_upper) (use m in auto)
  show "mode_rank (mode_of_safe_operation m) \<le> mode_rank (mode_of_safe_operation (SafetyHandler_Update inputs p))"
    unfolding Update_fields by (rule mode.fold_upper) (use m in auto)
  show "estop_rank (estop_button_status m) \<le> estop_rank (estop_button_status (SafetyHandler_Update inputs p))"
    unfolding Update_fields by (rule estop.fold_upper) (use m in auto)
  show "enable_rank (enable_button_status m) \<le> enable_rank (enable_button_status (SafetyHandler_Update inputs p))"
    unfolding Update_fields by (rule enable.fold_upper) (use m in auto)
  show "behavior_rank RB_PAUSE \<le> behavior_rank (requested_behavior (SafetyHandler_Update inputs p))" if "pause_active p"
    unfolding Update_fields by (rule behavior.fold_upper) (simp add: that)
  show "requested_behavior (SafetyHandler_Update inputs p) \<in>
      {RB_UNKNOWN} \<union> requested_behavior ` {m. Some m \<in> set inputs} \<union> (if pause_active p then {RB_PAUSE} else {})"
    unfolding Update_fields
    using behavior.fold_attained[of "map requested_behavior (connected inputs) @ (if pause_active p then [RB_PAUSE] else [])"]
    by (auto simp: set_connected split: if_splits)
  show "SafetyHandler_Update inputs' p = SafetyHandler_Update inputs p" if "set inputs' = set inputs"
  proof (rule safety_status.equality)
    have c: "set (connected inputs') = set (connected inputs)" by (simp add: set_connected that)
    show "mode_of_safe_operation (SafetyHandler_Update inputs' p) = mode_of_safe_operation (SafetyHandler_Update inputs p)"
      unfolding Update_fields by (rule mode.fold_set) (simp add: c)
    show "estop_button_status (SafetyHandler_Update inputs' p) = estop_button_status (SafetyHandler_Update inputs p)"
      unfolding Update_fields by (rule estop.fold_set) (simp add: c)
    show "enable_button_status (SafetyHandler_Update inputs' p) = enable_button_status (SafetyHandler_Update inputs p)"
      unfolding Update_fields by (rule enable.fold_set) (simp add: c)
    show "requested_behavior (SafetyHandler_Update inputs' p) = requested_behavior (SafetyHandler_Update inputs p)"
      unfolding Update_fields by (rule behavior.fold_set) (simp add: c)
  qed simp
qed

definition two_devices :: "safety_status option list" where
  "two_devices = [Some (empty_safety_status\<lparr>requested_behavior := RB_SAFE_STOP_1_TIME_MONITORED\<rparr>), None,
     Some (empty_safety_status\<lparr>requested_behavior := RB_PAUSE, enable_button_status := BS_DISENGAGED\<rparr>)]"

theorem merged_status_is_most_severe_witness:
  "behavior_rank RB_SAFE_STOP_1_TIME_MONITORED \<le> behavior_rank (requested_behavior (SafetyHandler_Update two_devices None))"
proof -
  have "Some (empty_safety_status\<lparr>requested_behavior := RB_SAFE_STOP_1_TIME_MONITORED\<rparr>) \<in> set two_devices"
    by (simp add: two_devices_def)
  from conjunct1[OF merged_status_is_most_severe[OF this, of None]] show ?thesis by simp
qed

text \<open>The pause signal compares the masked bits; a pattern that expects a bit outside its mask passes the
  validation, but no input can match it.\<close>

theorem pattern_matches_masked_bits:
  "SignalIsActive [p] (Some signals) \<longleftrightarrow>
     (\<forall>k. bit (expected_value p) k \<longleftrightarrow> k < min (length signals) 32 \<and> signals ! k = Some True \<and> bit (signal_mask p) k)"
proof -
  have "(expected_value p = (input_value signals AND signal_mask p)) \<longleftrightarrow>
      (\<forall>k. bit (expected_value p) k \<longleftrightarrow> bit (input_value signals AND signal_mask p) k)"
    by (metis bit_eqI)
  then show ?thesis by (simp add: SignalIsActive_def bit_and_iff bit_input_value conj_assoc)
qed

theorem unmatchable_pattern_is_accepted:
  "ValidateValuePattern 1 2 8 = OkStatus \<and> \<not> SignalIsActive [\<lparr>expected_value = 2, signal_mask = 1\<rparr>] input"
proof -
  have "bit (2 :: 32 word) 1" "\<not> bit (1 :: 32 word) 1" by simp_all
  then have "2 \<noteq> (w AND 1 :: 32 word)" for w by (metis bit_and_iff)
  then show ?thesis
    by (simp add: ValidateValuePattern_def SignalIsActive_def split: option.split)
qed

end
