(* ===== verification/Control_Manager.thy ===== *)
theory Control_Manager
  imports Session_Cycle Hardware_Module_Manager Async_Buffer Safety_Message_Handler
begin

text \<open>
  \<^verbatim>\<open>intrinsic/icon/control/realtime_control_manager.{h,cc}\<close>: the composition of the part manager, the
  session managers, the hardware module manager and the safety message handler into one real-time cycle.
\<close>

section \<open>State\<close>

datatype op_command = Cmd_kNone | Cmd_kEnable | Cmd_kDisable | Cmd_kDisableSkipCellControlHardware | Cmd_kClearFaults

datatype function_state = FS_kNone | FS_kRunning | FS_kDone | FS_kError

text \<open>A handle of a call from the non-real-time side (\<^verbatim>\<open>RealtimeFunctionHandle\<close>). Whether
  its mutex is free at the n-th attempt to lock it is up to the caller's thread.\<close>

record 'a rt_handle =
  call_args :: 'a
  call_lock :: "nat \<Rightarrow> bool"
  call_attempts :: nat

record command_handle =
  ch_handle :: "op_command rt_handle"
  ch_command_id :: "64 word option"
  from_client :: bool

text \<open>\<open>st_parts\<close> is the set of parts in iteration order.\<close>

record 'ps start_args =
  st_session_id :: int
  st_parts :: "nat list"
  st_channels :: "'ps robot_status session_channels"
  st_context :: log_context

record cell_status =
  operational :: rt_operational_status
  cell_control :: rt_operational_status

text \<open>What the safety message handler reads: the devices, and the pause signal with its input.\<close>

record 'w safety_env =
  safety_inputs :: "'w \<Rightarrow> safety_status option list"
  pause_signal :: "'w \<Rightarrow> (value_pattern list \<times> bool option list option) option"

text \<open>The objects keep their own records. Parts, actions and hardware share one world, the one of
  \<open>part_manager\<close>; the copies in the other records are overwritten when they are used. A session manager
  works on the part manager's record extended by its own fields.\<close>

record ('w, 'ps) control_sys =
  part_manager :: "('w, 'ps) rt_sys"
  session_managers :: "('w, 'ps) session_sys list"
  state_manager :: "'w hwm_sys"
  safety_handle :: safety_status
  start_calls :: "'ps start_args rt_handle list"
  current_start :: "'ps start_args rt_handle option"
  start_results :: "(int \<times> rt_status) list"
  command_calls :: "op_command rt_handle list"
  current_command :: "command_handle option"
  command_results :: "(op_command \<times> rt_status) list"
  command_bridge_closed :: bool
  command_ever_set :: bool
  status_buffer :: "cell_status async_buffer"
  speed_override_buffer :: double
  latest_mode :: mode_of_safe_operation
  latest_enable_button :: button_status

definition kMaxNumberOfMonitoringSessions :: nat where "kMaxNumberOfMonitoringSessions = 10"

section \<open>Calls of the objects\<close>

definition on_pm :: "(('w, 'ps) rt_sys, 'a) rt \<Rightarrow> (('w, 'ps) control_sys, 'a) rt" where
  "on_pm m c = (case m (part_manager c) of (r, s) \<Rightarrow> (r, c\<lparr>part_manager := s\<rparr>))"

definition on_rsm :: "('w hwm_sys, 'a) rt \<Rightarrow> (('w, 'ps) control_sys, 'a) rt" where
  "on_rsm m c = (case m ((state_manager c)\<lparr>hw := world (part_manager c)\<rparr>) of
     (r, s) \<Rightarrow> (r, c\<lparr>state_manager := s, part_manager := (part_manager c)\<lparr>world := hw s\<rparr>\<rparr>))"

text \<open>The session manager's pointers: to the part manager, and to the safety status.\<close>

definition load_session :: "('w, 'ps) control_sys \<Rightarrow> nat \<Rightarrow> ('w, 'ps) session_sys" where
  "load_session c i =
     (let s = rt_sys.extend (part_manager c) (rt_sys.more (session_managers c ! i))
      in s\<lparr>safety_status_message := map_option (\<lambda>_. safety_handle c) (safety_status_message s)\<rparr>)"

definition on_session :: "nat \<Rightarrow> (('w, 'ps) session_sys, 'a) rt \<Rightarrow> (('w, 'ps) control_sys, 'a) rt" where
  "on_session i m c = (case m (load_session c i) of
     (r, s) \<Rightarrow> (r, c\<lparr>part_manager := rt_sys.truncate s, session_managers := (session_managers c)[i := s]\<rparr>))"

definition IsActive :: "('w, 'ps) session_sys \<Rightarrow> bool" where
  "IsActive s = has_channels s"

definition TryLockAndExecute ::
  "'a rt_handle \<Rightarrow> ('s, 'r) rt \<Rightarrow> ('s, 'a rt_handle \<times> 'r option) rt" where
  "TryLockAndExecute h body =
     (let h' = h\<lparr>call_attempts := Suc (call_attempts h)\<rparr> in
      if call_lock h (call_attempts h) then rt_bind body (\<lambda>r. rt_return (h', Some r))
      else rt_return (h', None))"

definition function_finished :: "function_state \<Rightarrow> bool" where
  "function_finished st \<longleftrightarrow> st = FS_kDone \<or> st = FS_kError"

text \<open>\<^verbatim>\<open>RequestTransition(...).status()\<close>, returned when it is not ok.\<close>

definition request_transition :: "transition_request \<Rightarrow> (('w, 'ps) control_sys, unit) rt" where
  "request_transition request =
     rt_bind (rt_try (on_rsm (RequestTransition request))) (\<lambda>r. rt_check (status_of r))"

definition SetSessionManagerErrorCleanupNotification :: "rt_status \<Rightarrow> (('w, 'ps) control_sys, unit) rt" where
  "SetSessionManagerErrorCleanupNotification status =
     rt_bind (rt_gets (\<lambda>c. length (session_managers c))) (\<lambda>n.
       rt_for [0..<n] (\<lambda>i. on_session i (SetErrorCleanupNotify status)))"

section \<open>Safety\<close>

definition UpdateSafety :: "'w safety_env \<Rightarrow> (('w, 'ps) control_sys, unit) rt" where
  "UpdateSafety S = rt_modify (\<lambda>c. c\<lparr>safety_handle :=
     SafetyHandler_Update (safety_inputs S (world (part_manager c))) (pause_signal S (world (part_manager c)))\<rparr>)"

definition HandleSafetyStatus :: "(('w, 'ps) control_sys, unit) rt" where
  "HandleSafetyStatus =
     rt_bind (rt_gets safety_handle) (\<lambda>safety_status.
     rt_bind (on_pm (SetSafetyStatus safety_status)) (\<lambda>_.
     rt_bind (rt_gets latest_mode) (\<lambda>latest.
       if mode_of_safe_operation safety_status = latest then rt_return ()
       else
         rt_bind (rt_modify (\<lambda>c. c\<lparr>latest_mode := mode_of_safe_operation safety_status\<rparr>)) (\<lambda>_.
           SetSessionManagerErrorCleanupNotification (Error Aborted)))))"

definition IsExpectedToAutomaticallyEnable :: "('w, 'ps) control_sys \<Rightarrow> bool" where
  "IsExpectedToAutomaticallyEnable c =
     (if current_command c \<noteq> None then False
      else
        (case mode_of_safe_operation (safety_handle c) of
           MSO_CONFIGURATION \<Rightarrow> False
         | MSO_UPDATING \<Rightarrow> False
         | MSO_TEACH_PENDANT_1 \<Rightarrow>
             enable_button_status (safety_handle c) = BS_ENGAGED \<and> latest_enable_button c = BS_DISENGAGED
         | MSO_TEACH_PENDANT_2 \<Rightarrow>
             enable_button_status (safety_handle c) = BS_ENGAGED \<and> latest_enable_button c = BS_DISENGAGED
         | _ \<Rightarrow>
             GetRequestState (state_manager c) = RS_kDone \<and>
             CheckAllInOneOfStates (state_manager c) [HwmActivated] kAllHardware \<and> \<not> command_ever_set c))"

definition IsExpectedToAutomaticallyDisable :: "('w, 'ps) control_sys \<Rightarrow> bool" where
  "IsExpectedToAutomaticallyDisable c =
     (if current_command c \<noteq> None then False
      else if GetRequestState (state_manager c) \<noteq> RS_kDone then False
      else if \<not> (mode_of_safe_operation (safety_handle c) = MSO_TEACH_PENDANT_1 \<or>
                 mode_of_safe_operation (safety_handle c) = MSO_TEACH_PENDANT_2) then False
      else enable_button_status (safety_handle c) = BS_DISENGAGED \<and> latest_enable_button c = BS_ENGAGED)"

section \<open>Operational state commands\<close>

fun request_of :: "op_command \<Rightarrow> transition_request option" where
  "request_of Cmd_kNone = None"
| "request_of Cmd_kEnable = Some TR_kEnableMotion"
| "request_of Cmd_kDisable = Some TR_kDisableMotion"
| "request_of Cmd_kDisableSkipCellControlHardware = Some TR_kDisableMotionSkipCellControlHardware"
| "request_of Cmd_kClearFaults = Some TR_kClearFaults"

fun expected_state :: "op_command \<Rightarrow> rt_operational_state option" where
  "expected_state Cmd_kEnable = Some Rt_kEnabled"
| "expected_state Cmd_kDisable = Some Rt_kDisabled"
| "expected_state Cmd_kDisableSkipCellControlHardware = Some Rt_kDisabled"
| "expected_state Cmd_kClearFaults = Some Rt_kDisabled"
| "expected_state Cmd_kNone = None"

text \<open>The new state of the call, and its return value if it is set.\<close>

definition CheckCommandState ::
  "'w hwm_sys \<Rightarrow> request_state \<Rightarrow> op_command \<Rightarrow> function_state \<times> rt_status option" where
  "CheckCommandState s st cmd =
     (case st of
        RS_kActive \<Rightarrow> (FS_kRunning, None)
      | RS_kPartiallyDone \<Rightarrow> (FS_kRunning, None)
      | RS_kDone \<Rightarrow>
          (case expected_state cmd of
             None \<Rightarrow> (FS_kDone, Some (Error Internal))
           | Some expected \<Rightarrow>
               if GetCombinedOperationalState s = expected then (FS_kDone, Some OkStatus)
               else (FS_kDone, Some (Error Unknown)))
      | RS_kUnknown \<Rightarrow> (FS_kDone, Some (Error Internal)))"

text \<open>The first callback of \<^verbatim>\<open>HandleOperationalStatus\<close>; it returns the command id as well.\<close>

definition begin_command ::
  "op_command \<Rightarrow> (('w, 'ps) control_sys, (function_state \<times> rt_status option) \<times> 64 word option) rt" where
  "begin_command cmd =
     (case request_of cmd of
        None \<Rightarrow> rt_return ((FS_kDone, Some (Error InvalidArgument)), None)
      | Some request \<Rightarrow>
          rt_bind (rt_try (on_rsm (RequestTransition request))) (\<lambda>r.
            rt_return (case r of
              Inl e \<Rightarrow> ((FS_kDone, Some e), None)
            | Inr None \<Rightarrow> ((FS_kDone, Some OkStatus), None)
            | Inr (Some command_id) \<Rightarrow> ((FS_kRunning, None), Some command_id))))"

text \<open>The second callback.\<close>

definition poll_command ::
  "op_command \<Rightarrow> 64 word option \<Rightarrow> 'w hwm_sys \<Rightarrow> function_state \<times> rt_status option" where
  "poll_command cmd command_id s =
     (case command_id of
        None \<Rightarrow> (FS_kDone, Some (Error Internal))
      | Some n \<Rightarrow>
          (case GetRequestStateOf n s of
             Inr st \<Rightarrow> CheckCommandState s st cmd
           | Inl e \<Rightarrow>
               if e = Error FailedPrecondition then
                 if GetRequestState s \<noteq> RS_kDone then (FS_kRunning, None) else (FS_kDone, Some (Error Aborted))
               else (FS_kDone, Some e)))"

text \<open>The caller gets the return value of a finished call; a value that was never set is the default one.\<close>

definition answer_command :: "command_handle \<Rightarrow> function_state \<times> rt_status option \<Rightarrow> (('w, 'ps) control_sys, unit) rt" where
  "answer_command h r =
     rt_modify (\<lambda>c. if from_client h \<and> function_finished (fst r)
       then c\<lparr>command_results := command_results c @ [(call_args (ch_handle h),
               case snd r of None \<Rightarrow> OkStatus | Some st \<Rightarrow> st)]\<rparr> else c)"

definition auto_command :: "op_command \<Rightarrow> command_handle" where
  "auto_command cmd = \<lparr>ch_handle = \<lparr>call_args = cmd, call_lock = \<lambda>_. True, call_attempts = 0\<rparr>,
     ch_command_id = None, from_client = False\<rparr>"

text \<open>The first part of \<^verbatim>\<open>HandleOperationalStatus\<close>: which command is current.\<close>

definition take_command :: "(('w, 'ps) control_sys, unit) rt" where
  "take_command =
     rt_bind (rt_gets IsExpectedToAutomaticallyEnable) (\<lambda>enable.
     rt_bind (rt_when enable (rt_modify (\<lambda>c. c\<lparr>current_command := Some (auto_command Cmd_kEnable),
        command_ever_set := True\<rparr>))) (\<lambda>_.
     rt_bind (rt_gets IsExpectedToAutomaticallyDisable) (\<lambda>disable.
     rt_bind (rt_when disable (rt_modify (\<lambda>c. c\<lparr>current_command := Some (auto_command Cmd_kDisable),
        command_ever_set := True\<rparr>))) (\<lambda>_.
       rt_modify (\<lambda>c. case (current_command c, command_calls c) of
           (None, h # hs) \<Rightarrow> c\<lparr>current_command :=
              Some \<lparr>ch_handle = h, ch_command_id = None, from_client = True\<rparr>,
              command_calls := hs, command_ever_set := True\<rparr>
         | _ \<Rightarrow> c)))))"

definition start_command :: "command_handle \<Rightarrow> (('w, 'ps) control_sys, bool) rt" where
  "start_command h =
     rt_bind (TryLockAndExecute (ch_handle h) (begin_command (call_args (ch_handle h)))) (\<lambda>(h', r).
     case r of
       None \<Rightarrow> rt_bind (rt_modify (\<lambda>c. c\<lparr>current_command := Some (h\<lparr>ch_handle := h'\<rparr>)\<rparr>)) (\<lambda>_. rt_return False)
     | Some (res, command_id) \<Rightarrow>
         rt_bind (answer_command h res) (\<lambda>_.
         rt_bind (rt_modify (\<lambda>c. c\<lparr>current_command :=
            (if command_id = None then None else Some (h\<lparr>ch_handle := h', ch_command_id := command_id\<rparr>))\<rparr>)) (\<lambda>_.
           rt_return (command_id \<noteq> None))))"

definition continue_command :: "command_handle \<Rightarrow> (('w, 'ps) control_sys, unit) rt" where
  "continue_command h =
     rt_bind (TryLockAndExecute (ch_handle h)
       (rt_gets (\<lambda>c. poll_command (call_args (ch_handle h)) (ch_command_id h) (state_manager c)))) (\<lambda>(h', r).
     case r of
       None \<Rightarrow> rt_modify (\<lambda>c. c\<lparr>current_command := Some (h\<lparr>ch_handle := h'\<rparr>)\<rparr>)
     | Some res \<Rightarrow>
         rt_bind (answer_command h res) (\<lambda>_.
           rt_modify (\<lambda>c. c\<lparr>current_command :=
             (if function_finished (fst res) then None else Some (h\<lparr>ch_handle := h'\<rparr>))\<rparr>)))"

definition run_command :: "(('w, 'ps) control_sys, unit) rt" where
  "run_command =
     rt_bind take_command (\<lambda>_.
     rt_bind (rt_gets current_command) (\<lambda>current.
     case current of
       None \<Rightarrow> rt_return ()
     | Some h \<Rightarrow>
         rt_bind (if ch_command_id h = None then start_command h else rt_return True) (\<lambda>go_on.
         if \<not> go_on then rt_return ()
         else
           rt_bind (rt_gets current_command) (\<lambda>current.
             case current of None \<Rightarrow> rt_return () | Some h \<Rightarrow> continue_command h))))"

section \<open>The operational status\<close>

definition is_rt_faulted :: "rt_operational_state \<Rightarrow> bool" where
  "is_rt_faulted st \<longleftrightarrow> st = Rt_kFatallyFaulted \<or> st = Rt_kFaultedConnected"

definition no_fault_reason :: string where
  "no_fault_reason = ''Server is faulted, but no fault reason is currently available.''"

definition no_parts_fault_reason :: string where
  "no_parts_fault_reason = ''Parts are faulted, but no fault reason is currently available.''"

text \<open>What \<^verbatim>\<open>UpdateOperationalStatus\<close> writes into the free buffer, whose old content \<open>b\<close> stays
  where nothing is written. While a command is active the status depends on the command (the early returns of the
  switch, here \<open>Some\<close>).\<close>

definition command_status :: "'w hwm_sys \<Rightarrow> op_command \<Rightarrow> cell_status \<Rightarrow> cell_status option" where
  "command_status s cmd b =
     (case cmd of
        Cmd_kClearFaults \<Rightarrow>
          (let st = GetCombinedOperationalState s;
               reason = (case combined_fault_reason s of None \<Rightarrow> no_fault_reason | Some r \<Rightarrow> r) in
           Some \<lparr>operational = \<lparr>ros_state = (if st \<noteq> Rt_kFatallyFaulted then Rt_kFaultedConnected else st),
                   ros_fault_reason = reason\<rparr>,
                 cell_control = \<lparr>ros_state = GetCellControlState s, ros_fault_reason = reason\<rparr>\<rparr>)
      | Cmd_kEnable \<Rightarrow> Some \<lparr>operational = (operational b)\<lparr>ros_state := Rt_kDisabled\<rparr>,
           cell_control = (cell_control b)\<lparr>ros_state := Rt_kDisabled\<rparr>\<rparr>
      | Cmd_kDisable \<Rightarrow> Some \<lparr>operational = (operational b)\<lparr>ros_state := Rt_kDisabled\<rparr>,
           cell_control = (cell_control b)\<lparr>ros_state := Rt_kDisabled\<rparr>\<rparr>
      | Cmd_kDisableSkipCellControlHardware \<Rightarrow> Some \<lparr>operational = (operational b)\<lparr>ros_state := Rt_kDisabled\<rparr>,
           cell_control = (cell_control b)\<lparr>ros_state := GetCellControlState s\<rparr>\<rparr>
      | Cmd_kNone \<Rightarrow> None)"

definition set_fault_reason :: "string \<Rightarrow> rt_operational_status \<Rightarrow> rt_operational_status" where
  "set_fault_reason reason r = (if is_rt_faulted (ros_state r) then r\<lparr>ros_fault_reason := reason\<rparr> else r)"

definition combined_status :: "'w hwm_sys \<Rightarrow> cell_status \<Rightarrow> cell_status" where
  "combined_status s b =
     (let reason = (case combined_fault_reason s of None \<Rightarrow> no_parts_fault_reason | Some r \<Rightarrow> r) in
      \<lparr>operational = set_fault_reason reason ((operational b)\<lparr>ros_state := GetCombinedOperationalState s\<rparr>),
       cell_control = set_fault_reason reason ((cell_control b)\<lparr>ros_state := GetCellControlState s\<rparr>)\<rparr>)"

text \<open>The loop over the parts of one session: whether the session has to be cancelled.
  \<^verbatim>\<open>GetHardwareDependencies(...).value()\<close> checks that there is a value.\<close>

fun lacks_hardware ::
  "('w, 'ps) plugins \<Rightarrow> bool \<Rightarrow> bool \<Rightarrow> nat list \<Rightarrow> (('w, 'ps) control_sys, bool) rt" where
  "lacks_hardware E operational_available cell_control_available [] = rt_return False"
| "lacks_hardware E operational_available cell_control_available (i # is) =
     rt_bind (rt_try (on_pm (GetHardwareDependencies E i))) (\<lambda>r.
     case r of
       Inl e \<Rightarrow> rt_fail LogFatal
     | Inr deps \<Rightarrow>
         if operational_hardware deps \<and> \<not> operational_available then rt_return True
         else if cell_control_hardware deps \<and> \<not> cell_control_available then rt_return True
         else lacks_hardware E operational_available cell_control_available is)"

definition cancel_session :: "('w, 'ps) plugins \<Rightarrow> cell_status \<Rightarrow> nat \<Rightarrow> (('w, 'ps) control_sys, unit) rt" where
  "cancel_session E st i =
     rt_bind (rt_gets (\<lambda>c. session_managers c ! i)) (\<lambda>s.
     if \<not> IsActive s then rt_return ()
     else if ros_state (operational st) = Rt_kFatallyFaulted then on_session i (SetErrorCleanupNotify (Error Aborted))
     else
       rt_bind (lacks_hardware E (ros_state (operational st) = Rt_kEnabled) (ros_state (cell_control st) = Rt_kEnabled)
                  (part_indices s)) (\<lambda>b.
         rt_when b (on_session i (SetErrorCleanupNotify (Error Aborted)))))"

text \<open>\<^verbatim>\<open>ignore_active_command\<close> is never set.\<close>

definition UpdateOperationalStatus :: "('w, 'ps) plugins \<Rightarrow> (('w, 'ps) control_sys, unit) rt" where
  "UpdateOperationalStatus E =
     rt_finally
       (rt_bind (rt_gets (\<lambda>c. fst (AB_GetFreeBuffer (status_buffer c)))) (\<lambda>slot.
        rt_bind (rt_modify (\<lambda>c. c\<lparr>status_buffer := snd (AB_GetFreeBuffer (status_buffer c))\<rparr>)) (\<lambda>_.
        rt_bind (rt_gets (\<lambda>c. ab_buffers (status_buffer c) ! slot)) (\<lambda>b.
        rt_bind (rt_gets state_manager) (\<lambda>s.
        rt_bind (rt_gets (\<lambda>c. case current_command c of None \<Rightarrow> None
             | Some h \<Rightarrow> command_status s (call_args (ch_handle h)) b)) (\<lambda>early.
        let st = (case early of None \<Rightarrow> combined_status s b | Some st \<Rightarrow> st) in
        rt_bind (rt_modify (\<lambda>c. c\<lparr>status_buffer := (status_buffer c)\<lparr>ab_buffers :=
             (ab_buffers (status_buffer c))[slot := st]\<rparr>\<rparr>)) (\<lambda>_.
        if early \<noteq> None then rt_return ()
        else
          rt_bind (rt_gets (\<lambda>c. length (session_managers c))) (\<lambda>n.
            rt_for [0..<n] (cancel_session E st)))))))))
       (\<lambda>c. c\<lparr>status_buffer := snd (AB_CommitFreeBuffer (status_buffer c))\<rparr>)"

definition HandleOperationalStatus :: "('w, 'ps) plugins \<Rightarrow> (('w, 'ps) control_sys, unit) rt" where
  "HandleOperationalStatus E = rt_bind run_command (\<lambda>_. UpdateOperationalStatus E)"

section \<open>Starting sessions\<close>

text \<open>The result of looking for a slot: the call is not finished yet, it failed, or the slot.\<close>

datatype start_slot = StartLater | StartFailed rt_status | StartAt nat

fun control_slot ::
  "('w, 'ps) plugins \<Rightarrow> nat list \<Rightarrow> nat \<Rightarrow> (('w, 'ps) control_sys, start_slot) rt" where
  "control_slot E [] min_index =
     rt_gets (\<lambda>c. if IsActive (session_managers c ! min_index) then StartFailed (Error AlreadyExists)
                  else StartAt min_index)"
| "control_slot E (i # is) min_index =
     rt_bind (rt_try (on_pm (CheckUnfinishedSafetyAction E i))) (\<lambda>r.
     if status_of r \<noteq> OkStatus then rt_return StartLater
     else
       rt_bind (rt_gets (\<lambda>c. length (session_managers c))) (\<lambda>n.
       if n \<le> i then rt_return (StartFailed (Error InvalidArgument))
       else control_slot E is (if i < min_index then i else min_index)))"

definition monitoring_slot :: "('w, 'ps) control_sys \<Rightarrow> start_slot" where
  "monitoring_slot c =
     (if length (session_managers c) < kMaxNumberOfMonitoringSessions then StartFailed (Error Internal)
      else
        (case find (\<lambda>i. \<not> IsActive (session_managers c ! i))
            [length (session_managers c) - kMaxNumberOfMonitoringSessions..<length (session_managers c)] of
           None \<Rightarrow> StartFailed (Error ResourceExhausted) | Some i \<Rightarrow> StartAt i))"

text \<open>A default-constructed session manager; what its null pointers would point to is left as it was.\<close>

definition default_session :: "('w, 'ps) session_sys \<Rightarrow> ('w, 'ps) session_sys" where
  "default_session s = s\<lparr>has_channels := False, current_session := None, active_action_indices := [],
     sm_session_id := 0, session_status := OkStatus, safety_status_message := None, part_indices := []\<rparr>"

definition create_session :: "'ps start_args \<Rightarrow> nat \<Rightarrow> (('w, 'ps) control_sys, rt_status) rt" where
  "create_session a i =
     rt_bind (on_session i (rt_bind CleanupAndNotify (\<lambda>_. rt_modify default_session))) (\<lambda>_.
     rt_bind (rt_gets safety_handle) (\<lambda>safety.
     rt_bind (rt_try (on_session i (rt_bind (rt_modify (\<lambda>s. s\<lparr>channels := st_channels a\<rparr>)) (\<lambda>_.
        Create (st_session_id a) (st_parts a) (st_context a) (Some safety))))) (\<lambda>r.
     case r of
       Inl e \<Rightarrow> rt_bind (on_session i (rt_modify default_session)) (\<lambda>_. rt_return e)
     | Inr _ \<Rightarrow> rt_return OkStatus)))"

definition start_session ::
  "('w, 'ps) plugins \<Rightarrow> 'ps start_args \<Rightarrow> (('w, 'ps) control_sys, function_state \<times> rt_status) rt" where
  "start_session E a =
     rt_bind (case st_parts a of
                [] \<Rightarrow> rt_gets monitoring_slot
              | i # is \<Rightarrow> control_slot E (i # is) i) (\<lambda>slot.
     case slot of
       StartLater \<Rightarrow> rt_return (FS_kRunning, Error Unknown)
     | StartFailed e \<Rightarrow> rt_return (FS_kDone, e)
     | StartAt i \<Rightarrow> rt_bind (create_session a i) (\<lambda>st. rt_return (FS_kDone, st)))"

definition HandleStartSession :: "('w, 'ps) plugins \<Rightarrow> (('w, 'ps) control_sys, unit) rt" where
  "HandleStartSession E =
     rt_bind (rt_modify (\<lambda>c. case (current_start c, start_calls c) of
         (None, h # hs) \<Rightarrow> c\<lparr>current_start := Some h, start_calls := hs\<rparr> | _ \<Rightarrow> c)) (\<lambda>_.
     rt_bind (rt_gets current_start) (\<lambda>current.
     case current of
       None \<Rightarrow> rt_return ()
     | Some h \<Rightarrow>
         rt_bind (TryLockAndExecute h (start_session E (call_args h))) (\<lambda>(h', r).
           rt_modify (\<lambda>c. case r of
               None \<Rightarrow> c\<lparr>current_start := Some h'\<rparr>
             | Some (st, result) \<Rightarrow>
                 if function_finished st
                 then c\<lparr>current_start := None,
                        start_results := start_results c @ [(st_session_id (call_args h), result)]\<rparr>
                 else c\<lparr>current_start := Some h'\<rparr>))))"

definition used_sessions :: "nat \<Rightarrow> nat \<Rightarrow> ('w, 'ps) session_sys list \<Rightarrow> nat" where
  "used_sessions a b ss = length (filter (\<lambda>i. IsActive (ss ! i)) [a..<b])"

definition CalculateUsedControlSessions :: "('w, 'ps) control_sys \<Rightarrow> nat" where
  "CalculateUsedControlSessions c =
     used_sessions 0 (length (session_managers c) - kMaxNumberOfMonitoringSessions) (session_managers c)"

definition CalculateUsedMonitoringSessions :: "('w, 'ps) control_sys \<Rightarrow> nat" where
  "CalculateUsedMonitoringSessions c =
     used_sessions (length (session_managers c) - kMaxNumberOfMonitoringSessions) (length (session_managers c))
       (session_managers c)"

section \<open>The cycle\<close>

definition preempt_faults :: "(('w, 'ps) control_sys, unit) rt" where
  "preempt_faults =
     rt_bind (rt_gets state_manager) (\<lambda>s.
     let cell_control_faulted =
           CheckAnyInOneOfStates s [HwmInitFailed, HwmFaulted, HwmFatallyFaulted] kCellControlHardware;
         any_fatal_fault = CheckAnyInOneOfStates s [HwmInitFailed, HwmFatallyFaulted] kAllHardware in
     if (cell_control_faulted \<or> any_fatal_fault) \<and> CheckAnyInOneOfStates s [HwmMotionEnabled] kAllHardware
     then request_transition TR_kDisableMotion
     else if CheckAnyInOneOfStates s [HwmInitFailed, HwmFaulted, HwmFatallyFaulted] kOperationalHardware \<and>
             CheckAnyInOneOfStates s [HwmMotionEnabled] kOperationalHardware
     then request_transition TR_kDisableMotionSkipCellControlHardware
     else rt_return ())"

definition fatal_fault_settled :: "'w hwm_sys \<Rightarrow> bool" where
  "fatal_fault_settled s \<longleftrightarrow>
     CheckAnyInOneOfStates s [HwmInitFailed, HwmFatallyFaulted] kAllHardware \<and>
     \<not> CheckAnyInOneOfStates s [HwmMotionEnabled, HwmMotionDisabling, HwmMotionEnabling] kAllHardware"

text \<open>\<open>t\<close>, \<open>wall\<close> and \<open>n\<close> are the cycle time, the wall clock time and the number of the cycle.\<close>

definition PreUpdateSessions ::
  "('w, 'ps) plugins \<Rightarrow> 'w hwm_env \<Rightarrow> int \<Rightarrow> int \<Rightarrow> nat \<Rightarrow> (('w, 'ps) control_sys, 'ps robot_status) rt" where
  "PreUpdateSessions E H t wall n =
     rt_bind HandleSafetyStatus (\<lambda>_.
     rt_bind (on_rsm (UpdateState H)) (\<lambda>_.
     rt_bind (on_pm (BeginCycle E t wall n)) (\<lambda>robot_status.
     rt_bind (rt_gets (\<lambda>c. GetRequestState (state_manager c))) (\<lambda>request_state.
     rt_bind (rt_gets (\<lambda>c. fatal_fault_settled (state_manager c))) (\<lambda>fatal.
     if fatal then rt_fail (Error FailedPrecondition)
     else
       rt_bind (rt_when (request_state = RS_kPartiallyDone \<or> request_state = RS_kDone) preempt_faults) (\<lambda>_.
       rt_bind (HandleOperationalStatus E) (\<lambda>_.
       rt_bind (HandleStartSession E) (\<lambda>_.
         rt_return robot_status))))))))"

definition UpdateSessions ::
  "('w, 'ps) plugins \<Rightarrow> 'ps robot_status \<Rightarrow> (('w, 'ps) control_sys, unit) rt" where
  "UpdateSessions E rs =
     rt_bind (rt_gets speed_override_buffer) (\<lambda>speed_override.
     rt_bind (rt_gets (\<lambda>c. length (session_managers c))) (\<lambda>n.
       rt_for [0..<n] (\<lambda>i. on_session i (ExecuteCycle E speed_override rs))))"

text \<open>\<^verbatim>\<open>part_manager_->FinishCycle(realtime_state_manager_)\<close> pauses the transitions of the state
  manager through the flag that the part manager computes.\<close>

definition finish_parts :: "('w, 'ps) plugins \<Rightarrow> (('w, 'ps) control_sys, unit) rt" where
  "finish_parts E = rt_finally (on_pm (FinishCycle E))
     (\<lambda>c. c\<lparr>state_manager := snd (PauseTransitions (pause_transitions (part_manager c)) (state_manager c))\<rparr>)"

definition end_all_sessions :: "rt_status \<Rightarrow> (('w, 'ps) control_sys, unit) rt" where
  "end_all_sessions status =
     rt_bind (SetSessionManagerErrorCleanupNotification status) (\<lambda>_. request_transition TR_kDisableMotion)"

text \<open>A \<^verbatim>\<open>RealtimeStatusOr\<close> without a value whose status is OK fails the check of
  \<^verbatim>\<open>value()\<close>.\<close>

definition Update ::
  "('w, 'ps) plugins \<Rightarrow> 'w hwm_env \<Rightarrow> 'w safety_env \<Rightarrow> int \<Rightarrow> int \<Rightarrow> nat \<Rightarrow> (('w, 'ps) control_sys, unit) rt" where
  "Update E H S t wall n =
     rt_bind (UpdateSafety S) (\<lambda>_.
     rt_bind (rt_try (PreUpdateSessions E H t wall n)) (\<lambda>pre.
     case pre of
       Inl e \<Rightarrow>
         if e = OkStatus then rt_fail LogFatal
         else rt_bind (SetSessionManagerErrorCleanupNotification e) (\<lambda>_. rt_fail e)
     | Inr rs \<Rightarrow>
         rt_bind (rt_try (UpdateSessions E rs)) (\<lambda>r.
         rt_bind (rt_when (status_of r \<noteq> OkStatus) (end_all_sessions (status_of r))) (\<lambda>_.
         rt_bind (rt_modify (\<lambda>c. c\<lparr>latest_enable_button := enable_button_status (safety_handle c)\<rparr>)) (\<lambda>_.
           finish_parts E)))))"

section \<open>Shutting down\<close>

text \<open>The loop that waits for the lock of a call: the attempt at which it is free.\<close>

partial_function (option) lock_wait :: "(nat \<Rightarrow> bool) \<Rightarrow> nat \<Rightarrow> nat option" where
  "lock_wait lock n = (if lock n then Some n else lock_wait lock (Suc n))"

definition abort_command :: "rt_status \<Rightarrow> bool \<Rightarrow> op_command rt_handle \<Rightarrow> ('w, 'ps) control_sys \<Rightarrow> ('w, 'ps) control_sys option" where
  "abort_command status client h c =
     (case lock_wait (call_lock h) (call_attempts h) of
        None \<Rightarrow> None
      | Some _ \<Rightarrow> Some (if client then c\<lparr>command_results := command_results c @ [(call_args h, status)]\<rparr> else c))"

fun abort_commands :: "rt_status \<Rightarrow> op_command rt_handle list \<Rightarrow> ('w, 'ps) control_sys \<Rightarrow> ('w, 'ps) control_sys option" where
  "abort_commands status [] c = Some c"
| "abort_commands status (h # hs) c =
     (case abort_command status True h c of None \<Rightarrow> None | Some d \<Rightarrow> abort_commands status hs d)"

text \<open>\<open>None\<close>: the loop waits for a lock forever. The results of \<^verbatim>\<open>SetErrorCleanupNotify\<close> cannot be
  errors.\<close>

definition Shutdown :: "rt_status \<Rightarrow> ('w, 'ps) control_sys \<Rightarrow> ('w, 'ps) control_sys option" where
  "Shutdown status c =
     (let c1 = c\<lparr>command_bridge_closed := True\<rparr> in
      case (case current_command c1 of
              None \<Rightarrow> Some c1
            | Some h \<Rightarrow> map_option (\<lambda>d. d\<lparr>current_command := None\<rparr>) (abort_command status (from_client h) (ch_handle h) c1)) of
        None \<Rightarrow> None
      | Some c2 \<Rightarrow>
          (case abort_commands status (command_calls c2) (c2\<lparr>command_calls := []\<rparr>) of
             None \<Rightarrow> None
           | Some c3 \<Rightarrow> Some (snd (SetSessionManagerErrorCleanupNotification status c3))))"

end
