(* ===== verification/Control_Sessions.thy ===== *)
theory Control_Sessions
  imports Control_Manager
begin

text \<open>
  The sessions of \<^verbatim>\<open>RealtimeControlManager\<close> (realtime_control_manager.cc): what ending them leaves of
  the shared objects, what a transition request does, which sessions may go on with which hardware, and where a
  session starts.
\<close>

section \<open>The shared objects\<close>

lemma load_session_fields [simp]:
  "has_channels (load_session c i) = has_channels (session_managers c ! i)"
  "current_session (load_session c i) = current_session (session_managers c ! i)"
  "active_action_indices (load_session c i) = active_action_indices (session_managers c ! i)"
  "channels (load_session c i) = channels (session_managers c ! i)"
  "part_indices (load_session c i) = part_indices (session_managers c ! i)"
  "part_infos (load_session c i) = part_infos (part_manager c)"
  "world (load_session c i) = world (part_manager c)"
  by (cases "session_managers c ! i"; simp add: load_session_def rt_sys.defs Let_def)+

lemma truncate_load_session [simp]: "rt_sys.truncate (load_session c i) = part_manager c"
  by (simp add: load_session_def rt_sys.defs Let_def)

text \<open>Two states that differ in sessions and parts only.\<close>

definition same_outside :: "('w, 'ps) control_sys \<Rightarrow> ('w, 'ps) control_sys \<Rightarrow> bool" where
  "same_outside c d \<longleftrightarrow>
     d = c\<lparr>part_manager := (part_manager c)\<lparr>part_infos := part_infos (part_manager d)\<rparr>,
           session_managers := session_managers d\<rparr> \<and>
     length (session_managers d) = length (session_managers c) \<and>
     length (part_infos (part_manager d)) = length (part_infos (part_manager c))"

lemma same_outside_refl [simp]: "same_outside c c"
  by (simp add: same_outside_def)

lemma same_parts_trans:
  fixes p q r :: "('w, 'ps) rt_sys"
  shows "q = p\<lparr>part_infos := part_infos q\<rparr> \<Longrightarrow> r = q\<lparr>part_infos := part_infos r\<rparr> \<Longrightarrow> r = p\<lparr>part_infos := part_infos r\<rparr>"
  by (cases p; cases q; cases r) simp

lemma same_outside_trans: "same_outside c d \<Longrightarrow> same_outside d e \<Longrightarrow> same_outside c e"
  unfolding same_outside_def by (cases c; cases d; cases e) (auto intro: same_parts_trans)

lemma same_outside_fields:
  assumes "same_outside c d"
  shows "state_manager d = state_manager c" "safety_handle d = safety_handle c" "status_buffer d = status_buffer c"
    "current_command d = current_command c" "world (part_manager d) = world (part_manager c)"
    "command_results d = command_results c" "latest_mode d = latest_mode c"
    "current_safety_status (part_manager d) = current_safety_status (part_manager c)"
    "command_calls d = command_calls c" "command_bridge_closed d = command_bridge_closed c"
    "length (session_managers d) = length (session_managers c)"
    "length (part_infos (part_manager d)) = length (part_infos (part_manager c))"
proof -
  from assms obtain ps ss where d: "d = c\<lparr>part_manager := (part_manager c)\<lparr>part_infos := ps\<rparr>, session_managers := ss\<rparr>"
    and len: "length (session_managers d) = length (session_managers c)"
      "length (part_infos (part_manager d)) = length (part_infos (part_manager c))"
    unfolding same_outside_def by blast
  show "state_manager d = state_manager c" "safety_handle d = safety_handle c" "status_buffer d = status_buffer c"
    "current_command d = current_command c" "world (part_manager d) = world (part_manager c)"
    "command_results d = command_results c" "latest_mode d = latest_mode c"
    "current_safety_status (part_manager d) = current_safety_status (part_manager c)"
    "command_calls d = command_calls c" "command_bridge_closed d = command_bridge_closed c"
    "length (session_managers d) = length (session_managers c)"
    "length (part_infos (part_manager d)) = length (part_infos (part_manager c))"
    using len by (simp_all add: d)
qed

section \<open>Ending sessions\<close>

text \<open>\<open>ended st s t\<close>: the session \<open>s\<close> is over in \<open>t\<close>, and the other side was told the status \<open>st\<close>.\<close>

definition ended :: "rt_status \<Rightarrow> ('w, 'ps) session_sys \<Rightarrow> ('w, 'ps) session_sys \<Rightarrow> bool" where
  "ended st s t \<longleftrightarrow> \<not> has_channels t \<and> current_session t = None \<and> active_set t = {} \<and> session_status t = st \<and>
     part_indices t = part_indices s \<and>
     (has_channels s \<longrightarrow> session_status_buffer (channels t) = st \<and> bridge_closed (channels t) \<and> finish_done (channels t))"

text \<open>\<open>part_freed s p\<close> for a part of the session, \<open>calmer\<close> for every part.\<close>

definition part_freed :: "('w, 'ps) session_sys \<Rightarrow> part_info \<Rightarrow> bool" where
  "part_freed s p \<longleftrightarrow> part_context p = empty_context \<and> (current_session s \<noteq> None \<longrightarrow> controlled_by p = None)"

definition calmer :: "part_info \<Rightarrow> part_info \<Rightarrow> bool" where
  "calmer p q \<longleftrightarrow> safety_action_active q = safety_action_active p \<and>
     (part_context p = empty_context \<longrightarrow> part_context q = empty_context) \<and>
     (controlled_by p = None \<longrightarrow> controlled_by q = None) \<and> (controlled_by q \<noteq> None \<longrightarrow> controlled_by q = controlled_by p)"

lemma calmer_refl [simp]: "calmer p p"
  by (simp add: calmer_def)

lemma calmer_trans: "calmer p q \<Longrightarrow> calmer q r \<Longrightarrow> calmer p r"
  unfolding calmer_def by metis

lemma part_freed_calmer: "part_freed s p \<Longrightarrow> calmer p q \<Longrightarrow> part_freed s q"
  by (auto simp: part_freed_def calmer_def)

definition end_session :: "rt_status \<Rightarrow> nat \<Rightarrow> ('w, 'ps) control_sys \<Rightarrow> ('w, 'ps) control_sys" where
  "end_session st i c = c\<lparr>part_manager := rt_sys.truncate (failed_state st (load_session c i)),
     session_managers := (session_managers c)[i := failed_state st (load_session c i)]\<rparr>"

lemma on_session_SetError: "on_session i (SetErrorCleanupNotify st) c = (Inr (), end_session st i c)"
  by (simp add: on_session_def SetErrorCleanupNotify_eq end_session_def)

lemma failed_load_ended: "ended st (session_managers c ! i) (failed_state st (load_session c i))"
  by (auto simp: ended_def failed_state_def closed_state_def clear_session_def active_set_def)

lemma part_infos_end_session:
  "part_infos (part_manager (end_session st i c)) =
     released_parts (current_session (session_managers c ! i) \<noteq> None) (part_indices (session_managers c ! i))
       (part_infos (part_manager c))"
  by (simp add: end_session_def failed_state_def closed_state_def clear_session_def rt_sys.defs)

lemma session_managers_end_session:
  "session_managers (end_session st i c) = (session_managers c)[i := failed_state st (load_session c i)]"
  by (simp add: end_session_def)

lemma end_session_outside [simp]: "same_outside c (end_session st i c)"
proof -
  have "rt_sys.truncate (failed_state st (load_session c i)) =
      (part_manager c)\<lparr>part_infos := part_infos (part_manager (end_session st i c))\<rparr>"
    by (cases "session_managers c ! i"; cases "part_manager c")
       (simp add: part_infos_end_session failed_state_def closed_state_def clear_session_def
         rt_sys.defs load_session_def Let_def)
  then have "end_session st i c = c\<lparr>part_manager := (part_manager c)\<lparr>part_infos := part_infos (part_manager (end_session st i c))\<rparr>,
      session_managers := session_managers (end_session st i c)\<rparr>"
    by (simp add: end_session_def)
  moreover have "length (part_infos (part_manager (end_session st i c))) = length (part_infos (part_manager c))"
    by (simp add: part_infos_end_session released_parts_def)
  moreover have "length (session_managers (end_session st i c)) = length (session_managers c)"
    by (simp add: session_managers_end_session)
  ultimately show ?thesis unfolding same_outside_def by blast
qed

lemma released_calmer: "j < length ps \<Longrightarrow> calmer (ps ! j) (released_parts b is ps ! j)"
  by (simp add: released_parts_nth calmer_def released_def)

text \<open>What ending the sessions in \<open>S\<close> leaves of the others and of the parts.\<close>

definition sessions_ended :: "rt_status \<Rightarrow> nat set \<Rightarrow> ('w, 'ps) control_sys \<Rightarrow> ('w, 'ps) control_sys \<Rightarrow> bool" where
  "sessions_ended st S c d \<longleftrightarrow> same_outside c d \<and>
     (\<forall>i < length (session_managers c).
        (if i \<in> S then ended st (session_managers c ! i) (session_managers d ! i)
         else session_managers d ! i = session_managers c ! i)) \<and>
     (\<forall>j < length (part_infos (part_manager c)).
        calmer (part_infos (part_manager c) ! j) (part_infos (part_manager d) ! j) \<and>
        (\<forall>i \<in> S. j \<in> set (part_indices (session_managers c ! i)) \<longrightarrow>
           part_freed (session_managers c ! i) (part_infos (part_manager d) ! j)))"

lemma sessions_ended_none [simp]: "sessions_ended st {} c c"
  by (simp add: sessions_ended_def)

lemma sessions_ended_one: "i < length (session_managers c) \<Longrightarrow> sessions_ended st {i} c (end_session st i c)"
  by (auto simp: sessions_ended_def session_managers_end_session failed_load_ended part_infos_end_session
      released_calmer released_parts_nth part_freed_def released_def calmer_def)

lemma sessions_ended_trans:
  assumes "sessions_ended st S c d" "sessions_ended st T d e" "S \<inter> T = {}" "T \<subseteq> {..<length (session_managers c)}"
  shows "sessions_ended st (S \<union> T) c e"
proof -
  have out: "same_outside c d" "same_outside d e" using assms(1,2) by (simp_all add: sessions_ended_def)
  note len = same_outside_fields(11,12)[OF out(1)]
  have same: "session_managers d ! i = session_managers c ! i" if "i \<in> T" for i
  proof -
    have "i < length (session_managers c)" "i \<notin> S" using assms(3,4) that by auto
    then show ?thesis using assms(1) by (simp add: sessions_ended_def)
  qed
  have ss: "if i \<in> S \<union> T then ended st (session_managers c ! i) (session_managers e ! i)
      else session_managers e ! i = session_managers c ! i" if "i < length (session_managers c)" for i
    using assms(1-3) that same[of i] len unfolding sessions_ended_def by (cases "i \<in> S"; cases "i \<in> T") auto
  have ps: "calmer (part_infos (part_manager c) ! j) (part_infos (part_manager e) ! j) \<and>
      (\<forall>i \<in> S \<union> T. j \<in> set (part_indices (session_managers c ! i)) \<longrightarrow>
         part_freed (session_managers c ! i) (part_infos (part_manager e) ! j))"
    if j: "j < length (part_infos (part_manager c))" for j
  proof -
    have c: "calmer (part_infos (part_manager c) ! j) (part_infos (part_manager d) ! j)"
      "calmer (part_infos (part_manager d) ! j) (part_infos (part_manager e) ! j)"
      using assms(1,2) j len by (simp_all add: sessions_ended_def)
    moreover have "part_freed (session_managers c ! i) (part_infos (part_manager e) ! j)"
      if "i \<in> S" "j \<in> set (part_indices (session_managers c ! i))" for i
      using assms(1) j that c(2) part_freed_calmer unfolding sessions_ended_def by blast
    moreover have "part_freed (session_managers c ! i) (part_infos (part_manager e) ! j)"
      if "i \<in> T" "j \<in> set (part_indices (session_managers c ! i))" for i
      using assms(2) j that same[of i] len unfolding sessions_ended_def by metis
    ultimately show ?thesis using calmer_trans by blast
  qed
  show ?thesis unfolding sessions_ended_def using same_outside_trans[OF out] ss ps by blast
qed

lemma end_sessions_loop:
  "rt_for is (\<lambda>i. on_session i (SetErrorCleanupNotify st)) c = (r, d) \<Longrightarrow>
     set is \<subseteq> {..<length (session_managers c)} \<Longrightarrow> distinct is \<Longrightarrow>
     r = Inr () \<and> sessions_ended st (set is) c d"
proof (induction "is" arbitrary: c)
  case Nil
  then show ?case by (simp add: rt_return_def)
next
  case (Cons i "is")
  have run: "rt_for is (\<lambda>i. on_session i (SetErrorCleanupNotify st)) (end_session st i c) = (r, d)"
    using Cons.prems(1) by (simp add: rt_bind_run[OF on_session_SetError])
  have "set is \<subseteq> {..<length (session_managers (end_session st i c))}"
    using Cons.prems(2) by (simp add: session_managers_end_session)
  from Cons.IH[OF run this] Cons.prems(3) have "r = Inr ()" "sessions_ended st (set is) (end_session st i c) d"
    by simp_all
  moreover have "sessions_ended st {i} c (end_session st i c)" using Cons.prems(2) by (intro sessions_ended_one) simp
  ultimately have "r = Inr () \<and> sessions_ended st ({i} \<union> set is) c d"
    using Cons.prems(2,3) by (intro conjI sessions_ended_trans) auto
  then show ?case by simp
qed

abbreviation all_ended :: "rt_status \<Rightarrow> ('w, 'ps) control_sys \<Rightarrow> ('w, 'ps) control_sys \<Rightarrow> bool" where
  "all_ended st c d \<equiv> sessions_ended st {..<length (session_managers c)} c d"

lemma end_sessions_eq:
  obtains d where "SetSessionManagerErrorCleanupNotification st c = (Inr (), d)" "all_ended st c d"
proof -
  obtain r d where run: "rt_for [0..<length (session_managers c)] (\<lambda>i. on_session i (SetErrorCleanupNotify st)) c = (r, d)"
    by fastforce
  have "r = Inr () \<and> all_ended st c d"
    using end_sessions_loop[OF run] by (simp add: atLeast0LessThan)
  then show ?thesis
    using that run by (simp add: SetSessionManagerErrorCleanupNotification_def rt_bind_gets)
qed

section \<open>Requesting a transition\<close>

definition may_start :: "transition_request \<Rightarrow> 'w hwm_sys \<Rightarrow> bool" where
  "may_start request s \<longleftrightarrow> (\<exists>m \<in> set (hwms s). concerned request m \<and> guard_of request m = kAllowed)"

lemma request_transition_outcome:
  fixes c d :: "('w, 'ps) control_sys"
  assumes "request_transition request c = (r, d)"
  shows "session_managers d = session_managers c \<and> part_manager d = part_manager c \<and> safety_handle d = safety_handle c \<and>
    hwms (state_manager d) = hwms (state_manager c) \<and>
    (may_start request (state_manager c) \<longrightarrow>
       pending_transition_request (state_manager d) = Some request \<and> r = Inr () \<or> r = Inl (Error ResourceExhausted))"
proof -
  let ?s = "(state_manager c)\<lparr>hw := world (part_manager c)\<rparr>"
  obtain q u where q: "RequestTransition request ?s = (q, u)" by fastforce
  have u: "hw u = world (part_manager c)" "hwms u = hwms (state_manager c)"
    "may_start request (state_manager c) \<Longrightarrow>
       pending_transition_request u = Some request \<and> status_of q = OkStatus \<or> q = Inl (Error ResourceExhausted)"
    and q_real: "\<not> crash (status_of q)"
    using q by (auto simp: RequestTransition_result may_start_def crash_def split: option.splits if_splits)
  have "on_rsm (RequestTransition request) c = (q, c\<lparr>state_manager := u, part_manager := (part_manager c)\<lparr>world := hw u\<rparr>\<rparr>)"
    by (simp add: on_rsm_def q)
  then have run: "request_transition request c =
      (if status_of q = OkStatus then Inr () else Inl (status_of q), c\<lparr>state_manager := u, part_manager := part_manager c\<rparr>)"
    using q_real by (cases q) (auto simp: request_transition_def rt_defs u(1))
  show ?thesis using assms u unfolding run by auto
qed

lemma enabled_may_start:
  "CheckAnyInOneOfStates s [HwmMotionEnabled] kAllHardware \<Longrightarrow> may_start TR_kDisableMotion s"
  "CheckAnyInOneOfStates s [HwmMotionEnabled] kOperationalHardware \<Longrightarrow>
     may_start TR_kDisableMotionSkipCellControlHardware s"
  by (auto simp: CheckAnyInOneOfStates_def list_ex_iff may_start_def concerned_def guard_of_def IsInGroup_def
      HardwareModuleTransitionGuard_def intro!: bexI)

lemma UpdateSafety_eq: "UpdateSafety S c = (Inr (), snd (UpdateSafety S c))"
  by (simp add: UpdateSafety_def rt_modify_def)

lemma Update_failed_preparation:
  assumes "PreUpdateSessions E H t wall n (snd (UpdateSafety S c)) = (Inl e, u)" "\<not> crash e" "e \<noteq> OkStatus"
  obtains d where "Update E H S t wall n c = (Inl e, d)" "all_ended e u d"
proof -
  obtain d where d: "SetSessionManagerErrorCleanupNotification e u = (Inr (), d)" "all_ended e u d"
    by (rule end_sessions_eq)
  have "rt_try (PreUpdateSessions E H t wall n) (snd (UpdateSafety S c)) = (Inr (Inl e), u)"
    using assms(1,2) by (simp add: rt_try_def)
  then have "Update E H S t wall n c = (Inl e, d)"
    by (simp add: Update_def rt_bind_run[OF UpdateSafety_eq] rt_bind_run d(1) assms(3) rt_fail_def)
  then show ?thesis using that d(2) by blast
qed

lemma real_error_UpdateSessions:
  assumes "UpdateSessions E rs c = (Inl e, d)" "\<not> crash e"
  shows "e \<noteq> OkStatus"
proof -
  let ?E = "\<lambda>e (_ :: ('a, 'b) control_sys). \<not> crash e \<longrightarrow> e \<noteq> OkStatus"
  have "e \<noteq> OkStatus" if "ExecuteCycle E v rs s = (Inl e, t)" "\<not> crash e" for v e and s t :: "('a, 'b) session_sys"
  proof -
    have run: "open_cycle E (safety_speed s v) (safety_override s) rs s = (Inl e, t)"
      and "sess_open (part_indices s) (safety_status_message s) False s"
      using that(1) by (auto simp: ExecuteCycle_eq sess_open_def split: if_splits)
    from open_cycle_fails[OF run that(2) this(2)] show ?thesis by blast
  qed
  then have "rt_spec (\<lambda>_. True) (on_session i (ExecuteCycle E v rs)) (\<lambda>_ _. True) ?E" for i v
    by (auto simp: rt_spec_def on_session_def split: prod.splits sum.splits)
  then have "rt_spec (\<lambda>_. True) (UpdateSessions E rs) (\<lambda>_ _. True) ?E"
    unfolding UpdateSessions_def
    by (intro rt_spec_bind[where R = "\<lambda>_ _. True"] rt_spec_gets rt_spec_for) simp_all
  from rt_specD_Inl[OF this _ assms(1)] assms(2) show ?thesis by simp
qed

lemma finish_parts_frame: "finish_parts E c = (r, d) \<Longrightarrow>
    session_managers d = session_managers c \<and> hwms (state_manager d) = hwms (state_manager c) \<and>
    pending_transition_request (state_manager d) = pending_transition_request (state_manager c)"
  by (auto simp: finish_parts_def rt_finally_def on_pm_def PauseTransitions_def rt_modify_def split: prod.splits)

text \<open>Motion ends: the hardware is asked to disable motion, or none of it is enabled.\<close>

definition motion_stops :: "'w hwm_sys \<Rightarrow> bool" where
  "motion_stops s \<longleftrightarrow> pending_transition_request s = Some TR_kDisableMotion \<or>
     \<not> CheckAnyInOneOfStates s [HwmMotionEnabled] kAllHardware"

lemma end_all_sessions_effect:
  assumes "end_all_sessions e c = (r, d)"
  shows "(\<forall>i < length (session_managers c). ended e (session_managers c ! i) (session_managers d ! i)) \<and>
    (motion_stops (state_manager d) \<or> r = Inl (Error ResourceExhausted))"
proof -
  obtain u where u: "SetSessionManagerErrorCleanupNotification e c = (Inr (), u)" "all_ended e c u"
    by (rule end_sessions_eq)
  have run: "request_transition TR_kDisableMotion u = (r, d)"
    using assms by (simp add: end_all_sessions_def rt_bind_run u(1))
  note o = request_transition_outcome[OF run]
  have "motion_stops (state_manager d) \<or> r = Inl (Error ResourceExhausted)"
    using o enabled_may_start(1)[of "state_manager u"]
    by (auto simp: motion_stops_def CheckAnyInOneOfStates_def)
  then show ?thesis using u(2) o by (auto simp: sessions_ended_def)
qed

section \<open>Sessions and their hardware\<close>

definition hw_available ::
  "('w, 'ps) plugins \<Rightarrow> bool \<Rightarrow> bool \<Rightarrow> ('w, 'ps) control_sys \<Rightarrow> nat \<Rightarrow> bool" where
  "hw_available E oa ca c i \<longleftrightarrow> i < length (part_infos (part_manager c)) \<and>
     (\<exists>deps. HardwareDependencies E i (world (part_manager c)) = Inr deps \<and>
        (operational_hardware deps \<longrightarrow> oa) \<and> (cell_control_hardware deps \<longrightarrow> ca))"

lemma on_pm_dependencies:
  "on_pm (GetHardwareDependencies E i) c =
     (if length (part_infos (part_manager c)) \<le> i then Inl (Error OutOfRange)
      else HardwareDependencies E i (world (part_manager c)), c)"
  by (simp add: on_pm_def GetHardwareDependencies_def rt_lift_st_def)

lemma lacks_hardware_result:
  "lacks_hardware E oa ca is c = (Inr b, d) \<Longrightarrow> d = c \<and> (b \<or> (\<forall>i \<in> set is. hw_available E oa ca c i))"
proof (induction "is" arbitrary: b d)
  case (Cons i "is")
  obtain deps where "i < length (part_infos (part_manager c))" "HardwareDependencies E i (world (part_manager c)) = Inr deps"
    "(if operational_hardware deps \<and> \<not> oa then rt_return True
         else if cell_control_hardware deps \<and> \<not> ca then rt_return True
         else lacks_hardware E oa ca is) c = (Inr b, d)"
    using Cons.prems
    by (auto simp: rt_bind_Inr rt_try_def on_pm_dependencies rt_fail_def split: if_splits sum.splits)
  then show ?case using Cons.IH[of b d] by (auto simp: rt_return_def hw_available_def split: if_splits)
qed (simp add: rt_return_def)

text \<open>The status lets the session go on.\<close>

definition may_go_on :: "('w, 'ps) plugins \<Rightarrow> cell_status \<Rightarrow> ('w, 'ps) control_sys \<Rightarrow> ('w, 'ps) session_sys \<Rightarrow> bool" where
  "may_go_on E st c s \<longleftrightarrow> ros_state (operational st) \<noteq> Rt_kFatallyFaulted \<and>
     (\<forall>i \<in> set (part_indices s). hw_available E (ros_state (operational st) = Rt_kEnabled)
        (ros_state (cell_control st) = Rt_kEnabled) c i)"

lemma cancel_session_result:
  assumes "cancel_session E st i c = (Inr (), d)" "i < length (session_managers c)"
  obtains S where "S \<subseteq> {i}" "sessions_ended (Error Aborted) S c d"
    "i \<notin> S \<Longrightarrow> has_channels (session_managers c ! i) \<Longrightarrow> may_go_on E st c (session_managers c ! i)"
proof -
  let ?s = "session_managers c ! i"
  have "d = c \<and> (has_channels ?s \<longrightarrow> may_go_on E st c ?s) \<or> d = end_session (Error Aborted) i c"
    using assms(1)
    by (auto simp: cancel_session_def rt_bind_gets IsActive_def rt_return_Inr on_session_SetError rt_bind_Inr
        rt_when_def may_go_on_def dest!: lacks_hardware_result split: if_splits)
  then show ?thesis using that[of "{}"] that[of "{i}"] sessions_ended_one[OF assms(2)] by auto
qed

lemma may_go_on_outside: "same_outside c d \<Longrightarrow> may_go_on E st d s = may_go_on E st c s"
  by (simp add: may_go_on_def hw_available_def same_outside_fields)

lemma cancel_sessions_loop:
  "rt_for is (cancel_session E st) c = (Inr (), d) \<Longrightarrow> set is \<subseteq> {..<length (session_managers c)} \<Longrightarrow> distinct is \<Longrightarrow>
   \<exists>S \<subseteq> set is. sessions_ended (Error Aborted) S c d \<and>
     (\<forall>i \<in> set is - S. has_channels (session_managers c ! i) \<longrightarrow> may_go_on E st c (session_managers c ! i))"
proof (induction "is" arbitrary: c)
  case (Cons i "is")
  obtain u where u: "cancel_session E st i c = (Inr (), u)" "rt_for is (cancel_session E st) u = (Inr (), d)"
    using Cons.prems(1) by (auto simp: rt_bind_Inr)
  have i: "i < length (session_managers c)" using Cons.prems(2) by simp
  obtain S where S: "S \<subseteq> {i}" "sessions_ended (Error Aborted) S c u"
    "i \<notin> S \<Longrightarrow> has_channels (session_managers c ! i) \<Longrightarrow> may_go_on E st c (session_managers c ! i)"
    using cancel_session_result[OF u(1) i] by blast
  have out: "same_outside c u" and len: "length (session_managers u) = length (session_managers c)"
    using S(2) same_outside_fields by (auto simp: sessions_ended_def)
  obtain T where T: "T \<subseteq> set is" "sessions_ended (Error Aborted) T u d"
    "\<forall>i \<in> set is - T. has_channels (session_managers u ! i) \<longrightarrow> may_go_on E st u (session_managers u ! i)"
    using Cons.IH[OF u(2)] Cons.prems(2,3) len by auto
  have same: "session_managers u ! j = session_managers c ! j" if "j \<in> set is" for j
  proof -
    have "j < length (session_managers c)" "j \<notin> S" using S(1) that Cons.prems(2,3) by auto
    then show ?thesis using S(2) by (simp add: sessions_ended_def)
  qed
  have "sessions_ended (Error Aborted) (S \<union> T) c d"
    by (rule sessions_ended_trans[OF S(2) T(2)]) (use S(1) T(1) Cons.prems(2,3) in auto)
  moreover have "\<forall>j \<in> set (i # is) - (S \<union> T). has_channels (session_managers c ! j) \<longrightarrow>
      may_go_on E st c (session_managers c ! j)"
    using S(3) T(3) same may_go_on_outside[OF out] by auto
  moreover have "S \<union> T \<subseteq> set (i # is)" using S(1) T(1) by auto
  ultimately show ?case by blast
qed (use sessions_ended_none in \<open>auto simp: rt_return_def\<close>)

text \<open>A run of \<^verbatim>\<open>UpdateOperationalStatus\<close> without a command.\<close>

lemma AB_write_eq:
  "AB_write x b = snd (AB_CommitFreeBuffer ((snd (AB_GetFreeBuffer b))\<lparr>ab_buffers :=
     (ab_buffers (snd (AB_GetFreeBuffer b)))[fst (AB_GetFreeBuffer b) := x]\<rparr>))"
  by (simp add: AB_write_def split: prod.split)

lemma idle_status_run:
  assumes "UpdateOperationalStatus E c = (r, d)" "current_command c = None"
  obtains b u where "rt_for [0..<length (session_managers c)] (cancel_session E (combined_status (state_manager c) b))
      (c\<lparr>status_buffer := (snd (AB_GetFreeBuffer (status_buffer c)))\<lparr>ab_buffers :=
         (ab_buffers (snd (AB_GetFreeBuffer (status_buffer c))))[fst (AB_GetFreeBuffer (status_buffer c)) :=
            combined_status (state_manager c) b]\<rparr>\<rparr>) = (r, u)"
    "d = u\<lparr>status_buffer := snd (AB_CommitFreeBuffer (status_buffer u))\<rparr>"
  using assms
  by (fastforce simp: UpdateOperationalStatus_def rt_finally_def rt_bind_gets rt_bind_modify Let_def split: prod.splits)

lemma combined_status_states [simp]:
  "ros_state (operational (combined_status s b)) = GetCombinedOperationalState s"
  "ros_state (cell_control (combined_status s b)) = GetCellControlState s"
  by (simp_all add: combined_status_def Let_def set_fault_reason_def)

section \<open>Starting a session\<close>

lemma CheckUnfinished_state: "snd (CheckUnfinishedSafetyAction E i s) = s"
proof -
  have "rt_inv (\<lambda>t. t = s) (CheckUnfinishedSafetyAction E i)"
    unfolding CheckUnfinishedSafetyAction_def safety_action_handle_def
    by (intro rt_rules) (auto split: state_value.split intro: rt_rules)
  from rt_invD[OF this] show ?thesis by simp
qed

definition safety_action_finished :: "('w, 'ps) plugins \<Rightarrow> ('w, 'ps) control_sys \<Rightarrow> nat \<Rightarrow> bool" where
  "safety_action_finished E c p \<longleftrightarrow> CheckUnfinishedSafetyAction E p (part_manager c) = (Inr (), part_manager c)"

lemma CheckUnfinished_ok:
  "status_of (fst (CheckUnfinishedSafetyAction E p s)) = OkStatus \<longleftrightarrow> CheckUnfinishedSafetyAction E p s = (Inr (), s)"
proof -
  have "fst (CheckUnfinishedSafetyAction E p s) \<noteq> Inl OkStatus"
    by (auto simp: CheckUnfinishedSafetyAction_def rt_fn_def split: prod.splits sum.splits rt_status.splits)
  then show ?thesis using CheckUnfinished_state[of E p s]
    by (cases "CheckUnfinishedSafetyAction E p s"; cases "fst (CheckUnfinishedSafetyAction E p s)") auto
qed

lemma control_slot_at:
  "control_slot E is m c = (Inr (StartAt i), d) \<Longrightarrow>
     d = c \<and> i = Min (insert m (set is)) \<and> \<not> has_channels (session_managers c ! i) \<and>
     (\<forall>p \<in> set is. p < length (session_managers c) \<and> safety_action_finished E c p)"
proof (induction "is" arbitrary: m)
  case Nil
  then show ?case by (auto simp: rt_gets_def IsActive_def split: if_splits)
next
  case (Cons p "is")
  obtain q where q: "CheckUnfinishedSafetyAction E p (part_manager c) = (q, part_manager c)"
    using CheckUnfinished_state[of E p "part_manager c"] by (metis prod.collapse)
  have on: "on_pm (CheckUnfinishedSafetyAction E p) c = (q, c)" by (simp add: on_pm_def q)
  have "control_slot E (p # is) m c = (if crash (status_of q) then (Inl (status_of q), c)
      else if status_of q \<noteq> OkStatus then (Inr StartLater, c)
      else if length (session_managers c) \<le> p then (Inr (StartFailed (Error InvalidArgument)), c)
      else control_slot E is (if p < m then p else m) c)"
    by (cases q) (simp_all add: rt_bind_def rt_try_def on rt_return_def rt_gets_def crash_def)
  then have "status_of q = OkStatus" "p < length (session_managers c)"
    and run: "control_slot E is (if p < m then p else m) c = (Inr (StartAt i), d)"
    using Cons.prems by (simp_all split: if_splits)
  then have "safety_action_finished E c p"
    using CheckUnfinished_ok[of E p "part_manager c"] q by (simp add: safety_action_finished_def)
  moreover have "Min (insert (if p < m then p else m) (set is)) = Min (insert m (set (p # is)))"
    by (cases "set is = {}") (auto simp: min_def)
  ultimately show ?case using Cons.IH[OF run] \<open>p < length (session_managers c)\<close> by auto
qed

lemma SetPartContext_Inr:
  "SetPartContext i x s = (Inr (), t) \<longleftrightarrow>
     i < length (part_infos s) \<and> t = upd_part i (\<lambda>p. p\<lparr>part_context := x\<rparr>) s"
  by (auto simp: SetPartContext_def rt_bind_gets rt_fail_Inr rt_modify_Inr)

lemma set_contexts_loop:
  "rt_for is (\<lambda>i. SetPartContext i x) s = (Inr (), t) \<Longrightarrow>
     (\<exists>ps. t = s\<lparr>part_infos := ps\<rparr>) \<and> length (part_infos t) = length (part_infos s) \<and>
     (\<forall>i \<in> set is. i < length (part_infos s)) \<and>
     (\<forall>i < length (part_infos s). part_context (part_infos t ! i) =
        (if i \<in> set is then x else part_context (part_infos s ! i)))"
proof (induction "is" arbitrary: s)
  case Nil
  then show ?case by (auto simp: rt_return_def intro: exI[of _ "part_infos s"])
next
  case (Cons i "is")
  then have i: "i < length (part_infos s)"
    and run: "rt_for is (\<lambda>i. SetPartContext i x) (upd_part i (\<lambda>p. p\<lparr>part_context := x\<rparr>) s) = (Inr (), t)"
    by (auto simp: rt_bind_Inr SetPartContext_Inr)
  from Cons.IH[OF run] i show ?case by (auto simp: upd_part_def nth_list_update)
qed

definition started_session :: "'ps start_args \<Rightarrow> ('w, 'ps) session_sys \<Rightarrow> bool" where
  "started_session a s \<longleftrightarrow> has_channels s \<and> part_indices s = st_parts a \<and> sm_session_id s = st_session_id a \<and>
     session_status s = OkStatus \<and> current_session s = None \<and>
     channels s = (st_channels a)\<lparr>session_status_buffer := OkStatus\<rparr>"

lemma Create_ok:
  assumes "Create sid parts ctx safety s = (Inr (), t)"
  shows "has_channels t \<and> part_indices t = parts \<and> sm_session_id t = sid \<and> session_status t = OkStatus \<and>
    current_session t = None \<and> channels t = (channels s)\<lparr>session_status_buffer := OkStatus\<rparr> \<and>
    (\<forall>p \<in> set parts. p < length (part_infos t) \<and>
       part_context (part_infos t ! p) = ctx\<lparr>icon_session_id := Some sid\<rparr>)"
proof -
  let ?s = "s\<lparr>sm_session_id := sid, has_channels := True, current_session := None,
     active_action_indices := replicate (length (part_infos s)) None,
     session_status := OkStatus, safety_status_message := safety, part_indices := parts,
     channels := (channels s)\<lparr>session_status_buffer := OkStatus\<rparr>\<rparr>"
  have "rt_for parts (\<lambda>i. SetPartContext i (ctx\<lparr>icon_session_id := Some sid\<rparr>)) ?s = (Inr (), t)"
    (is "?run = _")
    using assms
    by (cases "?run"; cases "fst ?run")
       (auto simp: Create_def rt_bind_Inr rt_try_def rt_bind_modify rt_return_Inr rt_fail_Inr split: if_splits)
  from set_contexts_loop[OF this] show ?thesis by auto
qed

lemma Create_real: "Create sid parts ctx safety s \<noteq> (Inl OkStatus, t)"
proof -
  have loop: "real_error (rt_for parts (\<lambda>i. SetPartContext i x))" for x
    unfolding SetPartContext_def by (intro real_error_for real_error_bind real_error_splits real_error_rules) simp_all
  show ?thesis
    using loop[of "ctx\<lparr>icon_session_id := Some sid\<rparr>"]
    by (auto simp: Create_def rt_bind_def rt_modify_def rt_try_def rt_fail_def rt_return_def real_error_def
        CleanupAndNotify_eq crash_def split: if_splits prod.splits sum.splits)
qed

lemma create_session_ok:
  assumes "create_session a i c = (Inr OkStatus, d)" "i < length (session_managers c)"
  shows "started_session a (session_managers d ! i) \<and> length (session_managers d) = length (session_managers c) \<and>
    (\<forall>j. j \<noteq> i \<longrightarrow> session_managers d ! j = session_managers c ! j) \<and>
    (\<forall>p \<in> set (st_parts a). p < length (part_infos (part_manager d)) \<and>
       part_context (part_infos (part_manager d) ! p) = (st_context a)\<lparr>icon_session_id := Some (st_session_id a)\<rparr>)"
proof -
  let ?C = "rt_bind (rt_modify (\<lambda>s. s\<lparr>channels := st_channels a\<rparr>)) (\<lambda>_.
    Create (st_session_id a) (st_parts a) (st_context a) (Some (safety_handle c))) :: (('a, 'b) session_sys, unit) rt"
  define u where "u = snd (on_session i (rt_bind CleanupAndNotify (\<lambda>_. rt_modify default_session)) c)"
  have u: "on_session i (rt_bind CleanupAndNotify (\<lambda>_. rt_modify default_session)) c = (Inr (), u)"
    "length (session_managers u) = length (session_managers c)" "safety_handle u = safety_handle c"
    "\<And>j. j \<noteq> i \<Longrightarrow> session_managers u ! j = session_managers c ! j"
    by (simp_all add: u_def on_session_def rt_bind_run[OF CleanupAndNotify_eq] rt_modify_def)
  obtain q t where q: "?C (load_session u i) = (q, t)" by fastforce
  have run: "rt_bind (rt_try (on_session i ?C)) (\<lambda>r. case r of
       Inl e \<Rightarrow> rt_bind (on_session i (rt_modify default_session)) (\<lambda>_. rt_return e)
     | Inr _ \<Rightarrow> rt_return OkStatus) u = (Inr OkStatus, d)"
    using assms(1) by (simp add: create_session_def rt_bind_run u(1) rt_bind_gets u(3))
  obtain v where v: "q = Inr ()" "d = u\<lparr>part_manager := rt_sys.truncate t, session_managers := (session_managers u)[i := t]\<rparr>"
  proof (cases q)
    case (Inl e)
    then have "e \<noteq> OkStatus" using q by (auto simp: rt_bind_modify Create_real)
    then show ?thesis using run Inl q
      by (auto simp: on_session_def rt_try_def rt_bind_def rt_modify_def rt_return_def split: if_splits)
  next
    case (Inr x)
    then show ?thesis using run q that by (simp add: on_session_def rt_try_def rt_bind_def rt_return_def)
  qed
  from q v(1) have "Create (st_session_id a) (st_parts a) (st_context a) (Some (safety_handle c))
      ((load_session u i)\<lparr>channels := st_channels a\<rparr>) = (Inr (), t)" by (simp add: rt_bind_modify)
  from Create_ok[OF this] show ?thesis
    using assms(2) u(2,4) by (simp add: v(2) started_session_def rt_sys.defs)
qed

lemma slot_real:
  "(case parts of [] \<Rightarrow> rt_gets monitoring_slot | i # is \<Rightarrow> control_slot E (i # is) i) c \<noteq>
     (Inr (StartFailed OkStatus), u)"
proof -
  have "control_slot E is m c \<noteq> (Inr (StartFailed OkStatus), u)" for "is" m c and u :: "('a, 'b) control_sys"
    by (induction "is" arbitrary: m c)
       (auto simp: rt_gets_def rt_bind_Inr rt_return_Inr rt_gets_Inr split: if_splits)
  moreover have "monitoring_slot c \<noteq> StartFailed OkStatus" by (simp add: monitoring_slot_def split: option.split)
  ultimately show ?thesis by (cases parts) (auto simp: rt_gets_Inr simp del: control_slot.simps)
qed

lemma start_session_ok:
  assumes "start_session E a c = (Inr (FS_kDone, OkStatus), d)"
    and "kMaxNumberOfMonitoringSessions \<le> length (session_managers c)"
  obtains i where "i < length (session_managers c)" "\<not> has_channels (session_managers c ! i)"
    "st_parts a \<noteq> [] \<Longrightarrow> i = Min (set (st_parts a)) \<and>
       (\<forall>p \<in> set (st_parts a). p < length (session_managers c) \<and> safety_action_finished E c p)"
    "st_parts a = [] \<Longrightarrow> length (session_managers c) - kMaxNumberOfMonitoringSessions \<le> i"
    "create_session a i c = (Inr OkStatus, d)"
proof -
  let ?slot = "(case st_parts a of [] \<Rightarrow> rt_gets monitoring_slot | i # is \<Rightarrow> control_slot E (i # is) i)"
  obtain x u where x: "?slot c = (Inr x, u)" and k: "(case x of
       StartLater \<Rightarrow> rt_return (FS_kRunning, Error Unknown)
     | StartFailed e \<Rightarrow> rt_return (FS_kDone, e)
     | StartAt i \<Rightarrow> rt_bind (create_session a i) (\<lambda>st. rt_return (FS_kDone, st))) u = (Inr (FS_kDone, OkStatus), d)"
    using assms(1) unfolding start_session_def rt_bind_Inr by blast
  obtain i where slot: "?slot c = (Inr (StartAt i), u)" and run: "create_session a i u = (Inr OkStatus, d)"
    using x k slot_real[where E = E and parts = "st_parts a" and c = c and u = u]
    by (cases x) (auto simp: rt_return_Inr rt_bind_Inr)
  show ?thesis
  proof (cases "st_parts a")
    case Nil
    then have "u = c" "find (\<lambda>i. \<not> IsActive (session_managers c ! i))
        [length (session_managers c) - kMaxNumberOfMonitoringSessions..<length (session_managers c)] = Some i"
      using slot by (auto simp: rt_gets_def monitoring_slot_def split: if_splits option.splits)
    then show ?thesis using that[of i] run Nil by (auto simp: find_Some_iff IsActive_def)
  next
    case (Cons p ps)
    then have s: "u = c" "i = Min (insert p (set (p # ps)))" "\<not> has_channels (session_managers c ! i)"
      "\<forall>p \<in> set (p # ps). p < length (session_managers c) \<and> safety_action_finished E c p"
      using slot control_slot_at[of E "p # ps" p c i u] by auto
    have "i \<in> set (st_parts a)" using s(2) Cons by (metis List.finite_set Min_in insert_not_empty list.simps(15) insert_absorb2)
    then show ?thesis using that[of i] run s Cons by auto
  qed
qed

section \<open>What the phases of a cycle keep\<close>

text \<open>A predicate on the controller is kept by the phases of a cycle if the few operations of the parts and sessions
  keep it that the phases are made of. \<open>control_frame\<close> is about the phases that only end sessions and request
  transitions, \<open>control_inv\<close> adds starting sessions, \<open>control_cycle_inv\<close> the calls that run the objects.\<close>

locale control_frame =
  fixes E :: "('w, 'ps) plugins" and I :: "('w, 'ps) control_sys \<Rightarrow> bool"
  assumes keep: "part_manager d = part_manager c \<Longrightarrow> state_manager d = state_manager c \<Longrightarrow>
      session_managers d = session_managers c \<Longrightarrow> I c \<Longrightarrow> I d"
    and request: "rt_inv I (on_rsm (RequestTransition r))"
    and end_one: "I c \<Longrightarrow> I (end_session st i c)"
begin

lemma modify [rt_rules]:
  "(\<And>c. part_manager (g c) = part_manager c) \<Longrightarrow> (\<And>c. state_manager (g c) = state_manager c) \<Longrightarrow>
   (\<And>c. session_managers (g c) = session_managers c) \<Longrightarrow> rt_inv I (rt_modify g)"
  by (rule rt_spec_modify) (rule keep)

lemmas request_rule [rt_rules] = request

lemma end_rule [rt_rules]: "rt_inv I (on_session i (SetErrorCleanupNotify st))"
  by (rule rt_specI) (auto simp: on_session_SetError intro: end_one)

lemma read [rt_rules]:
  assumes "\<And>s. snd (m s) = s"
  shows "rt_inv I (on_pm m)"
proof -
  have "snd (on_pm m c) = c" for c
    using assms[of "part_manager c"] by (cases "m (part_manager c)") (simp add: on_pm_def)
  then show ?thesis by (intro rt_specI) (metis snd_conv)+
qed

lemma finally_rule:
  "rt_inv I m \<Longrightarrow> (\<And>c. part_manager (g c) = part_manager c) \<Longrightarrow> (\<And>c. state_manager (g c) = state_manager c) \<Longrightarrow>
   (\<And>c. session_managers (g c) = session_managers c) \<Longrightarrow> rt_inv I (rt_finally m g)"
  by (rule rt_inv_finally) (auto intro: keep)

lemma TryLock [rt_rules]: "rt_inv I m \<Longrightarrow> rt_inv I (TryLockAndExecute h m)"
  unfolding TryLockAndExecute_def Let_def by (intro rt_rules)

lemma lacks [rt_rules]: "rt_inv I (lacks_hardware E oa ca is)"
  by (induction "is") (auto intro!: rt_rules simp: GetHardwareDependencies_def rt_lift_st_def)

lemma slot [rt_rules]: "rt_inv I (control_slot E is m)"
  by (induction "is" arbitrary: m) (auto intro!: rt_rules simp: CheckUnfinished_state)

lemma end_all [rt_rules]: "rt_inv I (SetSessionManagerErrorCleanupNotification e)"
  unfolding SetSessionManagerErrorCleanupNotification_def by (intro rt_rules)

lemma transition [rt_rules]: "rt_inv I (request_transition r)"
  unfolding request_transition_def by (intro rt_rules)

lemma keeps_HandleOperationalStatus: "rt_inv I (HandleOperationalStatus E)"
  unfolding HandleOperationalStatus_def run_command_def take_command_def start_command_def begin_command_def
    continue_command_def answer_command_def UpdateOperationalStatus_def cancel_session_def Let_def
  by (intro rt_rules finally_rule) (auto split: option.split list.split)

lemma start_from_create: "(\<And>i. rt_inv I (create_session a i)) \<Longrightarrow> rt_inv I (start_session E a)"
  unfolding start_session_def
  by (intro rt_rules) (auto split: list.split start_slot.split intro!: rt_rules simp del: control_slot.simps)

end

locale control_inv = control_frame +
  assumes start: "rt_inv I (start_session E a)"
begin

lemma keeps_HandleStartSession: "rt_inv I (HandleStartSession E)"
  unfolding HandleStartSession_def by (intro rt_rules start) (auto split: option.split list.split)

end

locale control_cycle_inv = control_inv +
  assumes safety: "rt_inv I (on_pm (SetSafetyStatus st))"
    and update_state: "rt_inv I (on_rsm (UpdateState H))"
    and begin_parts: "rt_inv I (on_pm (BeginCycle E t wall n))"
    and execute: "rt_inv (\<lambda>c. I c \<and> i < length (session_managers c)) (on_session i (ExecuteCycle E v rs))"
    and finish: "rt_inv I (finish_parts E)"
begin

lemma keeps_UpdateSessions: "rt_inv I (UpdateSessions E rs)"
proof (rule rt_spec_split)
  fix c0 assume c0: "I c0"
  let ?n = "length (session_managers c0)"
  let ?J = "\<lambda>c. I c \<and> length (session_managers c) = ?n"
  have step: "rt_inv ?J (on_session i (ExecuteCycle E v rs))" if "i < ?n" for i v
  proof (rule rt_specI)
    fix c x d assume "?J c" "on_session i (ExecuteCycle E v rs) c = (Inr x, d)"
    then show "?J d" using rt_specD_Inr[OF execute, of c i v rs x d] that
      by (auto simp: on_session_def split: prod.splits)
  next
    fix c e d assume "?J c" "on_session i (ExecuteCycle E v rs) c = (Inl e, d)"
    then show "?J d" using rt_specD_Inl[OF execute, of c i v rs e d] that
      by (auto simp: on_session_def split: prod.splits)
  qed
  have loop: "rt_inv ?J (rt_for [0..<?n] (\<lambda>i. on_session i (ExecuteCycle E v rs)))" for v
    by (rule rt_spec_for) (simp add: step)
  have "I (snd (UpdateSessions E rs c0))"
    using rt_invD[OF loop, of c0] c0 by (simp add: UpdateSessions_def rt_bind_gets)
  then show "rt_spec (\<lambda>c. c = c0) (UpdateSessions E rs) (\<lambda>_. I) (\<lambda>_. I)"
    by (auto simp: rt_spec_def split: prod.splits sum.splits)
qed

lemma keeps_Update: "rt_inv I (Update E H S t wall n)"
  unfolding Update_def UpdateSafety_def PreUpdateSessions_def HandleSafetyStatus_def preempt_faults_def
    end_all_sessions_def Let_def
  by (intro rt_rules keeps_HandleOperationalStatus keeps_HandleStartSession safety update_state begin_parts
      keeps_UpdateSessions finish) simp_all

end

end
