(* ===== verification/Control_Cycle.thy ===== *)
theory Control_Cycle
  imports Control_Sessions
begin

text \<open>
  The cycle of \<^verbatim>\<open>RealtimeControlManager\<close> (realtime_control_manager.cc) and its properties: how errors,
  faults and mode changes end sessions and motion, how commands are answered, what a whole cycle keeps, and when
  shutting down returns.
\<close>

section \<open>Faults that stop motion\<close>

lemma UpdateState_requests:
  "rt_inv (\<lambda>s. map async_request (hwms s) = as \<and> started s = st \<and> pending_transition_request s = p) (UpdateState H)"
proof -
  have upd: "map async_request (hwms (upd_hwm i f s)) = map async_request (hwms s)"
    if "\<And>d. async_request (f d) = async_request d" for i f and s :: "'a hwm_sys"
    by (cases "i < length (hwms s)")
       (auto intro!: nth_equalityI simp: upd_hwm_def nth_list_update list_update_beyond that)
  show ?thesis
    unfolding UpdateState_def read_state_def
    by (intro rt_rules kept_rt kept_hw_call) (simp_all add: upd)
qed

definition some_idle :: "'w hwm_sys \<Rightarrow> bool" where
  "some_idle s \<longleftrightarrow> (\<exists>m \<in> set (hwms s). request_idle s m)"

lemma some_idle_eq:
  "some_idle s \<longleftrightarrow> (\<exists>r \<in> set (map async_request (hwms s)). case r of None \<Rightarrow> True | Some c \<Rightarrow> \<not> started s c)"
  by (auto simp: some_idle_def request_idle_def)

lemma some_idle_hw [simp]: "some_idle (s\<lparr>hw := w\<rparr>) = some_idle s"
  by (simp add: some_idle_def request_idle_def cong: option.case_cong)

lemma UpdateState_idle:
  assumes "UpdateState H s = (r, t)"
  shows "pending_transition_request t = pending_transition_request s" "some_idle t = some_idle s"
    "some_idle s \<Longrightarrow> cached_request_state t = RS_kDone \<or> cached_request_state t = RS_kPartiallyDone"
proof -
  have eq: "map async_request (hwms t) = map async_request (hwms s)" "started t = started s"
    "pending_transition_request t = pending_transition_request s"
    using rt_invD[OF UpdateState_requests[of "map async_request (hwms s)" "started s"
        "pending_transition_request s" H], of s] assms by simp_all
  then show "pending_transition_request t = pending_transition_request s" "some_idle t = some_idle s"
    by (simp_all only: some_idle_eq eq)
  assume "some_idle s"
  then have "length (filter (\<lambda>d. \<not> request_idle s d) (hwms s)) < length (hwms s)"
    by (auto simp: some_idle_def intro: length_filter_less)
  then show "cached_request_state t = RS_kDone \<or> cached_request_state t = RS_kPartiallyDone"
    using UpdateState_effect[OF assms] by (auto simp: request_state_of_def)
qed

text \<open>The rest of the preparation does not change what is known of the modules, and once a request is pending,
  nothing replaces it.\<close>

definition pends :: "hwm_data list \<Rightarrow> transition_request option \<Rightarrow> ('w, 'ps) control_sys \<Rightarrow> bool" where
  "pends ms request c \<longleftrightarrow> hwms (state_manager c) = ms \<and>
     (request \<noteq> None \<longrightarrow> pending_transition_request (state_manager c) = request)"

lemma pends_create: "rt_inv (pends ms p) (create_session a i)"
proof -
  have s: "rt_inv (pends ms p) (on_session j m)" for j m
    by (auto simp: rt_spec_def on_session_def pends_def split: prod.splits sum.splits)
  show ?thesis unfolding create_session_def by (intro rt_rules s)
qed

interpretation pends_frame: control_frame E "pends ms p" for E ms p
proof
  show "rt_inv (pends ms p) (on_rsm (RequestTransition r))" for r
    by (cases p) (auto simp: rt_spec_def on_rsm_def RequestTransition_result pends_def split: option.split)
qed (simp_all add: pends_def end_session_def)

interpretation pends: control_inv E "pends ms p" for E ms p
  by unfold_locales (intro pends_frame.start_from_create pends_create)

definition severe_fault :: "'w hwm_sys \<Rightarrow> bool" where
  "severe_fault s \<longleftrightarrow>
     CheckAnyInOneOfStates s [HwmInitFailed, HwmFaulted, HwmFatallyFaulted] kCellControlHardware \<or>
     CheckAnyInOneOfStates s [HwmInitFailed, HwmFatallyFaulted] kAllHardware"

lemma preempt_faults_result:
  assumes "preempt_faults c = (Inr (), d)"
  shows "hwms (state_manager d) = hwms (state_manager c) \<and>
    (severe_fault (state_manager c) \<and> CheckAnyInOneOfStates (state_manager c) [HwmMotionEnabled] kAllHardware \<longrightarrow>
      pending_transition_request (state_manager d) = Some TR_kDisableMotion) \<and>
    (\<not> severe_fault (state_manager c) \<and>
      CheckAnyInOneOfStates (state_manager c) [HwmInitFailed, HwmFaulted, HwmFatallyFaulted] kOperationalHardware \<and>
      CheckAnyInOneOfStates (state_manager c) [HwmMotionEnabled] kOperationalHardware \<longrightarrow>
      pending_transition_request (state_manager d) = Some TR_kDisableMotionSkipCellControlHardware)"
proof -
  note out = request_transition_outcome enabled_may_start[of "state_manager c"]
  have run: "(if severe_fault (state_manager c) \<and> CheckAnyInOneOfStates (state_manager c) [HwmMotionEnabled] kAllHardware
      then request_transition TR_kDisableMotion
      else if CheckAnyInOneOfStates (state_manager c) [HwmInitFailed, HwmFaulted, HwmFatallyFaulted] kOperationalHardware \<and>
          CheckAnyInOneOfStates (state_manager c) [HwmMotionEnabled] kOperationalHardware
      then request_transition TR_kDisableMotionSkipCellControlHardware else rt_return ()) c = (Inr (), d)"
    using assms by (simp add: preempt_faults_def rt_bind_gets Let_def severe_fault_def)
  show ?thesis
  proof (cases "severe_fault (state_manager c) \<and> CheckAnyInOneOfStates (state_manager c) [HwmMotionEnabled] kAllHardware")
    case True
    then have "request_transition TR_kDisableMotion c = (Inr (), d)" using run by simp
    from request_transition_outcome[OF this] enabled_may_start(1) True show ?thesis by auto
  next
    case False
    then show ?thesis
      using run request_transition_outcome[of TR_kDisableMotionSkipCellControlHardware c "Inr ()" d]
        enabled_may_start(2)[of "state_manager c"]
      by (auto simp: rt_return_def split: if_splits)
  qed
qed

lemma HandleSafetyStatus_frame:
  assumes "HandleSafetyStatus c = (r, d)"
  shows "state_manager d = state_manager c"
proof -
  let ?c = "c\<lparr>part_manager := (part_manager c)\<lparr>current_safety_status := safety_handle c\<rparr>,
    latest_mode := mode_of_safe_operation (safety_handle c)\<rparr>"
  obtain u where u: "SetSessionManagerErrorCleanupNotification (Error Aborted) ?c = (Inr (), u)"
    and "all_ended (Error Aborted) ?c u" by (rule end_sessions_eq)
  then have "same_outside ?c u" by (simp add: sessions_ended_def)
  from same_outside_fields(1)[OF this] have "state_manager u = state_manager c" by simp
  then show ?thesis using assms u
    by (auto simp: HandleSafetyStatus_def on_pm_def SetSafetyStatus_def rt_defs split: if_splits)
qed

section \<open>Answers to commands\<close>

text \<open>Why a command may be answered with OK: the expected state is reached, or its request was pending already,
  or no module has anything to do.\<close>

definition command_ok :: "'w hwm_sys \<Rightarrow> op_command \<Rightarrow> bool" where
  "command_ok s cmd \<longleftrightarrow> expected_state cmd = Some (GetCombinedOperationalState s) \<or>
     (\<exists>request. request_of cmd = Some request \<and>
        (pending_transition_request s = Some request \<or> \<not> may_start request s))"

definition answers ::
  "(op_command \<Rightarrow> bool) \<Rightarrow> ('w, 'ps) control_sys \<Rightarrow> (op_command \<times> rt_status) list \<Rightarrow> ('w, 'ps) control_sys \<Rightarrow> bool" where
  "answers ok c xs d \<longleftrightarrow> command_results d = command_results c @ xs \<and>
     hwms (state_manager d) = hwms (state_manager c) \<and> length xs \<le> 1 \<and>
     (xs \<noteq> [] \<longrightarrow> current_command d = None) \<and> (\<forall>(cmd, st) \<in> set xs. st = OkStatus \<longrightarrow> ok cmd)"

definition state_reached :: "'w hwm_sys \<Rightarrow> op_command \<Rightarrow> bool" where
  "state_reached s cmd \<longleftrightarrow> expected_state cmd = Some (GetCombinedOperationalState s)"

lemma take_command_frame:
  assumes "take_command c = (r, d)"
  shows "r = Inr () \<and> state_manager d = state_manager c \<and> command_results d = command_results c"
proof -
  let ?I = "\<lambda>d. state_manager d = state_manager c \<and> command_results d = command_results c"
  have spec: "rt_spec ?I take_command (\<lambda>_. ?I) (\<lambda>_ _. False)"
    unfolding take_command_def
    by (intro rt_spec_bind[where R = "\<lambda>_. ?I"] rt_spec_gets rt_spec_when rt_spec_modify)
       (auto split: option.split list.split)
  show ?thesis
  proof (cases r)
    case (Inl e)
    then show ?thesis using rt_specD_Inl[OF spec, of c e d] assms by simp
  next
    case (Inr x)
    then show ?thesis using rt_specD_Inr[OF spec, of c x d] assms by simp
  qed
qed

lemma TryLock_Inr:
  "TryLockAndExecute h m c = (Inr (h', x), d) \<longleftrightarrow> h' = h\<lparr>call_attempts := Suc (call_attempts h)\<rparr> \<and>
     (if call_lock h (call_attempts h) then \<exists>y. x = Some y \<and> m c = (Inr y, d) else x = None \<and> d = c)"
  by (auto simp: TryLockAndExecute_def Let_def rt_bind_Inr rt_return_Inr)

lemma on_rsm_RequestTransition:
  fixes c d :: "('w, 'ps) control_sys"
  assumes "rt_try (on_rsm (RequestTransition request)) c = (Inr q, d)"
  shows "hwms (state_manager d) = hwms (state_manager c) \<and> command_results d = command_results c \<and>
    current_command d = current_command c \<and>
    (q = Inl OkStatus \<longrightarrow> pending_transition_request (state_manager c) = Some request) \<and>
    (q = Inr None \<longrightarrow> \<not> may_start request (state_manager c))"
proof -
  let ?s = "(state_manager c)\<lparr>hw := world (part_manager c)\<rparr>"
  obtain p u where p: "RequestTransition request ?s = (p, u)" by fastforce
  have "hwms u = hwms (state_manager c)" "p = Inl OkStatus \<longrightarrow> pending_transition_request (state_manager c) = Some request"
    "p = Inr None \<longrightarrow> \<not> may_start request (state_manager c)"
    using p by (auto simp: RequestTransition_result may_start_def split: option.splits if_splits)
  moreover have "q = p" "d = c\<lparr>state_manager := u, part_manager := (part_manager c)\<lparr>world := hw u\<rparr>\<rparr>"
    using assms by (auto simp: rt_try_def on_rsm_def p split: sum.splits if_splits)
  ultimately show ?thesis by simp
qed

lemma begin_command_result:
  fixes c d :: "('w, 'ps) control_sys"
  assumes "begin_command cmd c = (Inr (res, command_id), d)"
  shows "hwms (state_manager d) = hwms (state_manager c) \<and> command_results d = command_results c \<and>
    (case command_id of
       None \<Rightarrow> fst res = FS_kDone \<and> (\<exists>st. snd res = Some st \<and> (st = OkStatus \<longrightarrow> command_ok (state_manager c) cmd))
     | Some _ \<Rightarrow> fst res = FS_kRunning)"
proof (cases "request_of cmd")
  case None
  then show ?thesis using assms by (auto simp: begin_command_def rt_return_Inr)
next
  case (Some request)
  then obtain q where q: "rt_try (on_rsm (RequestTransition request)) c = (Inr q, d)"
    and res: "(res, command_id) = (case q of
              Inl e \<Rightarrow> ((FS_kDone, Some e), None)
            | Inr None \<Rightarrow> ((FS_kDone, Some OkStatus), None)
            | Inr (Some command_id) \<Rightarrow> ((FS_kRunning, None), Some command_id))"
    using assms by (auto simp: begin_command_def rt_bind_Inr rt_return_Inr)
  from on_rsm_RequestTransition[OF q] res Some show ?thesis
    by (auto simp: command_ok_def split: sum.splits option.splits)
qed

lemma start_command_result:
  assumes "start_command h c = (Inr b, d)"
  shows "\<exists>xs. answers (command_ok (state_manager c)) c xs d \<and> (b \<longrightarrow> xs = [])"
proof -
  from assms obtain p u where p: "TryLockAndExecute (ch_handle h) (begin_command (call_args (ch_handle h))) c = (Inr p, u)"
    and k: "(case p of (h', r) \<Rightarrow> case r of
       None \<Rightarrow> rt_bind (rt_modify (\<lambda>c. c\<lparr>current_command := Some (h\<lparr>ch_handle := h'\<rparr>)\<rparr>)) (\<lambda>_. rt_return False)
     | Some (res, command_id) \<Rightarrow>
         rt_bind (answer_command h res) (\<lambda>_.
         rt_bind (rt_modify (\<lambda>c. c\<lparr>current_command :=
            (if command_id = None then None else Some (h\<lparr>ch_handle := h', ch_command_id := command_id\<rparr>))\<rparr>)) (\<lambda>_.
           rt_return (command_id \<noteq> None)))) u = (Inr b, d)"
    unfolding start_command_def by (subst (asm) rt_bind_Inr) blast
  obtain h' x where t: "p = (h', x)" by (cases p)
  show ?thesis
  proof (cases x)
    case None
    then show ?thesis using p t k
      by (auto simp: TryLock_Inr rt_bind_modify rt_return_Inr answers_def split: if_splits)
  next
    case (Some y)
    obtain res command_id where y: "y = (res, command_id)" by (cases y)
    then have run: "begin_command (call_args (ch_handle h)) c = (Inr (res, command_id), u)"
      using p t Some by (auto simp: TryLock_Inr split: if_splits)
    show ?thesis using k t Some y begin_command_result[OF run]
      by (cases command_id; cases "from_client h")
         (auto simp: answer_command_def rt_bind_modify rt_return_Inr answers_def function_finished_def)
  qed
qed

lemma poll_command_ok:
  assumes "poll_command cmd command_id s = (st, x)" "function_finished st"
  shows "\<exists>v. x = Some v \<and> (v = OkStatus \<longrightarrow> state_reached s cmd)"
  using assms
  by (auto simp: poll_command_def CheckCommandState_def function_finished_def GetRequestStateOf_def state_reached_def
      split: option.splits sum.splits if_splits request_state.splits)

lemma continue_command_result:
  assumes "continue_command h c = (Inr (), d)"
  shows "\<exists>xs. answers (state_reached (state_manager c)) c xs d"
proof -
  let ?poll = "poll_command (call_args (ch_handle h)) (ch_command_id h) (state_manager c)"
  from assms obtain p u where p: "TryLockAndExecute (ch_handle h) (rt_gets (\<lambda>c. poll_command (call_args (ch_handle h))
      (ch_command_id h) (state_manager c))) c = (Inr p, u)"
    and k: "(case p of (h', r) \<Rightarrow> case r of
       None \<Rightarrow> rt_modify (\<lambda>c. c\<lparr>current_command := Some (h\<lparr>ch_handle := h'\<rparr>)\<rparr>)
     | Some res \<Rightarrow>
         rt_bind (answer_command h res) (\<lambda>_.
           rt_modify (\<lambda>c. c\<lparr>current_command :=
             (if function_finished (fst res) then None else Some (h\<lparr>ch_handle := h'\<rparr>))\<rparr>))) u = (Inr (), d)"
    unfolding continue_command_def by (subst (asm) rt_bind_Inr) blast
  obtain h' x where t: "p = (h', x)" by (cases p)
  have u: "u = c" "x = None \<or> x = Some ?poll" using p t by (auto simp: TryLock_Inr rt_gets_Inr split: if_splits)
  have "function_finished (fst ?poll) \<Longrightarrow> \<exists>v. snd ?poll = Some v \<and>
      (v = OkStatus \<longrightarrow> state_reached (state_manager c) (call_args (ch_handle h)))"
    using poll_command_ok[OF prod.collapse[symmetric]] by blast
  then show ?thesis using k t u
    by (cases x; cases "from_client h \<and> function_finished (fst ?poll)")
       (auto simp: answer_command_def rt_bind_modify rt_modify_Inr answers_def)
qed

lemma run_command_answers:
  assumes "run_command c = (Inr (), d)"
  shows "\<exists>xs. answers (command_ok (state_manager c)) c xs d"
proof -
  obtain c1 where c1: "take_command c = (Inr (), c1)" and k: "(case current_command c1 of
       None \<Rightarrow> rt_return ()
     | Some h \<Rightarrow>
         rt_bind (if ch_command_id h = None then start_command h else rt_return True) (\<lambda>go_on.
         if \<not> go_on then rt_return ()
         else
           rt_bind (rt_gets current_command) (\<lambda>current.
             case current of None \<Rightarrow> rt_return () | Some h \<Rightarrow> continue_command h))) c1 = (Inr (), d)"
    using assms by (auto simp: run_command_def rt_bind_Inr rt_gets_Inr)
  have frame: "state_manager c1 = state_manager c" "command_results c1 = command_results c"
    using take_command_frame[OF c1] by simp_all
  have lift: "answers ok c xs e" if "answers ok c1 xs e" for ok xs e
    using that by (simp add: answers_def frame)
  show ?thesis
  proof (cases "current_command c1")
    case None
    then have "answers (command_ok (state_manager c)) c1 [] d" using k by (simp add: rt_return_Inr answers_def)
    then show ?thesis using lift by blast
  next
    case (Some h)
    with k have "rt_bind (if ch_command_id h = None then start_command h else rt_return True) (\<lambda>go_on.
         if \<not> go_on then rt_return ()
         else
           rt_bind (rt_gets current_command) (\<lambda>current.
             case current of None \<Rightarrow> rt_return () | Some h \<Rightarrow> continue_command h)) c1 = (Inr (), d)" by simp
    then obtain go_on c2 where c2: "(if ch_command_id h = None then start_command h else rt_return True) c1 = (Inr go_on, c2)"
      and k2: "(if \<not> go_on then rt_return ()
         else
           rt_bind (rt_gets current_command) (\<lambda>current.
             case current of None \<Rightarrow> rt_return () | Some h \<Rightarrow> continue_command h)) c2 = (Inr (), d)"
      by (subst (asm) rt_bind_Inr) blast
    obtain xs where xs: "answers (command_ok (state_manager c)) c xs c2" "go_on \<Longrightarrow> xs = []"
    proof (cases "ch_command_id h = None")
      case True
      then show ?thesis using that start_command_result[of h c1 go_on c2] c2 lift frame by auto
    next
      case False
      then show ?thesis using that[of "[]"] c2 by (auto simp: rt_return_Inr answers_def frame)
    qed
    show ?thesis
    proof (cases "go_on \<and> current_command c2 \<noteq> None")
      case False
      then have "d = c2" using k2 by (auto simp: rt_return_Inr rt_bind_gets split: if_splits)
      then show ?thesis using xs(1) by blast
    next
      case True
      then obtain h2 where "continue_command h2 c2 = (Inr (), d)" using k2 by (auto simp: rt_bind_gets)
      from continue_command_result[OF this] obtain ys where ys: "answers (state_reached (state_manager c2)) c2 ys d" ..
      have "hwms (state_manager c2) = hwms (state_manager c)" using xs(1) by (simp add: answers_def)
      then have "state_reached (state_manager c2) cmd \<Longrightarrow> command_ok (state_manager c) cmd" for cmd
        by (simp add: state_reached_def command_ok_def GetCombinedOperationalState_def)
      then have "answers (command_ok (state_manager c)) c ys d"
        using ys xs True by (auto simp: answers_def)
      then show ?thesis by blast
    qed
  qed
qed

section \<open>Control of the parts\<close>

lemma pm_inv_closed: "pm_inv s \<Longrightarrow> pm_inv (closed_state s)"
  by (simp add: pm_inv_def closed_state_def clear_session_def all_set_conv_all_nth released_parts_def released_def
      exclusive_control_def; auto split: if_splits)

lemma pm_inv_failed: "pm_inv s \<Longrightarrow> pm_inv (failed_state e s)"
  unfolding failed_state_def by (rule pm_inv_closed) (simp add: pm_inv_def)

interpretation pm: session_inv pm_inv
proof
  show "pm_inv t" if "part_infos t = part_infos s" "pm_inv s" for s t :: "('a, 'b, 'c) session_sys_scheme"
    using that by (simp add: pm_inv_def)
  show "pm_inv (upd_part i (\<lambda>p. p\<lparr>controlled_by := Some a, safety_action_active := False\<rparr>) s)" if "pm_inv s"
    for i a and s :: "('a, 'b, 'c) session_sys_scheme"
    by (rule pm_inv_upd_part[OF _ that]) (simp add: exclusive_control_def)
qed (simp_all add: pm_inv_closed pm_inv_failed)

lemma pm_inv_Create: "rt_inv pm_inv (Create sid parts ctx safety)"
proof -
  have "rt_inv pm_inv CleanupAndNotify"
    by (rule rt_specI) (auto simp: CleanupAndNotify_eq pm_inv_closed)
  then show ?thesis unfolding Create_def by (intro rt_rules pm_inv_SetPartContext) simp_all
qed

definition parts_exclusive :: "('w, 'ps) control_sys \<Rightarrow> bool" where
  "parts_exclusive c \<longleftrightarrow> pm_inv (part_manager c)"

lemma exclusive_pm: "rt_inv pm_inv m \<Longrightarrow> rt_inv parts_exclusive (on_pm m)"
  by (fastforce simp: rt_spec_def on_pm_def parts_exclusive_def split: prod.splits sum.splits)

lemma exclusive_session:
  assumes "rt_inv pm_inv m"
  shows "rt_inv parts_exclusive (on_session i m)"
proof -
  have "parts_exclusive (snd (on_session i m c))" if "parts_exclusive c" for c
    using rt_invD[OF assms, of "load_session c i"] that
    by (auto simp: on_session_def parts_exclusive_def pm_inv_def rt_sys.defs split: prod.splits)
  then show ?thesis by (fastforce simp: rt_spec_def split: prod.splits sum.splits)
qed

lemma exclusive_rsm: "rt_inv parts_exclusive (on_rsm m)"
  by (auto simp: rt_spec_def on_rsm_def parts_exclusive_def pm_inv_def split: prod.splits sum.splits)

lemma exclusive_create: "rt_inv parts_exclusive (create_session a i)"
proof -
  have "rt_inv pm_inv CleanupAndNotify" by (rule rt_specI) (auto simp: CleanupAndNotify_eq pm_inv_closed)
  then show ?thesis unfolding create_session_def
    by (intro rt_rules exclusive_session pm_inv_Create) (simp_all add: default_session_def)
qed

interpretation exclusive_frame: control_frame E parts_exclusive for E
proof
  show "rt_inv parts_exclusive (on_rsm (RequestTransition r))" for r by (rule exclusive_rsm)
  show "parts_exclusive (end_session st i c)" if "parts_exclusive c" for st i and c :: "('a, 'b) control_sys"
    using that pm_inv_failed[of "load_session c i" st]
    by (simp add: parts_exclusive_def end_session_def pm_inv_def rt_sys.defs)
qed (simp add: parts_exclusive_def)

lemma exclusive_finish: "rt_inv parts_exclusive (finish_parts E)"
  unfolding finish_parts_def
  by (rule rt_inv_finally, rule exclusive_pm, rule pm_inv_Finish) (simp add: parts_exclusive_def)

lemma on_session_bound:
  assumes "rt_inv I (on_session i m)"
  shows "rt_inv (\<lambda>c. I c \<and> i < length (session_managers c)) (on_session i m)"
  by (rule rt_specI)
     (auto dest: rt_specD_Inr[OF assms] rt_specD_Inl[OF assms] simp: on_session_def split: prod.splits)

interpretation exclusive: control_cycle_inv E parts_exclusive for E
  by unfold_locales
     (intro exclusive_frame.start_from_create exclusive_create exclusive_rsm exclusive_pm on_session_bound
       exclusive_session exclusive_finish pm_inv_Begin pm.keeps_ExecuteCycle;
      simp add: SetSafetyStatus_def pm_inv_modify)+

section \<open>Sessions and slots\<close>

text \<open>What a running session in slot \<open>i\<close> of a controller with \<open>n\<close> parts may hold.\<close>

definition fits :: "nat \<Rightarrow> nat \<Rightarrow> nat list \<Rightarrow> bool" where
  "fits n i P \<longleftrightarrow> (if i < n then P \<noteq> [] \<and> Min (set P) = i \<and> set P \<subseteq> {..<n} else P = [])"

definition slot_ok :: "nat \<Rightarrow> nat \<Rightarrow> ('w, 'ps) session_sys \<Rightarrow> bool" where
  "slot_ok n i s \<longleftrightarrow> length (part_infos s) = n \<and> (has_channels s \<longrightarrow> fits n i (part_indices s))"

definition slots_ok :: "nat \<Rightarrow> ('w, 'ps) control_sys \<Rightarrow> bool" where
  "slots_ok n c \<longleftrightarrow> length (part_infos (part_manager c)) = n \<and>
     length (session_managers c) = n + kMaxNumberOfMonitoringSessions \<and>
     (\<forall>i < length (session_managers c). has_channels (session_managers c ! i) \<longrightarrow>
        fits n i (part_indices (session_managers c ! i)))"

interpretation slot: session_inv "slot_ok n i" for n i
  by unfold_locales
     (auto simp: slot_ok_def closed_state_def clear_session_def released_parts_def failed_state_def)

lemma slot_ok_Cleanup: "rt_inv (slot_ok n i) CleanupAndNotify"
  by (rule rt_specI) (auto simp: CleanupAndNotify_eq slot.closed)

lemma slot_ok_Create:
  assumes "fits n i parts"
  shows "rt_inv (slot_ok n i) (Create sid parts ctx safety)"
proof -
  have "rt_inv (slot_ok n i) (rt_modify (upd_part j f))" for j f
    by (rule rt_spec_modify) (simp add: slot_ok_def)
  then have ctx: "rt_inv (slot_ok n i) (SetPartContext j x)" for j x
    unfolding SetPartContext_def by (intro rt_rules)
  have set: "rt_inv (slot_ok n i) (rt_modify g)" if "\<And>s. part_infos (g s) = part_infos s" "\<And>s. part_indices (g s) = parts" for g
    by (rule rt_spec_modify) (simp add: slot_ok_def that assms)
  show ?thesis unfolding Create_def by (intro rt_rules set ctx slot_ok_Cleanup) simp_all
qed

lemma slots_session:
  assumes "rt_inv (slot_ok n i) m" "i < n + kMaxNumberOfMonitoringSessions"
  shows "rt_inv (slots_ok n) (on_session i m)"
proof -
  have "slots_ok n (snd (on_session i m c))" if c: "slots_ok n c" for c
  proof -
    have "slot_ok n i (load_session c i)" using c assms(2) by (simp add: slots_ok_def slot_ok_def)
    from rt_invD[OF assms(1) this] show ?thesis
      using c assms(2)
      by (auto simp: on_session_def slots_ok_def slot_ok_def rt_sys.defs nth_list_update split: prod.splits)
  qed
  then show ?thesis by (fastforce simp: rt_spec_def split: prod.splits sum.splits)
qed

lemma slots_create:
  assumes "fits n i (st_parts a)" "i < n + kMaxNumberOfMonitoringSessions"
  shows "rt_inv (slots_ok n) (create_session a i)"
proof -
  have off: "rt_inv (slot_ok n i) (rt_modify default_session)"
    by (rule rt_spec_modify) (simp add: slot_ok_def default_session_def)
  have on: "rt_inv (slot_ok n i) (rt_modify (\<lambda>s. s\<lparr>channels := x\<rparr>))" for x
    by (rule slot.modify) simp_all
  show ?thesis unfolding create_session_def
    by (intro rt_rules slots_session assms(2) off on slot_ok_Cleanup slot_ok_Create assms(1))
qed

lemma slots_rsm: "rt_inv (slots_ok n) (on_rsm m)"
  by (auto simp: rt_spec_def on_rsm_def slots_ok_def split: prod.splits sum.splits)

lemma nth_upd_cond: "j < length xs \<Longrightarrow> xs[i := x] ! j = (if j = i then x else xs ! j)"
  by (cases "i < length xs") (auto simp: nth_list_update list_update_beyond)

lemma has_channels_failed [simp]: "\<not> has_channels (failed_state e s)"
  by (simp add: failed_state_def)

interpretation slots_frame: control_frame E "slots_ok n" for E n
proof
  show "rt_inv (slots_ok n) (on_rsm (RequestTransition r))" for r by (rule slots_rsm)
  show "slots_ok n (end_session st i c)" if "slots_ok n c" for st i and c :: "('a, 'b) control_sys"
    using that
    by (auto simp: slots_ok_def session_managers_end_session part_infos_end_session released_parts_def nth_upd_cond
        split: if_splits)
qed (simp add: slots_ok_def)

lemma finished_exists: "safety_action_finished E c p \<Longrightarrow> p < length (part_infos (part_manager c))"
  by (rule ccontr)
     (simp add: safety_action_finished_def CheckUnfinishedSafetyAction_def rt_fn_def rt_bind_gets rt_fail_def)

lemma slots_find:
  "rt_spec (slots_ok n)
     (case st_parts a of [] \<Rightarrow> rt_gets monitoring_slot | i # is \<Rightarrow> control_slot E (i # is) i)
     (\<lambda>x d. slots_ok n d \<and>
        (\<forall>i. x = StartAt i \<longrightarrow> fits n i (st_parts a) \<and> i < n + kMaxNumberOfMonitoringSessions)) (\<lambda>_. slots_ok n)"
proof (cases "st_parts a")
  case Nil
  have "fits n i [] \<and> i < n + kMaxNumberOfMonitoringSessions"
    if "slots_ok n c" "monitoring_slot c = StartAt i" for c :: "('a, 'b) control_sys" and i
    using that by (auto simp: monitoring_slot_def slots_ok_def fits_def find_Some_iff split: if_splits option.splits)
  then show ?thesis unfolding Nil by (auto intro!: rt_spec_gets)
next
  case (Cons p ps)
  have "fits n i (p # ps) \<and> i < n + kMaxNumberOfMonitoringSessions"
    if c: "slots_ok n c" and run: "control_slot E (p # ps) p c = (Inr (StartAt i), d)"
    for c d :: "('a, 'b) control_sys" and i
  proof -
    have "i = Min (set (p # ps))" "set (p # ps) \<subseteq> {..<n}"
      using control_slot_at[OF run] finished_exists[of E c] c by (auto simp: slots_ok_def)
    moreover from this have "i \<in> set (p # ps)" by (metis List.finite_set Min_in list.distinct(1) set_empty)
    ultimately show ?thesis by (auto simp: fits_def)
  qed
  moreover have "rt_inv (slots_ok n) (control_slot E (p # ps) p)" by (rule slots_frame.slot)
  ultimately show ?thesis unfolding Cons list.case
    by (intro rt_specI) (auto dest: rt_specD_Inr rt_specD_Inl simp del: control_slot.simps)
qed

lemma slots_start: "rt_inv (slots_ok n) (start_session E a)"
  unfolding start_session_def
proof (rule rt_spec_bind[OF slots_find])
  fix x
  show "rt_spec (\<lambda>d. slots_ok n d \<and>
        (\<forall>i. x = StartAt i \<longrightarrow> fits n i (st_parts a) \<and> i < n + kMaxNumberOfMonitoringSessions))
      (case x of StartLater \<Rightarrow> rt_return (FS_kRunning, Error Unknown) | StartFailed e \<Rightarrow> rt_return (FS_kDone, e)
       | StartAt i \<Rightarrow> rt_bind (create_session a i) (\<lambda>st. rt_return (FS_kDone, st))) (\<lambda>_. slots_ok n) (\<lambda>_. slots_ok n)"
  proof (cases x)
    case (StartAt i)
    show ?thesis
    proof (cases "fits n i (st_parts a) \<and> i < n + kMaxNumberOfMonitoringSessions")
      case True
      then have "rt_inv (slots_ok n) (rt_bind (create_session a i) (\<lambda>st. rt_return (FS_kDone, st)))"
        by (intro rt_rules slots_create) simp_all
      then show ?thesis unfolding StartAt by (auto elim: rt_spec_pre[rotated])
    qed (auto simp: StartAt rt_spec_def)
  qed (auto intro: rt_spec_return)
qed

definition sized :: "nat \<Rightarrow> ('w, 'ps) rt_sys \<Rightarrow> bool" where
  "sized n s \<longleftrightarrow> length (part_infos s) = n"

lemma sized_modify: "(\<And>s. length (part_infos (g s)) = length (part_infos s)) \<Longrightarrow> rt_inv (sized n) (rt_modify g)"
  by (rule rt_spec_modify) (simp add: sized_def)

lemma sized_world: "rt_inv (sized n) (world_call f)"
  by (auto simp: rt_spec_def world_call_def sized_def split: prod.splits)

lemma sized_finally: "rt_inv (sized n) m \<Longrightarrow> (\<And>s. part_infos (g s) = part_infos s) \<Longrightarrow> rt_inv (sized n) (rt_finally m g)"
  by (rule rt_inv_finally) (auto simp: sized_def)

lemma slots_pm:
  assumes "rt_inv (sized n) m"
  shows "rt_inv (slots_ok n) (on_pm m)"
proof -
  have "slots_ok n (snd (on_pm m c))" if "slots_ok n c" for c
    using rt_invD[OF assms, of "part_manager c"] that
    by (cases "m (part_manager c)") (simp add: on_pm_def slots_ok_def sized_def)
  then show ?thesis by (intro rt_specI) (metis snd_conv)+
qed

lemma sized_Begin: "rt_inv (sized n) (BeginCycle E t wall c)"
  unfolding BeginCycle_def begin_cycle_part_def push_part_status_def check_properties_def
  by (intro rt_rules sized_finally sized_modify sized_world) simp_all

lemma sized_Run: "rt_inv (sized n) (RunSafetyActionIfRequired E i)"
  unfolding RunSafetyActionIfRequired_def EnterSafetyActionIfRequired_def GetSlotMapForAction_def
    safety_action_handle_def upd_safety_io_def
  by (intro rt_rules sized_modify sized_world) (auto split: state_value.split intro: rt_rules)

lemma sized_finish_part: "rt_inv (sized n) (finish_cycle_part E i acc)"
  unfolding finish_cycle_part_def by (intro rt_rules sized_modify sized_Run) simp_all

lemma sized_Finish: "rt_inv (sized n) (FinishCycle E)"
proof -
  have loop: "rt_inv (sized n) (finish_cycle_loop E is acc)" for "is" acc
    by (induction "is" arbitrary: acc) (auto intro!: rt_rules sized_finish_part)
  have apply_loop: "rt_inv (sized n) (apply_commands E is st)" for "is" st
    by (induction "is" arbitrary: st) (auto simp: check_properties_def intro!: rt_rules sized_world)
  show ?thesis unfolding FinishCycle_def push_contexts_def publish_status_def
    by (intro rt_rules sized_finally sized_modify loop apply_loop) (auto split: option.split)
qed

interpretation slots_kept: control_cycle_inv E "slots_ok n" for E n
proof
  show "rt_inv (slots_ok n) (finish_parts E)"
    unfolding finish_parts_def
    by (rule rt_inv_finally, rule slots_pm, rule sized_Finish) (simp add: slots_ok_def)
  show "rt_inv (\<lambda>c. slots_ok n c \<and> i < length (session_managers c)) (on_session i (ExecuteCycle E v rs))" for i v rs
  proof (cases "i < n + kMaxNumberOfMonitoringSessions")
    case True
    show ?thesis by (intro on_session_bound slots_session slot.keeps_ExecuteCycle True)
  qed (auto simp: rt_spec_def slots_ok_def)
qed (intro slots_start slots_rsm slots_pm sized_Begin; simp add: SetSafetyStatus_def sized_modify)+

section \<open>Waiting for locks\<close>

lemma lock_wait_Some: "lock_wait lock n = Some m \<Longrightarrow> lock m \<and> n \<le> m"
  by (rule lock_wait.raw_induct[of "\<lambda>l n m. l m \<and> n \<le> m"]) (fastforce split: if_splits)+

lemma lock_wait_ends:
  assumes "lock (n + k)"
  shows "lock_wait lock n \<noteq> None"
  using assms
proof (induction k arbitrary: n)
  case 0
  then show ?case by (simp add: lock_wait.simps)
next
  case (Suc k)
  then show ?case using Suc.IH[of "Suc n"] by (simp add: lock_wait.simps[of lock n])
qed

definition lock_released :: "op_command rt_handle \<Rightarrow> bool" where
  "lock_released h \<longleftrightarrow> (\<exists>n \<ge> call_attempts h. call_lock h n)"

lemma lock_wait_iff: "lock_wait (call_lock h) (call_attempts h) \<noteq> None \<longleftrightarrow> lock_released h"
proof
  assume "lock_released h"
  then obtain k where "call_lock h (call_attempts h + k)" by (auto simp: lock_released_def le_iff_add)
  then show "lock_wait (call_lock h) (call_attempts h) \<noteq> None" by (rule lock_wait_ends)
next
  assume "lock_wait (call_lock h) (call_attempts h) \<noteq> None"
  then obtain m where "lock_wait (call_lock h) (call_attempts h) = Some m" by blast
  from lock_wait_Some[OF this] show "lock_released h" by (auto simp: lock_released_def)
qed

lemma abort_command_eq:
  "abort_command st client h c = (if lock_released h then
     Some (if client then c\<lparr>command_results := command_results c @ [(call_args h, st)]\<rparr> else c) else None)"
  using lock_wait_iff[of h] by (auto simp: abort_command_def split: option.split)

lemma abort_commands_eq:
  "abort_commands st hs c = (if list_all lock_released hs then
     Some (c\<lparr>command_results := command_results c @ map (\<lambda>h. (call_args h, st)) hs\<rparr>) else None)"
  by (induction hs arbitrary: c) (simp_all add: abort_command_eq)

section \<open>Samples\<close>

text \<open>A controller with two parts and two hardware modules in given states. A session runs on both parts; the slot
  of the second part and the ten slots for monitoring are free.\<close>

definition free_slot :: "(nat, nat) session_sys" where
  "free_slot = (sample_session_sys sample_session [None, None])\<lparr>has_channels := False, current_session := None,
     part_indices := []\<rparr>"

definition sample_control :: "state_code \<Rightarrow> state_code \<Rightarrow> (nat, nat) control_sys" where
  "sample_control a b = \<lparr>
     part_manager = sample_sys\<lparr>cycle_start := None, part_infos := map (\<lambda>p. p\<lparr>controlled_by := None\<rparr>) (part_infos sample_sys)\<rparr>,
     session_managers = sample_session_sys sample_session [Some 2, None] # replicate 11 free_slot,
     state_manager = \<lparr>hw = 0, started = \<lambda>_. False, hwms = [sample_hwm a, sample_hwm b], clock_driver = None,
       pending_transition_request = None, current_command_id = 0, request_timeout = 60, transitions_paused = False,
       cached_request_state = RS_kDone, combined_fault_reason = None\<rparr>,
     safety_handle = current_safety_status sample_sys, start_calls = [], current_start = None, start_results = [],
     command_calls = [], current_command = None, command_results = [], command_bridge_closed = False,
     command_ever_set = True,
     status_buffer = mk_AsyncBuffer \<lparr>operational = \<lparr>ros_state = Rt_kDisabled, ros_fault_reason = []\<rparr>,
       cell_control = \<lparr>ros_state = Rt_kDisabled, ros_fault_reason = []\<rparr>\<rparr>,
     speed_override_buffer = Fin 1, latest_mode = MSO_AUTOMATIC, latest_enable_button = BS_UNKNOWN\<rparr>"

definition sample_control_env :: "state_code \<Rightarrow> state_code \<Rightarrow> nat hwm_env" where
  "sample_control_env a b = \<lparr>is_connected = \<lambda>_. True, post_request = \<lambda>c w. (OkStatus, w),
     try_wait_response = \<lambda>c w. (Some False, w), response_value = \<lambda>c w. (kPosted, w),
     await_response = \<lambda>c d w. (OkStatus, w), clock_now = \<lambda>w. (0, w),
     hw_state = \<lambda>i w. ((if i = 0 then a else b, []), w), hw_mark_cycle = \<lambda>i w. ((), w)\<rparr>"

definition sample_safety_env :: "nat safety_env" where
  "sample_safety_env = \<lparr>safety_inputs = \<lambda>w. [Some (current_safety_status sample_sys)], pause_signal = \<lambda>w. None\<rparr>"

definition prepared :: "(nat, nat) plugins \<Rightarrow> state_code \<Rightarrow> state_code \<Rightarrow> nat robot_status status_or \<times> (nat, nat) control_sys" where
  "prepared E a b = PreUpdateSessions E (sample_control_env a b) 5 0 1
     (snd (UpdateSafety sample_safety_env (sample_control HwmMotionEnabled HwmMotionEnabled)))"

definition silent_plugins :: "(nat, nat) plugins" where
  "silent_plugins = sample_plugins\<lparr>ReadStatus := \<lambda>i w. (Error DeadlineExceeded, w)\<rparr>"

lemma Shutdown_result:
  "(Shutdown st c \<noteq> None \<longleftrightarrow>
      list_all lock_released (command_calls c) \<and>
      (case current_command c of None \<Rightarrow> True | Some h \<Rightarrow> lock_released (ch_handle h))) \<and>
   (\<forall>d. Shutdown st c = Some d \<longrightarrow>
      command_bridge_closed d \<and> current_command d = None \<and> command_calls d = [] \<and>
      command_results d = command_results c @
        (case current_command c of None \<Rightarrow> [] | Some h \<Rightarrow> if from_client h then [(call_args (ch_handle h), st)] else []) @
        map (\<lambda>h. (call_args h, st)) (command_calls c) \<and>
      (\<forall>i < length (session_managers c). ended st (session_managers c ! i) (session_managers d ! i)))"
proof -
  define xs where "xs = (case current_command c of None \<Rightarrow> []
    | Some h \<Rightarrow> if from_client h then [(call_args (ch_handle h), st)] else [])"
  define ok where "ok \<longleftrightarrow> list_all lock_released (command_calls c) \<and>
      (case current_command c of None \<Rightarrow> True | Some h \<Rightarrow> lock_released (ch_handle h))"
  let ?c = "c\<lparr>command_bridge_closed := True, current_command := None, command_calls := [],
    command_results := command_results c @ xs @ map (\<lambda>h. (call_args h, st)) (command_calls c)\<rparr>"
  obtain d where d: "SetSessionManagerErrorCleanupNotification st ?c = (Inr (), d)" "all_ended st ?c d"
    by (rule end_sessions_eq)
  have "Shutdown st c = (if ok then Some d else None)"
    using d(1) by (cases "current_command c"; cases c)
      (auto simp: Shutdown_def Let_def abort_commands_eq abort_command_eq ok_def xs_def)
  moreover have out: "same_outside ?c d" using d(2) by (simp add: sessions_ended_def)
  have "command_bridge_closed d" "current_command d = None" "command_calls d = []"
    "command_results d = command_results c @ xs @ map (\<lambda>h. (call_args h, st)) (command_calls c)"
    using same_outside_fields[OF out] by simp_all
  ultimately show ?thesis using d(2) by (auto simp: ok_def xs_def sessions_ended_def)
qed

section \<open>Properties\<close>

text \<open>C12 (error). When a cycle cannot be prepared - a part does not answer, a request of the controller is
  refused, the hardware is fatally faulted - it returns that error, and every session is over with it: the other
  side is told, and every part of a session loses its log context and its controller.\<close>

theorem failed_preparation_ends_all_sessions:
  assumes "PreUpdateSessions E H t wall n (snd (UpdateSafety S c)) = (Inl e, u)" "\<not> crash e" "e \<noteq> OkStatus"
    and "Update E H S t wall n c = (r, d)"
  shows "r = Inl e \<and> all_ended e u d"
  using assms(4) by (auto intro: Update_failed_preparation[OF assms(1-3)])

theorem failed_preparation_ends_all_sessions_witness:
  "\<not> has_channels (session_managers (snd (Update silent_plugins (sample_control_env HwmMotionEnabled HwmMotionEnabled)
     sample_safety_env 5 0 1 (sample_control HwmMotionEnabled HwmMotionEnabled))) ! 0)"
proof -
  have "fst (prepared silent_plugins HwmMotionEnabled HwmMotionEnabled) = Inl (Error DeadlineExceeded)"
    "0 < length (session_managers (snd (prepared silent_plugins HwmMotionEnabled HwmMotionEnabled)))" by code_simp+
  then have run: "prepared silent_plugins HwmMotionEnabled HwmMotionEnabled =
      (Inl (Error DeadlineExceeded), snd (prepared silent_plugins HwmMotionEnabled HwmMotionEnabled))"
    and n: "0 < length (session_managers (snd (prepared silent_plugins HwmMotionEnabled HwmMotionEnabled)))"
    by (metis prod.collapse)+
  from failed_preparation_ends_all_sessions[OF run[unfolded prepared_def] _ _ prod.collapse[symmetric]] n
  show ?thesis by (simp add: crash_def prepared_def sessions_ended_def ended_def)
qed

text \<open>C9 (safety). The error of one session ends all sessions, and motion ends: the request to disable motion
  is pending, or no module is enabled, unless another request is on its way, and then the cycle returns that
  error (on which its caller deactivates the hardware).\<close>

theorem failing_session_ends_all:
  assumes "PreUpdateSessions E H t wall n (snd (UpdateSafety S c)) = (Inr rs, u)"
    and "UpdateSessions E rs u = (Inl e, v)" "\<not> crash e"
    and "Update E H S t wall n c = (r, d)"
  shows "(\<forall>i < length (session_managers v). ended e (session_managers v ! i) (session_managers d ! i)) \<and>
    (motion_stops (state_manager d) \<or> r = Inl (Error ResourceExhausted))"
proof -
  have e: "e \<noteq> OkStatus" using real_error_UpdateSessions[OF assms(2,3)] .
  have "rt_try (PreUpdateSessions E H t wall n) (snd (UpdateSafety S c)) = (Inr (Inr rs), u)"
    "rt_try (UpdateSessions E rs) u = (Inr (Inl e), v)"
    using assms(1-3) by (simp_all add: rt_try_def)
  then have run: "rt_bind (end_all_sessions e)
      (\<lambda>_. rt_bind (rt_modify (\<lambda>c. c\<lparr>latest_enable_button := enable_button_status (safety_handle c)\<rparr>))
      (\<lambda>_. finish_parts E)) v = (r, d)"
    using assms(4) e by (simp add: Update_def rt_bind_run[OF UpdateSafety_eq] rt_bind_run rt_when_def)
  obtain q w where w: "end_all_sessions e v = (q, w)" by fastforce
  note effect = end_all_sessions_effect[OF w]
  show ?thesis
  proof (cases q)
    case (Inl x)
    then have "r = q" "d = w" using run w by (simp_all add: rt_bind_def)
    then show ?thesis using effect by blast
  next
    case (Inr x)
    then have "finish_parts E (w\<lparr>latest_enable_button := enable_button_status (safety_handle w)\<rparr>) = (r, d)"
      using run w by (simp add: rt_bind_run rt_bind_modify)
    from finish_parts_frame[OF this] effect Inr show ?thesis
      by (simp add: motion_stops_def CheckAnyInOneOfStates_def)
  qed
qed

definition failing_update :: "unit status_or \<times> (nat, nat) control_sys" where
  "failing_update = Update failing_plugins (sample_control_env HwmMotionEnabled HwmMotionEnabled)
     sample_safety_env 5 0 1 (sample_control HwmMotionEnabled HwmMotionEnabled)"

theorem failing_session_ends_all_witness:
  "\<not> has_channels (session_managers (snd failing_update) ! 0)"
proof -
  let ?pre = "prepared failing_plugins HwmMotionEnabled HwmMotionEnabled"
  let ?run = "UpdateSessions failing_plugins sample_robot_status (snd ?pre)"
  have "fst ?pre = Inr sample_robot_status" by code_simp
  then have pre: "?pre = (Inr sample_robot_status, snd ?pre)" by (metis prod.collapse)
  have "fst ?run = Inl (Error Internal)" by code_simp
  then have run: "?run = (Inl (Error Internal), snd ?run)" by (metis prod.collapse)
  have n: "0 < length (session_managers (snd ?run))" by code_simp
  from failing_session_ends_all[OF pre[unfolded prepared_def] run[unfolded prepared_def] _
      prod.collapse[symmetric]] n
  show ?thesis by (simp add: crash_def prepared_def failing_update_def ended_def)
qed

text \<open>A change of the mode of safe operation ends every session, in the cycle that sees it; as long
  as the mode stays, no session is touched.\<close>

theorem mode_change_ends_sessions:
  assumes "HandleSafetyStatus c = (r, d)"
  shows "r = Inr () \<and> latest_mode d = mode_of_safe_operation (safety_handle c) \<and>
    current_safety_status (part_manager d) = safety_handle c \<and>
    (if latest_mode c = latest_mode d then session_managers d = session_managers c
     else \<forall>i < length (session_managers c). ended (Error Aborted) (session_managers c ! i) (session_managers d ! i))"
proof (cases "latest_mode c = mode_of_safe_operation (safety_handle c)")
  case True
  then show ?thesis using assms
    by (auto simp: HandleSafetyStatus_def on_pm_def SetSafetyStatus_def rt_defs)
next
  case False
  let ?c = "c\<lparr>part_manager := (part_manager c)\<lparr>current_safety_status := safety_handle c\<rparr>,
    latest_mode := mode_of_safe_operation (safety_handle c)\<rparr>"
  obtain u where u: "SetSessionManagerErrorCleanupNotification (Error Aborted) ?c = (Inr (), u)"
    "all_ended (Error Aborted) ?c u" by (rule end_sessions_eq)
  have "HandleSafetyStatus c = (Inr (), u)"
    using False u(1) by (auto simp: HandleSafetyStatus_def on_pm_def SetSafetyStatus_def rt_defs)
  moreover have "same_outside ?c u" using u(2) by (simp add: sessions_ended_def)
  then have "latest_mode u = mode_of_safe_operation (safety_handle c)"
    "current_safety_status (part_manager u) = safety_handle c"
    by (simp_all add: same_outside_fields)
  ultimately show ?thesis using u(2) assms False by (auto simp: sessions_ended_def)
qed

definition teaching_control :: "(nat, nat) control_sys" where
  "teaching_control = (sample_control HwmMotionEnabled HwmMotionEnabled)\<lparr>safety_handle :=
     (current_safety_status sample_sys)\<lparr>mode_of_safe_operation := MSO_TEACH_PENDANT_1\<rparr>\<rparr>"

theorem mode_change_ends_sessions_witness:
  "\<not> has_channels (session_managers (snd (HandleSafetyStatus teaching_control)) ! 0)"
proof -
  have c: "latest_mode teaching_control \<noteq> mode_of_safe_operation (safety_handle teaching_control)"
    "0 < length (session_managers teaching_control)"
    by (simp_all add: teaching_control_def sample_control_def)
  have "ended (Error Aborted) (session_managers teaching_control ! 0)
      (session_managers (snd (HandleSafetyStatus teaching_control)) ! 0)"
    using mode_change_ends_sessions[OF prod.collapse[symmetric], of teaching_control] c by presburger
  then show ?thesis by (simp add: ended_def)
qed

text \<open>C11 (safety). While no command is active, an update of the operational status leaves a session running
  only if the hardware is not fatally faulted and every part of the session is known and has what it depends on:
  enabled operational hardware, enabled cell control hardware. All other sessions are over, and a reader of the
  status buffer finds the state that decided it.\<close>

theorem sessions_only_on_available_hardware:
  assumes "UpdateOperationalStatus E c = (Inr (), d)" "current_command c = None" "ab_valid (status_buffer c)"
    and "i < length (session_managers c)"
  shows "(has_channels (session_managers d ! i) \<longrightarrow> session_managers d ! i = session_managers c ! i \<and>
      GetCombinedOperationalState (state_manager c) \<noteq> Rt_kFatallyFaulted \<and>
      (\<forall>p \<in> set (part_indices (session_managers c ! i)).
         hw_available E (GetCombinedOperationalState (state_manager c) = Rt_kEnabled)
           (GetCellControlState (state_manager c) = Rt_kEnabled) c p)) \<and>
    (session_managers d ! i \<noteq> session_managers c ! i \<longrightarrow>
       ended (Error Aborted) (session_managers c ! i) (session_managers d ! i)) \<and>
    ros_state (operational (fst (ab_fetch (status_buffer d)))) = GetCombinedOperationalState (state_manager c) \<and>
    ros_state (cell_control (fst (ab_fetch (status_buffer d)))) = GetCellControlState (state_manager c)"
proof -
  obtain b u where run: "rt_for [0..<length (session_managers c)] (cancel_session E (combined_status (state_manager c) b))
      (c\<lparr>status_buffer := (snd (AB_GetFreeBuffer (status_buffer c)))\<lparr>ab_buffers :=
         (ab_buffers (snd (AB_GetFreeBuffer (status_buffer c))))[fst (AB_GetFreeBuffer (status_buffer c)) :=
            combined_status (state_manager c) b]\<rparr>\<rparr>) = (Inr (), u)" (is "rt_for _ _ ?c = _")
    and d: "d = u\<lparr>status_buffer := snd (AB_CommitFreeBuffer (status_buffer u))\<rparr>"
    by (rule idle_status_run[OF assms(1,2)])
  let ?st = "combined_status (state_manager c) b"
  obtain S where S: "S \<subseteq> {..<length (session_managers c)}" "sessions_ended (Error Aborted) S ?c u"
    "\<forall>i < length (session_managers c). i \<notin> S \<longrightarrow> has_channels (session_managers c ! i) \<longrightarrow>
       may_go_on E ?st ?c (session_managers c ! i)"
    using cancel_sessions_loop[OF run] by (auto simp: atLeast0LessThan)
  have "same_outside ?c u" using S(2) unfolding sessions_ended_def by blast
  from same_outside_fields(3)[OF this] have "status_buffer u = status_buffer ?c" .
  then have "status_buffer d = AB_write ?st (status_buffer c)" by (simp add: d AB_write_eq)
  then have buf: "fst (ab_fetch (status_buffer d)) = ?st" using async.fetch_write[OF assms(3)] by simp
  have "may_go_on E ?st ?c s = may_go_on E ?st c s" for s by (simp add: may_go_on_def hw_available_def)
  then show ?thesis using S(2,3) assms(4) buf
    by (cases "i \<in> S") (auto simp: d sessions_ended_def ended_def may_go_on_def)
qed

theorem sessions_only_on_available_hardware_witness:
  "\<not> has_channels (session_managers (snd (UpdateOperationalStatus sample_plugins (sample_control HwmFaulted HwmActivated))) ! 0)"
proof -
  let ?c = "sample_control HwmFaulted HwmActivated"
  let ?run = "UpdateOperationalStatus sample_plugins ?c"
  have "fst ?run = Inr ()" by code_simp
  then have run: "?run = (Inr (), snd ?run)" by (metis prod.collapse)
  have c: "current_command ?c = None" "ab_valid (status_buffer ?c)" "0 < length (session_managers ?c)"
    by (simp_all add: sample_control_def)
  have dis: "GetCombinedOperationalState (state_manager ?c) \<noteq> Rt_kEnabled" "0 \<in> set (part_indices (session_managers ?c ! 0))"
    by code_simp+
  have dep: "\<not> hw_available sample_plugins False b ?c 0" for b
    by (simp add: hw_available_def sample_plugins_def)
  show ?thesis
  proof
    assume "has_channels (session_managers (snd ?run) ! 0)"
    with sessions_only_on_available_hardware[OF run c]
    have "\<forall>p \<in> set (part_indices (session_managers ?c ! 0)).
         hw_available sample_plugins (GetCombinedOperationalState (state_manager ?c) = Rt_kEnabled)
           (GetCellControlState (state_manager ?c) = Rt_kEnabled) ?c p" by blast
    then have "hw_available sample_plugins (GetCombinedOperationalState (state_manager ?c) = Rt_kEnabled)
           (GetCellControlState (state_manager ?c) = Rt_kEnabled) ?c 0" using dis(2) by (rule bspec)
    then show False unfolding eq_False[THEN iffD2, OF dis(1)] using dep by (rule rev_notE)
  qed
qed

text \<open>Where a session starts. A session with parts gets the slot of its smallest part, and
  only when the safety action of each of its parts is finished; a session without parts gets one of the last ten
  slots. The slot was free, the new session holds its parts and channels, the parts carry its log context, and no
  other slot changes.\<close>

theorem session_starts_in_free_slot:
  assumes "start_session E a c = (Inr (FS_kDone, OkStatus), d)"
    and "kMaxNumberOfMonitoringSessions \<le> length (session_managers c)"
  shows "\<exists>i < length (session_managers c). \<not> has_channels (session_managers c ! i) \<and>
    (if st_parts a = [] then length (session_managers c) - kMaxNumberOfMonitoringSessions \<le> i
     else i = Min (set (st_parts a)) \<and> (\<forall>p \<in> set (st_parts a). safety_action_finished E c p)) \<and>
    started_session a (session_managers d ! i) \<and>
    (\<forall>j. j \<noteq> i \<longrightarrow> session_managers d ! j = session_managers c ! j) \<and>
    (\<forall>p \<in> set (st_parts a). p < length (part_infos (part_manager d)) \<and>
       part_context (part_infos (part_manager d) ! p) = (st_context a)\<lparr>icon_session_id := Some (st_session_id a)\<rparr>)"
proof -
  obtain i where i: "i < length (session_managers c)" "\<not> has_channels (session_managers c ! i)"
    "st_parts a \<noteq> [] \<Longrightarrow> i = Min (set (st_parts a)) \<and>
       (\<forall>p \<in> set (st_parts a). p < length (session_managers c) \<and> safety_action_finished E c p)"
    "st_parts a = [] \<Longrightarrow> length (session_managers c) - kMaxNumberOfMonitoringSessions \<le> i"
    "create_session a i c = (Inr OkStatus, d)"
    using start_session_ok[OF assms] by blast
  from create_session_ok[OF i(5,1)] i show ?thesis by (intro exI[of _ i]) auto
qed

definition sample_start :: "nat start_args" where
  "sample_start = \<lparr>st_session_id = 4, st_parts = [1], st_channels = sample_channels, st_context = empty_context\<rparr>"

theorem session_starts_in_free_slot_witness:
  "started_session sample_start
     (session_managers (snd (start_session sample_plugins sample_start (sample_control HwmMotionEnabled HwmMotionEnabled))) ! 1)"
proof -
  let ?c = "sample_control HwmMotionEnabled HwmMotionEnabled"
  let ?run = "start_session sample_plugins sample_start ?c"
  have "fst ?run = Inr (FS_kDone, OkStatus)" by code_simp
  then have run: "?run = (Inr (FS_kDone, OkStatus), snd ?run)" by (metis prod.collapse)
  have "kMaxNumberOfMonitoringSessions \<le> length (session_managers ?c)"
    by (simp add: sample_control_def kMaxNumberOfMonitoringSessions_def)
  from session_starts_in_free_slot[OF run this] show ?thesis by (simp add: sample_start_def)
qed

text \<open>C10 (safety). Faults stop motion. When a cycle could be prepared and the controller had no request on its
  way and an idle module: if cell control hardware is faulted or any hardware fatally, and anything is enabled,
  all hardware is asked to disable motion; if only operational hardware is faulted and operational hardware is
  enabled, all but the cell control hardware is. No later step of the preparation replaces that request.\<close>

theorem faults_stop_motion:
  assumes "PreUpdateSessions E H t wall n c = (Inr rs, d)"
    and "pending_transition_request (state_manager c) = None" "some_idle (state_manager c)"
  shows "(severe_fault (state_manager d) \<and> CheckAnyInOneOfStates (state_manager d) [HwmMotionEnabled] kAllHardware \<longrightarrow>
      pending_transition_request (state_manager d) = Some TR_kDisableMotion) \<and>
    (\<not> severe_fault (state_manager d) \<and>
      CheckAnyInOneOfStates (state_manager d) [HwmInitFailed, HwmFaulted, HwmFatallyFaulted] kOperationalHardware \<and>
      CheckAnyInOneOfStates (state_manager d) [HwmMotionEnabled] kOperationalHardware \<longrightarrow>
      pending_transition_request (state_manager d) = Some TR_kDisableMotionSkipCellControlHardware)"
proof -
  from assms(1) obtain c1 c2 c3 c4 c5 where
    c1: "HandleSafetyStatus c = (Inr (), c1)" and c2: "on_rsm (UpdateState H) c1 = (Inr (), c2)"
    and c3: "on_pm (BeginCycle E t wall n) c2 = (Inr rs, c3)"
    and c4: "rt_when (GetRequestState (state_manager c3) = RS_kPartiallyDone \<or>
      GetRequestState (state_manager c3) = RS_kDone) preempt_faults c3 = (Inr (), c4)"
    and c5: "HandleOperationalStatus E c4 = (Inr (), c5)" and d: "HandleStartSession E c5 = (Inr (), d)"
    by (auto simp: PreUpdateSessions_def rt_bind_Inr rt_gets_Inr rt_fail_Inr rt_return_Inr split: if_splits)
  have s1: "state_manager c1 = state_manager c"
    using HandleSafetyStatus_frame[OF c1] .
  obtain s where s: "UpdateState H ((state_manager c)\<lparr>hw := world (part_manager c1)\<rparr>) = (Inr (), s)"
    and s3: "state_manager c3 = s"
    using c2 c3 by (auto simp: on_rsm_def on_pm_def s1 split: prod.splits)
  have "pending_transition_request s = None"
    "cached_request_state s = RS_kDone \<or> cached_request_state s = RS_kPartiallyDone"
    using UpdateState_idle[OF s] assms(2,3) by simp_all
  then have run: "preempt_faults c3 = (Inr (), c4)" and none: "pending_transition_request s = None"
    using c4 by (auto simp: rt_when_def s3 GetRequestState_def)
  have later: "hwms (state_manager d) = hwms (state_manager c4)"
    "pending_transition_request (state_manager c4) \<noteq> None \<Longrightarrow>
       pending_transition_request (state_manager d) = pending_transition_request (state_manager c4)"
  proof -
    let ?I = "pends (hwms (state_manager c4)) (pending_transition_request (state_manager c4))"
    have "?I c4" by (simp add: pends_def)
    then have "?I c5" using rt_invD[OF pends_frame.keeps_HandleOperationalStatus, of _ _ c4 E] c5 by simp
    then have "?I d" using rt_invD[OF pends.keeps_HandleStartSession, of _ _ c5 E] d by simp
    then show "hwms (state_manager d) = hwms (state_manager c4)"
      "pending_transition_request (state_manager c4) \<noteq> None \<Longrightarrow>
       pending_transition_request (state_manager d) = pending_transition_request (state_manager c4)"
      by (simp_all add: pends_def)
  qed
  have "hwms (state_manager c4) = hwms s" and
    "severe_fault s \<and> CheckAnyInOneOfStates s [HwmMotionEnabled] kAllHardware \<Longrightarrow>
      pending_transition_request (state_manager c4) = Some TR_kDisableMotion" and
    "\<not> severe_fault s \<and> CheckAnyInOneOfStates s [HwmInitFailed, HwmFaulted, HwmFatallyFaulted] kOperationalHardware \<and>
      CheckAnyInOneOfStates s [HwmMotionEnabled] kOperationalHardware \<Longrightarrow>
      pending_transition_request (state_manager c4) = Some TR_kDisableMotionSkipCellControlHardware"
    using preempt_faults_result[OF run] unfolding s3 by simp_all
  then show ?thesis using later
    by (auto simp: severe_fault_def CheckAnyInOneOfStates_def)
qed

theorem faults_stop_motion_witness:
  "pending_transition_request (state_manager (snd (prepared sample_plugins HwmFaulted HwmMotionEnabled))) =
     Some TR_kDisableMotionSkipCellControlHardware"
proof -
  let ?run = "prepared sample_plugins HwmFaulted HwmMotionEnabled"
  have "fst ?run = Inr sample_robot_status" by code_simp
  then have run: "?run = (Inr sample_robot_status, snd ?run)" by (metis prod.collapse)
  have idle: "pending_transition_request (state_manager (snd (UpdateSafety sample_safety_env
      (sample_control HwmMotionEnabled HwmMotionEnabled)))) = None"
    "some_idle (state_manager (snd (UpdateSafety sample_safety_env (sample_control HwmMotionEnabled HwmMotionEnabled))))"
    by (simp_all add: UpdateSafety_def rt_modify_def sample_control_def some_idle_def request_idle_def sample_hwm_def)
  have f: "\<not> severe_fault (state_manager (snd ?run))"
    "CheckAnyInOneOfStates (state_manager (snd ?run)) [HwmInitFailed, HwmFaulted, HwmFatallyFaulted] kOperationalHardware"
    "CheckAnyInOneOfStates (state_manager (snd ?run)) [HwmMotionEnabled] kOperationalHardware" by code_simp+
  from faults_stop_motion[OF run[unfolded prepared_def] idle] f show ?thesis by (simp add: prepared_def)
qed

text \<open>C14 (functional). What an answer to a client's command means. One cycle answers at most one command; an OK
  is given only when the hardware is in the state that the command is for, or no module had anything to do for
  it - or when the same request was already on its way, although it is not done then.\<close>

theorem command_answers:
  assumes "run_command c = (Inr (), d)"
  shows "\<exists>xs. command_results d = command_results c @ xs \<and> length xs \<le> 1 \<and> (xs \<noteq> [] \<longrightarrow> current_command d = None) \<and>
    (\<forall>(cmd, st) \<in> set xs. st = OkStatus \<longrightarrow>
       expected_state cmd = Some (GetCombinedOperationalState (state_manager d)) \<or>
       (\<exists>request. request_of cmd = Some request \<and>
          (pending_transition_request (state_manager c) = Some request \<or> \<not> may_start request (state_manager c))))"
  using run_command_answers[OF assms]
  by (force simp: answers_def command_ok_def GetCombinedOperationalState_def)

definition clearing_control :: "(nat, nat) control_sys" where
  "clearing_control = (sample_control HwmFaulted HwmActivated)\<lparr>
     command_calls := [\<lparr>call_args = Cmd_kClearFaults, call_lock = \<lambda>_. True, call_attempts = 0\<rparr>]\<rparr>"

theorem command_answers_witness:
  "command_results (snd (run_command clearing_control)) = [] \<or> current_command (snd (run_command clearing_control)) = None"
proof -
  have "fst (run_command clearing_control) = Inr ()" by code_simp
  then have run: "run_command clearing_control = (Inr (), snd (run_command clearing_control))" by (metis prod.collapse)
  from command_answers[OF run] show ?thesis by (auto simp: clearing_control_def sample_control_def)
qed

text \<open>C13 (invariant). Through a whole cycle of the control manager - safety, faults, commands, starting and
  ending sessions, the cycles of all sessions, the safety actions - and whatever fails in it, no part is ever left
  controlled by an action and by its safety action at once.\<close>

theorem update_keeps_parts_exclusive:
  assumes "pm_inv (part_manager c)"
  shows "pm_inv (part_manager (snd (Update E H S t wall n c)))"
  using rt_invD[OF exclusive.keeps_Update] assms unfolding parts_exclusive_def by blast

theorem update_keeps_parts_exclusive_witness: "pm_inv (part_manager (snd failing_update))"
  unfolding failing_update_def
  by (rule update_keeps_parts_exclusive)
     (simp add: sample_control_def sample_sys_def pm_inv_def exclusive_control_def MakePartInfoArray_def)

text \<open>C15 (termination). Shutting down returns exactly if the callers of the active command and of all queued
  commands release their locks at some time. Then every call of a client is answered with the status of the
  shutdown, the bridge is closed, and every session is over.\<close>

theorem Shutdown_terminates:
  "(Shutdown st c \<noteq> None \<longleftrightarrow>
      list_all lock_released (command_calls c) \<and>
      (case current_command c of None \<Rightarrow> True | Some h \<Rightarrow> lock_released (ch_handle h))) \<and>
   (\<forall>d. Shutdown st c = Some d \<longrightarrow>
      command_bridge_closed d \<and> current_command d = None \<and> command_calls d = [] \<and>
      command_results d = command_results c @
        (case current_command c of None \<Rightarrow> [] | Some h \<Rightarrow> if from_client h then [(call_args (ch_handle h), st)] else []) @
        map (\<lambda>h. (call_args h, st)) (command_calls c) \<and>
      (\<forall>i < length (session_managers c). ended st (session_managers c ! i) (session_managers d ! i)))"
  by (rule Shutdown_result)

theorem Shutdown_terminates_witness:
  "\<exists>d. Shutdown (Error Aborted) clearing_control = Some d \<and> command_results d = [(Cmd_kClearFaults, Error Aborted)]"
proof -
  have "list_all lock_released (command_calls clearing_control)" "current_command clearing_control = None"
    by (auto simp: clearing_control_def sample_control_def lock_released_def)
  then obtain d where "Shutdown (Error Aborted) clearing_control = Some d"
    using Shutdown_terminates[of "Error Aborted" clearing_control] by auto
  then show ?thesis
    using Shutdown_terminates[of "Error Aborted" clearing_control] by (simp add: clearing_control_def sample_control_def)
qed

text \<open>Where sessions are, through a whole cycle: a running session in the slot of a part holds existing
  parts of which this is the smallest, a running session in one of the last ten slots holds none. So no two running
  sessions have the same smallest part.\<close>

theorem sessions_stay_in_slots:
  assumes "slots_ok m c" "Update E H S t wall n c = (r, d)"
  shows "slots_ok m d \<and>
    (\<forall>i j. i < length (session_managers d) \<and> j < length (session_managers d) \<and> i \<noteq> j \<and>
       has_channels (session_managers d ! i) \<and> has_channels (session_managers d ! j) \<and>
       part_indices (session_managers d ! i) \<noteq> [] \<and> part_indices (session_managers d ! j) \<noteq> [] \<longrightarrow>
       Min (set (part_indices (session_managers d ! i))) \<noteq> Min (set (part_indices (session_managers d ! j))))"
proof -
  have "slots_ok m d" using rt_invD[OF slots_kept.keeps_Update, of m c E H S t wall n] assms by simp
  then show ?thesis by (auto simp: slots_ok_def fits_def split: if_splits) metis
qed

theorem sessions_stay_in_slots_witness: "slots_ok 2 (snd failing_update)"
proof -
  have "slots_ok 2 (sample_control HwmMotionEnabled HwmMotionEnabled)"
    by (auto simp: slots_ok_def sample_control_def kMaxNumberOfMonitoringSessions_def sample_sys_def MakePartInfoArray_def
        fits_def sample_session_sys_def free_slot_def rt_sys.defs nth_Cons min_def split: nat.splits)
  from sessions_stay_in_slots[OF this prod.collapse[symmetric]] show ?thesis
    unfolding failing_update_def by blast
qed

end
