(* ===== verification/Rt_Queue.thy ===== *)
theory Rt_Queue
  imports Rt_Monad
begin

text \<open>
  \<^verbatim>\<open>intrinsic_sdk/intrinsic/platform/common/buffers/rt_queue_buffer.h\<close>,
  \<^verbatim>\<open>rt_queue.h\<close> and \<^verbatim>\<open>rt_queue_multi_writer.h\<close>: the queue through which
  non-real-time threads hand requests to a real-time thread. The first part has the ring buffer and the
  operations of its reader and writer, the second shows that it is a bounded first-in-first-out queue, the third
  interleaves one reader with one writer.
\<close>

section \<open>Ring buffer\<close>

text \<open>\<open>rq_head\<close> and \<open>insert_in_progress\<close> belong to the writer, \<open>rq_tail\<close> and \<open>front_accessed\<close> to the reader; the
  size is the only word that both change. The capacity is the length of the slots. A pointer to an element is
  the index of its slot, the null pointer is \<open>None\<close>.\<close>

record 'a rt_queue =
  insert_in_progress :: bool
  rq_head :: nat
  front_accessed :: bool
  rq_tail :: nat
  rq_size :: nat
  rq_slots :: "'a list"

definition RQ_Capacity :: "'a rt_queue \<Rightarrow> nat" where
  "RQ_Capacity q = length (rq_slots q)"

definition mk_RtQueueBuffer :: "nat \<Rightarrow> 'a \<Rightarrow> 'a rt_queue" where
  "mk_RtQueueBuffer capacity x = \<lparr>insert_in_progress = False, rq_head = 0, front_accessed = False, rq_tail = 0,
     rq_size = 0, rq_slots = replicate capacity x\<rparr>"

definition RQ_InitElements :: "('a \<Rightarrow> 'a) \<Rightarrow> 'a rt_queue \<Rightarrow> 'a rt_queue" where
  "RQ_InitElements f q = q\<lparr>rq_slots := map f (rq_slots q)\<rparr>"

definition RQ_Empty :: "'a rt_queue \<Rightarrow> bool" where
  "RQ_Empty q \<longleftrightarrow> rq_size q = 0"

definition RQ_Full :: "'a rt_queue \<Rightarrow> bool" where
  "RQ_Full q \<longleftrightarrow> rq_size q = RQ_Capacity q"

definition RQ_Front :: "('a rt_queue, nat option) rt" where
  "RQ_Front q =
     (if front_accessed q then (Inl LogFatal, q)
      else if RQ_Empty q then (Inr None, q)
      else (Inr (Some (rq_tail q)), q\<lparr>front_accessed := True\<rparr>))"

definition RQ_KeepFront :: "('a rt_queue, unit) rt" where
  "RQ_KeepFront q = (if front_accessed q then (Inr (), q\<lparr>front_accessed := False\<rparr>) else (Inl LogFatal, q))"

definition RQ_DropFront :: "('a rt_queue, unit) rt" where
  "RQ_DropFront q =
     (if front_accessed q
      then (Inr (), q\<lparr>front_accessed := False, rq_size := rq_size q - 1, rq_tail := (rq_tail q + 1) mod RQ_Capacity q\<rparr>)
      else (Inl LogFatal, q))"

definition RQ_PrepareInsert :: "('a rt_queue, nat option) rt" where
  "RQ_PrepareInsert q =
     (if insert_in_progress q then (Inl LogFatal, q)
      else if RQ_Full q then (Inr None, q)
      else (Inr (Some (rq_head q)), q\<lparr>insert_in_progress := True\<rparr>))"

definition RQ_FinishInsert :: "('a rt_queue, unit) rt" where
  "RQ_FinishInsert q =
     (if insert_in_progress q
      then (Inr (), q\<lparr>insert_in_progress := False, rq_head := (rq_head q + 1) mod RQ_Capacity q, rq_size := rq_size q + 1\<rparr>)
      else (Inl LogFatal, q))"

text \<open>Reading and assigning the element behind a pointer.\<close>

definition rq_element :: "nat \<Rightarrow> ('a rt_queue, 'a) rt" where
  "rq_element i = rt_lift_st (\<lambda>q. if i < length (rq_slots q) then Inr (rq_slots q ! i) else Inl Undefined)"

definition rq_assign :: "nat \<Rightarrow> 'a \<Rightarrow> ('a rt_queue, unit) rt" where
  "rq_assign i x =
     rt_bind (rt_lift_st (\<lambda>q. if i < length (rq_slots q) then Inr () else Inl Undefined))
     (\<lambda>_. rt_modify (\<lambda>q. q\<lparr>rq_slots := (rq_slots q)[i := x]\<rparr>))"

section \<open>Reader and writer\<close>

definition Reader_Pop :: "('a rt_queue, 'a option) rt" where
  "Reader_Pop =
     rt_bind RQ_Front (\<lambda>front_ptr.
     case front_ptr of
       None \<Rightarrow> rt_return None
     | Some i \<Rightarrow> rt_bind (rq_element i) (\<lambda>front. rt_bind RQ_DropFront (\<lambda>_. rt_return (Some front))))"

text \<open>The element moves out; \<^verbatim>\<open>DropFront\<close> has to follow.\<close>

definition Reader_MoveFront :: "('a rt_queue, 'a option) rt" where
  "Reader_MoveFront =
     rt_bind (rt_gets RQ_Empty) (\<lambda>empty.
     if empty then rt_return None
     else
       rt_bind RQ_Front (\<lambda>front_ptr.
       case front_ptr of
         None \<Rightarrow> rt_fail Undefined
       | Some i \<Rightarrow> rt_bind (rq_element i) (\<lambda>x. rt_return (Some x))))"

text \<open>A reset function follows the pointer it is given, which is null when the queue is full.\<close>

definition Writer_PrepareInsert :: "('a \<Rightarrow> 'a) option \<Rightarrow> ('a rt_queue, nat option) rt" where
  "Writer_PrepareInsert reset_function =
     rt_bind RQ_PrepareInsert (\<lambda>element.
     case reset_function of
       None \<Rightarrow> rt_return element
     | Some f \<Rightarrow>
         (case element of
            None \<Rightarrow> rt_fail Undefined
          | Some i \<Rightarrow> rt_bind (rq_element i) (\<lambda>x. rt_bind (rq_assign i (f x)) (\<lambda>_. rt_return element))))"

definition Writer_Insert :: "('a \<Rightarrow> 'a) option \<Rightarrow> 'a \<Rightarrow> ('a rt_queue, bool) rt" where
  "Writer_Insert reset_function item =
     rt_bind (Writer_PrepareInsert reset_function) (\<lambda>item_ptr.
     case item_ptr of
       None \<Rightarrow> rt_return False
     | Some i \<Rightarrow> rt_bind (rq_assign i item) (\<lambda>_. rt_bind RQ_FinishInsert (\<lambda>_. rt_return True)))"

definition MultiWriter_Insert :: "('a \<Rightarrow> 'a) option \<Rightarrow> 'a \<Rightarrow> ('a rt_queue, unit) rt" where
  "MultiWriter_Insert reset_function v =
     rt_bind (Writer_PrepareInsert reset_function) (\<lambda>queue_item.
     case queue_item of
       None \<Rightarrow> rt_fail (Error ResourceExhausted)
     | Some i \<Rightarrow> rt_bind (rq_assign i v) (\<lambda>_. RQ_FinishInsert))"

section \<open>The queue as a list\<close>

definition rq_items :: "'a rt_queue \<Rightarrow> 'a list" where
  "rq_items q = map (\<lambda>k. rq_slots q ! ((rq_tail q + k) mod RQ_Capacity q)) [0..<rq_size q]"

text \<open>The indices are in range and consistent with each other; what each thread has seen still holds.\<close>

definition rq_ok :: "'a rt_queue \<Rightarrow> bool" where
  "rq_ok q \<longleftrightarrow> 0 < RQ_Capacity q \<and> rq_tail q < RQ_Capacity q \<and> rq_size q \<le> RQ_Capacity q \<and>
     rq_head q = (rq_tail q + rq_size q) mod RQ_Capacity q \<and>
     (insert_in_progress q \<longrightarrow> rq_size q < RQ_Capacity q) \<and> (front_accessed q \<longrightarrow> 0 < rq_size q)"

definition rq_idle :: "'a rt_queue \<Rightarrow> bool" where
  "rq_idle q \<longleftrightarrow> rq_ok q \<and> \<not> insert_in_progress q \<and> \<not> front_accessed q"

lemmas rq_defs = RQ_Capacity_def RQ_Empty_def RQ_Full_def

lemma mk_RtQueueBuffer_idle [simp]: "0 < n \<Longrightarrow> rq_idle (mk_RtQueueBuffer n x)"
  by (simp add: rq_idle_def rq_ok_def mk_RtQueueBuffer_def rq_defs)

lemma rq_items_init [simp]: "rq_items (mk_RtQueueBuffer n x) = []"
  by (simp add: rq_items_def mk_RtQueueBuffer_def)

lemma rq_flags [simp]:
  "rq_items (q\<lparr>front_accessed := b\<rparr>) = rq_items q" "rq_items (q\<lparr>insert_in_progress := b\<rparr>) = rq_items q"
  "RQ_Capacity (q\<lparr>front_accessed := b\<rparr>) = RQ_Capacity q" "RQ_Capacity (q\<lparr>insert_in_progress := b\<rparr>) = RQ_Capacity q"
  "RQ_Capacity (q\<lparr>rq_tail := k\<rparr>) = RQ_Capacity q" "RQ_Capacity (q\<lparr>rq_head := k\<rparr>) = RQ_Capacity q"
  "RQ_Capacity (q\<lparr>rq_size := k\<rparr>) = RQ_Capacity q" "RQ_Capacity (q\<lparr>rq_slots := (rq_slots q)[i := x]\<rparr>) = RQ_Capacity q"
  by (simp_all add: rq_items_def RQ_Capacity_def)

lemma rq_head_less: "rq_ok q \<Longrightarrow> rq_head q < length (rq_slots q)"
  by (auto simp: rq_ok_def RQ_Capacity_def)

text \<open>Slots at different distances from the tail, fewer than the capacity, are different.\<close>

lemma ring_inj: "j < n \<Longrightarrow> k < n \<Longrightarrow> (t + j) mod n = (t + k) mod n \<Longrightarrow> j = (k :: nat)"
proof (induction j k rule: linorder_wlog)
  case (le a b)
  then have "n dvd b - a" using mod_eq_dvd_iff_nat[of "t + a" "t + b" n] by simp
  then show ?case using le by (auto dest: dvd_imp_le)
qed simp

lemma rq_items_drop:
  assumes "rq_ok q" "0 < rq_size q"
  shows "rq_items q = rq_slots q ! rq_tail q #
     map (\<lambda>k. rq_slots q ! (((rq_tail q + 1) mod RQ_Capacity q + k) mod RQ_Capacity q)) [0..<rq_size q - 1]"
proof -
  obtain m where m: "rq_size q = Suc m" using assms by (cases "rq_size q") auto
  show ?thesis using assms
    by (simp add: rq_items_def m upt_conv_Cons map_Suc_upt[symmetric] rq_ok_def mod_add_left_eq comp_def del: upt_Suc)
qed

lemma rq_items_finish:
  assumes "rq_ok q"
  shows "map (\<lambda>k. rq_slots q ! ((rq_tail q + k) mod RQ_Capacity q)) [0..<rq_size q + 1] =
     rq_items q @ [rq_slots q ! rq_head q]"
  using assms by (simp add: rq_items_def rq_ok_def)

text \<open>The writer's slot is none of those that the reader can see.\<close>

lemma rq_items_assign_head:
  assumes "rq_ok q" "rq_size q < RQ_Capacity q"
  shows "rq_items (q\<lparr>rq_slots := (rq_slots q)[rq_head q := x]\<rparr>) = rq_items q"
proof -
  have "rq_head q \<noteq> (rq_tail q + k) mod RQ_Capacity q" if "k < rq_size q" for k
    using assms that ring_inj[of "rq_size q" "RQ_Capacity q" k "rq_tail q"] by (auto simp: rq_ok_def)
  then show ?thesis by (auto simp: rq_items_def RQ_Capacity_def)
qed

section \<open>A bounded queue\<close>

text \<open>Runs of insertions (\<open>Some\<close>) and removals (\<open>None\<close>) on a queue: the accepted and the delivered elements.\<close>

fun queue_run :: "('a \<Rightarrow> 'q \<Rightarrow> bool \<times> 'q) \<Rightarrow> ('q \<Rightarrow> 'a option \<times> 'q) \<Rightarrow> 'a option list \<Rightarrow> 'q \<Rightarrow>
  'a list \<times> 'a list \<times> 'q" where
  "queue_run enq deq [] q = ([], [], q)"
| "queue_run enq deq (Some x # ops) q =
     (case enq x q of (b, q1) \<Rightarrow>
        case queue_run enq deq ops q1 of (acc, del, q2) \<Rightarrow> (if b then x # acc else acc, del, q2))"
| "queue_run enq deq (None # ops) q =
     (case deq q of (r, q1) \<Rightarrow>
        case queue_run enq deq ops q1 of (acc, del, q2) \<Rightarrow> (acc, (case r of None \<Rightarrow> del | Some x \<Rightarrow> x # del), q2))"

text \<open>The same on a list.\<close>

definition list_enqueue :: "nat \<Rightarrow> 'a \<Rightarrow> 'a list \<Rightarrow> bool \<times> 'a list" where
  "list_enqueue n x xs = (if length xs < n then (True, xs @ [x]) else (False, xs))"

fun list_dequeue :: "'a list \<Rightarrow> 'a option \<times> 'a list" where
  "list_dequeue [] = (None, [])"
| "list_dequeue (x # xs) = (Some x, xs)"

text \<open>The contract of a bounded queue: an insertion succeeds exactly when there is space, and elements
  come out in the order they went in.\<close>

locale bounded_queue =
  fixes valid :: "'q \<Rightarrow> bool" and items :: "'q \<Rightarrow> 'a list" and capacity :: "'q \<Rightarrow> nat"
    and enqueue :: "'a \<Rightarrow> 'q \<Rightarrow> bool \<times> 'q" and dequeue :: "'q \<Rightarrow> 'a option \<times> 'q"
  assumes enqueue: "valid q \<Longrightarrow> enqueue x q = (b, q') \<Longrightarrow>
      valid q' \<and> capacity q' = capacity q \<and> (b \<longleftrightarrow> length (items q) < capacity q) \<and>
      items q' = (if b then items q @ [x] else items q)"
    and dequeue: "valid q \<Longrightarrow> dequeue q = (r, q') \<Longrightarrow>
      valid q' \<and> capacity q' = capacity q \<and> r = (case items q of [] \<Rightarrow> None | x # _ \<Rightarrow> Some x) \<and>
      items q' = tl (items q)"
begin

lemma run_fifo: "valid q \<Longrightarrow> queue_run enqueue dequeue ops q = (acc, del, q') \<Longrightarrow>
  valid q' \<and> capacity q' = capacity q \<and> items q @ acc = del @ items q'"
proof (induction ops arbitrary: q acc del q')
  case (Cons op ops)
  show ?case
  proof (cases op)
    case None
    obtain r q1 acc' del' where e: "dequeue q = (r, q1)" and run: "queue_run enqueue dequeue ops q1 = (acc', del', q')"
      using Cons.prems(2) None by (auto split: prod.splits)
    show ?thesis using Cons.IH[OF _ run] dequeue[OF Cons.prems(1) e] Cons.prems(2) None e run
      by (auto split: list.splits)
  next
    case (Some x)
    obtain b q1 acc' del' where e: "enqueue x q = (b, q1)" and run: "queue_run enqueue dequeue ops q1 = (acc', del', q')"
      using Cons.prems(2) Some by (auto split: prod.splits)
    show ?thesis using Cons.IH[OF _ run] enqueue[OF Cons.prems(1) e] Cons.prems(2) Some e run
      by (auto split: if_splits)
  qed
qed simp

lemma run_refines: "valid q \<Longrightarrow> queue_run enqueue dequeue ops q = (acc, del, q') \<Longrightarrow>
  queue_run (list_enqueue (capacity q)) list_dequeue ops (items q) = (acc, del, items q')"
proof (induction ops arbitrary: q acc del q')
  case (Cons op ops)
  show ?case
  proof (cases op)
    case None
    obtain r q1 acc' del' where e: "dequeue q = (r, q1)" and run: "queue_run enqueue dequeue ops q1 = (acc', del', q')"
      using Cons.prems(2) None by (auto split: prod.splits)
    show ?thesis using Cons.IH[OF _ run] dequeue[OF Cons.prems(1) e] Cons.prems(2) None e run
      by (cases "items q") auto
  next
    case (Some x)
    obtain b q1 acc' del' where e: "enqueue x q = (b, q1)" and run: "queue_run enqueue dequeue ops q1 = (acc', del', q')"
      using Cons.prems(2) Some by (auto split: prod.splits)
    show ?thesis using Cons.IH[OF _ run] enqueue[OF Cons.prems(1) e] Cons.prems(2) Some e run
      by (auto simp: list_enqueue_def)
  qed
qed simp

end

text \<open>\<^verbatim>\<open>Insert\<close> and \<^verbatim>\<open>Pop\<close> on their own.\<close>

definition rq_insert :: "'a \<Rightarrow> 'a rt_queue \<Rightarrow> bool \<times> 'a rt_queue" where
  "rq_insert x q = (case Writer_Insert None x q of (r, q') \<Rightarrow> (r = Inr True, q'))"

definition rq_pop :: "'a rt_queue \<Rightarrow> 'a option \<times> 'a rt_queue" where
  "rq_pop q = (case Reader_Pop q of (Inr r, q') \<Rightarrow> (r, q') | (Inl _, q') \<Rightarrow> (None, q'))"

lemma Writer_Insert_run:
  assumes "rq_idle q"
  shows "Writer_Insert None x q =
    (if rq_size q < RQ_Capacity q
     then (Inr True, q\<lparr>rq_slots := (rq_slots q)[rq_head q := x], rq_head := (rq_head q + 1) mod RQ_Capacity q,
            rq_size := rq_size q + 1\<rparr>)
     else (Inr False, q))"
  using assms rq_head_less[of q]
  by (auto simp: rq_idle_def rq_ok_def Writer_Insert_def Writer_PrepareInsert_def RQ_PrepareInsert_def RQ_Full_def
    RQ_FinishInsert_def rq_assign_def rt_defs RQ_Capacity_def)

lemma Reader_Pop_run:
  assumes "rq_idle q"
  shows "Reader_Pop q =
    (if rq_size q = 0 then (Inr None, q)
     else (Inr (Some (rq_slots q ! rq_tail q)),
       q\<lparr>rq_tail := (rq_tail q + 1) mod RQ_Capacity q, rq_size := rq_size q - 1\<rparr>))"
  using assms by (cases q) (auto simp: rq_idle_def rq_ok_def Reader_Pop_def RQ_Front_def RQ_Empty_def RQ_DropFront_def
    rq_element_def rt_defs RQ_Capacity_def)

lemma MultiWriter_Insert_run:
  assumes "rq_idle q"
  shows "MultiWriter_Insert None x q =
    (if rq_size q < RQ_Capacity q then (Inr (), snd (rq_insert x q)) else (Inl (Error ResourceExhausted), q))"
  using assms rq_head_less[of q]
  by (auto simp: rq_idle_def rq_ok_def rq_insert_def Writer_Insert_def MultiWriter_Insert_def Writer_PrepareInsert_def
    RQ_PrepareInsert_def RQ_Full_def RQ_FinishInsert_def rq_assign_def rt_defs RQ_Capacity_def)

lemma rq_insert_law:
  assumes q: "rq_idle q" and run: "rq_insert x q = (b, q')"
  shows "rq_idle q' \<and> RQ_Capacity q' = RQ_Capacity q \<and> (b \<longleftrightarrow> length (rq_items q) < RQ_Capacity q) \<and>
    rq_items q' = (if b then rq_items q @ [x] else rq_items q)"
proof (cases "rq_size q < RQ_Capacity q")
  case True
  define u where "u = q\<lparr>rq_slots := (rq_slots q)[rq_head q := x]\<rparr>"
  have u: "rq_ok u" "rq_items u = rq_items q" "rq_slots u ! rq_head u = x" "rq_size u = rq_size q" "rq_tail u = rq_tail q"
    using q True rq_head_less[of q] rq_items_assign_head[of q x]
    by (auto simp: u_def rq_idle_def rq_ok_def RQ_Capacity_def)
  have "b \<and> q' = u\<lparr>rq_head := (rq_head q + 1) mod RQ_Capacity q, rq_size := rq_size q + 1\<rparr>"
    using run Writer_Insert_run[OF q, of x] True by (auto simp: rq_insert_def u_def)
  then show ?thesis using q True u rq_items_finish[OF u(1)]
    by (auto simp: rq_idle_def rq_ok_def RQ_Capacity_def rq_items_def u_def mod_Suc_eq)
next
  case False
  then show ?thesis using run q Writer_Insert_run[OF q, of x] by (auto simp: rq_insert_def rq_items_def)
qed

lemma rq_drop_law:
  assumes "rq_ok q" "0 < rq_size q"
  shows "rq_ok (q\<lparr>front_accessed := False, rq_size := rq_size q - 1, rq_tail := (rq_tail q + 1) mod RQ_Capacity q\<rparr>)"
proof -
  obtain m where "rq_size q = Suc m" using assms by (cases "rq_size q") auto
  then show ?thesis using assms by (auto simp: rq_ok_def RQ_Capacity_def mod_add_left_eq)
qed

lemma rq_pop_law:
  assumes q: "rq_idle q" and run: "rq_pop q = (r, q')"
  shows "rq_idle q' \<and> RQ_Capacity q' = RQ_Capacity q \<and>
    r = (case rq_items q of [] \<Rightarrow> None | x # _ \<Rightarrow> Some x) \<and> rq_items q' = tl (rq_items q)"
proof (cases "rq_size q = 0")
  case True
  then show ?thesis using run q Reader_Pop_run[OF q] by (auto simp: rq_pop_def rq_items_def)
next
  case False
  then have "rq_ok q" "0 < rq_size q" "\<not> front_accessed q" "\<not> insert_in_progress q" using q by (auto simp: rq_idle_def)
  then show ?thesis using run False Reader_Pop_run[OF q] rq_drop_law[of q] rq_items_drop[of q]
    by (cases q) (auto simp: rq_pop_def rq_items_def rq_idle_def RQ_Capacity_def)
qed

interpretation rtq: bounded_queue rq_idle rq_items RQ_Capacity rq_insert rq_pop
  by unfold_locales (blast dest: rq_insert_law rq_pop_law)+

section \<open>One reader and one writer\<close>

text \<open>Every operation accesses the shared size once, so that the operations of the two threads interleave as
  a whole; filling an element in place takes any number of steps. \<open>spsc_in\<close> and \<open>spsc_out\<close> are history: the elements
  that were inserted and those that were dropped.\<close>

record 'a spsc =
  spsc_queue :: "'a rt_queue"
  spsc_in :: "'a list"
  spsc_out :: "'a list"

inductive spsc_step :: "'a spsc \<Rightarrow> 'a spsc \<Rightarrow> bool" where
  prepare: "RQ_PrepareInsert (spsc_queue s) = (Inr p, q) \<Longrightarrow> spsc_step s (s\<lparr>spsc_queue := q\<rparr>)"
| fill: "insert_in_progress (spsc_queue s) \<Longrightarrow> rq_assign (rq_head (spsc_queue s)) x (spsc_queue s) = (Inr u, q) \<Longrightarrow>
    spsc_step s (s\<lparr>spsc_queue := q\<rparr>)"
| finish: "RQ_FinishInsert (spsc_queue s) = (Inr u, q) \<Longrightarrow>
    spsc_step s (s\<lparr>spsc_queue := q, spsc_in := spsc_in s @ [rq_slots (spsc_queue s) ! rq_head (spsc_queue s)]\<rparr>)"
| front: "RQ_Front (spsc_queue s) = (Inr p, q) \<Longrightarrow> spsc_step s (s\<lparr>spsc_queue := q\<rparr>)"
| keep: "RQ_KeepFront (spsc_queue s) = (Inr u, q) \<Longrightarrow> spsc_step s (s\<lparr>spsc_queue := q\<rparr>)"
| drop: "RQ_DropFront (spsc_queue s) = (Inr u, q) \<Longrightarrow>
    spsc_step s (s\<lparr>spsc_queue := q, spsc_out := spsc_out s @ [rq_slots (spsc_queue s) ! rq_tail (spsc_queue s)]\<rparr>)"

inductive spsc_reachable :: "nat \<Rightarrow> 'a \<Rightarrow> 'a spsc \<Rightarrow> bool" for n x where
  init: "spsc_reachable n x \<lparr>spsc_queue = mk_RtQueueBuffer n x, spsc_in = [], spsc_out = []\<rparr>"
| step: "spsc_reachable n x s \<Longrightarrow> spsc_step s t \<Longrightarrow> spsc_reachable n x t"

definition spsc_inv :: "nat \<Rightarrow> 'a spsc \<Rightarrow> bool" where
  "spsc_inv n s \<longleftrightarrow> rq_ok (spsc_queue s) \<and> RQ_Capacity (spsc_queue s) = n \<and>
     spsc_in s = spsc_out s @ rq_items (spsc_queue s)"

lemma rq_finish_law:
  assumes "rq_ok q" "rq_size q < RQ_Capacity q"
  shows "rq_ok (q\<lparr>insert_in_progress := False, rq_head := (rq_head q + 1) mod RQ_Capacity q, rq_size := rq_size q + 1\<rparr>)"
  using assms by (auto simp: rq_ok_def mod_Suc_eq)

lemma rq_ok_flags:
  "rq_ok q \<Longrightarrow> rq_ok (q\<lparr>front_accessed := b\<rparr>) \<longleftrightarrow> (b \<longrightarrow> 0 < rq_size q)"
  "rq_ok q \<Longrightarrow> rq_ok (q\<lparr>insert_in_progress := b\<rparr>) \<longleftrightarrow> (b \<longrightarrow> rq_size q < RQ_Capacity q)"
  by (auto simp: rq_ok_def)

lemma spsc_inv_step:
  assumes "spsc_step s t" "spsc_inv n s"
  shows "spsc_inv n t"
proof -
  define q where "q = spsc_queue s"
  have inv: "rq_ok q" "RQ_Capacity q = n" "spsc_in s = spsc_out s @ rq_items q"
    using assms(2) by (simp_all add: spsc_inv_def q_def)
  then have flags: "front_accessed q \<Longrightarrow> 0 < rq_size q" "insert_in_progress q \<Longrightarrow> rq_size q < RQ_Capacity q"
    "rq_size q \<le> RQ_Capacity q" by (auto simp: rq_ok_def)
  show ?thesis
    using assms(1)
  proof (cases rule: spsc_step.cases)
    case (prepare p r)
    then show ?thesis using inv flags rq_ok_flags(2)[OF inv(1), of True]
      by (auto simp: spsc_inv_def RQ_PrepareInsert_def RQ_Full_def simp flip: q_def split: if_splits)
  next
    case (fill x u r)
    then have "r = q\<lparr>rq_slots := (rq_slots q)[rq_head q := x]\<rparr>" "insert_in_progress q"
      by (auto simp: rq_assign_def rt_defs q_def split: if_splits)
    moreover have "rq_ok (q\<lparr>rq_slots := (rq_slots q)[rq_head q := x]\<rparr>)" using inv(1) by (simp add: rq_ok_def)
    ultimately show ?thesis using fill inv flags rq_items_assign_head[OF inv(1), of x] by (simp add: spsc_inv_def)
  next
    case (finish u r)
    then show ?thesis using inv flags rq_items_finish[OF inv(1)] rq_finish_law[OF inv(1)]
      by (auto simp: spsc_inv_def RQ_FinishInsert_def rq_items_def simp flip: q_def split: if_splits)
  next
    case (front p r)
    then show ?thesis using inv flags rq_ok_flags(1)[OF inv(1), of True]
      by (auto simp: spsc_inv_def RQ_Front_def RQ_Empty_def simp flip: q_def split: if_splits)
  next
    case (keep u r)
    then show ?thesis using inv flags rq_ok_flags(1)[OF inv(1), of False]
      by (auto simp: spsc_inv_def RQ_KeepFront_def simp flip: q_def split: if_splits)
  next
    case (drop u r)
    then show ?thesis using inv flags rq_items_drop[OF inv(1)] rq_drop_law[OF inv(1)]
      by (auto simp: spsc_inv_def RQ_DropFront_def rq_items_def simp flip: q_def split: if_splits)
  qed
qed

lemma spsc_reachable_inv: "spsc_reachable n x s \<Longrightarrow> 0 < n \<Longrightarrow> spsc_inv n s"
proof (induction rule: spsc_reachable.induct)
  case init
  then show ?case using mk_RtQueueBuffer_idle[of n x]
    by (simp add: spsc_inv_def rq_idle_def RQ_Capacity_def mk_RtQueueBuffer_def rq_items_def)
next
  case (step s t)
  then show ?case by (blast intro: spsc_inv_step)
qed

section \<open>Properties\<close>

text \<open>C32 (refinement). The ring buffer refines a list of bounded length: every sequence of insertions and removals accepts
  and delivers what it would on the list, and the buffer ends up holding that list. So elements are delivered in the order
  in which they were accepted, and one is refused only when the queue is full.\<close>

theorem queue_is_bounded_fifo:
  assumes "0 < n" "queue_run rq_insert rq_pop ops (mk_RtQueueBuffer n x) = (acc, del, q)"
  shows "queue_run (list_enqueue n) list_dequeue ops [] = (acc, del, rq_items q) \<and> acc = del @ rq_items q \<and>
    length (rq_items q) \<le> n"
proof -
  note init = mk_RtQueueBuffer_idle[OF assms(1), of x]
  have "RQ_Capacity (mk_RtQueueBuffer n x) = n" "rq_items (mk_RtQueueBuffer n x) = []"
    by (simp_all add: RQ_Capacity_def mk_RtQueueBuffer_def rq_items_def)
  then show ?thesis using rtq.run_fifo[OF init assms(2)] rtq.run_refines[OF init assms(2)]
    by (auto simp: rq_idle_def rq_ok_def rq_items_def RQ_Capacity_def)
qed

theorem queue_is_bounded_fifo_witness:
  "queue_run (list_enqueue 2) list_dequeue [Some 1, Some 2, Some 3, None, Some 4, None] [] = ([1, 2, 4], [1, 2],
     rq_items (snd (snd (queue_run rq_insert rq_pop [Some 1, Some 2, Some 3, None, Some 4, None]
       (mk_RtQueueBuffer 2 (0 :: nat))))))"
proof (rule queue_is_bounded_fifo[THEN conjunct1])
  show "queue_run rq_insert rq_pop [Some 1, Some 2, Some 3, None, Some 4, None] (mk_RtQueueBuffer 2 (0 :: nat)) =
     ([1, 2, 4], [1, 2], snd (snd (queue_run rq_insert rq_pop [Some 1, Some 2, Some 3, None, Some 4, None]
       (mk_RtQueueBuffer 2 (0 :: nat)))))"
    by code_simp
qed simp

text \<open>One reader thread and one writer thread, interleaved at every operation, never hold pointers to
  the same slot at the same time, and the reader takes the elements in the order in which the writer
  finished them, none lost and none twice.\<close>

theorem spsc_exclusive_slots:
  assumes "0 < n" "spsc_reachable n x s"
  shows "spsc_in s = spsc_out s @ rq_items (spsc_queue s) \<and>
    (insert_in_progress (spsc_queue s) \<and> front_accessed (spsc_queue s) \<longrightarrow>
       rq_head (spsc_queue s) \<noteq> rq_tail (spsc_queue s))"
proof -
  define q where "q = spsc_queue s"
  have inv: "rq_ok q" "spsc_in s = spsc_out s @ rq_items q"
    using spsc_reachable_inv[OF assms(2,1)] by (simp_all add: spsc_inv_def q_def)
  have "rq_head q \<noteq> rq_tail q" if "insert_in_progress q" "front_accessed q"
    using inv(1) that ring_inj[of "rq_size q" "RQ_Capacity q" 0 "rq_tail q"] by (auto simp: rq_ok_def)
  with inv(2) show ?thesis by (simp add: q_def)
qed

definition both_busy :: "nat spsc" where
  "both_busy = \<lparr>spsc_queue = \<lparr>insert_in_progress = True, rq_head = 1, front_accessed = True, rq_tail = 0, rq_size = 1,
     rq_slots = [7, 0]\<rparr>, spsc_in = [7], spsc_out = []\<rparr>"

lemma both_busy_reachable: "spsc_reachable 2 0 both_busy"
proof -
  let ?q = "\<lambda>ins hd fa sz sl. \<lparr>insert_in_progress = ins, rq_head = hd, front_accessed = fa, rq_tail = 0, rq_size = sz,
    rq_slots = sl\<rparr> :: nat rt_queue"
  note defs = RQ_PrepareInsert_def RQ_FinishInsert_def RQ_Front_def RQ_Full_def RQ_Empty_def RQ_Capacity_def
    rq_assign_def rt_defs mk_RtQueueBuffer_def
  have "spsc_reachable 2 0 \<lparr>spsc_queue = ?q False 0 False 0 [0, 0], spsc_in = [], spsc_out = []\<rparr>"
    using spsc_reachable.init[of 2 "0 :: nat"] by (simp add: mk_RtQueueBuffer_def numeral_2_eq_2)
  then have "spsc_reachable 2 0 \<lparr>spsc_queue = ?q True 0 False 0 [0, 0], spsc_in = [], spsc_out = []\<rparr>"
    by (rule spsc_reachable.step) (rule spsc_step.prepare[where p = "Some 0", THEN back_subst[of "spsc_step _"]], simp_all add: defs)
  then have "spsc_reachable 2 0 \<lparr>spsc_queue = ?q True 0 False 0 [7, 0], spsc_in = [], spsc_out = []\<rparr>"
    by (rule spsc_reachable.step) (rule spsc_step.fill[where x = 7, THEN back_subst[of "spsc_step _"]], simp_all add: defs)
  then have "spsc_reachable 2 0 \<lparr>spsc_queue = ?q False 1 False 1 [7, 0], spsc_in = [7], spsc_out = []\<rparr>"
    by (rule spsc_reachable.step) (rule spsc_step.finish[THEN back_subst[of "spsc_step _"]], simp_all add: defs)
  then have "spsc_reachable 2 0 \<lparr>spsc_queue = ?q True 1 False 1 [7, 0], spsc_in = [7], spsc_out = []\<rparr>"
    by (rule spsc_reachable.step) (rule spsc_step.prepare[where p = "Some 1", THEN back_subst[of "spsc_step _"]], simp_all add: defs)
  then show ?thesis unfolding both_busy_def
    by (rule spsc_reachable.step) (rule spsc_step.front[where p = "Some 0", THEN back_subst[of "spsc_step _"]], simp_all add: defs)
qed

theorem spsc_exclusive_slots_witness:
  "spsc_in both_busy = spsc_out both_busy @ rq_items (spsc_queue both_busy) \<and> insert_in_progress (spsc_queue both_busy) \<and>
   front_accessed (spsc_queue both_busy) \<and> rq_head (spsc_queue both_busy) \<noteq> rq_tail (spsc_queue both_busy)"
  using spsc_exclusive_slots[of 2 0, OF _ both_busy_reachable] by (simp add: both_busy_def)

end
