(* ===== verification/Rt_Promise.thy ===== *)
theory Rt_Promise
  imports Rt_Queue Binary_Futex
begin

text \<open>
  \<^verbatim>\<open>intrinsic_sdk/intrinsic/platform/common/buffers/rt_promise.h\<close> and
  \<^verbatim>\<open>intrinsic/icon/interprocess/lockable_binary_futex.h\<close>: futures and promises, by which a
  non-real-time thread waits for the answer of a real-time thread. The first part has every operation of the
  context, the promise and the future as it runs alone: a wait for a token that is not there runs into its timeout.
  The second part interleaves a promise, a future and threads that cancel at every shared access.
\<close>

section \<open>State\<close>

text \<open>A context with at most one promise and one future attached to it; the last six fields are the handles.
  \<open>p_context\<close> and \<open>f_context\<close> say whether the handle points to the context; a handle that owns the context destroys
  it. A locked \<^verbatim>\<open>LockableBinaryFutex\<close> is a futex in \<open>kReady\<close>.\<close>

record 'a promise_sys =
  pc_buffer :: "'a rt_queue"
  promise_attached :: bool
  future_attached :: bool
  is_cancelled :: bool
  read_value_futex :: "32 word"
  write_value_futex :: "32 word"
  cancel_futex :: "32 word"
  get_future_futex :: "32 word"
  get_promise_futex :: "32 word"
  has_value_futex :: "32 word"
  future_detached :: "32 word"
  promise_detached :: "32 word"
  p_context :: bool
  p_reusable :: bool
  f_context :: bool
  f_reusable :: bool
  promise_owns :: bool
  future_owns :: bool

definition mk_context :: "'a \<Rightarrow> 'a promise_sys" where
  "mk_context x = \<lparr>pc_buffer = mk_RtQueueBuffer 1 x, promise_attached = False, future_attached = False,
     is_cancelled = False, read_value_futex = mk_BinaryFutex True, write_value_futex = mk_BinaryFutex True,
     cancel_futex = mk_BinaryFutex True, get_future_futex = mk_BinaryFutex True,
     get_promise_futex = mk_BinaryFutex True, has_value_futex = mk_BinaryFutex False,
     future_detached = mk_BinaryFutex False, promise_detached = mk_BinaryFutex False,
     p_context = False, p_reusable = False, f_context = False, f_reusable = False, promise_owns = False, future_owns = False\<rparr>"

text \<open>The default constructors own their context and are reusable.\<close>

definition mk_RealtimeFuture :: "'a \<Rightarrow> 'a promise_sys" where
  "mk_RealtimeFuture x = (mk_context x)\<lparr>future_attached := True, f_context := True, f_reusable := True, future_owns := True\<rparr>"

definition mk_RealtimePromise :: "'a \<Rightarrow> 'a promise_sys" where
  "mk_RealtimePromise x = (mk_context x)\<lparr>promise_attached := True, p_context := True, p_reusable := True, promise_owns := True\<rparr>"

section \<open>Futexes as fields\<close>

text \<open>A futex of the context, given by its selector and its update.\<close>

type_synonym 'a futex_field =
  "('a promise_sys \<Rightarrow> 32 word) \<times> ((32 word \<Rightarrow> 32 word) \<Rightarrow> 'a promise_sys \<Rightarrow> 'a promise_sys)"

definition LBF_TryLock :: "'a futex_field \<Rightarrow> ('a promise_sys, bool) rt" where
  "LBF_TryLock f s = (case Futex_TryWait (fst f s) of (r, v) \<Rightarrow> (Inr (r = Some True), snd f (\<lambda>_. v) s))"

definition LBF_IsHeld :: "'a futex_field \<Rightarrow> 'a promise_sys \<Rightarrow> bool" where
  "LBF_IsHeld f s \<longleftrightarrow> fst f s = kReady"

definition futex_post :: "'a futex_field \<Rightarrow> ('a promise_sys, rt_status) rt" where
  "futex_post f s = (case Futex_Post (fst f s) of (st, v) \<Rightarrow> (Inr st, snd f (\<lambda>_. v) s))"

definition LBF_Unlock :: "'a futex_field \<Rightarrow> ('a promise_sys, unit) rt" where
  "LBF_Unlock f =
     rt_bind (rt_gets (LBF_IsHeld f)) (\<lambda>held.
     if \<not> held then rt_fail (Error FailedPrecondition) else rt_bind (futex_post f) rt_check)"

text \<open>A wait that no other thread helps: the token if it is there, else the timeout.\<close>

definition futex_wait_alone :: "'a futex_field \<Rightarrow> ('a promise_sys, unit) rt" where
  "futex_wait_alone f s =
     (case futex_take (fst f s) of (old, v) \<Rightarrow>
        (if old = kPosted then Inr () else if old = kClosed then Inl (Error Aborted) else Inl (Error DeadlineExceeded),
         snd f (\<lambda>_. v) s))"

abbreviation read_lock :: "'a futex_field" where "read_lock \<equiv> (read_value_futex, read_value_futex_update)"
abbreviation write_lock :: "'a futex_field" where "write_lock \<equiv> (write_value_futex, write_value_futex_update)"
abbreviation cancel_lock :: "'a futex_field" where "cancel_lock \<equiv> (cancel_futex, cancel_futex_update)"
abbreviation future_lock :: "'a futex_field" where "future_lock \<equiv> (get_future_futex, get_future_futex_update)"
abbreviation promise_lock :: "'a futex_field" where "promise_lock \<equiv> (get_promise_futex, get_promise_futex_update)"
abbreviation value_token :: "'a futex_field" where "value_token \<equiv> (has_value_futex, has_value_futex_update)"
abbreviation future_token :: "'a futex_field" where "future_token \<equiv> (future_detached, future_detached_update)"
abbreviation promise_token :: "'a futex_field" where "promise_token \<equiv> (promise_detached, promise_detached_update)"

definition on_buffer :: "('a rt_queue, 'b) rt \<Rightarrow> ('a promise_sys, 'b) rt" where
  "on_buffer m s = (case m (pc_buffer s) of (r, q) \<Rightarrow> (r, s\<lparr>pc_buffer := q\<rparr>))"

section \<open>Context\<close>

definition DetachPromise :: "('a promise_sys, unit) rt" where
  "DetachPromise =
     rt_bind (rt_gets promise_attached) (\<lambda>previously_attached.
     rt_bind (rt_modify (promise_attached_update (\<lambda>_. False))) (\<lambda>_.
     if previously_attached then rt_bind (futex_post promise_token) rt_check else rt_fail (Error Internal)))"

definition DetachFuture :: "('a promise_sys, unit) rt" where
  "DetachFuture =
     rt_bind (rt_gets future_attached) (\<lambda>previously_attached.
     rt_bind (rt_modify (future_attached_update (\<lambda>_. False))) (\<lambda>_.
     if previously_attached then rt_bind (futex_post future_token) rt_check else rt_fail (Error Internal)))"

text \<open>The new handle is the result of the call.\<close>

definition Context_GetPromise :: "bool \<Rightarrow> ('a promise_sys, unit) rt" where
  "Context_GetPromise is_reusable =
     rt_bind (LBF_TryLock promise_lock) (\<lambda>locked.
     if \<not> locked then rt_fail (Error Unavailable)
     else
       rt_bind (rt_gets promise_attached) (\<lambda>attached.
       if attached then rt_bind (rt_try (LBF_Unlock promise_lock)) (\<lambda>_. rt_fail (Error AlreadyExists))
       else
         rt_bind (rt_modify (promise_attached_update (\<lambda>_. True))) (\<lambda>_.
         rt_bind (LBF_Unlock promise_lock) (\<lambda>_.
           rt_modify (\<lambda>s. s\<lparr>p_context := True, p_reusable := is_reusable\<rparr>)))))"

definition Context_GetFuture :: "bool \<Rightarrow> ('a promise_sys, unit) rt" where
  "Context_GetFuture is_reusable =
     rt_bind (LBF_TryLock future_lock) (\<lambda>locked.
     if \<not> locked then rt_fail (Error Unavailable)
     else
       rt_bind (rt_gets future_attached) (\<lambda>attached.
       if attached then rt_bind (rt_try (LBF_Unlock future_lock)) (\<lambda>_. rt_fail (Error AlreadyExists))
       else
         rt_bind (rt_modify (future_attached_update (\<lambda>_. True))) (\<lambda>_.
         rt_bind (LBF_Unlock future_lock) (\<lambda>_.
           rt_modify (\<lambda>s. s\<lparr>f_context := True, f_reusable := is_reusable\<rparr>)))))"

definition Context_Cancel :: "('a promise_sys, unit) rt" where
  "Context_Cancel =
     rt_bind (LBF_TryLock cancel_lock) (\<lambda>locked.
     if \<not> locked then rt_fail (Error ResourceExhausted)
     else
       rt_bind (rt_modify (is_cancelled_update (\<lambda>_. True))) (\<lambda>_.
       rt_bind (LBF_Unlock cancel_lock) (\<lambda>_.
       rt_bind (futex_post value_token) rt_check)))"

definition Context_HasValue :: "('a promise_sys, bool) rt" where
  "Context_HasValue =
     rt_bind (rt_gets is_cancelled) (\<lambda>cancelled.
     if cancelled then rt_fail (Error Cancelled) else rt_gets (\<lambda>s. \<not> RQ_Empty (pc_buffer s)))"

text \<open>\<^verbatim>\<open>BinaryFutexLock\<close>: the lock for a scope. \<open>None\<close>: the lock is held, and this thread waits for it
  forever.\<close>

definition with_lock :: "'a futex_field \<Rightarrow> ('a promise_sys \<Rightarrow> ('b status_or \<times> 'a promise_sys) option) \<Rightarrow>
  'a promise_sys \<Rightarrow> ('b status_or \<times> 'a promise_sys) option" where
  "with_lock f m s =
     (case LBF_TryLock f s of
        (Inr True, t) \<Rightarrow>
          (case m t of
             None \<Rightarrow> None
           | Some (r, u) \<Rightarrow>
               (case LBF_Unlock f u of (Inr _, v) \<Rightarrow> Some (r, v) | (Inl _, v) \<Rightarrow> Some (Inl LogFatal, v)))
      | _ \<Rightarrow> None)"

text \<open>The loop that empties the buffer; one round per element.\<close>

fun clear_loop :: "nat \<Rightarrow> ('a rt_queue, unit) rt" where
  "clear_loop 0 = rt_return ()"
| "clear_loop (Suc n) =
     rt_bind (rt_gets RQ_Empty) (\<lambda>empty.
     if empty then rt_return ()
     else
       rt_bind Reader_MoveFront (\<lambda>element.
       rt_bind (rt_when (element \<noteq> None) RQ_DropFront) (\<lambda>_. clear_loop n)))"

definition wait_detached :: "('a promise_sys \<Rightarrow> bool) \<Rightarrow> 'a futex_field \<Rightarrow> ('a promise_sys, unit) rt" where
  "wait_detached attached f =
     rt_bind (rt_gets attached) (\<lambda>a. if a then futex_wait_alone f else rt_return ())"

definition Context_Reset :: "'a promise_sys \<Rightarrow> (unit status_or \<times> 'a promise_sys) option" where
  "Context_Reset =
     with_lock future_lock (with_lock promise_lock (with_lock cancel_lock (\<lambda>s.
       case rt_bind (wait_detached future_attached future_token) (\<lambda>_. wait_detached promise_attached promise_token) s of
         (Inl e, t) \<Rightarrow> Some (Inl e, t)
       | (Inr _, t) \<Rightarrow>
           with_lock read_lock (with_lock write_lock (\<lambda>u. Some
             (rt_bind (rt_gets (\<lambda>s. rq_size (pc_buffer s))) (\<lambda>n.
              rt_bind (on_buffer (clear_loop n)) (\<lambda>_. rt_modify (is_cancelled_update (\<lambda>_. False)))) u))) t)))"

text \<open>The destructor: the two statuses that it logs.\<close>

definition Context_destroy :: "('a promise_sys, unit status_or \<times> unit status_or) rt" where
  "Context_destroy =
     rt_bind (rt_modify (is_cancelled_update (\<lambda>_. True))) (\<lambda>_.
     rt_bind (rt_try (wait_detached future_attached future_token)) (\<lambda>f.
     rt_bind (rt_try (wait_detached promise_attached promise_token)) (\<lambda>p. rt_return (f, p))))"

section \<open>Promise\<close>

definition Promise_Detach :: "('a promise_sys, unit) rt" where
  "Promise_Detach =
     rt_bind (rt_gets p_context) (\<lambda>context.
     if \<not> context then rt_fail (Error FailedPrecondition)
     else rt_finally DetachPromise (p_context_update (\<lambda>_. False)))"

definition OverwriteIfNotInError :: "rt_status \<Rightarrow> rt_status \<Rightarrow> rt_status" where
  "OverwriteIfNotInError previous_status new_status =
     (if previous_status = OkStatus then new_status else previous_status)"

definition Promise_Set :: "'a \<Rightarrow> ('a promise_sys, unit) rt" where
  "Promise_Set v =
     rt_bind (rt_gets p_context) (\<lambda>context.
     if \<not> context then rt_fail (Error FailedPrecondition)
     else
       rt_bind (LBF_TryLock write_lock) (\<lambda>locked.
       if \<not> locked then rt_fail (Error Cancelled)
       else
         rt_bind (rt_gets is_cancelled) (\<lambda>cancelled.
         if cancelled then rt_bind (LBF_Unlock write_lock) (\<lambda>_. rt_fail (Error Cancelled))
         else
           rt_bind (on_buffer (Writer_PrepareInsert None)) (\<lambda>element.
           case element of
             None \<Rightarrow> rt_bind (LBF_Unlock write_lock) (\<lambda>_. rt_fail (Error ResourceExhausted))
           | Some i \<Rightarrow>
               rt_bind (on_buffer (rq_assign i v)) (\<lambda>_.
               rt_bind (on_buffer RQ_FinishInsert) (\<lambda>_.
               rt_bind (futex_post value_token) (\<lambda>status.
               rt_bind (LBF_Unlock write_lock) (\<lambda>_.
               rt_bind (rt_gets p_reusable) (\<lambda>reusable.
                 if reusable then rt_check status
                 else rt_bind (rt_try Promise_Detach) (\<lambda>d. rt_check (OverwriteIfNotInError status (status_of d))))))))))))"

definition Promise_Cancel :: "('a promise_sys, unit) rt" where
  "Promise_Cancel = rt_bind (rt_gets p_context) (\<lambda>context. if \<not> context then rt_fail (Error FailedPrecondition) else Context_Cancel)"

definition Promise_IsCancelled :: "('a promise_sys, bool) rt" where
  "Promise_IsCancelled =
     rt_bind (rt_gets p_context) (\<lambda>context. if \<not> context then rt_fail (Error FailedPrecondition) else rt_gets is_cancelled)"

definition Promise_HasValue :: "('a promise_sys, bool) rt" where
  "Promise_HasValue =
     rt_bind (rt_gets p_context) (\<lambda>context. if \<not> context then rt_fail (Error FailedPrecondition) else Context_HasValue)"

definition Promise_GetFuture :: "bool \<Rightarrow> ('a promise_sys, unit) rt" where
  "Promise_GetFuture is_reusable =
     rt_bind (rt_gets p_context) (\<lambda>context.
       if \<not> context then rt_fail (Error FailedPrecondition) else Context_GetFuture is_reusable)"

definition Promise_IsWaitFreeDestructible :: "'a promise_sys \<Rightarrow> bool" where
  "Promise_IsWaitFreeDestructible s \<longleftrightarrow> \<not> p_context s \<or> \<not> promise_owns s \<or> \<not> future_attached s"

text \<open>The destructors; the result is what the destructor of the context logs, if it runs.\<close>

definition Promise_destroy :: "('a promise_sys, (unit status_or \<times> unit status_or) option) rt" where
  "Promise_destroy =
     rt_bind (rt_gets p_context) (\<lambda>context.
     rt_bind (rt_when context (rt_bind (rt_try Promise_Detach) (\<lambda>_. rt_return ()))) (\<lambda>_.
     rt_bind (rt_gets promise_owns) (\<lambda>owns.
       if owns then rt_bind Context_destroy (\<lambda>r. rt_return (Some r)) else rt_return None)))"

section \<open>Future\<close>

definition Future_Detach :: "('a promise_sys, unit) rt" where
  "Future_Detach =
     rt_bind (rt_gets f_context) (\<lambda>context.
     if \<not> context then rt_fail (Error FailedPrecondition)
     else rt_finally DetachFuture (f_context_update (\<lambda>_. False)))"

definition Future_Get :: "('a promise_sys, 'a) rt" where
  "Future_Get =
     rt_bind (rt_gets f_context) (\<lambda>context.
     if \<not> context then rt_fail (Error FailedPrecondition)
     else
       rt_bind (LBF_TryLock read_lock) (\<lambda>locked.
       if \<not> locked then rt_fail (Error Cancelled)
       else
         rt_bind (rt_gets is_cancelled) (\<lambda>cancelled.
         if cancelled then rt_bind (LBF_Unlock read_lock) (\<lambda>_. rt_fail (Error Cancelled))
         else
           rt_bind (on_buffer Reader_MoveFront) (\<lambda>element.
           case element of
             None \<Rightarrow> rt_bind (LBF_Unlock read_lock) (\<lambda>_. rt_fail (Error Unavailable))
           | Some v \<Rightarrow>
               rt_bind (on_buffer RQ_DropFront) (\<lambda>_.
               rt_bind (LBF_TryLock value_token) (\<lambda>_.
               rt_bind (LBF_Unlock read_lock) (\<lambda>_.
               rt_bind (rt_gets f_reusable) (\<lambda>reusable.
               rt_bind (rt_when (\<not> reusable) Future_Detach) (\<lambda>_. rt_return v)))))))))"

definition Future_Peek :: "('a promise_sys, 'a) rt" where
  "Future_Peek =
     rt_bind (rt_gets f_context) (\<lambda>context.
     if \<not> context then rt_fail (Error FailedPrecondition)
     else
       rt_bind (rt_gets is_cancelled) (\<lambda>cancelled.
       if cancelled then rt_fail (Error Cancelled)
       else
         rt_bind (on_buffer RQ_Front) (\<lambda>front.
         case front of
           None \<Rightarrow> rt_fail (Error Unavailable)
         | Some i \<Rightarrow> rt_bind (on_buffer RQ_KeepFront) (\<lambda>_. on_buffer (rq_element i)))))"

definition Future_WaitUntil :: "('a promise_sys, unit) rt" where
  "Future_WaitUntil =
     rt_bind (rt_gets f_context) (\<lambda>context.
     if \<not> context then rt_fail (Error FailedPrecondition)
     else
       rt_bind Context_HasValue (\<lambda>has_value.
       if has_value then rt_return ()
       else
         rt_bind (futex_wait_alone value_token) (\<lambda>_.
         rt_bind (rt_gets is_cancelled) (\<lambda>cancelled.
           if cancelled then rt_fail (Error Cancelled) else rt_return ()))))"

definition Future_WaitUntilAndGet :: "('a promise_sys, 'a) rt" where
  "Future_WaitUntilAndGet = rt_bind Future_WaitUntil (\<lambda>_. Future_Get)"

definition Future_WaitUntilAndPeek :: "('a promise_sys, 'a) rt" where
  "Future_WaitUntilAndPeek = rt_bind Future_WaitUntil (\<lambda>_. Future_Peek)"

definition Future_Cancel :: "('a promise_sys, unit) rt" where
  "Future_Cancel = rt_bind (rt_gets f_context) (\<lambda>context. if \<not> context then rt_fail (Error FailedPrecondition) else Context_Cancel)"

definition Future_IsCancelled :: "('a promise_sys, bool) rt" where
  "Future_IsCancelled =
     rt_bind (rt_gets f_context) (\<lambda>context. if \<not> context then rt_fail (Error FailedPrecondition) else rt_gets is_cancelled)"

definition Future_HasValue :: "('a promise_sys, bool) rt" where
  "Future_HasValue =
     rt_bind (rt_gets f_context) (\<lambda>context. if \<not> context then rt_fail (Error FailedPrecondition) else Context_HasValue)"

definition Future_GetPromise :: "bool \<Rightarrow> ('a promise_sys, unit) rt" where
  "Future_GetPromise is_reusable =
     rt_bind (rt_gets f_context) (\<lambda>context.
       if \<not> context then rt_fail (Error FailedPrecondition) else Context_GetPromise is_reusable)"

definition Future_IsWaitFreeDestructible :: "'a promise_sys \<Rightarrow> bool" where
  "Future_IsWaitFreeDestructible s \<longleftrightarrow> \<not> f_context s \<or> \<not> future_owns s \<or> \<not> promise_attached s"

definition Future_destroy :: "('a promise_sys, (unit status_or \<times> unit status_or) option) rt" where
  "Future_destroy =
     rt_bind (rt_gets f_context) (\<lambda>context.
     rt_bind (rt_when context (rt_bind (rt_try Future_Detach) (\<lambda>_. rt_return ()))) (\<lambda>_.
     rt_bind (rt_gets future_owns) (\<lambda>owns.
       if owns then rt_bind Context_destroy (\<lambda>r. rt_return (Some r)) else rt_return None)))"

section \<open>Operations on a quiet context\<close>

text \<open>No operation is in progress: no lock is held and no futex closed.\<close>

definition fp_quiet :: "'a promise_sys \<Rightarrow> bool" where
  "fp_quiet s \<longleftrightarrow> rq_idle (pc_buffer s) \<and> RQ_Capacity (pc_buffer s) = 1 \<and> read_value_futex s = kPosted \<and>
     write_value_futex s = kPosted \<and> cancel_futex s = kPosted \<and> get_future_futex s = kPosted \<and>
     get_promise_futex s = kPosted \<and> has_value_futex s \<in> {kReady, kPosted} \<and> future_detached s \<in> {kReady, kPosted} \<and>
     promise_detached s \<in> {kReady, kPosted}"

lemma fp_quietD:
  assumes "fp_quiet s"
  shows "rq_idle (pc_buffer s)" "read_value_futex s = kPosted" "write_value_futex s = kPosted" "cancel_futex s = kPosted"
    "get_future_futex s = kPosted" "get_promise_futex s = kPosted" "has_value_futex s \<noteq> kClosed"
    "future_detached s \<noteq> kClosed" "promise_detached s \<noteq> kClosed"
  using assms by (auto simp: fp_quiet_def)

lemma fp_quiet_constructors [simp]: "fp_quiet (mk_RealtimeFuture x)" "fp_quiet (mk_RealtimePromise x)" "fp_quiet (mk_context x)"
  by (simp_all add: fp_quiet_def mk_RealtimeFuture_def mk_RealtimePromise_def mk_context_def mk_BinaryFutex_def
    mk_RtQueueBuffer_def RQ_Capacity_def rq_idle_def rq_ok_def)

lemma Futex_Post_open: "v \<noteq> kClosed \<Longrightarrow> Futex_Post v = (OkStatus, if v = kReady then kPosted else v)"
  by (simp add: Futex_Post_def)

lemma Futex_TryWait_open: "v \<in> {kReady, kPosted} \<Longrightarrow> Futex_TryWait v = (Some (v = kPosted), kReady)"
  by (auto simp: Futex_TryWait_def futex_take_def)

lemmas fp_futex_simps = LBF_TryLock_def LBF_Unlock_def LBF_IsHeld_def futex_post_def futex_wait_alone_def futex_take_def
  Futex_Post_open Futex_TryWait_open

text \<open>The value in the buffer.\<close>

definition fp_value :: "'a promise_sys \<Rightarrow> 'a option" where
  "fp_value s = (case rq_items (pc_buffer s) of [] \<Rightarrow> None | x # _ \<Rightarrow> Some x)"

lemma buffer_cases:
  assumes "fp_quiet s"
  obtains "rq_size (pc_buffer s) = 0" "fp_value s = None" "RQ_Empty (pc_buffer s)"
  | v where "rq_size (pc_buffer s) = 1" "fp_value s = Some v" "rq_items (pc_buffer s) = [v]"
      "rq_slots (pc_buffer s) ! rq_tail (pc_buffer s) = v"
proof (cases "rq_size (pc_buffer s) = 0")
  case True
  then show ?thesis using that(1) by (simp add: fp_value_def rq_items_def RQ_Empty_def)
next
  case False
  then have "rq_size (pc_buffer s) = 1" "rq_tail (pc_buffer s) = 0" "RQ_Capacity (pc_buffer s) = 1"
    using assms by (auto simp: fp_quiet_def rq_idle_def rq_ok_def)
  then show ?thesis using that(2) by (simp add: fp_value_def rq_items_def)
qed

lemma PrepareInsert_quiet: "rq_idle q \<Longrightarrow> Writer_PrepareInsert None q =
   (if rq_size q < RQ_Capacity q then (Inr (Some (rq_head q)), q\<lparr>insert_in_progress := True\<rparr>) else (Inr None, q))"
  by (auto simp: Writer_PrepareInsert_def RQ_PrepareInsert_def RQ_Full_def rt_defs rq_idle_def rq_ok_def)

lemma on_buffer_bind: "on_buffer (rt_bind m f) = rt_bind (on_buffer m) (\<lambda>x. on_buffer (f x))"
  by (auto simp: on_buffer_def rt_defs fun_eq_iff split: prod.splits sum.splits)

text \<open>Storing a value, and taking it out again.\<close>

lemma rq_flag_off:
  "\<not> insert_in_progress q \<Longrightarrow> q\<lparr>rq_slots := X, insert_in_progress := False, rq_head := h, rq_size := n\<rparr> =
     q\<lparr>rq_slots := X, rq_head := h, rq_size := n\<rparr>"
  "\<not> front_accessed q \<Longrightarrow> q\<lparr>front_accessed := False, rq_size := n, rq_tail := h\<rparr> = q\<lparr>rq_tail := h, rq_size := n\<rparr>"
  by (cases q; simp)+

lemma store_run:
  assumes "rq_idle (pc_buffer s)" "rq_size (pc_buffer s) < RQ_Capacity (pc_buffer s)"
  shows "rt_bind (on_buffer (Writer_PrepareInsert None)) (\<lambda>element.
      case element of
        None \<Rightarrow> m
      | Some i \<Rightarrow> rt_bind (on_buffer (rq_assign i v)) (\<lambda>_. rt_bind (on_buffer RQ_FinishInsert) (\<lambda>_. k))) s =
    k (s\<lparr>pc_buffer := snd (rq_insert v (pc_buffer s))\<rparr>)"
proof -
  have q: "rq_head (pc_buffer s) < length (rq_slots (pc_buffer s))" "\<not> insert_in_progress (pc_buffer s)"
    using assms rq_head_less[of "pc_buffer s"] by (auto simp: rq_idle_def)
  show ?thesis using q assms(2) PrepareInsert_quiet[OF assms(1)] Writer_Insert_run[OF assms(1), of v]
    by (simp add: on_buffer_def rt_bind_def rq_assign_def rt_lift_st_def rt_modify_def RQ_FinishInsert_def rq_insert_def
      rq_flag_off RQ_Capacity_def)
qed

lemma store_full_run:
  assumes "rq_idle (pc_buffer s)" "\<not> rq_size (pc_buffer s) < RQ_Capacity (pc_buffer s)"
  shows "rt_bind (on_buffer (Writer_PrepareInsert None)) (\<lambda>element. case element of None \<Rightarrow> m | Some i \<Rightarrow> k i) s = m s"
  using assms by (simp add: on_buffer_def rt_bind_def PrepareInsert_quiet)

lemma take_run:
  assumes "rq_idle (pc_buffer s)" "rq_items (pc_buffer s) = [v]"
  shows "rt_bind (on_buffer Reader_MoveFront) (\<lambda>element.
      case element of None \<Rightarrow> m | Some v \<Rightarrow> rt_bind (on_buffer RQ_DropFront) (\<lambda>_. k v)) s =
    k v (s\<lparr>pc_buffer := snd (rq_pop (pc_buffer s))\<rparr>)"
proof -
  have ok: "rq_ok (pc_buffer s)" "\<not> front_accessed (pc_buffer s)" using assms(1) by (simp_all add: rq_idle_def)
  have size: "rq_size (pc_buffer s) \<noteq> 0"
  proof
    assume "rq_size (pc_buffer s) = 0"
    then show False using assms(2) by (simp add: rq_items_def)
  qed
  have v: "rq_slots (pc_buffer s) ! rq_tail (pc_buffer s) = v" using rq_items_drop[OF ok(1)] size assms(2) by simp
  have "rq_tail (pc_buffer s) < length (rq_slots (pc_buffer s))" using ok(1) by (simp add: rq_ok_def RQ_Capacity_def)
  then show ?thesis using ok(2) size v Reader_Pop_run[OF assms(1)]
    by (simp add: on_buffer_def Reader_MoveFront_def RQ_Front_def RQ_Empty_def rq_element_def RQ_DropFront_def rt_defs
      rq_pop_def rq_flag_off RQ_Capacity_def)
qed

lemma take_empty_run:
  "rq_size (pc_buffer s) = 0 \<Longrightarrow>
   rt_bind (on_buffer Reader_MoveFront) (\<lambda>element. case element of None \<Rightarrow> m | Some v \<Rightarrow> k v) s = m s"
  by (simp add: on_buffer_def Reader_MoveFront_def RQ_Empty_def rt_defs)

text \<open>What setting and getting do, on every branch.\<close>

lemma fp_relock [simp]:
  "write_value_futex s = kPosted \<Longrightarrow> s\<lparr>write_value_futex := kPosted\<rparr> = s"
  "read_value_futex s = kPosted \<Longrightarrow> s\<lparr>read_value_futex := kPosted\<rparr> = s"
  by (cases s; simp)+

lemma locked_run:
  assumes "write_value_futex s = kPosted"
  shows "rt_bind (LBF_TryLock write_lock) k s = k True (s\<lparr>write_value_futex := kReady\<rparr>)"
    "rt_bind (LBF_Unlock write_lock) k' (s\<lparr>write_value_futex := kReady\<rparr>) = k' () s"
  using assms by (cases s; simp add: fp_futex_simps rt_defs)+

lemma Promise_Set_run:
  assumes q: "fp_quiet s" and p: "p_context s" "promise_attached s"
  shows "Promise_Set v s =
    (if is_cancelled s then (Inl (Error Cancelled), s)
     else if fp_value s \<noteq> None then (Inl (Error ResourceExhausted), s)
     else let u = s\<lparr>pc_buffer := snd (rq_insert v (pc_buffer s)), has_value_futex := kPosted\<rparr> in
       (Inr (), if p_reusable s then u else u\<lparr>promise_attached := False, promise_detached := kPosted, p_context := False\<rparr>))"
proof -
  have fields: "has_value_futex s \<in> {kReady, kPosted}" "promise_detached s \<in> {kReady, kPosted}" "write_value_futex s = kPosted"
    "rq_idle (pc_buffer s)" "RQ_Capacity (pc_buffer s) = 1"
    using q by (auto simp: fp_quiet_def)
  note start = Promise_Set_def rt_bind_gets p locked_run[OF fields(3)]
  show ?thesis
  proof (cases "is_cancelled s")
    case True
    then show ?thesis by (simp add: start) (simp add: rt_defs)
  next
    case False
    show ?thesis
    proof (rule buffer_cases[OF q])
      assume empty: "rq_size (pc_buffer s) = 0" "fp_value s = None"
      define u where "u = s\<lparr>write_value_futex := kReady, pc_buffer := snd (rq_insert v (pc_buffer s))\<rparr>"
      have u: "has_value_futex u = has_value_futex s" "write_value_futex u = kReady" "p_reusable u = p_reusable s"
        "p_context u" "promise_attached u" "promise_detached u = promise_detached s" using p by (simp_all add: u_def)
      have "Promise_Set v s =
        rt_bind (futex_post value_token) (\<lambda>status.
        rt_bind (LBF_Unlock write_lock) (\<lambda>_.
        rt_bind (rt_gets p_reusable) (\<lambda>reusable.
          if reusable then rt_check status
          else rt_bind (rt_try Promise_Detach) (\<lambda>d. rt_check (OverwriteIfNotInError status (status_of d)))))) u"
        using False fields empty by (simp add: start store_run u_def)
      also have "\<dots> = (Inr (), let w = u\<lparr>has_value_futex := kPosted, write_value_futex := kPosted\<rparr> in
        if p_reusable s then w else w\<lparr>promise_attached := False, promise_detached := kPosted, p_context := False\<rparr>)"
        using u fields(1,2)
        by (auto simp: fp_futex_simps rt_defs Promise_Detach_def DetachPromise_def Let_def OverwriteIfNotInError_def)
      finally show ?thesis using False empty fields(3) by (cases s) (simp add: Let_def u_def)
    next
      fix x assume "rq_size (pc_buffer s) = 1" "fp_value s = Some x"
      then show ?thesis using False fields by (simp add: start store_full_run rt_fail_def)
    qed
  qed
qed

lemma read_locked_run:
  assumes "read_value_futex s = kPosted"
  shows "rt_bind (LBF_TryLock read_lock) k s = k True (s\<lparr>read_value_futex := kReady\<rparr>)"
    "rt_bind (LBF_Unlock read_lock) k' (s\<lparr>read_value_futex := kReady\<rparr>) = k' () s"
  using assms by (cases s; simp add: fp_futex_simps rt_defs)+

lemma Future_Get_run:
  assumes q: "fp_quiet s" and f: "f_context s" "future_attached s"
  shows "Future_Get s =
    (if is_cancelled s then (Inl (Error Cancelled), s)
     else case fp_value s of
       None \<Rightarrow> (Inl (Error Unavailable), s)
     | Some v \<Rightarrow> let u = s\<lparr>pc_buffer := snd (rq_pop (pc_buffer s)), has_value_futex := kReady\<rparr> in
         (Inr v, if f_reusable s then u else u\<lparr>future_attached := False, future_detached := kPosted, f_context := False\<rparr>))"
proof -
  have fields: "has_value_futex s \<in> {kReady, kPosted}" "future_detached s \<in> {kReady, kPosted}" "read_value_futex s = kPosted"
    "rq_idle (pc_buffer s)" "RQ_Capacity (pc_buffer s) = 1"
    using q by (auto simp: fp_quiet_def)
  note start = Future_Get_def rt_bind_gets f read_locked_run[OF fields(3)]
  show ?thesis
  proof (cases "is_cancelled s")
    case True
    then show ?thesis by (simp add: start) (simp add: rt_defs)
  next
    case False
    show ?thesis
    proof (rule buffer_cases[OF q])
      assume "rq_size (pc_buffer s) = 0" "fp_value s = None"
      then show ?thesis using False fields by (simp add: start take_empty_run rt_fail_def)
    next
      fix v assume full: "fp_value s = Some v" "rq_items (pc_buffer s) = [v]"
      define u where "u = s\<lparr>read_value_futex := kReady, pc_buffer := snd (rq_pop (pc_buffer s))\<rparr>"
      have u: "has_value_futex u = has_value_futex s" "read_value_futex u = kReady" "f_reusable u = f_reusable s"
        "f_context u" "future_attached u" "future_detached u = future_detached s" using f by (simp_all add: u_def)
      have "Future_Get s =
        rt_bind (LBF_TryLock value_token) (\<lambda>_.
        rt_bind (LBF_Unlock read_lock) (\<lambda>_.
        rt_bind (rt_gets f_reusable) (\<lambda>reusable.
        rt_bind (rt_when (\<not> reusable) Future_Detach) (\<lambda>_. rt_return v)))) u"
        using False fields full by (simp add: start take_run u_def)
      also have "\<dots> = (Inr v, let w = u\<lparr>has_value_futex := kReady, read_value_futex := kPosted\<rparr> in
        if f_reusable s then w else w\<lparr>future_attached := False, future_detached := kPosted, f_context := False\<rparr>)"
        using u fields(1,2)
        by (auto simp: fp_futex_simps rt_defs Future_Detach_def DetachFuture_def Let_def)
      finally show ?thesis using False full fields(3) by (cases s) (simp add: Let_def u_def)
    qed
  qed
qed

lemma fp_after_set:
  assumes "fp_quiet s" "fp_value s = None"
  shows "fp_quiet (s\<lparr>pc_buffer := snd (rq_insert v (pc_buffer s)), has_value_futex := kPosted\<rparr>)"
    "fp_value (s\<lparr>pc_buffer := snd (rq_insert v (pc_buffer s)), has_value_futex := kPosted\<rparr>) = Some v"
proof -
  obtain b q' where r: "rq_insert v (pc_buffer s) = (b, q')" by (metis surj_pair)
  have "rq_items (pc_buffer s) = []" using assms(2) by (auto simp: fp_value_def split: list.splits)
  then have "rq_idle q' \<and> RQ_Capacity q' = 1 \<and> rq_items q' = [v]"
    using rq_insert_law[OF _ r] assms(1) by (auto simp: fp_quiet_def)
  then show "fp_quiet (s\<lparr>pc_buffer := snd (rq_insert v (pc_buffer s)), has_value_futex := kPosted\<rparr>)"
    "fp_value (s\<lparr>pc_buffer := snd (rq_insert v (pc_buffer s)), has_value_futex := kPosted\<rparr>) = Some v"
    using assms(1) by (simp_all add: r fp_quiet_def fp_value_def)
qed

lemma fp_after_get:
  assumes "fp_quiet s"
  shows "fp_quiet (s\<lparr>pc_buffer := snd (rq_pop (pc_buffer s)), has_value_futex := kReady\<rparr>)"
    "fp_value (s\<lparr>pc_buffer := snd (rq_pop (pc_buffer s)), has_value_futex := kReady\<rparr>) = None"
proof -
  obtain b q' where r: "rq_pop (pc_buffer s) = (b, q')" by (metis surj_pair)
  have q: "rq_idle (pc_buffer s)" "RQ_Capacity (pc_buffer s) = 1" using assms by (auto simp: fp_quiet_def)
  have "length (rq_items (pc_buffer s)) \<le> 1" using q by (simp add: rq_items_def rq_idle_def rq_ok_def)
  then have "rq_idle q' \<and> RQ_Capacity q' = 1 \<and> rq_items q' = []" using rq_pop_law[OF q(1) r] q(2) by (cases "rq_items (pc_buffer s)") auto
  then show "fp_quiet (s\<lparr>pc_buffer := snd (rq_pop (pc_buffer s)), has_value_futex := kReady\<rparr>)"
    "fp_value (s\<lparr>pc_buffer := snd (rq_pop (pc_buffer s)), has_value_futex := kReady\<rparr>) = None"
    using assms by (simp_all add: r fp_quiet_def fp_value_def)
qed

lemma Future_WaitUntil_full:
  "fp_quiet s \<Longrightarrow> f_context s \<Longrightarrow> \<not> is_cancelled s \<Longrightarrow> fp_value s = Some v \<Longrightarrow> Future_WaitUntil s = (Inr (), s)"
  by (erule buffer_cases) (simp_all add: Future_WaitUntil_def Context_HasValue_def RQ_Empty_def rt_defs)

section \<open>Interleaving\<close>

text \<open>A promise thread that sets values, a future thread that waits for them and gets them, both handles reusable, and
  any thread that cancels: the threads of the two handles, between their other calls, and any number of others that have the
  context. Every access of a word that two of them use is a step of its own. The size of the queue is such a word:
  preparing and finishing an insertion, moving the front out and dropping it are steps, each with its
  own access (\<^verbatim>\<open>MoveFront\<close> reads the size twice, but meanwhile only the promise can change it, and it cannot
  become empty). The locks for reading and writing are contended only with \<^verbatim>\<open>Reset\<close>,
  which waits until both handles are gone, and are no steps; \<^verbatim>\<open>Peek\<close>, which changes nothing, and
  detaching are left out.

  \<^verbatim>\<open>Set\<close>: \<open>P_checked\<close>, the context is not cancelled; \<open>P_prepared\<close>, it has the slot; \<open>P_stored\<close>, the value
  is in the buffer, the token is still to be posted. \<^verbatim>\<open>WaitUntil\<close>: \<open>F_looking\<close>, not cancelled; \<open>F_waiting\<close>, it
  saw an empty buffer and sleeps on the token; \<open>F_woken\<close>, it has the token and looks whether the context is cancelled;
  \<open>F_ready\<close>, it returned without an error. \<^verbatim>\<open>Get\<close> starts in \<open>F_ready\<close>, too: \<open>F_getting\<close>, not
  cancelled; \<open>F_moved\<close>, the value is moved out, its slot still to be released; \<open>F_taken\<close>, the token is still to be cleared. \<open>F_cancelled\<close> and
  \<open>F_empty\<close>: the call returned Cancelled or Unavailable. \<^verbatim>\<open>Cancel\<close>: \<open>X_locked\<close>, it holds the lock; \<open>X_stored\<close>, the flag is set;
  \<open>X_unlocked\<close>, the token is still to be posted. \<open>fp_set\<close> and \<open>fp_got\<close> are history.\<close>

datatype promise_pc = P_idle | P_checked | P_prepared nat | P_stored
datatype 'a future_pc = F_idle | F_looking | F_waiting | F_woken | F_ready | F_getting | F_moved 'a | F_taken | F_cancelled | F_empty
datatype ctx_cancel_pc = X_idle | X_locked | X_stored | X_unlocked
datatype fp_thread = T_promise | T_future | T_other nat

record 'a fp_protocol =
  fp_sys :: "'a promise_sys"
  promise_at :: promise_pc
  future_at :: "'a future_pc"
  cancel_at :: "fp_thread \<Rightarrow> ctx_cancel_pc"
  fp_set :: "'a list"
  fp_got :: "'a list"

definition fp_init :: "'a \<Rightarrow> 'a fp_protocol" where
  "fp_init x = \<lparr>fp_sys = mk_RealtimeFuture x, promise_at = P_idle, future_at = F_idle, cancel_at = (\<lambda>_. X_idle), fp_set = [],
     fp_got = []\<rparr>"

abbreviation cancel_to :: "fp_thread \<Rightarrow> ctx_cancel_pc \<Rightarrow> 'a promise_sys \<Rightarrow> 'a fp_protocol \<Rightarrow> 'a fp_protocol" where
  "cancel_to x p c s \<equiv> s\<lparr>cancel_at := (cancel_at s)(x := p), fp_sys := c\<rparr>"

text \<open>\<open>cancel_refused\<close>: somebody else holds the lock, and the call returns an error; so it does if unlocking fails.\<close>

inductive cancel_step :: "fp_thread \<Rightarrow> 'a fp_protocol \<Rightarrow> 'a fp_protocol \<Rightarrow> bool" for x where
  cancel_lock: "cancel_at s x = X_idle \<Longrightarrow> LBF_TryLock cancel_lock (fp_sys s) = (Inr True, c) \<Longrightarrow>
    cancel_step x s (cancel_to x X_locked c s)"
| cancel_refused: "cancel_at s x = X_idle \<Longrightarrow> LBF_TryLock cancel_lock (fp_sys s) = (Inr False, c) \<Longrightarrow>
    cancel_step x s (cancel_to x X_idle c s)"
| cancel_store: "cancel_at s x = X_locked \<Longrightarrow> cancel_step x s (cancel_to x X_stored ((fp_sys s)\<lparr>is_cancelled := True\<rparr>) s)"
| cancel_unlock: "cancel_at s x = X_stored \<Longrightarrow> LBF_Unlock cancel_lock (fp_sys s) = (Inr (), c) \<Longrightarrow>
    cancel_step x s (cancel_to x X_unlocked c s)"
| cancel_unlock_fails: "cancel_at s x = X_stored \<Longrightarrow> LBF_Unlock cancel_lock (fp_sys s) = (Inl e, c) \<Longrightarrow>
    cancel_step x s (cancel_to x X_idle c s)"
| cancel_post: "cancel_at s x = X_unlocked \<Longrightarrow> futex_post value_token (fp_sys s) = (Inr st, c) \<Longrightarrow>
    cancel_step x s (cancel_to x X_idle c s)"

inductive promise_step :: "'a fp_protocol \<Rightarrow> 'a fp_protocol \<Rightarrow> bool" where
  set_check: "promise_at s = P_idle \<Longrightarrow> cancel_at s T_promise = X_idle \<Longrightarrow> \<not> is_cancelled (fp_sys s) \<Longrightarrow>
    promise_step s (s\<lparr>promise_at := P_checked\<rparr>)"
| set_full: "promise_at s = P_checked \<Longrightarrow> on_buffer (Writer_PrepareInsert None) (fp_sys s) = (Inr None, c) \<Longrightarrow>
    promise_step s (s\<lparr>promise_at := P_idle, fp_sys := c\<rparr>)"
| set_prepare: "promise_at s = P_checked \<Longrightarrow> on_buffer (Writer_PrepareInsert None) (fp_sys s) = (Inr (Some i), c) \<Longrightarrow>
    promise_step s (s\<lparr>promise_at := P_prepared i, fp_sys := c\<rparr>)"
| set_store: "promise_at s = P_prepared i \<Longrightarrow>
    on_buffer (rt_bind (rq_assign i v) (\<lambda>_. RQ_FinishInsert)) (fp_sys s) = (Inr (), c) \<Longrightarrow>
    promise_step s (s\<lparr>promise_at := P_stored, fp_sys := c, fp_set := fp_set s @ [v]\<rparr>)"
| set_post: "promise_at s = P_stored \<Longrightarrow> futex_post value_token (fp_sys s) = (Inr st, c) \<Longrightarrow>
    promise_step s (s\<lparr>promise_at := P_idle, fp_sys := c\<rparr>)"

inductive future_step :: "'a fp_protocol \<Rightarrow> 'a fp_protocol \<Rightarrow> bool" where
  wait_cancelled: "future_at s = F_idle \<Longrightarrow> cancel_at s T_future = X_idle \<Longrightarrow> is_cancelled (fp_sys s) \<Longrightarrow>
    future_step s (s\<lparr>future_at := F_cancelled\<rparr>)"
| wait_look: "future_at s = F_idle \<Longrightarrow> cancel_at s T_future = X_idle \<Longrightarrow> \<not> is_cancelled (fp_sys s) \<Longrightarrow>
    future_step s (s\<lparr>future_at := F_looking\<rparr>)"
| wait_full: "future_at s = F_looking \<Longrightarrow> \<not> RQ_Empty (pc_buffer (fp_sys s)) \<Longrightarrow> future_step s (s\<lparr>future_at := F_ready\<rparr>)"
| wait_empty: "future_at s = F_looking \<Longrightarrow> RQ_Empty (pc_buffer (fp_sys s)) \<Longrightarrow> future_step s (s\<lparr>future_at := F_waiting\<rparr>)"
| wait_wake: "future_at s = F_waiting \<Longrightarrow> futex_wait_alone value_token (fp_sys s) = (Inr (), c) \<Longrightarrow>
    future_step s (s\<lparr>future_at := F_woken, fp_sys := c\<rparr>)"
| wait_timeout: "future_at s = F_waiting \<Longrightarrow> future_step s (s\<lparr>future_at := F_idle\<rparr>)"
| woken_cancelled: "future_at s = F_woken \<Longrightarrow> is_cancelled (fp_sys s) \<Longrightarrow> future_step s (s\<lparr>future_at := F_cancelled\<rparr>)"
| woken_ok: "future_at s = F_woken \<Longrightarrow> \<not> is_cancelled (fp_sys s) \<Longrightarrow> future_step s (s\<lparr>future_at := F_ready\<rparr>)"
| get_start: "future_at s = F_idle \<Longrightarrow> cancel_at s T_future = X_idle \<Longrightarrow> future_step s (s\<lparr>future_at := F_ready\<rparr>)"
| get_cancelled: "future_at s = F_ready \<Longrightarrow> is_cancelled (fp_sys s) \<Longrightarrow> future_step s (s\<lparr>future_at := F_cancelled\<rparr>)"
| get_check: "future_at s = F_ready \<Longrightarrow> \<not> is_cancelled (fp_sys s) \<Longrightarrow> future_step s (s\<lparr>future_at := F_getting\<rparr>)"
| get_empty: "future_at s = F_getting \<Longrightarrow> on_buffer Reader_MoveFront (fp_sys s) = (Inr None, c) \<Longrightarrow>
    future_step s (s\<lparr>future_at := F_empty, fp_sys := c\<rparr>)"
| get_move: "future_at s = F_getting \<Longrightarrow> on_buffer Reader_MoveFront (fp_sys s) = (Inr (Some v), c) \<Longrightarrow>
    future_step s (s\<lparr>future_at := F_moved v, fp_sys := c\<rparr>)"
| get_drop: "future_at s = F_moved v \<Longrightarrow> on_buffer RQ_DropFront (fp_sys s) = (Inr (), c) \<Longrightarrow>
    future_step s (s\<lparr>future_at := F_taken, fp_sys := c, fp_got := fp_got s @ [v]\<rparr>)"
| get_clear: "future_at s = F_taken \<Longrightarrow> LBF_TryLock value_token (fp_sys s) = (Inr b, c) \<Longrightarrow>
    future_step s (s\<lparr>future_at := F_idle, fp_sys := c\<rparr>)"
| returned: "future_at s \<in> {F_ready, F_cancelled, F_empty} \<Longrightarrow> future_step s (s\<lparr>future_at := F_idle\<rparr>)"

text \<open>A handle is not used by two calls at a time.\<close>

inductive fp_step :: "'a fp_protocol \<Rightarrow> 'a fp_protocol \<Rightarrow> bool" where
  by_promise: "promise_step s t \<Longrightarrow> fp_step s t"
| by_future: "future_step s t \<Longrightarrow> fp_step s t"
| by_canceller: "cancel_step x s t \<Longrightarrow> x = T_promise \<longrightarrow> promise_at s = P_idle \<Longrightarrow> x = T_future \<longrightarrow> future_at s = F_idle \<Longrightarrow>
    fp_step s t"

inductive fp_reachable :: "'a \<Rightarrow> 'a fp_protocol \<Rightarrow> bool" for x where
  init: "fp_reachable x (fp_init x)"
| step: "fp_reachable x s \<Longrightarrow> fp_step s t \<Longrightarrow> fp_reachable x t"

inductive_cases cancel_stepE: "cancel_step x s t"
inductive_cases promise_stepE: "promise_step s t"
inductive_cases future_stepE: "future_step s t"

text \<open>Nothing is lost or duplicated: the flags of the queue say where the two threads are.\<close>

definition writer_at :: "promise_pc \<Rightarrow> 'a rt_queue \<Rightarrow> bool" where
  "writer_at p q \<longleftrightarrow> (case p of P_prepared i \<Rightarrow> insert_in_progress q \<and> i = rq_head q | _ \<Rightarrow> \<not> insert_in_progress q)"

definition reader_at :: "'a future_pc \<Rightarrow> 'a rt_queue \<Rightarrow> bool" where
  "reader_at f q \<longleftrightarrow> (case f of F_moved v \<Rightarrow> front_accessed q \<and> v = rq_slots q ! rq_tail q | _ \<Rightarrow> \<not> front_accessed q)"

definition fp_queue_inv :: "'a fp_protocol \<Rightarrow> bool" where
  "fp_queue_inv s \<longleftrightarrow> (let q = pc_buffer (fp_sys s) in
     rq_ok q \<and> RQ_Capacity q = 1 \<and> fp_set s = fp_got s @ rq_items q \<and> writer_at (promise_at s) q \<and> reader_at (future_at s) q)"

text \<open>At most one thread holds the lock for cancelling, and the threads of the handles cancel between their calls only.\<close>

definition holds_cancel :: "'a fp_protocol \<Rightarrow> fp_thread \<Rightarrow> bool" where
  "holds_cancel s x \<longleftrightarrow> cancel_at s x \<in> {X_locked, X_stored}"

definition fp_cancel_inv :: "'a fp_protocol \<Rightarrow> bool" where
  "fp_cancel_inv s \<longleftrightarrow> has_value_futex (fp_sys s) \<in> {kReady, kPosted} \<and>
     (\<forall>x y. holds_cancel s x \<and> holds_cancel s y \<longrightarrow> x = y) \<and>
     cancel_futex (fp_sys s) = (if \<exists>x. holds_cancel s x then kReady else kPosted) \<and>
     (promise_at s \<noteq> P_idle \<longrightarrow> cancel_at s T_promise = X_idle) \<and> (future_at s \<noteq> F_idle \<longrightarrow> cancel_at s T_future = X_idle)"

text \<open>A sleeping future is woken: if there is a value or a cancellation, the token is there or about to be posted.\<close>

definition will_post :: "'a fp_protocol \<Rightarrow> bool" where
  "will_post s \<longleftrightarrow> (\<exists>x. cancel_at s x \<in> {X_stored, X_unlocked})"

definition fp_wake_inv :: "'a fp_protocol \<Rightarrow> bool" where
  "fp_wake_inv s \<longleftrightarrow>
     (future_at s \<in> {F_looking, F_waiting} \<and> is_cancelled (fp_sys s) \<longrightarrow> has_value_futex (fp_sys s) = kPosted \<or> will_post s) \<and>
     (future_at s = F_waiting \<and> \<not> RQ_Empty (pc_buffer (fp_sys s)) \<longrightarrow>
        has_value_futex (fp_sys s) = kPosted \<or> promise_at s = P_stored)"

definition fp_inv :: "'a fp_protocol \<Rightarrow> bool" where
  "fp_inv s \<longleftrightarrow> fp_queue_inv s \<and> fp_cancel_inv s \<and> fp_wake_inv s"

lemma Context_Cancel_run:
  assumes "fp_quiet s"
  shows "Context_Cancel s = (Inr (), s\<lparr>is_cancelled := True, has_value_futex := kPosted\<rparr>)"
proof -
  have "cancel_futex s = kPosted" "has_value_futex s \<in> {kReady, kPosted}" using assms by (auto simp: fp_quiet_def)
  then show ?thesis by (cases s) (auto simp: Context_Cancel_def fp_futex_simps rt_defs)
qed

text \<open>What the accesses do.\<close>

lemma value_post_run: "futex_post value_token c = (Inr st, d) \<Longrightarrow> has_value_futex c \<in> {kReady, kPosted} \<Longrightarrow>
    d = c\<lparr>has_value_futex := kPosted\<rparr>"
  by (cases c) (auto simp: futex_post_def Futex_Post_def)

lemma value_take_run: "futex_wait_alone value_token c = (Inr (), d) \<Longrightarrow> d = c\<lparr>has_value_futex := kReady\<rparr>"
  by (auto simp: futex_wait_alone_def futex_take_def split: if_splits)

lemma value_clear_run: "LBF_TryLock value_token c = (Inr b, d) \<Longrightarrow> has_value_futex c \<in> {kReady, kPosted} \<Longrightarrow>
    d = c\<lparr>has_value_futex := kReady\<rparr>"
  by (auto simp: LBF_TryLock_def Futex_TryWait_open)

lemma cancel_lock_run: "LBF_TryLock cancel_lock c = (Inr b, d) \<Longrightarrow> cancel_futex c \<in> {kReady, kPosted} \<Longrightarrow>
    b = (cancel_futex c = kPosted) \<and> d = c\<lparr>cancel_futex := kReady\<rparr>"
  by (auto simp: LBF_TryLock_def Futex_TryWait_open)

lemma cancel_unlock_run: "cancel_futex c = kReady \<Longrightarrow> LBF_Unlock cancel_lock c = (Inr (), c\<lparr>cancel_futex := kPosted\<rparr>)"
  by (simp add: LBF_Unlock_def LBF_IsHeld_def futex_post_def Futex_Post_open rt_defs)

lemma on_buffer_run: "on_buffer m c = (r, d) \<Longrightarrow> \<exists>q. m (pc_buffer c) = (r, q) \<and> d = c\<lparr>pc_buffer := q\<rparr>"
  by (auto simp: on_buffer_def split: prod.splits)

text \<open>The queue operations change the size, their own flag, and nothing else that the other side sees.\<close>

lemma prepare_law:
  assumes "rq_ok q" "Writer_PrepareInsert None q = (Inr r, q')"
  shows "case r of None \<Rightarrow> q' = q | Some i \<Rightarrow> i = rq_head q \<and> q' = q\<lparr>insert_in_progress := True\<rparr> \<and> rq_ok q'"
  using assms rq_ok_flags(2)[OF assms(1), of True]
  by (auto simp: Writer_PrepareInsert_def RQ_PrepareInsert_def RQ_Full_def rt_defs rq_ok_def split: if_splits)

lemma store_law:
  assumes "rq_ok q" "insert_in_progress q" "rt_bind (rq_assign (rq_head q) v) (\<lambda>_. RQ_FinishInsert) q = (Inr (), q')"
  shows "rq_ok q' \<and> RQ_Capacity q' = RQ_Capacity q \<and> rq_items q' = rq_items q @ [v] \<and> \<not> insert_in_progress q' \<and>
    front_accessed q' = front_accessed q \<and> rq_tail q' = rq_tail q \<and> \<not> RQ_Empty q' \<and>
    (front_accessed q \<longrightarrow> rq_slots q' ! rq_tail q = rq_slots q ! rq_tail q)"
proof -
  define u where "u = q\<lparr>rq_slots := (rq_slots q)[rq_head q := v]\<rparr>"
  have free: "rq_size q < RQ_Capacity q" using assms(1,2) by (simp add: rq_ok_def)
  have u: "rq_ok u" "rq_items u = rq_items q" "rq_slots u ! rq_head u = v" "rq_size u = rq_size q" "rq_tail u = rq_tail q"
    "rq_head u = rq_head q" "RQ_Capacity u = RQ_Capacity q" "front_accessed u = front_accessed q"
    using assms(1) rq_head_less[OF assms(1)] rq_items_assign_head[OF assms(1) free, of v]
    by (simp_all add: u_def rq_ok_def RQ_Capacity_def)
  have q': "q' = u\<lparr>insert_in_progress := False, rq_head := (rq_head u + 1) mod RQ_Capacity u, rq_size := rq_size u + 1\<rparr>"
    using assms rq_head_less[OF assms(1)] by (auto simp: rt_defs rq_assign_def RQ_FinishInsert_def u_def RQ_Capacity_def)
  have apart: "rq_head q \<noteq> rq_tail q" if "front_accessed q"
    using assms(1) free that ring_inj[of "rq_size q" "RQ_Capacity q" 0 "rq_tail q"] by (auto simp: rq_ok_def)
  show ?thesis using u q' free rq_finish_law[OF u(1)] rq_items_finish[OF u(1)] apart
    by (auto simp: rq_items_def RQ_Empty_def RQ_Capacity_def u_def)
qed

lemma move_law:
  assumes "rq_ok q" "Reader_MoveFront q = (Inr r, q')"
  shows "case r of None \<Rightarrow> q' = q | Some v \<Rightarrow> v = rq_slots q ! rq_tail q \<and> q' = q\<lparr>front_accessed := True\<rparr> \<and> rq_ok q'"
  using assms rq_ok_flags(1)[OF assms(1), of True]
  by (auto simp: Reader_MoveFront_def RQ_Front_def RQ_Empty_def rq_element_def rt_defs rq_ok_def split: if_splits)

lemma drop_law:
  assumes "rq_ok q" "front_accessed q" "RQ_DropFront q = (Inr (), q')"
  shows "rq_ok q' \<and> RQ_Capacity q' = RQ_Capacity q \<and> rq_items q = rq_slots q ! rq_tail q # rq_items q' \<and>
    insert_in_progress q' = insert_in_progress q \<and> \<not> front_accessed q' \<and> rq_head q' = rq_head q"
proof -
  have size: "0 < rq_size q" using assms(1,2) by (simp add: rq_ok_def)
  have "q' = q\<lparr>front_accessed := False, rq_size := rq_size q - 1, rq_tail := (rq_tail q + 1) mod RQ_Capacity q\<rparr>"
    using assms(2,3) by (simp add: RQ_DropFront_def)
  then show ?thesis using rq_drop_law[OF assms(1) size] rq_items_drop[OF assms(1) size] by (simp add: rq_items_def RQ_Capacity_def)
qed

lemma fp_queue_inv_frame: "fp_queue_inv s \<Longrightarrow> pc_buffer (fp_sys t) = pc_buffer (fp_sys s) \<Longrightarrow> fp_set t = fp_set s \<Longrightarrow> fp_got t = fp_got s \<Longrightarrow>
    writer_at (promise_at t) (pc_buffer (fp_sys s)) \<Longrightarrow> reader_at (future_at t) (pc_buffer (fp_sys s)) \<Longrightarrow> fp_queue_inv t"
  by (simp add: fp_queue_inv_def Let_def)

lemma fp_queueD:
  assumes "fp_queue_inv s"
  shows "rq_ok (pc_buffer (fp_sys s))" "RQ_Capacity (pc_buffer (fp_sys s)) = 1"
    "fp_set s = fp_got s @ rq_items (pc_buffer (fp_sys s))"
    "writer_at (promise_at s) (pc_buffer (fp_sys s))" "reader_at (future_at s) (pc_buffer (fp_sys s))"
  using assms by (simp_all add: fp_queue_inv_def Let_def)

lemma fp_queueI: "pc_buffer (fp_sys t) = q \<Longrightarrow> rq_ok q \<Longrightarrow> RQ_Capacity q = 1 \<Longrightarrow> fp_set t = fp_got t @ rq_items q \<Longrightarrow>
    writer_at (promise_at t) q \<Longrightarrow> reader_at (future_at t) q \<Longrightarrow> fp_queue_inv t"
  by (simp add: fp_queue_inv_def Let_def)

lemma writer_at_simps [simp]:
  "writer_at (P_prepared i) q \<longleftrightarrow> insert_in_progress q \<and> i = rq_head q" "writer_at P_idle q \<longleftrightarrow> \<not> insert_in_progress q"
  "writer_at P_checked q \<longleftrightarrow> \<not> insert_in_progress q" "writer_at P_stored q \<longleftrightarrow> \<not> insert_in_progress q"
  by (simp_all add: writer_at_def)

lemma reader_at_simps [simp]:
  "reader_at (F_moved v) q \<longleftrightarrow> front_accessed q \<and> v = rq_slots q ! rq_tail q"
  "f \<in> {F_idle, F_looking, F_waiting, F_woken, F_ready, F_getting, F_taken, F_cancelled, F_empty} \<Longrightarrow> reader_at f q \<longleftrightarrow> \<not> front_accessed q"
  by (auto simp: reader_at_def)

lemma other_side_at [simp]: "writer_at p (q\<lparr>front_accessed := b\<rparr>) = writer_at p q"
  "reader_at f (q\<lparr>insert_in_progress := b\<rparr>) = reader_at f q"
  by (simp_all add: writer_at_def reader_at_def split: promise_pc.splits future_pc.splits)

lemma promise_keeps_queue: "promise_step s t \<Longrightarrow> fp_cancel_inv s \<Longrightarrow> fp_queue_inv s \<Longrightarrow> fp_queue_inv t"
proof (induction rule: promise_step.induct)
  case (set_full s c)
  then obtain q where q: "Writer_PrepareInsert None (pc_buffer (fp_sys s)) = (Inr None, q)" "c = (fp_sys s)\<lparr>pc_buffer := q\<rparr>"
    by (blast dest: on_buffer_run)
  note inv = fp_queueD[OF set_full(4)]
  show ?case using prepare_law[OF inv(1) q(1)] inv set_full(1) q(2) by (intro fp_queueI[OF refl]) simp_all
next
  case (set_prepare s i c)
  then obtain q where q: "Writer_PrepareInsert None (pc_buffer (fp_sys s)) = (Inr (Some i), q)" "c = (fp_sys s)\<lparr>pc_buffer := q\<rparr>"
    by (blast dest: on_buffer_run)
  note inv = fp_queueD[OF set_prepare(4)]
  have law: "i = rq_head (pc_buffer (fp_sys s)) \<and> q = (pc_buffer (fp_sys s))\<lparr>insert_in_progress := True\<rparr> \<and> rq_ok q"
    using prepare_law[OF inv(1) q(1)] unfolding option.case .
  note new = law[THEN conjunct2, THEN conjunct2] law[THEN conjunct1] law[THEN conjunct2, THEN conjunct1]
  show ?case by (rule fp_queueI[of _ q]) (use q(2) new(1) in simp, rule new(1), simp_all add: new(2,3) inv)
next
  case (set_store s i v c)
  note inv = fp_queueD[OF set_store(4)]
  have i: "i = rq_head (pc_buffer (fp_sys s))" "insert_in_progress (pc_buffer (fp_sys s))" using inv(4) set_store(1) by simp_all
  from set_store(2) obtain q where q: "rt_bind (rq_assign i v) (\<lambda>_. RQ_FinishInsert) (pc_buffer (fp_sys s)) = (Inr (), q)"
    "c = (fp_sys s)\<lparr>pc_buffer := q\<rparr>" by (blast dest: on_buffer_run)
  note law = store_law[OF inv(1) i(2) q(1)[unfolded i(1)]]
  have "reader_at (future_at s) q" using law inv(5) by (simp add: reader_at_def split: future_pc.splits)
  then show ?case using law inv q(2) by (intro fp_queueI[OF refl]) simp_all
next
  case (set_post s st c)
  then have "c = (fp_sys s)\<lparr>has_value_futex := kPosted\<rparr>" by (auto simp: fp_cancel_inv_def intro: value_post_run)
  then show ?case using fp_queueD[OF set_post(4)] set_post(1) by (intro fp_queue_inv_frame[OF set_post(4)]) simp_all
next
  case (set_check s)
  then show ?case using fp_queueD[OF set_check(5)] by (intro fp_queue_inv_frame[OF set_check(5)]) simp_all
qed

lemma future_keeps_queue: "future_step s t \<Longrightarrow> fp_cancel_inv s \<Longrightarrow> fp_queue_inv s \<Longrightarrow> fp_queue_inv t"
proof (induction rule: future_step.induct)
  case (get_empty s c)
  then obtain q where q: "Reader_MoveFront (pc_buffer (fp_sys s)) = (Inr None, q)" "c = (fp_sys s)\<lparr>pc_buffer := q\<rparr>"
    by (blast dest: on_buffer_run)
  note inv = fp_queueD[OF get_empty(4)]
  show ?case using move_law[OF inv(1) q(1)] inv get_empty(1) q(2) by (intro fp_queueI[OF refl]) simp_all
next
  case (get_move s v c)
  then obtain q where q: "Reader_MoveFront (pc_buffer (fp_sys s)) = (Inr (Some v), q)" "c = (fp_sys s)\<lparr>pc_buffer := q\<rparr>"
    by (blast dest: on_buffer_run)
  note inv = fp_queueD[OF get_move(4)]
  have law: "v = rq_slots (pc_buffer (fp_sys s)) ! rq_tail (pc_buffer (fp_sys s)) \<and>
      q = (pc_buffer (fp_sys s))\<lparr>front_accessed := True\<rparr> \<and> rq_ok q"
    using move_law[OF inv(1) q(1)] unfolding option.case .
  note new = law[THEN conjunct2, THEN conjunct2] law[THEN conjunct1] law[THEN conjunct2, THEN conjunct1]
  show ?case by (rule fp_queueI[of _ q]) (use q(2) new(1) in simp, rule new(1), simp_all add: new(2,3) inv)
next
  case (get_drop s v c)
  note inv = fp_queueD[OF get_drop(4)]
  have v: "v = rq_slots (pc_buffer (fp_sys s)) ! rq_tail (pc_buffer (fp_sys s))" "front_accessed (pc_buffer (fp_sys s))"
    using inv(5) get_drop(1) by simp_all
  from get_drop(2) obtain q where q: "RQ_DropFront (pc_buffer (fp_sys s)) = (Inr (), q)" "c = (fp_sys s)\<lparr>pc_buffer := q\<rparr>"
    by (blast dest: on_buffer_run)
  note law = drop_law[OF inv(1) v(2) q(1)]
  have "writer_at (promise_at s) q" using law inv(4) by (simp add: writer_at_def split: promise_pc.splits)
  then show ?case using law inv(2,3) q(2) v(1) by (intro fp_queueI[OF refl]) simp_all
next
  case (wait_wake s c)
  then show ?case using value_take_run[OF wait_wake(2)] fp_queueD[OF wait_wake(4)]
    by (intro fp_queue_inv_frame[OF wait_wake(4)]) simp_all
next
  case (get_clear s b c)
  then have "c = (fp_sys s)\<lparr>has_value_futex := kReady\<rparr>" by (auto simp: fp_cancel_inv_def intro: value_clear_run)
  then show ?case using fp_queueD[OF get_clear(4)] get_clear(1) by (intro fp_queue_inv_frame[OF get_clear(4)]) simp_all
qed (auto simp: fp_queue_inv_def Let_def)

text \<open>What each step of a cancelling thread does to the shared state.\<close>

lemma cancel_step_cases:
  assumes "cancel_step x s t" "fp_cancel_inv s"
  obtains "cancel_at s x = X_idle" "cancel_futex (fp_sys s) = kPosted" "t = cancel_to x X_locked ((fp_sys s)\<lparr>cancel_futex := kReady\<rparr>) s"
  | "t = s"
  | "cancel_at s x = X_locked" "t = cancel_to x X_stored ((fp_sys s)\<lparr>is_cancelled := True\<rparr>) s"
  | "cancel_at s x = X_stored" "t = cancel_to x X_unlocked ((fp_sys s)\<lparr>cancel_futex := kPosted\<rparr>) s"
  | "cancel_at s x = X_unlocked" "t = cancel_to x X_idle ((fp_sys s)\<lparr>has_value_futex := kPosted\<rparr>) s"
proof -
  have lock: "cancel_futex (fp_sys s) \<in> {kReady, kPosted}" and tok: "has_value_futex (fp_sys s) \<in> {kReady, kPosted}"
    and held: "cancel_at s x = X_stored \<Longrightarrow> cancel_futex (fp_sys s) = kReady"
    using assms(2) by (auto simp: fp_cancel_inv_def holds_cancel_def split: if_splits)
  from assms(1) show ?thesis
  proof (cases rule: cancel_step.cases)
    case (cancel_lock c)
    then show ?thesis using that(1) cancel_lock_run[OF cancel_lock(3) lock] by simp
  next
    case (cancel_refused c)
    have "c = fp_sys s" using cancel_lock_run[OF cancel_refused(3) lock] lock by (cases "fp_sys s") simp
    then have "t = s" using cancel_refused(1,2) by (cases s) (simp add: fun_upd_idem)
    then show ?thesis by (rule that(2))
  next
    case cancel_store
    then show ?thesis using that(3) by simp
  next
    case (cancel_unlock c)
    then show ?thesis using that(4) cancel_unlock_run[OF held] by simp
  next
    case (cancel_unlock_fails e c)
    then show ?thesis using cancel_unlock_run[OF held] by simp
  next
    case (cancel_post st c)
    then show ?thesis using that(5) value_post_run[OF cancel_post(3) tok] by simp
  qed
qed

lemma cancel_keeps_queue: "cancel_step x s t \<Longrightarrow> fp_cancel_inv s \<Longrightarrow> fp_queue_inv s \<Longrightarrow> fp_queue_inv t"
  by (erule (1) cancel_step_cases) (simp_all add: fp_queue_inv_def Let_def)

lemma holds_cancel_upd: "holds_cancel (cancel_to x p c s) y \<longleftrightarrow> (if y = x then p \<in> {X_locked, X_stored} else holds_cancel s y)"
  by (simp add: holds_cancel_def)

lemma cancel_keeps_cancel:
  assumes "cancel_step x s t" "fp_cancel_inv s" "x = T_promise \<longrightarrow> promise_at s = P_idle" "x = T_future \<longrightarrow> future_at s = F_idle"
  shows "fp_cancel_inv t"
  using assms(1,2)
proof (cases rule: cancel_step_cases)
  case 1
  then have free: "\<not> holds_cancel s y" for y using assms(2) by (auto simp: fp_cancel_inv_def split: if_splits)
  have "holds_cancel t y \<longleftrightarrow> y = x" for y using free by (simp add: 1 holds_cancel_upd)
  then show ?thesis using 1 assms(2-4) by (auto simp: fp_cancel_inv_def)
next
  case 2
  then show ?thesis using assms(2) by simp
next
  case 3
  have "holds_cancel t y \<longleftrightarrow> holds_cancel s y" for y using 3(1) by (simp add: 3(2) holds_cancel_def)
  then show ?thesis using 3 assms(2-4) by (auto simp: fp_cancel_inv_def)
next
  case 4
  then have "holds_cancel s x" by (simp add: holds_cancel_def)
  then have "\<not> holds_cancel t y" for y using assms(2) by (auto simp: 4 holds_cancel_upd fp_cancel_inv_def)
  then show ?thesis using 4 assms(2-4) by (auto simp: fp_cancel_inv_def)
next
  case 5
  have "holds_cancel t y \<longleftrightarrow> holds_cancel s y" for y using 5(1) by (simp add: 5(2) holds_cancel_def)
  then show ?thesis using 5 assms(2-4) by (auto simp: fp_cancel_inv_def)
qed

lemma fp_cancel_invI:
  "fp_cancel_inv s \<Longrightarrow> has_value_futex (fp_sys t) \<in> {kReady, kPosted} \<Longrightarrow> cancel_futex (fp_sys t) = cancel_futex (fp_sys s) \<Longrightarrow>
   cancel_at t = cancel_at s \<Longrightarrow> promise_at t \<noteq> P_idle \<longrightarrow> cancel_at s T_promise = X_idle \<Longrightarrow>
   future_at t \<noteq> F_idle \<longrightarrow> cancel_at s T_future = X_idle \<Longrightarrow> fp_cancel_inv t"
  by (simp add: fp_cancel_inv_def holds_cancel_def)

lemma promise_keeps_cancel: "promise_step s t \<Longrightarrow> fp_cancel_inv s \<Longrightarrow> fp_cancel_inv t"
proof (induction rule: promise_step.induct)
  case (set_post s st c)
  then have "c = (fp_sys s)\<lparr>has_value_futex := kPosted\<rparr>" by (auto simp: fp_cancel_inv_def intro: value_post_run)
  then show ?case using set_post by (intro fp_cancel_invI[OF set_post(3)]) (auto simp: fp_cancel_inv_def)
qed (rule fp_cancel_invI, assumption, (auto simp: fp_cancel_inv_def dest!: on_buffer_run)[5])+

lemma future_keeps_cancel: "future_step s t \<Longrightarrow> fp_cancel_inv s \<Longrightarrow> fp_cancel_inv t"
proof (induction rule: future_step.induct)
  case (wait_wake s c)
  then show ?case using value_take_run[of "fp_sys s" c] by (intro fp_cancel_invI[OF wait_wake(3)]) (auto simp: fp_cancel_inv_def)
next
  case (get_clear s b c)
  then have "c = (fp_sys s)\<lparr>has_value_futex := kReady\<rparr>" by (auto simp: fp_cancel_inv_def intro: value_clear_run)
  then show ?case using get_clear by (intro fp_cancel_invI[OF get_clear(3)]) (auto simp: fp_cancel_inv_def)
qed (rule fp_cancel_invI, assumption, (auto simp: fp_cancel_inv_def dest!: on_buffer_run)[5])+

lemma cancel_keeps_wake:
  assumes "cancel_step x s t" "fp_cancel_inv s" "fp_wake_inv s"
  shows "fp_wake_inv t"
proof -
  have other: "will_post (cancel_to x p c s)" if "will_post s" "cancel_at s x \<notin> {X_stored, X_unlocked} \<or> p \<in> {X_stored, X_unlocked}" for p c
    using that by (auto simp: will_post_def)
  have new: "will_post (cancel_to x p c s)" if "p \<in> {X_stored, X_unlocked}" for p c
    using that by (auto simp: will_post_def)
  from assms(1,2) show ?thesis
  proof (cases rule: cancel_step_cases)
    case 1
    then show ?thesis using assms(3) other[of X_locked] by (auto simp: fp_wake_inv_def)
  next
    case 2
    then show ?thesis using assms(3) by simp
  next
    case 3
    then show ?thesis using assms(3) new[of X_stored] by (auto simp: fp_wake_inv_def)
  next
    case 4
    then show ?thesis using assms(3) new[of X_unlocked] by (auto simp: fp_wake_inv_def)
  next
    case 5
    then show ?thesis by (auto simp: fp_wake_inv_def)
  qed
qed

lemma promise_keeps_wake: "promise_step s t \<Longrightarrow> fp_cancel_inv s \<Longrightarrow> fp_queue_inv s \<Longrightarrow> fp_wake_inv s \<Longrightarrow> fp_wake_inv t"
proof (induction rule: promise_step.induct)
  case (set_full s c)
  then obtain q where q: "Writer_PrepareInsert None (pc_buffer (fp_sys s)) = (Inr None, q)" "c = (fp_sys s)\<lparr>pc_buffer := q\<rparr>"
    by (blast dest: on_buffer_run)
  have "q = pc_buffer (fp_sys s)" using prepare_law[OF _ q(1)] set_full(4) by (simp add: fp_queue_inv_def Let_def)
  then show ?case using q set_full by (auto simp: fp_wake_inv_def will_post_def)
next
  case (set_prepare s i c)
  then obtain q where q: "Writer_PrepareInsert None (pc_buffer (fp_sys s)) = (Inr (Some i), q)" "c = (fp_sys s)\<lparr>pc_buffer := q\<rparr>"
    by (blast dest: on_buffer_run)
  have "q = (pc_buffer (fp_sys s))\<lparr>insert_in_progress := True\<rparr>"
    using prepare_law[OF _ q(1)] set_prepare(4) by (simp add: fp_queue_inv_def Let_def)
  then show ?case using q set_prepare by (auto simp: fp_wake_inv_def will_post_def RQ_Empty_def)
next
  case (set_store s i v c)
  then show ?case by (auto simp: fp_wake_inv_def will_post_def dest!: on_buffer_run)
next
  case (set_post s st c)
  then have "c = (fp_sys s)\<lparr>has_value_futex := kPosted\<rparr>" by (auto simp: fp_cancel_inv_def intro: value_post_run)
  then show ?case by (simp add: fp_wake_inv_def)
qed (auto simp: fp_wake_inv_def will_post_def)

lemma future_keeps_wake: "future_step s t \<Longrightarrow> fp_wake_inv s \<Longrightarrow> fp_wake_inv t"
  by (induction rule: future_step.induct) (auto simp: fp_wake_inv_def will_post_def)

lemma fp_inv_step: "fp_step s t \<Longrightarrow> fp_inv s \<Longrightarrow> fp_inv t"
  unfolding fp_inv_def
  by (elim fp_step.cases) (auto intro: promise_keeps_queue promise_keeps_cancel promise_keeps_wake future_keeps_queue
    future_keeps_cancel future_keeps_wake cancel_keeps_queue cancel_keeps_cancel cancel_keeps_wake)

lemma fp_reachable_inv: "fp_reachable x s \<Longrightarrow> fp_inv s"
proof (induction rule: fp_reachable.induct)
  case init
  have idle: "rq_ok (mk_RtQueueBuffer 1 x)" "RQ_Capacity (mk_RtQueueBuffer 1 x) = 1" "rq_items (mk_RtQueueBuffer 1 x) = []"
    "\<not> insert_in_progress (mk_RtQueueBuffer 1 x)" "\<not> front_accessed (mk_RtQueueBuffer 1 x)"
    using mk_RtQueueBuffer_idle[of 1 x] by (simp_all add: rq_idle_def RQ_Capacity_def) (simp add: mk_RtQueueBuffer_def)
  then show ?case
    by (simp add: fp_inv_def fp_queue_inv_def fp_cancel_inv_def fp_wake_inv_def holds_cancel_def fp_init_def Let_def)
      (simp add: mk_RealtimeFuture_def mk_context_def mk_BinaryFutex_def)
next
  case (step s t)
  then show ?case by (blast intro: fp_inv_step)
qed

text \<open>The thread that owes the token is not held up.\<close>

lemma canceller_goes_on:
  assumes "fp_cancel_inv s" "cancel_at s y = X_stored"
  shows "fst (LBF_Unlock cancel_lock (fp_sys s)) = Inr ()"
proof -
  have "holds_cancel s y" using assms(2) by (simp add: holds_cancel_def)
  then have "cancel_futex (fp_sys s) = kReady" using assms(1) by (auto simp: fp_cancel_inv_def)
  then show ?thesis by (simp add: cancel_unlock_run)
qed

section \<open>Properties\<close>

text \<open>C31 (roundtrip). A value that is set on a promise is what the waiting future gets, and it is gone afterwards; a second
  value before that is refused and changes nothing.\<close>

theorem promise_delivers_value:
  assumes "fp_quiet s" "p_context s" "promise_attached s" "f_context s" "future_attached s"
    and "\<not> is_cancelled s" "fp_value s = None"
  shows "\<exists>t u. Promise_Set v s = (Inr (), t) \<and> Future_WaitUntilAndGet t = (Inr v, u) \<and> fp_quiet u \<and> fp_value u = None \<and>
    Promise_Set w t = (Inl (Error (if p_reusable s then ResourceExhausted else FailedPrecondition)), t)"
proof -
  define t0 where "t0 = s\<lparr>pc_buffer := snd (rq_insert v (pc_buffer s)), has_value_futex := kPosted\<rparr>"
  define t where "t = (if p_reusable s then t0 else t0\<lparr>promise_attached := False, promise_detached := kPosted, p_context := False\<rparr>)"
  have t: "fp_quiet t" "fp_value t = Some v" "f_context t" "future_attached t" "\<not> is_cancelled t"
    using fp_after_set[OF assms(1,7), of v] assms by (auto simp: t_def t0_def fp_quiet_def fp_value_def)
  have set: "Promise_Set v s = (Inr (), t)"
    using Promise_Set_run[OF assms(1-3), of v] assms(6,7) by (simp add: t_def t0_def Let_def)
  define u0 where "u0 = t\<lparr>pc_buffer := snd (rq_pop (pc_buffer t)), has_value_futex := kReady\<rparr>"
  define u where "u = (if f_reusable t then u0 else u0\<lparr>future_attached := False, future_detached := kPosted, f_context := False\<rparr>)"
  have u: "fp_quiet u" "fp_value u = None"
    using fp_after_get[OF t(1)] by (auto simp: u_def u0_def fp_quiet_def fp_value_def)
  have get: "Future_WaitUntilAndGet t = (Inr v, u)"
    using Future_WaitUntil_full[OF t(1,3,5,2)] Future_Get_run[OF t(1,3,4)] t(2,5)
    by (simp add: Future_WaitUntilAndGet_def rt_bind_def u_def u0_def Let_def)
  have again: "Promise_Set w t = (Inl (Error (if p_reusable s then ResourceExhausted else FailedPrecondition)), t)"
  proof (cases "p_reusable s")
    case True
    then have "p_context t" "promise_attached t" using assms by (simp_all add: t_def t0_def)
    then show ?thesis using Promise_Set_run[OF t(1), of w] t(2,5) True by simp
  next
    case False
    then show ?thesis by (simp add: Promise_Set_def t_def t0_def rt_bind_gets rt_fail_def)
  qed
  from set get u again show ?thesis by blast
qed

definition answering :: "nat promise_sys" where
  "answering = snd (Future_GetPromise False (mk_RealtimeFuture 0))"

lemma answering_fields: "fp_quiet answering" "p_context answering" "promise_attached answering" "f_context answering"
  "future_attached answering" "\<not> is_cancelled answering" "fp_value answering = None"
  by (simp_all add: answering_def Future_GetPromise_def Context_GetPromise_def mk_RealtimeFuture_def mk_context_def
    rt_defs fp_futex_simps mk_BinaryFutex_def fp_quiet_def rq_idle_def rq_ok_def mk_RtQueueBuffer_def RQ_Capacity_def
    fp_value_def rq_items_def)

theorem promise_delivers_value_witness:
  "\<exists>t u. Promise_Set 7 answering = (Inr (), t) \<and> Future_WaitUntilAndGet t = (Inr 7, u) \<and> fp_quiet u \<and> fp_value u = None \<and>
    Promise_Set 8 t = (Inl (Error (if p_reusable answering then ResourceExhausted else FailedPrecondition)), t)"
  by (rule promise_delivers_value[OF answering_fields])

text \<open>C30 (liveness). However a promise, a future and any number of threads that cancel interleave, the values that the future
  gets are those that were set, in order and each once, and at most one is under way. A future that sleeps while there is a
  value or a cancellation has its wake-up posted, or another thread is about to post it: the promise, or one that cancels, whose call will
  not fail before that.\<close>

theorem future_is_woken:
  assumes "fp_reachable x s"
  shows "fp_set s = fp_got s @ rq_items (pc_buffer (fp_sys s)) \<and> length (rq_items (pc_buffer (fp_sys s))) \<le> 1 \<and>
    (future_at s = F_waiting \<and> (rq_items (pc_buffer (fp_sys s)) \<noteq> [] \<or> is_cancelled (fp_sys s)) \<longrightarrow>
       has_value_futex (fp_sys s) = kPosted \<or> promise_at s = P_stored \<or>
       (\<exists>y. y \<noteq> T_future \<and> (cancel_at s y = X_unlocked \<or>
          cancel_at s y = X_stored \<and> fst (LBF_Unlock cancel_lock (fp_sys s)) = Inr ())))"
proof -
  have inv: "fp_queue_inv s" "fp_cancel_inv s" "fp_wake_inv s" using fp_reachable_inv[OF assms] by (simp_all add: fp_inv_def)
  note queue = fp_queueD[OF inv(1)]
  have "length (rq_items (pc_buffer (fp_sys s))) \<le> 1" using queue(1,2) by (simp add: rq_items_def rq_ok_def)
  moreover have "rq_items (pc_buffer (fp_sys s)) \<noteq> [] \<longleftrightarrow> \<not> RQ_Empty (pc_buffer (fp_sys s))"
    by (simp add: rq_items_def RQ_Empty_def)
  moreover have "\<exists>y. y \<noteq> T_future \<and> (cancel_at s y = X_unlocked \<or>
      cancel_at s y = X_stored \<and> fst (LBF_Unlock cancel_lock (fp_sys s)) = Inr ())" if "will_post s" "future_at s = F_waiting"
  proof -
    note w = that
    obtain y where "cancel_at s y = X_stored \<or> cancel_at s y = X_unlocked" using w(1) by (auto simp: will_post_def)
    moreover have "cancel_at s T_future = X_idle" using w(2) inv(2) by (simp add: fp_cancel_inv_def)
    ultimately show ?thesis using canceller_goes_on[OF inv(2), of y] by (intro exI[of _ y]) auto
  qed
  ultimately show ?thesis using queue(3) inv(3) by (auto simp: fp_wake_inv_def)
qed

text \<open>States of runs: the buffer, the flag, the lock for cancelling and the token, and where the threads are.\<close>

definition run_state :: "bool \<Rightarrow> bool \<Rightarrow> bool \<Rightarrow> bool \<Rightarrow> promise_pc \<Rightarrow> nat future_pc \<Rightarrow> ctx_cancel_pc \<Rightarrow> nat list \<Rightarrow> nat list \<Rightarrow>
    nat fp_protocol" where
  "run_state full cancelled locked posted p f k stored got =
     \<lparr>fp_sys = (mk_RealtimeFuture 0)\<lparr>pc_buffer := \<lparr>insert_in_progress = (p = P_prepared 0), rq_head = 0, front_accessed = (f = F_moved 7),
        rq_tail = 0, rq_size = (if full then 1 else 0), rq_slots = [if stored = [] then 0 else 7]\<rparr>,
        is_cancelled := cancelled, cancel_futex := (if locked then kReady else kPosted),
        has_value_futex := (if posted then kPosted else kReady)\<rparr>,
      promise_at = p, future_at = f, cancel_at = (\<lambda>_. X_idle)(T_other 0 := k), fp_set = stored, fp_got = got\<rparr>"

lemmas run_state_defs = run_state_def mk_RealtimeFuture_def mk_context_def on_buffer_def Writer_PrepareInsert_def RQ_PrepareInsert_def
  RQ_Full_def RQ_Empty_def RQ_FinishInsert_def RQ_Capacity_def rq_assign_def Reader_MoveFront_def RQ_Front_def RQ_DropFront_def
  rq_element_def rt_defs fp_futex_simps mk_RtQueueBuffer_def mk_BinaryFutex_def fp_init_def

lemma run_start: "fp_reachable 0 (run_state False False False False P_idle F_idle X_idle [] [])"
  using fp_reachable.init[of "0 :: nat"] by (simp add: run_state_defs fun_upd_idem)

lemma run_step_to: "fp_reachable x s \<Longrightarrow> fp_step s t' \<Longrightarrow> t' = t \<Longrightarrow> fp_reachable x t"
  by (blast intro: fp_reachable.step)

lemmas run_promise = run_step_to[OF _ fp_step.by_promise]
lemmas run_future = run_step_to[OF _ fp_step.by_future]
lemmas run_cancel = run_step_to[OF _ fp_step.by_canceller[of "T_other 0"]]

lemma woken_run_reachable: "fp_reachable 0 (run_state True False False True P_idle F_waiting X_idle [7] [])"
proof -
  have "fp_reachable 0 (run_state False False False False P_idle F_looking X_idle [] [])"
    by (rule run_future[OF run_start future_step.wait_look]) (simp_all add: run_state_defs)
  then have "fp_reachable 0 (run_state False False False False P_idle F_waiting X_idle [] [])"
    by (rule run_future[OF _ future_step.wait_empty]) (simp_all add: run_state_defs)
  then have "fp_reachable 0 (run_state False False False False P_checked F_waiting X_idle [] [])"
    by (rule run_promise[OF _ promise_step.set_check]) (simp_all add: run_state_defs)
  then have "fp_reachable 0 (run_state False False False False (P_prepared 0) F_waiting X_idle [] [])"
    by (rule run_promise[OF _ promise_step.set_prepare[where i = 0]]) (simp_all add: run_state_defs)
  then have "fp_reachable 0 (run_state True False False False P_stored F_waiting X_idle [7] [])"
    by (rule run_promise[OF _ promise_step.set_store[where v = 7 and i = 0]]) (simp_all add: run_state_defs)
  then show ?thesis
    by (rule run_promise[OF _ promise_step.set_post]) (simp_all add: run_state_defs)
qed

text \<open>The future sleeps while another thread is in \<^verbatim>\<open>Cancel\<close>.\<close>

lemma cancel_run_reachable: "fp_reachable 0 (run_state False True True False P_idle F_waiting X_stored [] [])"
proof -
  have "fp_reachable 0 (run_state False False False False P_idle F_looking X_idle [] [])"
    by (rule run_future[OF run_start future_step.wait_look]) (simp_all add: run_state_defs)
  then have "fp_reachable 0 (run_state False False True False P_idle F_looking X_locked [] [])"
    by (rule run_cancel[OF _ cancel_step.cancel_lock]) (simp_all add: run_state_defs)
  then have "fp_reachable 0 (run_state False False True False P_idle F_waiting X_locked [] [])"
    by (rule run_future[OF _ future_step.wait_empty]) (simp_all add: run_state_defs)
  then show ?thesis
    by (rule run_cancel[OF _ cancel_step.cancel_store]) (simp_all add: run_state_defs)
qed

text \<open>The future takes the value before the promise posts the token; the next wait ends without a value.\<close>

lemma stale_run_reachable: "fp_reachable 0 (run_state False False False False P_idle F_empty X_idle [7] [7])"
proof -
  have "fp_reachable 0 (run_state False False False False P_checked F_idle X_idle [] [])"
    by (rule run_promise[OF run_start promise_step.set_check]) (simp_all add: run_state_defs)
  then have "fp_reachable 0 (run_state False False False False (P_prepared 0) F_idle X_idle [] [])"
    by (rule run_promise[OF _ promise_step.set_prepare[where i = 0]]) (simp_all add: run_state_defs)
  then have "fp_reachable 0 (run_state True False False False P_stored F_idle X_idle [7] [])"
    by (rule run_promise[OF _ promise_step.set_store[where v = 7 and i = 0]]) (simp_all add: run_state_defs)
  then have "fp_reachable 0 (run_state True False False False P_stored F_ready X_idle [7] [])"
    by (rule run_future[OF _ future_step.get_start]) (simp_all add: run_state_defs)
  then have "fp_reachable 0 (run_state True False False False P_stored F_getting X_idle [7] [])"
    by (rule run_future[OF _ future_step.get_check]) (simp_all add: run_state_defs)
  then have "fp_reachable 0 (run_state True False False False P_stored (F_moved 7) X_idle [7] [])"
    by (rule run_future[OF _ future_step.get_move[where v = 7]]) (simp_all add: run_state_defs)
  then have "fp_reachable 0 (run_state False False False False P_stored F_taken X_idle [7] [7])"
    by (rule run_future[OF _ future_step.get_drop[where v = 7]]) (simp_all add: run_state_defs)
  then have "fp_reachable 0 (run_state False False False False P_stored F_idle X_idle [7] [7])"
    by (rule run_future[OF _ future_step.get_clear[where b = False]]) (simp_all add: run_state_defs)
  then have "fp_reachable 0 (run_state False False False False P_stored F_looking X_idle [7] [7])"
    by (rule run_future[OF _ future_step.wait_look]) (simp_all add: run_state_defs)
  then have "fp_reachable 0 (run_state False False False False P_stored F_waiting X_idle [7] [7])"
    by (rule run_future[OF _ future_step.wait_empty]) (simp_all add: run_state_defs)
  then have "fp_reachable 0 (run_state False False False True P_idle F_waiting X_idle [7] [7])"
    by (rule run_promise[OF _ promise_step.set_post]) (simp_all add: run_state_defs)
  then have "fp_reachable 0 (run_state False False False False P_idle F_woken X_idle [7] [7])"
    by (rule run_future[OF _ future_step.wait_wake]) (simp_all add: run_state_defs)
  then have "fp_reachable 0 (run_state False False False False P_idle F_ready X_idle [7] [7])"
    by (rule run_future[OF _ future_step.woken_ok]) (simp_all add: run_state_defs)
  then have "fp_reachable 0 (run_state False False False False P_idle F_getting X_idle [7] [7])"
    by (rule run_future[OF _ future_step.get_check]) (simp_all add: run_state_defs)
  then show ?thesis
    by (rule run_future[OF _ future_step.get_empty]) (simp_all add: run_state_defs)
qed

theorem future_is_woken_witness:
  "let s = run_state True False False True P_idle F_waiting X_idle [7] [];
       t = run_state False True True False P_idle F_waiting X_stored [] [] in
   future_at s = F_waiting \<and> fp_set s = fp_got s @ rq_items (pc_buffer (fp_sys s)) \<and> has_value_futex (fp_sys s) = kPosted \<and>
   future_at t = F_waiting \<and> is_cancelled (fp_sys t) \<and> has_value_futex (fp_sys t) = kReady \<and>
   fst (LBF_Unlock cancel_lock (fp_sys t)) = Inr ()"
proof -
  let ?s = "run_state True False False True P_idle F_waiting X_idle [7] []"
  let ?t = "run_state False True True False P_idle F_waiting X_stored [] []"
  have t: "future_at ?t = F_waiting" "is_cancelled (fp_sys ?t)" "has_value_futex (fp_sys ?t) = kReady" "promise_at ?t = P_idle"
    "cancel_at ?t y \<noteq> X_unlocked" for y by (simp_all add: run_state_def)
  have "fst (LBF_Unlock cancel_lock (fp_sys ?t)) = Inr ()" using future_is_woken[OF cancel_run_reachable] t by auto
  moreover have "future_at ?s = F_waiting" "has_value_futex (fp_sys ?s) = kPosted" by (simp_all add: run_state_def)
  ultimately show ?thesis using future_is_woken[OF woken_run_reachable] t by (simp add: Let_def)
qed

text \<open>A wait can return without an error although there is neither a value nor a cancellation.\<close>

theorem woken_without_value:
  "\<exists>s. fp_reachable (0 :: nat) s \<and> future_at s = F_empty \<and> \<not> is_cancelled (fp_sys s)"
proof (intro exI conjI)
  show "fp_reachable 0 (run_state False False False False P_idle F_empty X_idle [7] [7])" by (rule stale_run_reachable)
qed (simp_all add: run_state_def)

text \<open>Cancelling a context makes every later \<^verbatim>\<open>Set\<close>, \<^verbatim>\<open>Get\<close>,
  \<^verbatim>\<open>Peek\<close> and \<^verbatim>\<open>WaitUntil\<close> answer Cancelled, without waiting and without
  changing anything.\<close>

theorem cancelled_context_answers_cancelled:
  assumes "fp_quiet s" "p_context s" "promise_attached s" "f_context s" "future_attached s"
  shows "\<exists>t. Promise_Cancel s = (Inr (), t) \<and> fp_quiet t \<and> Promise_Set v t = (Inl (Error Cancelled), t) \<and>
    Future_Get t = (Inl (Error Cancelled), t) \<and> Future_Peek t = (Inl (Error Cancelled), t) \<and>
    Future_WaitUntil t = (Inl (Error Cancelled), t)"
proof -
  define t where "t = s\<lparr>is_cancelled := True, has_value_futex := kPosted\<rparr>"
  have t: "fp_quiet t" "p_context t" "promise_attached t" "f_context t" "future_attached t" "is_cancelled t"
    using assms by (auto simp: t_def fp_quiet_def)
  have "Promise_Cancel s = (Inr (), t)"
    using Context_Cancel_run[OF assms(1)] assms(2) by (simp add: Promise_Cancel_def rt_bind_gets t_def)
  moreover have "Future_Peek t = (Inl (Error Cancelled), t)" "Future_WaitUntil t = (Inl (Error Cancelled), t)"
    using t by (simp_all add: Future_Peek_def Future_WaitUntil_def Context_HasValue_def rt_defs)
  ultimately show ?thesis using t Promise_Set_run[OF t(1-3), of v] Future_Get_run[OF t(1,4,5)] by auto
qed

theorem cancelled_context_answers_cancelled_witness:
  "\<exists>t. Promise_Cancel answering = (Inr (), t) \<and> fp_quiet t \<and> Promise_Set 7 t = (Inl (Error Cancelled), t) \<and>
    Future_Get t = (Inl (Error Cancelled), t) \<and> Future_Peek t = (Inl (Error Cancelled), t) \<and>
    Future_WaitUntil t = (Inl (Error Cancelled), t)"
  by (rule cancelled_context_answers_cancelled[OF answering_fields(1-5)])

text \<open>A call of \<^verbatim>\<open>Cancel\<close> is refused while another one holds the lock, not only during a reset.\<close>

lemma cancel_refused_by_cancel:
  assumes "fp_reachable x s" "cancel_at s y \<in> {X_locked, X_stored}"
  shows "Context_Cancel (fp_sys s) = (Inl (Error ResourceExhausted), fp_sys s)"
proof -
  have "holds_cancel s y" using assms(2) by (simp add: holds_cancel_def)
  then have "cancel_futex (fp_sys s) = kReady"
    using fp_reachable_inv[OF assms(1)] by (auto simp: fp_inv_def fp_cancel_inv_def)
  then show ?thesis by (cases "fp_sys s") (simp add: Context_Cancel_def LBF_TryLock_def Futex_TryWait_open rt_defs)
qed

text \<open>Resetting a cancelled context leaves the token that the cancellation posted: the next wait returns at once,
  without an error and without a value.\<close>

definition cancelled_context :: "'a \<Rightarrow> 'a promise_sys" where
  "cancelled_context x = snd (Context_Cancel (mk_context x))"

theorem reset_keeps_wakeup_token:
  "\<exists>t. Context_Reset (cancelled_context x) = Some (Inr (), t) \<and>
     fst (Future_WaitUntil (snd (Context_GetFuture True t))) = Inr () \<and>
     fst (Future_WaitUntilAndGet (snd (Context_GetFuture True t))) = Inl (Error Unavailable)"
proof -
  have "Context_Reset (cancelled_context x) = Some (Inr (), (mk_context x)\<lparr>has_value_futex := kPosted\<rparr>)"
    by (simp add: cancelled_context_def Context_Reset_def Context_Cancel_def mk_context_def with_lock_def fp_futex_simps
      rt_defs mk_BinaryFutex_def wait_detached_def on_buffer_def mk_RtQueueBuffer_def)
  moreover have "fst (Future_WaitUntil (snd (Context_GetFuture True ((mk_context x)\<lparr>has_value_futex := kPosted\<rparr>)))) = Inr ()"
    "fst (Future_WaitUntilAndGet (snd (Context_GetFuture True ((mk_context x)\<lparr>has_value_futex := kPosted\<rparr>)))) =
      Inl (Error Unavailable)"
    by (simp_all add: Context_GetFuture_def mk_context_def fp_futex_simps rt_defs mk_BinaryFutex_def Future_WaitUntil_def
      Context_HasValue_def RQ_Empty_def mk_RtQueueBuffer_def Future_WaitUntilAndGet_def Future_Get_def on_buffer_def
      Reader_MoveFront_def)
  ultimately show ?thesis by blast
qed

text \<open>The token of a detached promise stays, too: a future that gives out a second promise does not wait for it when it
  is destroyed together with the context.\<close>

definition second_promise :: "'a \<Rightarrow> 'a \<Rightarrow> 'a promise_sys" where
  "second_promise x v = snd (rt_bind (Future_GetPromise False) (\<lambda>_. rt_bind (Promise_Set v) (\<lambda>_.
     rt_bind Future_WaitUntilAndGet (\<lambda>_. Future_GetPromise False))) (mk_RealtimeFuture x))"

theorem future_destroyed_under_second_promise:
  "promise_attached (second_promise x v) \<and> p_context (second_promise x v) \<and>
   fst (Future_destroy (second_promise x v)) = Inr (Some (Inr (), Inr ())) \<and>
   fst (Future_destroy (snd (Future_GetPromise False (mk_RealtimeFuture x)))) = Inr (Some (Inr (), Inl (Error DeadlineExceeded)))"
  by (simp add: second_promise_def Future_GetPromise_def Context_GetPromise_def mk_RealtimeFuture_def mk_context_def
    fp_futex_simps rt_defs mk_BinaryFutex_def Promise_Set_def on_buffer_def Writer_PrepareInsert_def RQ_PrepareInsert_def
    RQ_Full_def RQ_Capacity_def mk_RtQueueBuffer_def rq_assign_def RQ_FinishInsert_def Promise_Detach_def
    DetachPromise_def OverwriteIfNotInError_def Future_WaitUntilAndGet_def Future_WaitUntil_def Context_HasValue_def
    RQ_Empty_def Future_Get_def Reader_MoveFront_def RQ_Front_def rq_element_def RQ_DropFront_def Future_destroy_def
    Future_Detach_def DetachFuture_def Context_destroy_def wait_detached_def crash_def)

end
