(* ===== verification/Module_Runtime.thy ===== *)
theory Module_Runtime
  imports Operational_Status Async_Buffer Rt_Queue
begin

text \<open>
  \<^verbatim>\<open>intrinsic/icon/hal/hardware_module_runtime.cc\<close> and
  \<^verbatim>\<open>hal/interfaces/hardware_module_state_utils.cc\<close>: the process of a hardware module, which is the
  other side of the remote triggers of the hardware module manager. Its callback handler runs the state machine:
  the real-time callbacks change the state themselves, the others (enabling, disabling, clearing faults) ask the
  real-time thread for every change and wait for its answer. The hardware module itself is a plug-in: a record of
  arbitrary functions over a world.
\<close>

section \<open>State in shared memory\<close>

text \<open>The message is an array of 256 bytes that holds a string with a final zero.\<close>

record hwm_shm_state =
  shm_code :: state_code
  shm_message :: string

definition BuildHardwareModuleState :: hwm_shm_state where
  "BuildHardwareModuleState = \<lparr>shm_code = HwmDeactivated, shm_message = replicate 256 (CHR 0x00)\<rparr>"

text \<open>The zero is written behind the copied bytes, which is outside the array when they fill it.\<close>

definition SetState :: "state_code \<Rightarrow> string \<Rightarrow> hwm_shm_state \<Rightarrow> hwm_shm_state status_or" where
  "SetState code message st =
     (let size = length (shm_message st);
          max_length = (if length message < size then length message else size) in
      if max_length < size
      then Inr \<lparr>shm_code = code,
        shm_message = (take max_length message @ drop max_length (shm_message st))[max_length := CHR 0x00]\<rparr>
      else Inl Undefined)"

definition GetMessage :: "hwm_shm_state \<Rightarrow> string" where
  "GetMessage st = takeWhile (\<lambda>c. c \<noteq> CHR 0x00) (shm_message st)"

section \<open>Callback handler\<close>

text \<open>A call into the hardware module returns a status and its message. \<open>m_violation\<close>: the message about heap
  allocations during the last call, if the guard has found any; \<open>m_now\<close> reads the clock.\<close>

type_synonym module_status = "rt_status \<times> string"

record 'w module_iface =
  m_prepare :: "'w \<Rightarrow> module_status \<times> 'w"
  m_activate :: "'w \<Rightarrow> module_status \<times> 'w"
  m_deactivate :: "'w \<Rightarrow> module_status \<times> 'w"
  m_enable_motion :: "'w \<Rightarrow> module_status \<times> 'w"
  m_disable_motion :: "'w \<Rightarrow> module_status \<times> 'w"
  m_clear_faults :: "'w \<Rightarrow> module_status \<times> 'w"
  m_enabled :: "'w \<Rightarrow> module_status \<times> 'w"
  m_disabled :: "'w \<Rightarrow> module_status \<times> 'w"
  m_read_status :: "'w \<Rightarrow> module_status \<times> 'w"
  m_apply_command :: "'w \<Rightarrow> module_status \<times> 'w"
  m_violation :: "'w \<Rightarrow> string option \<times> 'w"
  m_now :: "'w \<Rightarrow> int \<times> 'w"

text \<open>A request and its promise; the number of the request stands for the promise. \<open>state_history\<close> is no member of the
  class: it records every state that is set, oldest first, for the statements about the order of the states, and nothing
  reads it.\<close>

record state_request =
  req_from :: state_code
  req_to :: state_code
  req_message :: string
  req_timestamp :: int
  req_id :: nat

record 'w handler =
  module :: 'w
  rt_code :: state_code
  previous_code :: state_code
  shm_state :: hwm_shm_state
  state_buffer :: "hwm_shm_state async_buffer"
  update_time :: int
  request_queue :: "state_request list"
  reject_new_requests :: bool
  answers :: "nat \<Rightarrow> rt_status option"
  next_request :: nat
  state_history :: "state_code list"

definition kRequestQueueCapacity :: nat where "kRequestQueueCapacity = 10"
definition kMaxMessageLength :: nat where "kMaxMessageLength = 100"
definition kMaxFaultReasonLength :: nat where "kMaxFaultReasonLength = 256"

text \<open>\<^verbatim>\<open>RealtimeStatus::StrCat\<close>.\<close>

definition rt_StrCat :: "string list \<Rightarrow> string" where
  "rt_StrCat parts = take kMaxMessageLength (concat parts)"

definition module_call :: "('w \<Rightarrow> 'a \<times> 'w) \<Rightarrow> ('w handler, 'a) rt" where
  "module_call f s = (case f (module s) of (x, w) \<Rightarrow> (Inr x, s\<lparr>module := w\<rparr>))"

text \<open>Statuses of calls that fail fatally.\<close>

definition fault_state :: "rt_status \<Rightarrow> state_code" where
  "fault_state st = (if st = Error Aborted then HwmFatallyFaulted else HwmFaulted)"

definition CheckAndTriggerDisabledTransitionHook :: "'w module_iface \<Rightarrow> state_code \<Rightarrow> ('w handler, module_status) rt" where
  "CheckAndTriggerDisabledTransitionHook M frm =
     (if frm = HwmMotionEnabled then module_call (m_disabled M) else rt_return (OkStatus, []))"

text \<open>The new state in the three places where it is kept.\<close>

definition publish_state :: "'w module_iface \<Rightarrow> state_code \<Rightarrow> string \<Rightarrow> ('w handler, unit) rt" where
  "publish_state M state reason =
     rt_bind (rt_modify (\<lambda>s. s\<lparr>rt_code := state, state_history := state_history s @ [state]\<rparr>)) (\<lambda>_.
     rt_bind (module_call (m_now M)) (\<lambda>t.
     rt_bind (rt_modify (update_time_update (\<lambda>_. t))) (\<lambda>_.
     rt_bind (rt_lift_st (\<lambda>s. SetState state reason (shm_state s))) (\<lambda>shm.
     rt_bind (rt_modify (shm_state_update (\<lambda>_. shm))) (\<lambda>_.
     rt_bind (rt_lift_st (\<lambda>s. SetState state reason
         (ab_buffers (state_buffer s) ! fst (AB_GetFreeBuffer (state_buffer s))))) (\<lambda>buf.
       rt_modify (\<lambda>s. s\<lparr>state_buffer := AB_write buf (state_buffer s)\<rparr>)))))))"

definition SetStateDirectly :: "'w module_iface \<Rightarrow> state_code \<Rightarrow> string \<Rightarrow> bool \<Rightarrow> ('w handler, bool) rt" where
  "SetStateDirectly M state fault_reason force =
     rt_bind (rt_gets rt_code) (\<lambda>current.
     rt_bind (rt_gets (\<lambda>s. GetMessage (shm_state s))) (\<lambda>message.
     if \<not> force \<and> HardwareModuleTransitionGuard current state \<noteq> kAllowed then rt_return False
     else if current = state \<and> message = fault_reason then rt_return False
     else
       let state_changed = current \<noteq> state in
       rt_bind
         (if state_changed then
            rt_bind (CheckAndTriggerDisabledTransitionHook M current) (\<lambda>(status, text).
              rt_return
                (if status \<noteq> OkStatus \<and> state \<noteq> HwmInitFailed \<and> state \<noteq> HwmFatallyFaulted \<and> state \<noteq> HwmFaulted
                 then (HwmFaulted, rt_StrCat [''Disabled() failed: '', text])
                 else (state, take kMaxMessageLength fault_reason)))
          else rt_return (state, take kMaxMessageLength fault_reason))
         (\<lambda>(new_state, reason). rt_bind (publish_state M new_state reason) (\<lambda>_. rt_return state_changed))))"

definition CancelPendingRequests :: "('w handler, unit) rt" where
  "CancelPendingRequests = rt_modify (\<lambda>s. s\<lparr>request_queue := [],
     answers := fold (\<lambda>r a. a(req_id r := Some (Error Cancelled))) (request_queue s) (answers s)\<rparr>)"

definition mk_CallbackHandler :: "'w module_iface \<Rightarrow> ('w handler, unit) rt" where
  "mk_CallbackHandler M = rt_bind (SetStateDirectly M HwmDeactivated [] True) (\<lambda>_. rt_return ())"

definition fresh_handler :: "'w \<Rightarrow> int \<Rightarrow> 'w handler" where
  "fresh_handler w t = \<lparr>module = w, rt_code = HwmDeactivated, previous_code = HwmDeactivated,
     shm_state = BuildHardwareModuleState, state_buffer = mk_AsyncBuffer BuildHardwareModuleState, update_time = t,
     request_queue = [], reject_new_requests = False, answers = (\<lambda>_. None), next_request = 0,
     state_history = [HwmDeactivated]\<rparr>"

definition Handler_Shutdown :: "('w handler, unit) rt" where
  "Handler_Shutdown = rt_bind (rt_modify (reject_new_requests_update (\<lambda>_. True))) (\<lambda>_. CancelPendingRequests)"

section \<open>Preparing, activating, deactivating\<close>

text \<open>The main loop does not run; these callbacks change the state directly. Each is cut at its call into the module,
  which other threads can outrun.\<close>

definition begin_deactivate :: "'w module_iface \<Rightarrow> ('w handler, bool) rt" where
  "begin_deactivate M =
     rt_bind (SetStateDirectly M HwmDeactivating [] False) (\<lambda>ok.
     if \<not> ok then rt_return False
     else
       rt_bind (rt_modify (reject_new_requests_update (\<lambda>_. True))) (\<lambda>_.
       rt_bind CancelPendingRequests (\<lambda>_. rt_return True)))"

definition end_deactivate :: "'w module_iface \<Rightarrow> module_status \<Rightarrow> ('w handler, unit) rt" where
  "end_deactivate M r =
     rt_bind (if fst r \<noteq> OkStatus then SetStateDirectly M HwmFatallyFaulted (snd r) False
              else SetStateDirectly M HwmDeactivated [] False) (\<lambda>_. rt_return ())"

definition OnDeactivate :: "'w module_iface \<Rightarrow> ('w handler, unit) rt" where
  "OnDeactivate M =
     rt_bind (begin_deactivate M) (\<lambda>ok.
     if \<not> ok then rt_return () else rt_bind (module_call (m_deactivate M)) (end_deactivate M))"

definition prepare_deactivates :: "state_code \<Rightarrow> bool" where
  "prepare_deactivates code \<longleftrightarrow> code \<in> {HwmActivated, HwmMotionEnabled, HwmMotionEnabling, HwmMotionDisabling, HwmFaulted,
     HwmClearingFaults, HwmPreparing}"

definition begin_prepare :: "'w module_iface \<Rightarrow> ('w handler, bool) rt" where
  "begin_prepare M =
     rt_bind (SetStateDirectly M HwmPreparing [] False) (\<lambda>ok.
     if \<not> ok then rt_return False else rt_bind CancelPendingRequests (\<lambda>_. rt_return True))"

definition end_prepare :: "'w module_iface \<Rightarrow> module_status \<Rightarrow> ('w handler, unit) rt" where
  "end_prepare M r =
     rt_bind (if fst r \<noteq> OkStatus then SetStateDirectly M HwmFatallyFaulted (snd r) False
              else SetStateDirectly M HwmPrepared [] False) (\<lambda>_. rt_return ())"

definition OnPrepare :: "'w module_iface \<Rightarrow> ('w handler, unit) rt" where
  "OnPrepare M =
     rt_bind (rt_gets rt_code) (\<lambda>code.
     rt_bind (rt_when (prepare_deactivates code) (OnDeactivate M)) (\<lambda>_.
     rt_bind (begin_prepare M) (\<lambda>ok.
     if \<not> ok then rt_return () else rt_bind (module_call (m_prepare M)) (end_prepare M))))"

definition begin_activate :: "'w module_iface \<Rightarrow> ('w handler, bool) rt" where
  "begin_activate M =
     rt_bind (SetStateDirectly M HwmActivating [] False) (\<lambda>ok.
     if \<not> ok then rt_return False else rt_bind CancelPendingRequests (\<lambda>_. rt_return True))"

definition end_activate :: "'w module_iface \<Rightarrow> module_status \<Rightarrow> ('w handler, unit) rt" where
  "end_activate M r =
     rt_bind (if fst r \<noteq> OkStatus then SetStateDirectly M HwmFatallyFaulted (snd r) False
              else SetStateDirectly M HwmActivated [] False) (\<lambda>_.
       rt_modify (reject_new_requests_update (\<lambda>_. False)))"

definition OnActivate :: "'w module_iface \<Rightarrow> ('w handler, unit) rt" where
  "OnActivate M =
     rt_bind (begin_activate M) (\<lambda>ok.
     if \<not> ok then rt_return () else rt_bind (module_call (m_activate M)) (end_activate M))"

section \<open>Requests for changes of the state\<close>

text \<open>The part of \<^verbatim>\<open>SetStateAndWait\<close> before the wait: the number of the request, or \<open>None\<close> if
  it fails at once. Waiting is a step of the interleaving below. Futures whose wait timed out stay in a container
  until their promise is gone; their requests stay in the queue.\<close>

definition request_state_change :: "'w module_iface \<Rightarrow> state_code \<Rightarrow> state_code \<Rightarrow> string \<Rightarrow> ('w handler, nat option) rt" where
  "request_state_change M frm to fault_reason =
     (if HardwareModuleTransitionGuard frm to \<noteq> kAllowed then rt_return None
      else
        rt_bind (rt_gets reject_new_requests) (\<lambda>reject.
        if reject then rt_return None
        else
          rt_bind (module_call (m_now M)) (\<lambda>t.
          rt_bind (rt_gets (\<lambda>s. length (request_queue s))) (\<lambda>n.
          if n = kRequestQueueCapacity then rt_return None
          else
            rt_bind (rt_gets next_request) (\<lambda>i.
            rt_bind (rt_modify (\<lambda>s. s\<lparr>request_queue := request_queue s @ [\<lparr>req_from = frm, req_to = to,
                req_message = take kMaxFaultReasonLength fault_reason, req_timestamp = t, req_id = i\<rparr>],
              next_request := i + 1\<rparr>)) (\<lambda>_. rt_return (Some i)))))))"

definition respond :: "nat \<Rightarrow> rt_status \<Rightarrow> ('w handler, unit) rt" where
  "respond i status = rt_modify (\<lambda>s. s\<lparr>answers := (answers s)(i := Some status)\<rparr>)"

definition ProcessNextPendingRequest :: "'w module_iface \<Rightarrow> ('w handler, unit) rt" where
  "ProcessNextPendingRequest M =
     rt_bind (rt_modify (\<lambda>s. s\<lparr>previous_code := rt_code s\<rparr>)) (\<lambda>_.
     rt_bind (rt_gets request_queue) (\<lambda>queue.
     case queue of
       [] \<Rightarrow> rt_return ()
     | item # rest \<Rightarrow>
         rt_bind (rt_modify (request_queue_update (\<lambda>_. rest))) (\<lambda>_.
         rt_bind (rt_gets update_time) (\<lambda>updated.
         rt_bind (rt_gets rt_code) (\<lambda>code.
         if updated \<le> req_timestamp item \<and> req_from item = code
         then
           rt_bind (SetStateDirectly M (req_to item) (req_message item) False) (\<lambda>allowed.
             respond (req_id item) (if allowed then OkStatus else Error FailedPrecondition))
         else respond (req_id item) (Error Cancelled))))))"

section \<open>Real-time callbacks\<close>

definition CheckAndTriggerEnabledTransitionHook :: "'w module_iface \<Rightarrow> state_code \<Rightarrow> state_code \<Rightarrow> ('w handler, unit) rt" where
  "CheckAndTriggerEnabledTransitionHook M frm to =
     rt_when (frm = HwmMotionEnabling \<and> to = HwmMotionEnabled)
       (rt_bind (module_call (m_enabled M)) (\<lambda>(status, text).
          rt_when (status \<noteq> OkStatus)
            (rt_bind (SetStateDirectly M HwmFaulted (rt_StrCat [''Enabled() callback failed: '', text]) False)
               (\<lambda>_. rt_return ()))))"

definition set_fault :: "'w module_iface \<Rightarrow> state_code \<Rightarrow> string \<Rightarrow> ('w handler, unit) rt" where
  "set_fault M state reason =
     rt_bind (SetStateDirectly M state reason False) (\<lambda>ok. rt_when ok CancelPendingRequests)"

definition check_violations :: "'w module_iface \<Rightarrow> ('w handler, unit) rt" where
  "check_violations M =
     rt_bind (module_call (m_violation M)) (\<lambda>v.
     case v of None \<Rightarrow> rt_return () | Some message \<Rightarrow> set_fault M HwmFaulted (take kMaxMessageLength message))"

definition OnReadStatus :: "'w module_iface \<Rightarrow> ('w handler, unit) rt" where
  "OnReadStatus M =
     rt_bind (ProcessNextPendingRequest M) (\<lambda>_.
     rt_bind (rt_gets previous_code) (\<lambda>previous.
     rt_bind (rt_gets rt_code) (\<lambda>code.
     rt_bind (CheckAndTriggerEnabledTransitionHook M previous code) (\<lambda>_.
     rt_bind (module_call (m_read_status M)) (\<lambda>(status, message).
     rt_bind (rt_gets rt_code) (\<lambda>code.
     rt_bind (rt_when (status \<noteq> OkStatus \<and> code \<noteq> HwmClearingFaults) (set_fault M (fault_state status) message)) (\<lambda>_.
       check_violations M)))))))"

definition not_enabled_message :: string where
  "not_enabled_message = ''PUBLIC: '' @ [CHR 0x27] @ ''ApplyCommand'' @ [CHR 0x27] @ '' called while not enabled.''"

definition OnApplyCommand :: "'w module_iface \<Rightarrow> ('w handler, unit) rt" where
  "OnApplyCommand M =
     rt_bind (rt_gets rt_code) (\<lambda>code.
     if code = HwmMotionDisabling then rt_return ()
     else if code \<noteq> HwmMotionEnabled then set_fault M HwmFaulted not_enabled_message
     else
       rt_bind (module_call (m_apply_command M)) (\<lambda>(status, message).
       rt_bind (rt_when (status \<noteq> OkStatus) (set_fault M (fault_state status) message)) (\<lambda>_.
         check_violations M)))"

section \<open>Threads\<close>

text \<open>The actions on the non-real-time side.\<close>

datatype motion_action = A_EnableMotion | A_DisableMotion | A_ClearFaults

fun transition_state :: "motion_action \<Rightarrow> state_code" where
  "transition_state A_EnableMotion = HwmMotionEnabling"
| "transition_state A_DisableMotion = HwmMotionDisabling"
| "transition_state A_ClearFaults = HwmClearingFaults"

fun final_state :: "motion_action \<Rightarrow> state_code" where
  "final_state A_EnableMotion = HwmMotionEnabled"
| "final_state A_DisableMotion = HwmActivated"
| "final_state A_ClearFaults = HwmActivated"

fun module_action :: "'w module_iface \<Rightarrow> motion_action \<Rightarrow> 'w \<Rightarrow> module_status \<times> 'w" where
  "module_action M A_EnableMotion = m_enable_motion M"
| "module_action M A_DisableMotion = m_disable_motion M"
| "module_action M A_ClearFaults = m_clear_faults M"

text \<open>\<^verbatim>\<open>OnEnableMotion\<close>, \<^verbatim>\<open>OnDisableMotion\<close> and \<^verbatim>\<open>OnClearFaults\<close>, cut after
  they have read the state, at the two waits for the real-time thread and at the call into the module.\<close>

definition action_begin :: "'w module_iface \<Rightarrow> motion_action \<Rightarrow> state_code \<Rightarrow> ('w handler, nat option) rt" where
  "action_begin M a code = request_state_change M code (transition_state a) []"

definition action_call :: "'w module_iface \<Rightarrow> motion_action \<Rightarrow> ('w handler, module_status) rt" where
  "action_call M a = module_call (module_action M a)"

definition action_end :: "'w module_iface \<Rightarrow> motion_action \<Rightarrow> module_status \<Rightarrow> ('w handler, nat option) rt" where
  "action_end M a r =
     (if fst r \<noteq> OkStatus then request_state_change M (transition_state a) (fault_state (fst r)) (snd r)
      else request_state_change M (transition_state a) (final_state a) [])"

datatype life_op = Op_prepare | Op_activate | Op_deactivate

fun life_begin :: "'w module_iface \<Rightarrow> life_op \<Rightarrow> ('w handler, bool) rt" where
  "life_begin M Op_prepare = begin_prepare M"
| "life_begin M Op_activate = begin_activate M"
| "life_begin M Op_deactivate = begin_deactivate M"

fun life_call :: "'w module_iface \<Rightarrow> life_op \<Rightarrow> 'w \<Rightarrow> module_status \<times> 'w" where
  "life_call M Op_prepare = m_prepare M"
| "life_call M Op_activate = m_activate M"
| "life_call M Op_deactivate = m_deactivate M"

fun life_end :: "'w module_iface \<Rightarrow> life_op \<Rightarrow> module_status \<Rightarrow> ('w handler, unit) rt" where
  "life_end M Op_prepare r = end_prepare M r"
| "life_end M Op_activate r = end_activate M r"
| "life_end M Op_deactivate r = end_deactivate M r"

text \<open>The position of the state-change thread, which runs the actions and \<^verbatim>\<open>OnPrepare\<close> one after the
  other, and of the threads of \<^verbatim>\<open>OnActivate\<close> and \<^verbatim>\<open>OnDeactivate\<close>. A wait ends with the answer or with
  its timeout. \<^verbatim>\<open>ReadStatus\<close> and \<^verbatim>\<open>ApplyCommand\<close> have threads, too, but the main loop asks for one after the other,
  and it must not run while a module is activated or deactivated (\<^verbatim>\<open>hardware_module_runtime.h\<close>); each is one step here, which
  may come between any two steps of the others. A change of the state, \<^verbatim>\<open>SetStateDirectly\<close>, is not protected against other
  threads in the code, which relies on this rule; here it is never interrupted.\<close>

datatype life_pc = L_idle | L_calling life_op | L_called life_op module_status

datatype action_pc =
    Act_idle
  | Act_read motion_action state_code
  | Act_entering motion_action nat
  | Act_calling motion_action
  | Act_called motion_action module_status
  | Act_leaving motion_action nat
  | Act_preparing
  | Act_life life_pc

record runtime_pc =
  state_change :: action_pc
  activating :: life_pc
  deactivating :: life_pc

type_synonym 'w runtime = "'w handler \<times> runtime_pc"

definition at_rest :: runtime_pc where
  "at_rest = \<lparr>state_change = Act_idle, activating = L_idle, deactivating = L_idle\<rparr>"

definition in_action :: "action_pc \<Rightarrow> runtime_pc" where
  "in_action a = at_rest\<lparr>state_change := a\<rparr>"

inductive action_step :: "'w module_iface \<Rightarrow> 'w handler \<times> action_pc \<Rightarrow> 'w handler \<times> action_pc \<Rightarrow> bool" for M where
  read_code: "action_step M (s, Act_idle) (s, Act_read a (rt_code s))"
| begin_action: "action_begin M a code s = (Inr r, t) \<Longrightarrow>
    action_step M (s, Act_read a code) (t, case r of None \<Rightarrow> Act_idle | Some i \<Rightarrow> Act_entering a i)"
| entered: "answers s i = Some OkStatus \<Longrightarrow> action_step M (s, Act_entering a i) (s, Act_calling a)"
| refused: "answers s i = Some (Error e) \<Longrightarrow> action_step M (s, Act_entering a i) (s, Act_idle)"
| enter_timeout: "action_step M (s, Act_entering a i) (s, Act_idle)"
| call: "action_call M a s = (Inr r, t) \<Longrightarrow> action_step M (s, Act_calling a) (t, Act_called a r)"
| end_request: "action_end M a r s = (Inr i, t) \<Longrightarrow>
    action_step M (s, Act_called a r) (t, case i of None \<Rightarrow> Act_idle | Some k \<Rightarrow> Act_leaving a k)"
| left: "answers s i \<noteq> None \<Longrightarrow> action_step M (s, Act_leaving a i) (s, Act_idle)"
| leave_timeout: "action_step M (s, Act_leaving a i) (s, Act_idle)"
| prepare: "\<not> prepare_deactivates (rt_code s) \<Longrightarrow> action_step M (s, Act_idle) (s, Act_preparing)"
| prepare_deactivate: "prepare_deactivates (rt_code s) \<Longrightarrow> begin_deactivate M s = (Inr ok, t) \<Longrightarrow>
    action_step M (s, Act_idle) (t, if ok then Act_life (L_calling Op_deactivate) else Act_preparing)"
| prepare_begin: "begin_prepare M s = (Inr ok, t) \<Longrightarrow>
    action_step M (s, Act_preparing) (t, if ok then Act_life (L_calling Op_prepare) else Act_idle)"
| prepare_call: "module_call (life_call M op) s = (Inr r, t) \<Longrightarrow>
    action_step M (s, Act_life (L_calling op)) (t, Act_life (L_called op r))"
| prepare_end: "life_end M op r s = (Inr u, t) \<Longrightarrow>
    action_step M (s, Act_life (L_called op r)) (t, if op = Op_deactivate then Act_preparing else Act_idle)"

inductive life_step :: "'w module_iface \<Rightarrow> life_op \<Rightarrow> 'w handler \<times> life_pc \<Rightarrow> 'w handler \<times> life_pc \<Rightarrow> bool" for M "op" where
  life_begins: "life_begin M op s = (Inr ok, t) \<Longrightarrow> life_step M op (s, L_idle) (t, if ok then L_calling op else L_idle)"
| life_calls: "module_call (life_call M op) s = (Inr r, t) \<Longrightarrow> life_step M op (s, L_calling op) (t, L_called op r)"
| life_ends: "life_end M op r s = (Inr u, t) \<Longrightarrow> life_step M op (s, L_called op r) (t, L_idle)"

inductive runtime_step :: "'w module_iface \<Rightarrow> 'w runtime \<Rightarrow> 'w runtime \<Rightarrow> bool" for M where
  state_change_thread: "action_step M (s, state_change p) (t, a) \<Longrightarrow> runtime_step M (s, p) (t, p\<lparr>state_change := a\<rparr>)"
| activate_thread: "life_step M Op_activate (s, activating p) (t, l) \<Longrightarrow> runtime_step M (s, p) (t, p\<lparr>activating := l\<rparr>)"
| deactivate_thread: "life_step M Op_deactivate (s, deactivating p) (t, l) \<Longrightarrow> runtime_step M (s, p) (t, p\<lparr>deactivating := l\<rparr>)"
| read_status: "OnReadStatus M s = (Inr u, t) \<Longrightarrow> runtime_step M (s, p) (t, p)"
| apply_command: "OnApplyCommand M s = (Inr u, t) \<Longrightarrow> runtime_step M (s, p) (t, p)"
| init_failed: "SetStateDirectly M HwmInitFailed message False s = (Inr b, t) \<Longrightarrow> runtime_step M (s, p) (t, p)"
| shut_down: "Handler_Shutdown s = (Inr u, t) \<Longrightarrow> runtime_step M (s, p) (t, p)"

inductive runtime_reachable :: "'w module_iface \<Rightarrow> 'w \<Rightarrow> 'w runtime \<Rightarrow> bool" for M w where
  init: "mk_CallbackHandler M (fresh_handler w t0) = (Inr (), s) \<Longrightarrow> runtime_reachable M w (s, at_rest)"
| step: "runtime_reachable M w c \<Longrightarrow> runtime_step M c d \<Longrightarrow> runtime_reachable M w d"

section \<open>Strings in shared memory\<close>

lemma takeWhile_upto: "takeWhile (\<lambda>x. x \<noteq> c) (xs @ c # ys) = takeWhile (\<lambda>x. x \<noteq> c) xs"
  by (induction xs) auto

lemma SetState_ok:
  assumes "length message < length (shm_message st)"
  shows "SetState code message st = Inr \<lparr>shm_code = code, shm_message =
    message @ CHR 0x00 # drop (length message + 1) (shm_message st)\<rparr>"
  using assms by (auto simp: SetState_def Let_def list_update_append upd_conv_take_nth_drop Cons_nth_drop_Suc[symmetric])

lemma GetMessage_zero:
  "GetMessage \<lparr>shm_code = c, shm_message = m @ CHR 0x00 # r\<rparr> = takeWhile (\<lambda>c. c \<noteq> CHR 0x00) m"
  by (simp add: GetMessage_def takeWhile_upto)

section \<open>What setting the state does\<close>

definition handler_ok :: "'w handler \<Rightarrow> bool" where
  "handler_ok s \<longleftrightarrow> length (shm_message (shm_state s)) = 256 \<and> ab_valid (state_buffer s) \<and>
     (\<forall>b \<in> set (ab_buffers (state_buffer s)). length (shm_message b) = 256) \<and>
     shm_code (shm_state s) = rt_code s \<and> shm_code (fst (ab_fetch (state_buffer s))) = rt_code s"

lemma handler_ok_frame [simp]:
  "handler_ok (s\<lparr>module := w\<rparr>) = handler_ok s" "handler_ok (s\<lparr>previous_code := c\<rparr>) = handler_ok s"
  "handler_ok (s\<lparr>update_time := u\<rparr>) = handler_ok s" "handler_ok (s\<lparr>request_queue := q\<rparr>) = handler_ok s"
  "handler_ok (s\<lparr>reject_new_requests := b\<rparr>) = handler_ok s" "handler_ok (s\<lparr>answers := a\<rparr>) = handler_ok s"
  "handler_ok (s\<lparr>next_request := n\<rparr>) = handler_ok s"
  "handler_ok (s\<lparr>state_history := h\<rparr>) = handler_ok s"
  by (simp_all add: handler_ok_def)

lemma free_buffer_length:
  "handler_ok s \<Longrightarrow> length (shm_message (ab_buffers (state_buffer s) ! fst (AB_GetFreeBuffer (state_buffer s)))) = 256"
  by (auto simp: handler_ok_def ab_valid_def AB_GetFreeBuffer_def IsConsistent_def)

lemma AB_write_buffers: "set (ab_buffers (AB_write x b)) \<subseteq> insert x (set (ab_buffers b))"
  by (auto simp: AB_write_def AB_GetFreeBuffer_def AB_CommitFreeBuffer_def dest: set_update_subset_insert[THEN subsetD])

lemma publish_state_run:
  assumes s: "handler_ok s" and len: "length reason < 256"
  shows "\<exists>t. publish_state M st reason s = (Inr (), t) \<and> handler_ok t \<and> rt_code t = st \<and>
    (update_time t, module t) = m_now M (module s) \<and> GetMessage (shm_state t) = takeWhile (\<lambda>c. c \<noteq> CHR 0x00) reason \<and>
    state_history t = state_history s @ [st] \<and>
    previous_code t = previous_code s \<and> request_queue t = request_queue s \<and> reject_new_requests t = reject_new_requests s \<and>
    answers t = answers s \<and> next_request t = next_request s"
proof -
  obtain now w where now: "m_now M (module s) = (now, w)" by (metis surj_pair)
  obtain shm where shm: "SetState st reason (shm_state s) = Inr shm" "length (shm_message shm) = 256" "shm_code shm = st"
    "GetMessage shm = takeWhile (\<lambda>c. c \<noteq> CHR 0x00) reason"
    using SetState_ok[of reason "shm_state s" st] s len by (auto simp: handler_ok_def GetMessage_zero)
  obtain buf where buf: "SetState st reason (ab_buffers (state_buffer s) ! fst (AB_GetFreeBuffer (state_buffer s))) = Inr buf"
    "length (shm_message buf) = 256" "shm_code buf = st"
    using SetState_ok[of reason "ab_buffers (state_buffer s) ! fst (AB_GetFreeBuffer (state_buffer s))" st]
      free_buffer_length[OF s] len by auto
  define t where "t = s\<lparr>rt_code := st, module := w, update_time := now, shm_state := shm,
    state_buffer := AB_write buf (state_buffer s), state_history := state_history s @ [st]\<rparr>"
  have "publish_state M st reason s = (Inr (), t)"
    using now shm(1) buf(1) by (simp add: publish_state_def rt_defs module_call_def t_def)
  moreover have "handler_ok t"
    using s shm buf AB_write_buffers[of buf "state_buffer s"]
    by (auto simp: handler_ok_def t_def async.valid_write async.fetch_write)
  ultimately show ?thesis using now shm(4) by (auto simp: t_def)
qed

text \<open>A change of the state that would leave the motion-enabled state but whose hook fails.\<close>

definition disabling_fails :: "'w module_iface \<Rightarrow> 'w handler \<Rightarrow> state_code \<Rightarrow> bool" where
  "disabling_fails M s st \<longleftrightarrow> rt_code s = HwmMotionEnabled \<and> st \<noteq> HwmMotionEnabled \<and>
     fst (fst (m_disabled M (module s))) \<noteq> OkStatus \<and> st \<notin> {HwmInitFailed, HwmFatallyFaulted, HwmFaulted}"

definition set_applies :: "'w handler \<Rightarrow> state_code \<Rightarrow> string \<Rightarrow> bool" where
  "set_applies s st reason \<longleftrightarrow> HardwareModuleTransitionGuard (rt_code s) st = kAllowed \<and>
     \<not> (rt_code s = st \<and> GetMessage (shm_state s) = reason)"

text \<open>What is left of a message in shared memory.\<close>

definition cut_message :: "string \<Rightarrow> string" where
  "cut_message m = takeWhile (\<lambda>c. c \<noteq> CHR 0x00) (take kMaxMessageLength m)"

definition after_disabled :: "'w module_iface \<Rightarrow> 'w handler \<Rightarrow> state_code \<Rightarrow> 'w" where
  "after_disabled M s st =
     (if rt_code s = HwmMotionEnabled \<and> st \<noteq> HwmMotionEnabled then snd (m_disabled M (module s)) else module s)"

lemma SetStateDirectly_run:
  assumes "handler_ok s" "SetStateDirectly M st reason False s = (r, t)"
  shows "handler_ok t \<and> previous_code t = previous_code s \<and> request_queue t = request_queue s \<and>
    reject_new_requests t = reject_new_requests s \<and> answers t = answers s \<and> next_request t = next_request s \<and>
    (if set_applies s st reason
     then r = Inr (rt_code s \<noteq> st) \<and> rt_code t = (if disabling_fails M s st then HwmFaulted else st) \<and>
       state_history t = state_history s @ [rt_code t] \<and>
       (\<not> disabling_fails M s st \<longrightarrow> GetMessage (shm_state t) = cut_message reason) \<and>
       (update_time t, module t) = m_now M (after_disabled M s st)
     else r = Inr False \<and> t = s)"
proof (cases "set_applies s st reason")
  case False
  then have "SetStateDirectly M st reason False s = (Inr False, s)"
    by (cases "HardwareModuleTransitionGuard (rt_code s) st = kAllowed")
       (simp_all add: SetStateDirectly_def rt_bind_gets set_applies_def, simp_all add: rt_return_def)
  then show ?thesis using assms False by simp
next
  case True
  obtain status msg w where d: "m_disabled M (module s) = ((status, msg), w)" by (metis prod_cases3 surj_pair)
  let ?new = "if disabling_fails M s st then (HwmFaulted, rt_StrCat [''Disabled() failed: '', msg])
    else (st, take kMaxMessageLength reason)"
  have "SetStateDirectly M st reason False s =
    rt_bind (publish_state M (fst ?new) (snd ?new)) (\<lambda>_. rt_return (rt_code s \<noteq> st)) (s\<lparr>module := after_disabled M s st\<rparr>)"
  proof (cases "rt_code s = HwmMotionEnabled \<and> st \<noteq> HwmMotionEnabled")
    case hook: True
    then have "rt_code s = HwmMotionEnabled" "st \<noteq> HwmMotionEnabled" "HwmMotionEnabled \<noteq> st" by auto
    then show ?thesis using True d
      by (simp add: SetStateDirectly_def set_applies_def rt_bind_gets Let_def CheckAndTriggerDisabledTransitionHook_def
        disabling_fails_def after_disabled_def) (simp add: rt_defs module_call_def)
  next
    case False
    then have "\<not> disabling_fails M s st" "after_disabled M s st = module s"
      by (auto simp: disabling_fails_def after_disabled_def)
    moreover have "SetStateDirectly M st reason False s =
      rt_bind (publish_state M st (take kMaxMessageLength reason)) (\<lambda>_. rt_return (rt_code s \<noteq> st)) s"
    proof (cases "rt_code s = st")
      case True
      with \<open>set_applies s st reason\<close> show ?thesis
        by (auto simp: SetStateDirectly_def set_applies_def rt_bind_gets Let_def)
    next
      case diff: False
      then have "rt_code s \<noteq> HwmMotionEnabled" using False by auto
      with diff \<open>set_applies s st reason\<close> show ?thesis
        by (auto simp: SetStateDirectly_def set_applies_def rt_bind_gets Let_def CheckAndTriggerDisabledTransitionHook_def)
    qed
    ultimately show ?thesis by simp
  qed
  moreover have "length (snd ?new) < 256" by (auto simp: rt_StrCat_def kMaxMessageLength_def)
  then obtain u where u: "publish_state M (fst ?new) (snd ?new) (s\<lparr>module := after_disabled M s st\<rparr>) = (Inr (), u)"
      "handler_ok u" "rt_code u = fst ?new" "state_history u = state_history s @ [fst ?new]"
      "GetMessage (shm_state u) = takeWhile (\<lambda>c. c \<noteq> CHR 0x00) (snd ?new)" "(update_time u, module u) = m_now M (after_disabled M s st)"
      "previous_code u = previous_code s" "request_queue u = request_queue s" "reject_new_requests u = reject_new_requests s"
      "answers u = answers s" "next_request u = next_request s"
    using publish_state_run[of "s\<lparr>module := after_disabled M s st\<rparr>" "snd ?new" M "fst ?new"] assms(1) by force
  ultimately have "r = Inr (rt_code s \<noteq> st)" "t = u" using assms(2) by (simp_all add: rt_bind_def rt_return_def)
  then show ?thesis using u True by (simp add: cut_message_def)
qed

section \<open>Invariants of the callback handler\<close>

text \<open>Operations that keep \<open>I\<close> and do not crash; there is no other error.\<close>

abbreviation rt_safe :: "('s \<Rightarrow> bool) \<Rightarrow> ('s, 'a) rt \<Rightarrow> bool" where
  "rt_safe I m \<equiv> rt_spec I m (\<lambda>_. I) (\<lambda>_ _. False)"

named_theorems safe_rules \<open>rules for operations that cannot fail\<close>

lemma safe_return [safe_rules]: "rt_safe I (rt_return x)" by (rule rt_spec_return)
lemma safe_bind [safe_rules]: "rt_safe I m \<Longrightarrow> (\<And>x. rt_safe I (f x)) \<Longrightarrow> rt_safe I (rt_bind m f)"
  by (rule rt_spec_bind)
lemma safe_gets [safe_rules]: "rt_safe I (rt_gets f)" by (rule rt_spec_gets)
lemma safe_if [safe_rules]: "(b \<Longrightarrow> rt_safe I m) \<Longrightarrow> (\<not> b \<Longrightarrow> rt_safe I n) \<Longrightarrow> rt_safe I (if b then m else n)" by simp
lemma safe_when [safe_rules]: "(b \<Longrightarrow> rt_safe I m) \<Longrightarrow> rt_safe I (rt_when b m)" by (rule rt_spec_when)
lemma safe_prod [safe_rules]: "(\<And>x y. rt_safe I (f x y)) \<Longrightarrow> rt_safe I (case p of (x, y) \<Rightarrow> f x y)" by (cases p) auto
lemma safe_option [safe_rules]:
  "rt_safe I m \<Longrightarrow> (\<And>x. rt_safe I (f x)) \<Longrightarrow> rt_safe I (case opt of None \<Rightarrow> m | Some x \<Rightarrow> f x)" by (cases opt) auto
lemma safe_list [safe_rules]:
  "rt_safe I m \<Longrightarrow> (\<And>x xs. rt_safe I (f x xs)) \<Longrightarrow> rt_safe I (case l of [] \<Rightarrow> m | x # xs \<Rightarrow> f x xs)" by (cases l) auto

text \<open>The start of a real-time cycle: the request and the hook.\<close>

definition start_of_cycle :: "'w module_iface \<Rightarrow> ('w handler, unit) rt" where
  "start_of_cycle M =
     rt_bind (ProcessNextPendingRequest M) (\<lambda>_.
     rt_bind (rt_gets previous_code) (\<lambda>previous.
     rt_bind (rt_gets rt_code) (CheckAndTriggerEnabledTransitionHook M previous)))"

lemma OnReadStatus_start: "OnReadStatus M =
   rt_bind (start_of_cycle M) (\<lambda>_.
   rt_bind (module_call (m_read_status M)) (\<lambda>(status, message).
   rt_bind (rt_gets rt_code) (\<lambda>code.
   rt_bind (rt_when (status \<noteq> OkStatus \<and> code \<noteq> HwmClearingFaults) (set_fault M (fault_state status) message)) (\<lambda>_.
     check_violations M))))"
  by (simp add: OnReadStatus_def start_of_cycle_def rt_bind_assoc)

text \<open>The calls that do not tell the module whether it is enabled.\<close>

abbreviation plain_calls :: "'w module_iface \<Rightarrow> ('w \<Rightarrow> module_status \<times> 'w) set" where
  "plain_calls M \<equiv> {m_prepare M, m_activate M, m_deactivate M, m_enable_motion M, m_disable_motion M,
     m_clear_faults M, m_read_status M, m_apply_command M}"

text \<open>Predicates that hold between the operations of the runtime. Only the start of a cycle can make the
  state motion-enabled.\<close>

locale handler_inv =
  fixes M :: "'w module_iface" and I :: "'w handler \<Rightarrow> bool"
  assumes set_state [safe_rules]: "st \<noteq> HwmMotionEnabled \<Longrightarrow> rt_safe I (SetStateDirectly M st reason False)"
    and cycle_start [safe_rules]: "rt_safe I (start_of_cycle M)"
    and call: "f \<in> plain_calls M \<Longrightarrow> rt_safe I (module_call f)"
    and violation [safe_rules]: "rt_safe I (module_call (m_violation M))"
    and clock [safe_rules]: "rt_safe I (module_call (m_now M))"
    and frame [simp]: "I (s\<lparr>request_queue := q\<rparr>) = I s" "I (s\<lparr>reject_new_requests := b\<rparr>) = I s"
      "I (s\<lparr>answers := a\<rparr>) = I s" "I (s\<lparr>next_request := n\<rparr>) = I s"
begin

lemmas calls [safe_rules] = call[of "m_prepare M"] call[of "m_activate M"] call[of "m_deactivate M"]
  call[of "m_enable_motion M"] call[of "m_disable_motion M"] call[of "m_clear_faults M"] call[of "m_read_status M"]
  call[of "m_apply_command M"]

lemma modify [safe_rules]: "(\<And>s. I (g s) = I s) \<Longrightarrow> rt_safe I (rt_modify g)"
  by (rule rt_spec_modify) simp

lemma cancel [safe_rules]: "rt_safe I CancelPendingRequests"
  by (simp add: CancelPendingRequests_def modify)

lemma fault [safe_rules]: "st \<noteq> HwmMotionEnabled \<Longrightarrow> rt_safe I (set_fault M st reason)"
  unfolding set_fault_def by (intro safe_rules)

lemma fault_state_not_enabled [simp]: "fault_state e \<noteq> HwmMotionEnabled"
  by (simp add: fault_state_def)

lemma violations [safe_rules]: "rt_safe I (check_violations M)"
  unfolding check_violations_def by (intro safe_rules) simp_all

lemma life_pieces [safe_rules]:
  "rt_safe I (begin_deactivate M)" "rt_safe I (begin_prepare M)" "rt_safe I (begin_activate M)"
  "rt_safe I (end_deactivate M r)" "rt_safe I (end_prepare M r)" "rt_safe I (end_activate M r)"
  unfolding begin_deactivate_def begin_prepare_def begin_activate_def end_deactivate_def end_prepare_def end_activate_def
  by (intro safe_rules; simp)+

lemma keeps_life: "rt_safe I (life_begin M op)" "rt_safe I (module_call (life_call M op))" "rt_safe I (life_end M op r)"
  by (cases op; simp add: life_pieces calls)+

lemma keeps_OnDeactivate [safe_rules]: "rt_safe I (OnDeactivate M)"
  unfolding OnDeactivate_def by (intro safe_rules) simp_all

lemma keeps_OnPrepare: "rt_safe I (OnPrepare M)"
  unfolding OnPrepare_def by (intro safe_rules) simp_all

lemma keeps_OnActivate: "rt_safe I (OnActivate M)"
  unfolding OnActivate_def by (intro safe_rules) simp_all

lemma keeps_OnReadStatus: "rt_safe I (OnReadStatus M)"
  unfolding OnReadStatus_start by (intro safe_rules) simp_all

lemma keeps_OnApplyCommand: "rt_safe I (OnApplyCommand M)"
  unfolding OnApplyCommand_def by (intro safe_rules) simp_all

lemma keeps_Shutdown: "rt_safe I Handler_Shutdown"
  unfolding Handler_Shutdown_def by (intro safe_rules) simp_all

lemma keeps_request [safe_rules]: "rt_safe I (request_state_change M frm to reason)"
  unfolding request_state_change_def by (intro safe_rules) simp_all

lemma keeps_action_call: "rt_safe I (action_call M a)"
  unfolding action_call_def by (cases a) (simp_all add: calls)

lemma keeps_action_begin: "rt_safe I (action_begin M a code)"
  unfolding action_begin_def by (intro safe_rules)

lemma keeps_action_end: "rt_safe I (action_end M a r)"
  unfolding action_end_def by (intro safe_rules)

lemma keeps_action_step: "action_step M c d \<Longrightarrow> I (fst c) \<Longrightarrow> I (fst d)"
  by (induction rule: action_step.induct)
    (auto dest: rt_specD_Inr[OF keeps_action_begin] rt_specD_Inr[OF keeps_action_call] rt_specD_Inr[OF keeps_action_end]
      rt_specD_Inr[OF life_pieces(1)] rt_specD_Inr[OF life_pieces(2)] rt_specD_Inr[OF keeps_life(2)] rt_specD_Inr[OF keeps_life(3)])

lemma keeps_life_step: "life_step M op c d \<Longrightarrow> I (fst c) \<Longrightarrow> I (fst d)"
  by (induction rule: life_step.induct) (auto dest: keeps_life[THEN rt_specD_Inr])

lemma keeps_step: "runtime_step M c d \<Longrightarrow> I (fst c) \<Longrightarrow> I (fst d)"
  by (induction rule: runtime_step.induct)
    (auto dest: keeps_action_step keeps_life_step rt_specD_Inr[OF set_state, rotated] rt_specD_Inr[OF keeps_OnReadStatus] rt_specD_Inr[OF keeps_OnApplyCommand]
      rt_specD_Inr[OF keeps_Shutdown])

lemma keeps_reachable:
  "runtime_reachable M w c \<Longrightarrow>
   (\<And>t0 s. mk_CallbackHandler M (fresh_handler w t0) = (Inr (), s) \<Longrightarrow> I s) \<Longrightarrow> I (fst c)"
  by (induction rule: runtime_reachable.induct) (auto dest: keeps_step)

end

text \<open>Predicates that every single change of the state keeps.\<close>

locale handler_state_inv =
  fixes M :: "'w module_iface" and I :: "'w handler \<Rightarrow> bool"
  assumes any_state [safe_rules]: "rt_safe I (SetStateDirectly M st reason False)"
    and any_call [safe_rules]: "rt_safe I (module_call (f :: 'w \<Rightarrow> module_status \<times> 'w))"
    and any_violation: "rt_safe I (module_call (g :: 'w \<Rightarrow> string option \<times> 'w))"
    and any_clock: "rt_safe I (module_call (h :: 'w \<Rightarrow> int \<times> 'w))"
    and frames [simp]: "I (s\<lparr>request_queue := q\<rparr>) = I s" "I (s\<lparr>reject_new_requests := b\<rparr>) = I s"
      "I (s\<lparr>answers := a\<rparr>) = I s" "I (s\<lparr>next_request := n\<rparr>) = I s" "I (s\<lparr>previous_code := c\<rparr>) = I s"
begin

lemma update [safe_rules]: "(\<And>s. I (g s) = I s) \<Longrightarrow> rt_safe I (rt_modify g)"
  by (rule rt_spec_modify) simp

lemma keeps_start: "rt_safe I (start_of_cycle M)"
  unfolding start_of_cycle_def ProcessNextPendingRequest_def CheckAndTriggerEnabledTransitionHook_def respond_def
  by (intro safe_rules) simp_all

end

sublocale handler_state_inv \<subseteq> handler_inv
  by unfold_locales (auto intro: any_state keeps_start any_call any_violation any_clock)

lemma SetStateDirectly_no_error: "handler_ok s \<Longrightarrow> SetStateDirectly M st reason False s = (r, t) \<Longrightarrow> \<exists>b. r = Inr b"
  using SetStateDirectly_run[of s M st reason r t] by (auto split: if_splits)

lemma set_safeI:
  assumes "\<And>s. I s \<Longrightarrow> handler_ok s"
    and "\<And>s r t. I s \<Longrightarrow> SetStateDirectly M st reason False s = (r, t) \<Longrightarrow> I t"
  shows "rt_safe I (SetStateDirectly M st reason False)"
proof (rule rt_specI)
  show "\<And>s x t. I s \<Longrightarrow> SetStateDirectly M st reason False s = (Inr x, t) \<Longrightarrow> I t" by (rule assms(2))
  show "\<And>s e t. I s \<Longrightarrow> SetStateDirectly M st reason False s = (Inl e, t) \<Longrightarrow> False"
    using SetStateDirectly_no_error[OF assms(1)] by fastforce
qed

lemma SetStateDirectly_safe: "rt_safe handler_ok (SetStateDirectly M st reason False)"
  by (rule set_safeI) (blast dest: SetStateDirectly_run)+

lemma module_call_ok: "rt_safe handler_ok (module_call f)"
  by (rule rt_specI) (auto simp: module_call_def split: prod.splits)

interpretation ok: handler_state_inv M handler_ok for M :: "'w module_iface"
  by unfold_locales (simp_all add: SetStateDirectly_safe module_call_ok)

lemma init_handler_ok:
  assumes "mk_CallbackHandler M (fresh_handler w t0) = (Inr (), s)"
  shows "handler_ok s \<and> rt_code s = HwmDeactivated \<and> request_queue s = [] \<and> next_request s = 0 \<and> module s = w \<and>
    state_history s = [HwmDeactivated]"
proof -
  let ?s = "fresh_handler w t0"
  have "GetMessage (shm_state ?s) = []"
    by (simp add: fresh_handler_def GetMessage_def BuildHardwareModuleState_def replicate_eq_replicate)
  then have "s = ?s"
    using assms by (simp add: mk_CallbackHandler_def SetStateDirectly_def rt_bind_gets fresh_handler_def)
      (simp add: rt_defs)
  then show ?thesis
    by (simp add: fresh_handler_def handler_ok_def BuildHardwareModuleState_def mk_AsyncBuffer_def
      ab_valid_def async_defs ab_fetch_def AB_GetActiveBuffer_def)
qed








text \<open>A module that keeps a log of the calls that tell it that it is enabled or disabled.\<close>

definition with_log :: "('w \<Rightarrow> 'a \<times> 'w) \<Rightarrow> bool list \<Rightarrow> 'w \<times> bool list \<Rightarrow> 'a \<times> 'w \<times> bool list" where
  "with_log f entry = (\<lambda>(w, log). case f w of (x, v) \<Rightarrow> (x, v, log @ entry))"

definition logged :: "'w module_iface \<Rightarrow> ('w \<times> bool list) module_iface" where
  "logged M = \<lparr>m_prepare = with_log (m_prepare M) [], m_activate = with_log (m_activate M) [],
     m_deactivate = with_log (m_deactivate M) [], m_enable_motion = with_log (m_enable_motion M) [],
     m_disable_motion = with_log (m_disable_motion M) [], m_clear_faults = with_log (m_clear_faults M) [],
     m_enabled = with_log (m_enabled M) [True], m_disabled = with_log (m_disabled M) [False],
     m_read_status = with_log (m_read_status M) [], m_apply_command = with_log (m_apply_command M) [],
     m_violation = with_log (m_violation M) [], m_now = with_log (m_now M) []\<rparr>"

definition alternating :: "bool list \<Rightarrow> bool" where
  "alternating log \<longleftrightarrow> (\<forall>k < length log. log ! k = even k)"

lemma alternating_append [simp]: "alternating (log @ [b]) \<longleftrightarrow> alternating log \<and> b = even (length log)"
  by (auto simp: alternating_def nth_append less_Suc_eq)

definition call_log :: "('w \<times> bool list) handler \<Rightarrow> bool list" where
  "call_log s = snd (module s)"

definition hooks_ok :: "('w \<times> bool list) handler \<Rightarrow> bool" where
  "hooks_ok s \<longleftrightarrow> handler_ok s \<and> alternating (call_log s) \<and> (rt_code s = HwmMotionEnabled \<longleftrightarrow> odd (length (call_log s)))"

lemma with_log_run: "with_log f e p = (x, v) \<longleftrightarrow> (\<exists>w. f (fst p) = (x, w) \<and> v = (w, snd p @ e))"
  by (auto simp: with_log_def split: prod.splits)

lemma snd_with_log [simp]: "snd (snd (with_log f e p)) = snd p @ e"
  by (simp add: with_log_def split: prod.splits)

lemma logged_simps [simp]:
  "m_disabled (logged M) = with_log (m_disabled M) [False]" "m_enabled (logged M) = with_log (m_enabled M) [True]"
  "m_now (logged M) = with_log (m_now M) []" "m_violation (logged M) = with_log (m_violation M) []"
  by (simp_all add: logged_def)

lemma logged_set:
  assumes "handler_ok s" "SetStateDirectly (logged M) st reason False s = (r, t)"
  shows "handler_ok t \<and>
    (if set_applies s st reason
     then rt_code t = (if disabling_fails (logged M) s st then HwmFaulted else st) \<and>
       call_log t = (if rt_code s = HwmMotionEnabled \<and> st \<noteq> HwmMotionEnabled then call_log s @ [False] else call_log s)
     else t = s)"
proof -
  have "module t = snd (m_now (logged M) (after_disabled (logged M) s st))" if "set_applies s st reason"
    using SetStateDirectly_run[OF assms] that by (simp add: prod_eq_iff)
  then show ?thesis using SetStateDirectly_run[OF assms]
    by (simp add: call_log_def after_disabled_def)
qed

lemma hooks_set:
  assumes "st \<noteq> HwmMotionEnabled"
  shows "rt_safe hooks_ok (SetStateDirectly (logged M) st reason False)"
proof (rule set_safeI)
  fix s t :: "('a \<times> bool list) handler" and r
  assume s: "hooks_ok s" and "SetStateDirectly (logged M) st reason False s = (r, t)"
  from logged_set[OF _ this(2)] s show "hooks_ok t"
    using assms by (cases "set_applies s st reason") (auto simp: hooks_ok_def split: if_splits)
qed (simp add: hooks_ok_def)

lemma hooks_call: "rt_safe hooks_ok (module_call (with_log f []))"
  by (rule rt_specI) (auto simp: module_call_def hooks_ok_def call_log_def with_log_run split: prod.splits)

text \<open>The request has just made the module motion-enabled; the hook is about to be called.\<close>

definition just_enabled :: "('w \<times> bool list) handler \<Rightarrow> bool" where
  "just_enabled s \<longleftrightarrow> handler_ok s \<and> alternating (call_log s) \<and> even (length (call_log s)) \<and>
     rt_code s = HwmMotionEnabled \<and> previous_code s = HwmMotionEnabling"

text \<open>The request at the front of the queue is applied if nothing has changed since it was made.\<close>

lemma Process_empty: "request_queue s = [] \<Longrightarrow> ProcessNextPendingRequest M s = (Inr (), s\<lparr>previous_code := rt_code s\<rparr>)"
  by (simp add: ProcessNextPendingRequest_def rt_defs)

lemma Process_stale:
  "request_queue s = item # rest \<Longrightarrow> \<not> (update_time s \<le> req_timestamp item \<and> req_from item = rt_code s) \<Longrightarrow>
   ProcessNextPendingRequest M s = (Inr (), s\<lparr>previous_code := rt_code s, request_queue := rest,
     answers := (answers s)(req_id item := Some (Error Cancelled))\<rparr>)"
  by (auto simp: ProcessNextPendingRequest_def respond_def rt_defs)

lemma Process_fresh:
  assumes "request_queue s = item # rest" "update_time s \<le> req_timestamp item" "req_from item = rt_code s"
    and "SetStateDirectly M (req_to item) (req_message item) False (s\<lparr>previous_code := rt_code s, request_queue := rest\<rparr>) = (Inr b, t)"
  shows "ProcessNextPendingRequest M s =
    (Inr (), t\<lparr>answers := (answers t)(req_id item := Some (if b then OkStatus else Error FailedPrecondition))\<rparr>)"
  using assms by (simp add: ProcessNextPendingRequest_def respond_def rt_bind_gets rt_bind_modify)
    (simp add: rt_bind_def rt_modify_def)

lemma hooks_start: "rt_safe hooks_ok (start_of_cycle (logged M))"
proof -
  have hook: "rt_spec (\<lambda>s. hooks_ok s \<and> \<not> (previous_code s = HwmMotionEnabling \<and> rt_code s = HwmMotionEnabled) \<or> just_enabled s)
     (rt_bind (rt_gets previous_code) (\<lambda>previous.
      rt_bind (rt_gets rt_code) (CheckAndTriggerEnabledTransitionHook (logged M) previous))) (\<lambda>_. hooks_ok) (\<lambda>_ _. False)"
    (is "rt_spec ?J ?m _ _")
  proof (rule rt_spec_split)
    fix s0 :: "('a \<times> bool list) handler"
    assume J: "?J s0"
    show "rt_spec (\<lambda>s. s = s0) ?m (\<lambda>_. hooks_ok) (\<lambda>_ _. False)"
    proof (cases "just_enabled s0")
      case True
      obtain status msg w where call: "m_enabled M (fst (module s0)) = ((status, msg), w)" by (metis prod_cases3 surj_pair)
      define s1 where "s1 = s0\<lparr>module := (w, snd (module s0) @ [True])\<rparr>"
      have s1: "hooks_ok s1" using True by (simp add: just_enabled_def hooks_ok_def s1_def call_log_def)
      have mc: "module_call (with_log (m_enabled M) [True]) s0 = (Inr (status, msg), s1)"
        using call by (cases "module s0") (simp add: module_call_def with_log_def s1_def)
      have run: "?m s0 = rt_when (status \<noteq> OkStatus)
          (rt_bind (SetStateDirectly (logged M) HwmFaulted (rt_StrCat [''Enabled() callback failed: '', msg]) False)
               (\<lambda>_. rt_return ())) s1"
        using True
        by (simp add: rt_bind_gets CheckAndTriggerEnabledTransitionHook_def just_enabled_def rt_when_def
          rt_bind_run[of "module_call (with_log (m_enabled M) [True])" s0, OF mc])
      have "rt_safe hooks_ok (rt_when (status \<noteq> OkStatus)
          (rt_bind (SetStateDirectly (logged M) HwmFaulted (rt_StrCat [''Enabled() callback failed: '', msg]) False)
               (\<lambda>_. rt_return ())))"
        by (intro safe_rules hooks_set) simp
      then show ?thesis using s1 by (simp add: rt_spec_def run)
    next
      case False
      then have "?m s0 = (Inr (), s0)" using J
        by (auto simp: rt_bind_gets CheckAndTriggerEnabledTransitionHook_def rt_when_def rt_return_def)
      then show ?thesis using J False by (simp add: rt_spec_def)
    qed
  qed
  have process: "rt_spec hooks_ok (ProcessNextPendingRequest (logged M))
     (\<lambda>_ s. hooks_ok s \<and> \<not> (previous_code s = HwmMotionEnabling \<and> rt_code s = HwmMotionEnabled) \<or> just_enabled s) (\<lambda>_ _. False)"
  proof (rule rt_spec_split)
    fix s :: "('a \<times> bool list) handler"
    assume s: "hooks_ok s"
    let ?Q = "\<lambda>s. hooks_ok s \<and> \<not> (previous_code s = HwmMotionEnabling \<and> rt_code s = HwmMotionEnabled) \<or> just_enabled s"
    have "\<exists>t. ProcessNextPendingRequest (logged M) s = (Inr (), t) \<and> ?Q t"
    proof (cases "request_queue s")
      case Nil
      then show ?thesis using s by (simp add: Process_empty) (simp add: hooks_ok_def call_log_def)
    next
      case (Cons item rest)
      let ?s = "s\<lparr>previous_code := rt_code s, request_queue := rest\<rparr>"
      show ?thesis
      proof (cases "update_time s \<le> req_timestamp item \<and> req_from item = rt_code s")
        case False
        then show ?thesis using s Process_stale[OF Cons False] by (auto simp: hooks_ok_def call_log_def)
      next
        case True
        have ok: "handler_ok ?s" using s by (simp add: hooks_ok_def)
        obtain b t where set: "SetStateDirectly (logged M) (req_to item) (req_message item) False ?s = (Inr b, t)"
          using SetStateDirectly_no_error[OF ok] by (metis surj_pair)
        have s': "hooks_ok ?s" using s by (simp add: hooks_ok_def call_log_def)
        have "?Q t"
        proof (cases "set_applies ?s (req_to item) (req_message item)")
          case False
          then have "t = ?s" using logged_set[OF ok set] by simp
          then show ?thesis using s' by simp
        next
          case applies: True
          show ?thesis
          proof (cases "req_to item = HwmMotionEnabled")
            case True
            then have frm: "rt_code s = HwmMotionEnabling" using applies by (simp add: set_applies_def)
            then have "rt_code t = HwmMotionEnabled" "call_log t = call_log ?s" "handler_ok t"
              using logged_set[OF ok set] applies True by (simp_all add: disabling_fails_def)
            moreover have "previous_code t = HwmMotionEnabling" using SetStateDirectly_run[OF ok set] frm by simp
            ultimately show ?thesis using s' frm by (simp add: just_enabled_def hooks_ok_def)
          next
            case False
            then have "rt_code t \<noteq> HwmMotionEnabled" using logged_set[OF ok set] applies by simp
            then show ?thesis using rt_specD_Inr[OF hooks_set[OF False] s' set] by simp
          qed
        qed
        then have "?Q (t\<lparr>answers := a\<rparr>)" for a by (simp add: hooks_ok_def just_enabled_def call_log_def)
        then show ?thesis using Process_fresh[OF Cons _ _ set] True by blast
      qed
    qed
    then show "rt_spec (\<lambda>t. t = s) (ProcessNextPendingRequest (logged M)) (\<lambda>_. ?Q) (\<lambda>_ _. False)"
      by (auto simp: rt_spec_def)
  qed
  show ?thesis unfolding start_of_cycle_def by (rule rt_spec_bind[OF process hook])
qed

lemma logged_plain: "f \<in> plain_calls (logged M) \<Longrightarrow> \<exists>g. f = with_log g []"
  by (auto simp: logged_def)

interpretation hooks: handler_inv "logged M" hooks_ok for M
proof (unfold_locales, goal_cases)
  case (3 f)
  then show ?case using logged_plain[OF 3] by (auto intro: hooks_call)
qed (simp_all add: hooks_set hooks_start hooks_call, simp_all add: hooks_ok_def call_log_def)

section \<open>Cycles\<close>

text \<open>\<^verbatim>\<open>ReadStatus\<close> is called once per cycle of the main loop.\<close>

definition read_cycles :: "'w module_iface \<Rightarrow> nat \<Rightarrow> ('w handler, unit) rt" where
  "read_cycles M n = rt_for [0..<n] (\<lambda>_. OnReadStatus M)"

text \<open>Every request of \<open>rs\<close> is in the queue or has its answer, and at most \<open>n\<close> are in the queue.\<close>

definition served :: "state_request list \<Rightarrow> nat \<Rightarrow> 'w handler \<Rightarrow> bool" where
  "served rs n s \<longleftrightarrow> handler_ok s \<and> length (request_queue s) \<le> n \<and>
     (\<forall>r \<in> set rs. r \<in> set (request_queue s) \<or> answers s (req_id r) \<noteq> None)"

lemma answers_fold: "fold (\<lambda>r a. a(req_id r := Some e)) rs a i = (if i \<in> req_id ` set rs then Some e else a i)"
  by (induction rs arbitrary: a) auto

lemma served_set [safe_rules]: "rt_safe (served rs n) (SetStateDirectly M st reason False)"
proof (rule set_safeI)
  fix s t :: "'a handler" and r
  assume "served rs n s" "SetStateDirectly M st reason False s = (r, t)"
  then show "served rs n t" using SetStateDirectly_run[of s M st reason r t] by (simp add: served_def)
qed (simp add: served_def)

lemma served_call [safe_rules]: "rt_safe (served rs n) (module_call f)"
  by (rule rt_specI) (auto simp: module_call_def served_def split: prod.splits)

lemma served_cancel [safe_rules]: "rt_safe (served rs n) CancelPendingRequests"
  by (rule rt_specI) (auto simp: CancelPendingRequests_def rt_modify_def served_def answers_fold split: if_splits)

lemma served_fault [safe_rules]: "rt_safe (served rs n) (set_fault M st reason)"
  unfolding set_fault_def by (intro safe_rules)

lemma served_violations [safe_rules]: "rt_safe (served rs n) (check_violations M)"
  unfolding check_violations_def by (intro safe_rules)

lemma served_hook [safe_rules]: "rt_safe (served rs n) (CheckAndTriggerEnabledTransitionHook M frm to)"
  unfolding CheckAndTriggerEnabledTransitionHook_def by (intro safe_rules)

lemma served_process:
  "rt_spec (served rs n) (ProcessNextPendingRequest M) (\<lambda>_. served rs (n - 1)) (\<lambda>_ _. False)"
proof (rule rt_spec_split)
  fix s :: "'a handler"
  assume s: "served rs n s"
  have "\<exists>t. ProcessNextPendingRequest M s = (Inr (), t) \<and> served rs (n - 1) t"
  proof (cases "request_queue s")
    case Nil
    then show ?thesis using s by (auto simp: Process_empty served_def)
  next
    case (Cons item rest)
    let ?s = "s\<lparr>previous_code := rt_code s, request_queue := rest\<rparr>"
    show ?thesis
    proof (cases "update_time s \<le> req_timestamp item \<and> req_from item = rt_code s")
      case False
      then show ?thesis using s Cons Process_stale[OF Cons False] by (auto simp: served_def)
    next
      case True
      have ok: "handler_ok ?s" using s by (simp add: served_def)
      obtain b t where set: "SetStateDirectly M (req_to item) (req_message item) False ?s = (Inr b, t)"
        using SetStateDirectly_no_error[OF ok] by (metis surj_pair)
      have "handler_ok t" "request_queue t = rest" "answers t = answers s" using SetStateDirectly_run[OF ok set] by simp_all
      then have "served rs (n - 1) (t\<lparr>answers := (answers t)(req_id item := Some x)\<rparr>)" for x
        using s Cons by (auto simp: served_def)
      then show ?thesis using Process_fresh[OF Cons _ _ set] True by blast
    qed
  qed
  then show "rt_spec (\<lambda>t. t = s) (ProcessNextPendingRequest M) (\<lambda>_. served rs (n - 1)) (\<lambda>_ _. False)"
    by (auto simp: rt_spec_def)
qed

lemma served_read: "rt_spec (served rs n) (OnReadStatus M) (\<lambda>_. served rs (n - 1)) (\<lambda>_ _. False)"
  unfolding OnReadStatus_def by (rule rt_spec_bind[OF served_process]) (intro safe_rules)

lemma served_cycles: "rt_spec (served rs n) (rt_for xs (\<lambda>_. OnReadStatus M)) (\<lambda>_. served rs (n - length xs)) (\<lambda>_ _. False)"
proof (induction xs arbitrary: n)
  case (Cons x xs)
  have "rt_spec (served rs (n - 1)) (rt_for xs (\<lambda>_. OnReadStatus M)) (\<lambda>_. served rs (n - length (x # xs))) (\<lambda>_ _. False)"
    using Cons.IH[of "n - 1"] by simp
  then show ?case by (simp add: rt_spec_bind[OF served_read])
qed (simp add: rt_spec_return)

section \<open>Errors of the module\<close>

lemma set_fault_run:
  assumes "handler_ok s"
  shows "\<exists>t. set_fault M st reason s = (Inr (), t) \<and> handler_ok t \<and>
    rt_code t = (if set_applies s st reason then if disabling_fails M s st then HwmFaulted else st else rt_code s) \<and>
    (\<not> disabling_fails M s st \<longrightarrow>
       GetMessage (shm_state t) = (if set_applies s st reason then cut_message reason else GetMessage (shm_state s))) \<and>
    (if set_applies s st reason \<and> rt_code s \<noteq> st
     then request_queue t = [] \<and> (\<forall>r \<in> set (request_queue s). answers t (req_id r) = Some (Error Cancelled))
     else request_queue t = request_queue s \<and> answers t = answers s)"
proof -
  obtain b u where set: "SetStateDirectly M st reason False s = (Inr b, u)"
    using SetStateDirectly_no_error[OF assms] by (metis surj_pair)
  have b: "b \<longleftrightarrow> set_applies s st reason \<and> rt_code s \<noteq> st" using SetStateDirectly_run[OF assms set] by (auto split: if_splits)
  have run: "set_fault M st reason s = rt_when b CancelPendingRequests u"
    by (simp add: set_fault_def rt_bind_def set)
  show ?thesis
  proof (cases b)
    case True
    then show ?thesis using SetStateDirectly_run[OF assms set] b run
      by (simp add: rt_when_def CancelPendingRequests_def rt_modify_def answers_fold)
  next
    case False
    then have "set_fault M st reason s = (Inr (), u)" by (simp add: run rt_when_def rt_return_def)
    then show ?thesis using SetStateDirectly_run[OF assms set] b False by (auto split: if_splits)
  qed
qed

lemma faults_from_active:
  "c \<in> {HwmActivated, HwmMotionEnabling, HwmMotionEnabled, HwmMotionDisabling} \<Longrightarrow>
   HardwareModuleTransitionGuard c (fault_state (Error e)) = kAllowed \<and> c \<noteq> fault_state (Error e) \<and>
   fault_state (Error e) \<in> {HwmFaulted, HwmFatallyFaulted}"
  by (auto simp: HardwareModuleTransitionGuard_def fault_state_def)

lemma cut_message_take [simp]: "cut_message (take kMaxMessageLength m) = cut_message m"
  by (simp add: cut_message_def)

lemma violations_when_faulted:
  assumes "handler_ok t" "rt_code t \<in> {HwmFaulted, HwmFatallyFaulted}"
  shows "\<exists>u. check_violations M t = (Inr (), u) \<and> rt_code u = rt_code t \<and> request_queue u = request_queue t \<and>
    answers u = answers t \<and>
    (case fst (m_violation M (module t)) of
       Some v \<Rightarrow> GetMessage (shm_state u) = (if rt_code t = HwmFaulted then cut_message v else GetMessage (shm_state t)) \<or>
                 GetMessage (shm_state u) = GetMessage (shm_state t)
     | None \<Rightarrow> GetMessage (shm_state u) = GetMessage (shm_state t))"
proof -
  obtain v w where v: "m_violation M (module t) = (v, w)" by fastforce
  show ?thesis
  proof (cases v)
    case None
    then show ?thesis using v by (simp add: check_violations_def rt_bind_def module_call_def rt_return_def)
  next
    case (Some msg)
    have "handler_ok (t\<lparr>module := w\<rparr>)" using assms(1) by simp
    from set_fault_run[OF this, of M HwmFaulted "take kMaxMessageLength msg"] show ?thesis using Some v assms(2)
      by (auto simp: check_violations_def rt_bind_def module_call_def set_applies_def HardwareModuleTransitionGuard_def
        disabling_fails_def split: if_splits)
  qed
qed

lemma publish_state_other: "publish_state (M\<lparr>m_apply_command := f\<rparr>) st reason = publish_state M st reason"
  by (simp add: publish_state_def)

lemma disabled_hook_other:
  "CheckAndTriggerDisabledTransitionHook (M\<lparr>m_apply_command := f\<rparr>) c = CheckAndTriggerDisabledTransitionHook M c"
  by (simp add: CheckAndTriggerDisabledTransitionHook_def)

lemma set_fault_other: "set_fault (M\<lparr>m_apply_command := f\<rparr>) st reason = set_fault M st reason"
  by (simp only: set_fault_def SetStateDirectly_def publish_state_other disabled_hook_other)

section \<open>Examples\<close>

text \<open>A module that succeeds, except that it cannot read its status and cannot be disabled; its world is the time.\<close>

definition broken_module :: "int module_iface" where
  "broken_module =
    (let ok = (\<lambda>w. ((OkStatus, []), w)) in
     \<lparr>m_prepare = ok, m_activate = ok, m_deactivate = ok, m_enable_motion = ok, m_disable_motion = ok,
       m_clear_faults = ok, m_enabled = ok, m_disabled = (\<lambda>w. ((Error Internal, ''stuck''), w)),
       m_read_status = (\<lambda>w. ((Error Aborted, ''no signal''), w)), m_apply_command = ok,
       m_violation = (\<lambda>w. (None, w)), m_now = (\<lambda>w. (w, w + 1))\<rparr>)"

definition at_state :: "state_code \<Rightarrow> state_request list \<Rightarrow> int handler" where
  "at_state code queue = (fresh_handler 0 0)\<lparr>rt_code := code,
     shm_state := BuildHardwareModuleState\<lparr>shm_code := code\<rparr>,
     state_buffer := mk_AsyncBuffer (BuildHardwareModuleState\<lparr>shm_code := code\<rparr>), request_queue := queue\<rparr>"

definition working_module :: "int module_iface" where
  "working_module = broken_module\<lparr>m_read_status := (\<lambda>w. ((OkStatus, []), w)), m_disabled := (\<lambda>w. ((OkStatus, []), w))\<rparr>"

lemma fresh_reachable: "runtime_reachable M w (fresh_handler w t0, at_rest)"
proof (rule runtime_reachable.init)
  have "GetMessage (shm_state (fresh_handler w t0)) = []"
    by (simp add: fresh_handler_def GetMessage_def BuildHardwareModuleState_def replicate_eq_replicate)
  then show "mk_CallbackHandler M (fresh_handler w t0) = (Inr (), fresh_handler w t0)"
    by (simp add: mk_CallbackHandler_def SetStateDirectly_def rt_bind_gets fresh_handler_def) (simp add: rt_defs)
qed

lemma reachable_ok: "runtime_reachable M w (s, pc) \<Longrightarrow> handler_ok s"
  using ok.keeps_reachable[of M w "(s, pc)"] init_handler_ok by force

lemma in_action_simps [simp]:
  "state_change (in_action a) = a" "(in_action a)\<lparr>state_change := b\<rparr> = in_action b" "in_action Act_idle = at_rest"
  "state_change at_rest = Act_idle" "activating at_rest = L_idle" "deactivating at_rest = L_idle"
  "at_rest\<lparr>state_change := b\<rparr> = in_action b" "at_rest\<lparr>activating := L_idle\<rparr> = at_rest"
  by (simp_all add: in_action_def at_rest_def)

lemma reach_action:
  "runtime_reachable M w (s, in_action a) \<Longrightarrow> action_step M (s, a) (t, b) \<Longrightarrow> runtime_reachable M w (t, in_action b)"
  using runtime_reachable.step[OF _ runtime_step.state_change_thread[of M s "in_action a" t b]] by simp

text \<open>Callbacks that nobody interrupts.\<close>

lemma reach_prepare:
  assumes "runtime_reachable M w (s, at_rest)" "\<not> prepare_deactivates (rt_code s)" "OnPrepare M s = (Inr (), t)"
  shows "runtime_reachable M w (t, at_rest)"
proof -
  note start = assms(1)[folded in_action_simps(3)]
  obtain ok u where begins: "begin_prepare M s = (Inr ok, u)" and
    "(if \<not> ok then rt_return () else rt_bind (module_call (m_prepare M)) (end_prepare M)) u = (Inr (), t)"
    using assms(2,3) by (auto simp: OnPrepare_def rt_bind_gets rt_when_def rt_bind_Inr)
  then have rest: "if ok then \<exists>r v. module_call (life_call M Op_prepare) u = (Inr r, v) \<and> life_end M Op_prepare r v = (Inr (), t) else t = u"
    by (auto simp: rt_Inr_iff split: if_splits)
  note started = reach_action[OF reach_action[OF start action_step.prepare[OF assms(2)]] action_step.prepare_begin[OF begins]]
  show ?thesis
  proof (cases ok)
    case True
    then obtain r v where "module_call (life_call M Op_prepare) u = (Inr r, v)" "life_end M Op_prepare r v = (Inr (), t)"
      using rest by auto
    with started True reach_action[OF reach_action, OF _ action_step.prepare_call action_step.prepare_end] show ?thesis by fastforce
  next
    case False
    then show ?thesis using started rest by simp
  qed
qed

lemma reach_activating:
  "runtime_reachable M w (s, at_rest\<lparr>activating := l\<rparr>) \<Longrightarrow> life_step M Op_activate (s, l) (t, k) \<Longrightarrow>
   runtime_reachable M w (t, at_rest\<lparr>activating := k\<rparr>)"
  using runtime_reachable.step[OF _ runtime_step.activate_thread[of M s "at_rest\<lparr>activating := l\<rparr>" t k]] by simp

lemma reach_activate:
  assumes "runtime_reachable M w (s, at_rest)" "OnActivate M s = (Inr (), t)"
  shows "runtime_reachable M w (t, at_rest)"
proof -
  have start: "runtime_reachable M w (s, at_rest\<lparr>activating := L_idle\<rparr>)" using assms(1) by simp
  obtain ok u where begins: "life_begin M Op_activate s = (Inr ok, u)" and
    rest: "if ok then \<exists>r v. module_call (life_call M Op_activate) u = (Inr r, v) \<and> life_end M Op_activate r v = (Inr (), t) else t = u"
    using assms(2) by (auto simp: OnActivate_def rt_Inr_iff split: if_splits)
  note started = reach_activating[OF start life_step.life_begins[OF begins]]
  show ?thesis
  proof (cases ok)
    case True
    then obtain r v where "module_call (life_call M Op_activate) u = (Inr r, v)" "life_end M Op_activate r v = (Inr (), t)"
      using rest by auto
    with started True reach_activating[OF reach_activating, OF _ life_step.life_calls life_step.life_ends] show ?thesis by fastforce
  next
    case False
    then show ?thesis using started rest by simp
  qed
qed

section \<open>A module that works\<close>

text \<open>Its calls succeed and the clock \<open>clk\<close> of its world does not go back.\<close>

definition obliging :: "'w module_iface \<Rightarrow> ('w \<Rightarrow> int) \<Rightarrow> bool" where
  "obliging M clk \<longleftrightarrow> (\<forall>w. fst (m_now M w) = clk w \<and> clk w \<le> clk (snd (m_now M w)) \<and>
     fst (m_violation M w) = None \<and> clk w \<le> clk (snd (m_violation M w)) \<and>
     (\<forall>f \<in> {m_prepare M, m_activate M, m_enable_motion M, m_enabled M}. fst (fst (f w)) = OkStatus \<and> clk w \<le> clk (snd (f w))))"

definition reads :: "'w module_iface \<Rightarrow> ('w \<Rightarrow> int) \<Rightarrow> bool" where
  "reads M clk \<longleftrightarrow> (\<forall>w. fst (fst (m_read_status M w)) = OkStatus \<and> clk w \<le> clk (snd (m_read_status M w)))"

definition idle_at :: "('w \<Rightarrow> int) \<Rightarrow> state_code \<Rightarrow> 'w handler \<Rightarrow> bool" where
  "idle_at clk code s \<longleftrightarrow> handler_ok s \<and> rt_code s = code \<and> update_time s \<le> clk (module s) \<and> request_queue s = [] \<and>
     \<not> reject_new_requests s"

lemma set_allowed:
  assumes "obliging M clk" "handler_ok s" "update_time s \<le> clk (module s)" "rt_code s \<noteq> HwmMotionEnabled" "rt_code s \<noteq> st"
    and "HardwareModuleTransitionGuard (rt_code s) st = kAllowed"
  shows "\<exists>t. SetStateDirectly M st reason False s = (Inr True, t) \<and> handler_ok t \<and> rt_code t = st \<and>
    update_time t \<le> clk (module t) \<and> previous_code t = previous_code s \<and> request_queue t = request_queue s \<and>
    reject_new_requests t = reject_new_requests s \<and> answers t = answers s \<and> next_request t = next_request s"
proof -
  obtain r t where set: "SetStateDirectly M st reason False s = (r, t)" by fastforce
  have now: "fst (m_now M (module s)) \<le> clk (snd (m_now M (module s)))" using assms(1) by (simp add: obliging_def)
  have applies: "set_applies s st reason" "\<not> disabling_fails M s st" "after_disabled M s st = module s"
    using assms by (auto simp: set_applies_def disabling_fails_def after_disabled_def)
  then have "(update_time t, module t) = m_now M (module s)" using SetStateDirectly_run[OF assms(2) set] by simp
  then show ?thesis using SetStateDirectly_run[OF assms(2) set] applies set assms(5) now
    by (auto dest: sym)
qed

lemma call_succeeds:
  assumes "obliging M clk" "f \<in> {m_prepare M, m_activate M, m_enable_motion M, m_enabled M}"
    "update_time s \<le> clk (module s)"
  shows "\<exists>msg w. module_call f s = (Inr (OkStatus, msg), s\<lparr>module := w\<rparr>) \<and> update_time s \<le> clk w"
proof -
  obtain st msg w where f: "f (module s) = ((st, msg), w)" by (metis prod_cases3 surj_pair)
  have "fst (fst (f (module s))) = OkStatus \<and> clk (module s) \<le> clk (snd (f (module s)))"
    using assms(1,2) by (auto simp: obliging_def)
  then show ?thesis using f assms(3) by (intro exI[of _ msg] exI[of _ w]) (auto simp: module_call_def)
qed

lemma prepare_succeeds:
  assumes M: "obliging M clk" and s: "idle_at clk HwmDeactivated s"
  shows "\<exists>t. OnPrepare M s = (Inr (), t) \<and> idle_at clk HwmPrepared t"
proof -
  obtain t where t: "SetStateDirectly M HwmPreparing [] False s = (Inr True, t)" "idle_at clk HwmPreparing t"
    using set_allowed[OF M, of s HwmPreparing "[]"] s by (auto simp: idle_at_def HardwareModuleTransitionGuard_def)
  have cancel: "CancelPendingRequests t = (Inr (), t)"
    using t(2) by (simp add: CancelPendingRequests_def rt_modify_def idle_at_def)
  obtain msg w where call: "module_call (m_prepare M) t = (Inr (OkStatus, msg), t\<lparr>module := w\<rparr>)" "update_time t \<le> clk w"
    using call_succeeds[OF M, of "m_prepare M" t] t(2) by (auto simp: idle_at_def)
  obtain u where "SetStateDirectly M HwmPrepared [] False (t\<lparr>module := w\<rparr>) = (Inr True, u)" "idle_at clk HwmPrepared u"
    using set_allowed[OF M, of "t\<lparr>module := w\<rparr>" HwmPrepared "[]"] t(2) call(2)
    by (auto simp: idle_at_def HardwareModuleTransitionGuard_def)
  moreover have "rt_code s = HwmDeactivated" using s by (simp add: idle_at_def)
  ultimately show ?thesis using t(1) cancel call(1) 
    by (simp add: OnPrepare_def begin_prepare_def end_prepare_def prepare_deactivates_def rt_bind_def rt_gets_def rt_when_def rt_return_def)
qed

lemma activate_succeeds:
  assumes M: "obliging M clk" and s: "idle_at clk HwmPrepared s"
  shows "\<exists>t. OnActivate M s = (Inr (), t) \<and> idle_at clk HwmActivated t"
proof -
  obtain t where t: "SetStateDirectly M HwmActivating [] False s = (Inr True, t)" "idle_at clk HwmActivating t"
    using set_allowed[OF M, of s HwmActivating "[]"] s by (auto simp: idle_at_def HardwareModuleTransitionGuard_def)
  have cancel: "CancelPendingRequests t = (Inr (), t)"
    using t(2) by (simp add: CancelPendingRequests_def rt_modify_def idle_at_def)
  obtain msg w where call: "module_call (m_activate M) t = (Inr (OkStatus, msg), t\<lparr>module := w\<rparr>)" "update_time t \<le> clk w"
    using call_succeeds[OF M, of "m_activate M" t] t(2) by (auto simp: idle_at_def)
  obtain u where "SetStateDirectly M HwmActivated [] False (t\<lparr>module := w\<rparr>) = (Inr True, u)" "idle_at clk HwmActivated u"
    using set_allowed[OF M, of "t\<lparr>module := w\<rparr>" HwmActivated "[]"] t(2) call(2)
    by (auto simp: idle_at_def HardwareModuleTransitionGuard_def)
  then show ?thesis using t(1) cancel call(1)
    by (auto simp: OnActivate_def begin_activate_def end_activate_def rt_bind_def rt_modify_def rt_return_def idle_at_def handler_ok_def)
qed

text \<open>A request that waits in the queue, and what becomes of it.\<close>

definition waiting_at :: "('w \<Rightarrow> int) \<Rightarrow> state_code \<Rightarrow> state_code \<Rightarrow> nat \<Rightarrow> 'w handler \<Rightarrow> bool" where
  "waiting_at clk code to i s \<longleftrightarrow> handler_ok s \<and> rt_code s = code \<and> update_time s \<le> clk (module s) \<and> \<not> reject_new_requests s \<and>
     (\<exists>r. request_queue s = [r] \<and> req_from r = code \<and> req_to r = to \<and> req_id r = i \<and> update_time s \<le> req_timestamp r)"

lemma request_succeeds:
  assumes M: "obliging M clk" and s: "idle_at clk code s" and allowed: "HardwareModuleTransitionGuard code to = kAllowed"
  shows "\<exists>i t. request_state_change M code to [] s = (Inr (Some i), t) \<and> waiting_at clk code to i t"
proof -
  obtain now w where now: "m_now M (module s) = (now, w)" by fastforce
  have "fst (m_now M (module s)) = clk (module s) \<and> clk (module s) \<le> clk (snd (m_now M (module s)))"
    using M by (simp add: obliging_def)
  then have "update_time s \<le> now" "update_time s \<le> clk w" using now s by (auto simp: idle_at_def)
  then show ?thesis using now s allowed
    by (auto simp: request_state_change_def rt_defs module_call_def idle_at_def waiting_at_def handler_ok_def kRequestQueueCapacity_def)
qed

lemma cycle_start_succeeds:
  assumes M: "obliging M clk" and s: "waiting_at clk code to i s"
    and allowed: "HardwareModuleTransitionGuard code to = kAllowed" "code \<noteq> to" "code \<noteq> HwmMotionEnabled"
  shows "\<exists>t. start_of_cycle M s = (Inr (), t) \<and> idle_at clk to t \<and> answers t i = Some OkStatus"
proof -
  obtain r where r: "request_queue s = [r]" "req_from r = code" "req_to r = to" "req_id r = i" "update_time s \<le> req_timestamp r"
    using s by (auto simp: waiting_at_def)
  have code: "rt_code s = code" "handler_ok s" using s by (simp_all add: waiting_at_def)
  obtain u where u: "SetStateDirectly M to (req_message r) False (s\<lparr>previous_code := code, request_queue := []\<rparr>) = (Inr True, u)"
    "idle_at clk to u" "previous_code u = code"
    using set_allowed[OF M, of "s\<lparr>previous_code := code, request_queue := []\<rparr>" to "req_message r"] s allowed
    by (auto simp: idle_at_def waiting_at_def)
  let ?u = "u\<lparr>answers := (answers u)(i := Some OkStatus)\<rparr>"
  have "ProcessNextPendingRequest M s = (Inr (), ?u)"
    using Process_fresh[OF r(1)] r u(1) code by simp
  moreover have idle: "idle_at clk to ?u" using u(2) by (simp add: idle_at_def)
  moreover obtain msg w where "module_call (m_enabled M) ?u = (Inr (OkStatus, msg), ?u\<lparr>module := w\<rparr>)" "update_time ?u \<le> clk w"
    using call_succeeds[OF M, of "m_enabled M" ?u] idle by (auto simp: idle_at_def)
  ultimately show ?thesis using u(3)
    by (auto simp: start_of_cycle_def rt_bind_def rt_gets_def CheckAndTriggerEnabledTransitionHook_def rt_when_def
      rt_return_def idle_at_def)
qed

lemma cycle_succeeds:
  assumes M: "obliging M clk" and s: "waiting_at clk code to i s"
    and allowed: "HardwareModuleTransitionGuard code to = kAllowed" "code \<noteq> to" "code \<noteq> HwmMotionEnabled"
    and reads: "reads M clk"
  shows "\<exists>t. OnReadStatus M s = (Inr (), t) \<and> idle_at clk to t \<and> answers t i = Some OkStatus"
proof -
  obtain t where t: "start_of_cycle M s = (Inr (), t)" "idle_at clk to t" "answers t i = Some OkStatus"
    using cycle_start_succeeds[OF M s allowed] by blast
  obtain st msg w where f: "m_read_status M (module t) = ((st, msg), w)" by (metis prod_cases3 surj_pair)
  have "st = OkStatus" "clk (module t) \<le> clk w"
    using spec[OF reads[unfolded reads_def], of "module t"] f by simp_all
  then have read: "module_call (m_read_status M) t = (Inr (OkStatus, msg), t\<lparr>module := w\<rparr>)" "update_time t \<le> clk w"
    using f t(2) by (auto simp: module_call_def idle_at_def)
  obtain v where v: "m_violation M w = (None, v)" "clk w \<le> clk v"
    using M by (metis obliging_def prod.collapse)
  have "OnReadStatus M s = (Inr (), t\<lparr>module := v\<rparr>)"
    using t(1) read(1) v(1)
    by (simp add: OnReadStatus_start rt_bind_def rt_gets_def rt_when_def rt_return_def check_violations_def)
      (simp add: module_call_def rt_return_def)
  then show ?thesis using t(2,3) read(2) v(2) by (auto simp: idle_at_def)
qed

text \<open>The way up.\<close>

lemma fresh_idle: "idle_at clk HwmDeactivated (fresh_handler w (clk w))"
  by (simp add: idle_at_def fresh_handler_def handler_ok_def BuildHardwareModuleState_def mk_AsyncBuffer_def
      ab_valid_def async_defs ab_fetch_def AB_GetActiveBuffer_def)

lemma guard_enabling: "HardwareModuleTransitionGuard HwmMotionEnabling HwmMotionEnabled = kAllowed"
  by (simp add: HardwareModuleTransitionGuard_def)

lemma reaches_activated:
  assumes M: "obliging M clk"
  shows "\<exists>s. runtime_reachable M w (s, at_rest) \<and> idle_at clk HwmActivated s"
proof -
  obtain s where s: "OnPrepare M (fresh_handler w (clk w)) = (Inr (), s)" "idle_at clk HwmPrepared s"
    using prepare_succeeds[OF M fresh_idle] by blast
  obtain t where t: "OnActivate M s = (Inr (), t)" "idle_at clk HwmActivated t" using activate_succeeds[OF M s(2)] by blast
  have "\<not> prepare_deactivates (rt_code (fresh_handler w (clk w)))" by (simp add: fresh_handler_def prepare_deactivates_def)
  from reach_activate[OF reach_prepare[OF fresh_reachable this s(1)] t(1)] t(2) show ?thesis by blast
qed

lemma reaches_request:
  assumes M: "obliging M clk"
  shows "\<exists>s i. runtime_reachable M w (s, in_action (Act_entering A_EnableMotion i)) \<and> waiting_at clk HwmActivated HwmMotionEnabling i s"
proof -
  obtain s where s: "runtime_reachable M w (s, at_rest)" "idle_at clk HwmActivated s" using reaches_activated[OF M] by blast
  obtain i t where t: "request_state_change M HwmActivated HwmMotionEnabling [] s = (Inr (Some i), t)"
    "waiting_at clk HwmActivated HwmMotionEnabling i t"
    using request_succeeds[OF M s(2), of HwmMotionEnabling] by (auto simp: HardwareModuleTransitionGuard_def)
  have "action_begin M A_EnableMotion (rt_code s) s = (Inr (Some i), t)"
    using s(2) t(1) by (simp add: action_begin_def idle_at_def)
  from reach_action[OF reach_action[OF s(1)[folded in_action_simps(3)] action_step.read_code] action_step.begin_action[OF this]] t(2)
  show ?thesis by auto
qed

lemma reaches_enabled:
  assumes M: "obliging M clk" and reads: "reads M clk"
  shows "\<exists>s. runtime_reachable M w (s, at_rest) \<and> idle_at clk HwmMotionEnabled s"
proof -
  obtain s i where s: "runtime_reachable M w (s, in_action (Act_entering A_EnableMotion i))" "waiting_at clk HwmActivated HwmMotionEnabling i s"
    using reaches_request[OF M] by blast
  obtain t where t: "OnReadStatus M s = (Inr (), t)" "idle_at clk HwmMotionEnabling t" "answers t i = Some OkStatus"
    using cycle_succeeds[OF M s(2) _ _ _ reads] by (auto simp: HardwareModuleTransitionGuard_def)
  note calling = reach_action[OF runtime_reachable.step[OF s(1) runtime_step.read_status[OF t(1)]] action_step.entered[OF t(3)]]
  obtain msg w' where call: "module_call (m_enable_motion M) t = (Inr (OkStatus, msg), t\<lparr>module := w'\<rparr>)" "update_time t \<le> clk w'"
    using call_succeeds[OF M, of "m_enable_motion M" t] t(2) by (auto simp: idle_at_def)
  have "action_call M A_EnableMotion t = (Inr (OkStatus, msg), t\<lparr>module := w'\<rparr>)" using call(1) by (simp add: action_call_def)
  note called = reach_action[OF calling action_step.call[OF this]]
  have "idle_at clk HwmMotionEnabling (t\<lparr>module := w'\<rparr>)" using t(2) call(2) by (simp add: idle_at_def)
  then obtain k u where u: "request_state_change M HwmMotionEnabling HwmMotionEnabled [] (t\<lparr>module := w'\<rparr>) = (Inr (Some k), u)"
    "waiting_at clk HwmMotionEnabling HwmMotionEnabled k u"
    using request_succeeds[OF M _ guard_enabling] by blast
  have "action_end M A_EnableMotion (OkStatus, msg) (t\<lparr>module := w'\<rparr>) = (Inr (Some k), u)" using u(1) by (simp add: action_end_def)
  note leaving = reach_action[OF called action_step.end_request[OF this]]
  obtain v where v: "OnReadStatus M u = (Inr (), v)" "idle_at clk HwmMotionEnabled v" "answers v k = Some OkStatus"
    using cycle_succeeds[OF M u(2) _ _ _ reads] by (auto simp: HardwareModuleTransitionGuard_def)
  have "runtime_reachable M w (v, in_action (Act_leaving A_EnableMotion k))"
    using runtime_reachable.step[OF leaving] runtime_step.read_status[OF v(1)] by auto
  from reach_action[OF this action_step.left] v show ?thesis by auto
qed

lemma working_obliging: "obliging working_module id" "reads working_module id" "obliging broken_module id"
  by (auto simp: obliging_def reads_def working_module_def broken_module_def Let_def)

lemma logged_obliging: "obliging (logged working_module) fst" "reads (logged working_module) fst"
  by (auto simp: obliging_def reads_def logged_def with_log_def working_module_def broken_module_def Let_def)

section \<open>Properties\<close>



text \<open>In every reachable state of the runtime the state that ICON reads from shared memory and the state that
  other threads of the process read agree with the internal one, and no callback crashes.\<close>

theorem runtime_state_agrees:
  assumes "runtime_reachable M w c"
  shows "shm_code (shm_state (fst c)) = rt_code (fst c) \<and> shm_code (fst (ab_fetch (state_buffer (fst c)))) = rt_code (fst c) \<and>
    so_ok (fst (OnReadStatus M (fst c))) \<and> so_ok (fst (OnApplyCommand M (fst c))) \<and> so_ok (fst (OnDeactivate M (fst c))) \<and>
    so_ok (fst (OnActivate M (fst c))) \<and> so_ok (fst (OnPrepare M (fst c)))"
proof -
  have ok: "handler_ok (fst c)"
    by (rule ok.keeps_reachable[OF assms]) (auto dest: init_handler_ok)
  have no_crash: "so_ok (fst (m (fst c)))" if "rt_safe handler_ok m" for m :: "('a handler, unit) rt"
  proof (cases "m (fst c)")
    case (Pair r t)
    then show ?thesis using rt_specD_Inl[OF that ok] by (cases r) auto
  qed
  show ?thesis
    using ok no_crash[OF ok.keeps_OnReadStatus] no_crash[OF ok.keeps_OnApplyCommand] no_crash[OF ok.keeps_OnDeactivate]
      no_crash[OF ok.keeps_OnActivate] no_crash[OF ok.keeps_OnPrepare] by (simp add: handler_ok_def)
qed

theorem runtime_state_agrees_witness:
  "\<exists>s. runtime_reachable working_module 0 (s, at_rest) \<and> rt_code s = HwmMotionEnabled \<and>
    shm_code (shm_state s) = HwmMotionEnabled \<and> so_ok (fst (OnDeactivate working_module s))"
proof -
  obtain s where s: "runtime_reachable working_module 0 (s, at_rest)" "idle_at id HwmMotionEnabled s"
    using reaches_enabled[OF working_obliging(1,2)] by blast
  from runtime_state_agrees[OF s(1)] s show ?thesis by (auto simp: idle_at_def)
qed

text \<open>C23 (safety). The calls that tell a module that it is enabled and that it is disabled alternate, beginning with the first, and the
  module is motion-enabled exactly while the last of them said so.\<close>

theorem enabled_and_disabled_alternate:
  assumes "runtime_reachable (logged M) (w, []) c"
  shows "alternating (call_log (fst c)) \<and> (rt_code (fst c) = HwmMotionEnabled \<longleftrightarrow> odd (length (call_log (fst c))))"
proof -
  have "hooks_ok (fst c)"
  proof (rule hooks.keeps_reachable[OF assms])
    fix t0 s
    assume "mk_CallbackHandler (logged M) (fresh_handler (w, []) t0) = (Inr (), s)"
    from init_handler_ok[OF this] show "hooks_ok s" by (simp add: hooks_ok_def call_log_def alternating_def)
  qed
  then show ?thesis by (simp add: hooks_ok_def)
qed

theorem enabled_and_disabled_alternate_witness:
  "\<exists>s. runtime_reachable (logged working_module) (0, []) (s, at_rest) \<and> rt_code s = HwmMotionEnabled \<and>
    alternating (call_log s) \<and> odd (length (call_log s))"
proof -
  obtain s where s: "runtime_reachable (logged working_module) (0, []) (s, at_rest)" "idle_at fst HwmMotionEnabled s"
    using reaches_enabled[OF logged_obliging] by blast
  from enabled_and_disabled_alternate[OF s(1)] s show ?thesis by (auto simp: idle_at_def)
qed

text \<open>C26 (liveness). Every request in the queue is answered once the main loop has run as many cycles as there are requests,
  whatever the module does in them; so the action that waits for the answer goes on.\<close>

theorem requests_are_answered:
  assumes "runtime_reachable M w c" "length (request_queue (fst c)) \<le> n"
  shows "\<exists>t. read_cycles M n (fst c) = (Inr (), t) \<and> request_queue t = [] \<and>
    (\<forall>r \<in> set (request_queue (fst c)). answers t (req_id r) \<noteq> None)"
proof -
  let ?rs = "request_queue (fst c)"
  have "handler_ok (fst c)"
    by (rule ok.keeps_reachable[OF assms(1)]) (auto dest: init_handler_ok)
  then have start: "served ?rs n (fst c)" using assms(2) by (simp add: served_def)
  obtain r t where run: "read_cycles M n (fst c) = (r, t)" by fastforce
  have spec: "rt_spec (served ?rs n) (read_cycles M n) (\<lambda>_. served ?rs 0) (\<lambda>_ _. False)"
    using served_cycles[where rs = ?rs and n = n and M = M and xs = "[0..<n]"] by (simp add: read_cycles_def)
  have "r = Inr ()" using rt_specD_Inl[OF spec start] run by (cases r) auto
  with rt_specD_Inr[OF spec start] run show ?thesis by (auto simp: served_def)
qed

theorem requests_are_answered_witness:
  "\<exists>s i t. runtime_reachable broken_module 0 (s, in_action (Act_entering A_EnableMotion i)) \<and> read_cycles broken_module 1 s = (Inr (), t) \<and>
    answers t i \<noteq> None"
proof -
  obtain s i where s: "runtime_reachable broken_module 0 (s, in_action (Act_entering A_EnableMotion i))"
    "waiting_at id HwmActivated HwmMotionEnabling i s"
    using reaches_request[OF working_obliging(3)] by blast
  then have "length (request_queue s) \<le> 1" "i \<in> req_id ` set (request_queue s)" by (auto simp: waiting_at_def)
  with requests_are_answered[OF s(1), of 1] s(1) show ?thesis by fastforce
qed

text \<open>C25 (error). If the module cannot read its status while it is active, the runtime is faulted, fatally if the module aborts,
  and the requests that wait are cancelled. The reason that ICON reads is the message of that error, as far as it fits; only a violation of
  the real-time rules in the same call may replace it, and not if the fault is fatal.\<close>

theorem read_error_faults:
  assumes "runtime_reachable M w c" "start_of_cycle M (fst c) = (Inr (), s)"
    and "rt_code s \<in> {HwmActivated, HwmMotionEnabling, HwmMotionEnabled, HwmMotionDisabling}"
    and "fst (m_read_status M (module s)) = (Error e, msg)"
  shows "\<exists>t. OnReadStatus M (fst c) = (Inr (), t) \<and> rt_code t = fault_state (Error e) \<and> request_queue t = [] \<and>
    (\<forall>r \<in> set (request_queue s). answers t (req_id r) = Some (Error Cancelled)) \<and>
    (GetMessage (shm_state t) = cut_message msg \<or>
     e \<noteq> Aborted \<and> (\<exists>v violation. fst (m_violation M v) = Some violation \<and> GetMessage (shm_state t) = cut_message violation))"
proof -
  have ok: "handler_ok (fst c)"
    by (rule ok.keeps_reachable[OF assms(1)]) (auto dest: init_handler_ok)
  have s: "handler_ok s" using rt_specD_Inr[OF ok.keeps_start ok assms(2)] .
  obtain w1 where read: "module_call (m_read_status M) s = (Inr (Error e, msg), s\<lparr>module := w1\<rparr>)"
    using assms(4) by (cases "m_read_status M (module s)") (auto simp: module_call_def)
  let ?s = "s\<lparr>module := w1\<rparr>"
  obtain t where t: "set_fault M (fault_state (Error e)) msg ?s = (Inr (), t)" "handler_ok t"
    "rt_code t = fault_state (Error e)" "request_queue t = []"
    "\<forall>r \<in> set (request_queue s). answers t (req_id r) = Some (Error Cancelled)" "GetMessage (shm_state t) = cut_message msg"
    using set_fault_run[of ?s M "fault_state (Error e)" msg] s faults_from_active[OF assms(3), of e]
    by (auto simp: set_applies_def disabling_fails_def)
  have faulted: "rt_code t \<in> {HwmFaulted, HwmFatallyFaulted}" using t(3) by (simp add: fault_state_def)
  obtain u where u: "check_violations M t = (Inr (), u)" "rt_code u = rt_code t" "request_queue u = request_queue t"
    "answers u = answers t"
    "case fst (m_violation M (module t)) of
       Some v \<Rightarrow> GetMessage (shm_state u) = (if rt_code t = HwmFaulted then cut_message v else GetMessage (shm_state t)) \<or>
                 GetMessage (shm_state u) = GetMessage (shm_state t)
     | None \<Rightarrow> GetMessage (shm_state u) = GetMessage (shm_state t)"
    using violations_when_faulted[OF t(2) faulted] by blast
  have "OnReadStatus M (fst c) = (Inr (), u)"
    using t(1) u(1) assms(3) read
    by (auto simp: OnReadStatus_start rt_bind_run[of "start_of_cycle M" "fst c", OF assms(2)]
      rt_bind_run[of "module_call (m_read_status M)" s, OF read] rt_bind_gets rt_when_def
      rt_bind_run[of "set_fault M (fault_state (Error e)) msg" ?s, OF t(1)])
  moreover have "GetMessage (shm_state u) = cut_message msg \<or> e \<noteq> Aborted \<and>
    (\<exists>v violation. fst (m_violation M v) = Some violation \<and> GetMessage (shm_state u) = cut_message violation)"
  proof (cases "fst (m_violation M (module t))")
    case None
    then show ?thesis using u(5) t(6) by simp
  next
    case (Some v)
    then show ?thesis using u(5) t(3,6) by (cases "e = Aborted") (auto simp: fault_state_def)
  qed
  ultimately show ?thesis using t(3,4,5) u(2-4) by (intro exI[of _ u]) simp
qed

theorem read_error_faults_witness:
  "\<exists>s pc t. runtime_reachable broken_module 0 (s, pc) \<and> rt_code s = HwmActivated \<and> OnReadStatus broken_module s = (Inr (), t) \<and>
    rt_code t = HwmFatallyFaulted \<and> GetMessage (shm_state t) = ''no signal''"
proof -
  obtain s i where s: "runtime_reachable broken_module 0 (s, in_action (Act_entering A_EnableMotion i))"
    "waiting_at id HwmActivated HwmMotionEnabling i s"
    using reaches_request[OF working_obliging(3)] by blast
  obtain u where u: "start_of_cycle broken_module s = (Inr (), u)" "idle_at id HwmMotionEnabling u"
    using cycle_start_succeeds[OF working_obliging(3) s(2)] by (auto simp: HardwareModuleTransitionGuard_def)
  have read: "fst (m_read_status broken_module (module u)) = (Error Aborted, ''no signal'')" by (simp add: broken_module_def Let_def)
  have active: "rt_code u \<in> {HwmActivated, HwmMotionEnabling, HwmMotionEnabled, HwmMotionDisabling}"
    using u(2) by (simp add: idle_at_def)
  have cut: "cut_message ''no signal'' = ''no signal''" by (simp add: cut_message_def kMaxMessageLength_def)
  obtain t where "OnReadStatus broken_module s = (Inr (), t)" "rt_code t = HwmFatallyFaulted" "GetMessage (shm_state t) = ''no signal''"
    using read_error_faults[OF s(1) _ active read] u(1) by (auto simp: fault_state_def cut)
  with s show ?thesis by (auto simp: waiting_at_def)
qed

text \<open>A command reaches the module only while it is motion-enabled: in every other state the module's function does
  not matter, and apart from the cycle after motion was disabled the call is a fault of an active module.\<close>

theorem command_only_when_enabled:
  assumes "runtime_reachable M w c" "rt_code (fst c) \<noteq> HwmMotionEnabled"
  shows "OnApplyCommand (M\<lparr>m_apply_command := f\<rparr>) (fst c) = OnApplyCommand M (fst c) \<and>
    (\<exists>t. OnApplyCommand M (fst c) = (Inr (), t) \<and>
       (if rt_code (fst c) = HwmMotionDisabling then t = fst c
        else rt_code (fst c) \<in> {HwmActivated, HwmMotionEnabling} \<longrightarrow> rt_code t = HwmFaulted \<and> request_queue t = []))"
proof -
  let ?s = "fst c"
  have ok: "handler_ok ?s"
    by (rule ok.keeps_reachable[OF assms(1)]) (auto dest: init_handler_ok)
  have same: "OnApplyCommand (M\<lparr>m_apply_command := f\<rparr>) ?s = OnApplyCommand M ?s"
    using assms(2) by (simp add: OnApplyCommand_def rt_bind_gets set_fault_other)
  obtain t where t: "set_fault M HwmFaulted not_enabled_message ?s = (Inr (), t)"
    "rt_code t = (if set_applies ?s HwmFaulted not_enabled_message then HwmFaulted else rt_code ?s)"
    "set_applies ?s HwmFaulted not_enabled_message \<and> rt_code ?s \<noteq> HwmFaulted \<longrightarrow> request_queue t = []"
    using set_fault_run[OF ok, of M HwmFaulted not_enabled_message] by (auto simp: disabling_fails_def split: if_splits)
  have "rt_code ?s \<in> {HwmActivated, HwmMotionEnabling} \<Longrightarrow> set_applies ?s HwmFaulted not_enabled_message"
    by (auto simp: set_applies_def HardwareModuleTransitionGuard_def)
  with t assms(2) same show ?thesis
    by (cases "rt_code ?s = HwmMotionDisabling") (auto simp: OnApplyCommand_def rt_bind_gets rt_return_def)
qed

theorem command_only_when_enabled_witness:
  "\<exists>s t. runtime_reachable working_module 0 (s, at_rest) \<and> OnApplyCommand working_module s = (Inr (), t) \<and>
    rt_code s = HwmActivated \<and> rt_code t = HwmFaulted"
proof -
  obtain s where s: "runtime_reachable working_module 0 (s, at_rest)" "idle_at id HwmActivated s"
    using reaches_activated[OF working_obliging(1)] by blast
  from command_only_when_enabled[OF s(1), of "m_apply_command working_module"] s show ?thesis by (fastforce simp: idle_at_def)
qed

section \<open>Surprises\<close>

text \<open>While the module is prepared or activated, a call to deactivate it is refused.\<close>

lemma deactivate_refused:
  "rt_code s \<in> {HwmPreparing, HwmActivating} \<Longrightarrow> OnDeactivate M s = (Inr (), s)"
  by (auto simp: OnDeactivate_def begin_deactivate_def SetStateDirectly_def rt_bind_gets HardwareModuleTransitionGuard_def)
    (auto simp: rt_defs)

text \<open>The final zero of a message of 256 bytes is written behind the array. The runtime never sends one that long.\<close>

lemma SetState_overruns: "length (shm_message st) \<le> length message \<Longrightarrow> SetState code message st = Inl Undefined"
  by (simp add: SetState_def Let_def)

text \<open>A request to disable motion is answered with OK although \<^verbatim>\<open>Disabled\<close> fails and the state becomes faulted.\<close>

lemma failed_disable_answered_ok:
  "map_prod so_ok (\<lambda>s. (rt_code s, answers s 0))
     (ProcessNextPendingRequest broken_module (at_state HwmMotionEnabled [\<lparr>req_from = HwmMotionEnabled,
       req_to = HwmMotionDisabling, req_message = [], req_timestamp = 1, req_id = 0\<rparr>]))
   = (True, HwmFaulted, Some OkStatus)"
  by code_simp

text \<open>\<^verbatim>\<open>Enabled\<close> is called in the cycle in which the request makes the module motion-enabled.\<close>

lemma enabled_in_same_cycle:
  "map_prod so_ok (\<lambda>s. (rt_code s, module s, answers s 0))
     (start_of_cycle (broken_module\<lparr>m_enabled := (\<lambda>w. ((Error Internal, []), w + 100))\<rparr>)
       (at_state HwmMotionEnabling [\<lparr>req_from = HwmMotionEnabling, req_to = HwmMotionEnabled, req_message = [],
         req_timestamp = 1, req_id = 0\<rparr>]))
   = (True, HwmFaulted, 102, Some OkStatus)"
  by code_simp

end
