(* ===== verification/Command_Ledger.thy ===== *)
theory Command_Ledger
  imports Control_Cycle "HOL-Library.Multiset"
begin

text \<open>
  The calls of clients to the bridge for operational state commands, counted over a whole cycle of the control manager
  (\<^verbatim>\<open>control/realtime_control_manager.cc\<close>): a call waits in the queue, or it is the current command, or it has
  been answered. No phase of a cycle loses one or answers one twice.
\<close>

section \<open>The ledger\<close>

definition command_ledger :: "('w, 'ps) control_sys \<Rightarrow> op_command multiset" where
  "command_ledger c = mset (map fst (command_results c)) +
     (case current_command c of None \<Rightarrow> {#} | Some h \<Rightarrow> if from_client h then {#call_args (ch_handle h)#} else {#}) +
     mset (map call_args (command_calls c))"

definition ledger_is :: "op_command multiset \<Rightarrow> ('w, 'ps) control_sys \<Rightarrow> bool" where
  "ledger_is X c \<longleftrightarrow> command_ledger c = X"

named_theorems ledger_rules \<open>operations that keep the ledger\<close>

lemma ledger_frame:
  "command_results d = command_results c \<Longrightarrow> current_command d = current_command c \<Longrightarrow> command_calls d = command_calls c \<Longrightarrow>
   ledger_is X d = ledger_is X c"
  by (simp add: ledger_is_def command_ledger_def)

lemma ledger_objects [ledger_rules]:
  "rt_inv (ledger_is X) (on_pm m)" "rt_inv (ledger_is X) (on_rsm n)" "rt_inv (ledger_is X) (on_session i k)"
  by (auto simp: rt_spec_def on_pm_def on_rsm_def on_session_def ledger_is_def command_ledger_def split: prod.splits sum.splits)

lemma ledger_modify [ledger_rules]:
  "(\<And>c. command_results (g c) = command_results c \<and> current_command (g c) = current_command c \<and> command_calls (g c) = command_calls c) \<Longrightarrow>
   rt_inv (ledger_is X) (rt_modify g)"
  by (rule rt_spec_modify) (metis ledger_frame)

lemma ledger_finally:
  "rt_inv (ledger_is X) m \<Longrightarrow>
   (\<And>c. command_results (g c) = command_results c \<and> current_command (g c) = current_command c \<and> command_calls (g c) = command_calls c) \<Longrightarrow>
   rt_inv (ledger_is X) (rt_finally m g)"
  by (rule rt_inv_finally) (assumption, metis ledger_frame)

lemma ledger_TryLock [ledger_rules]: "rt_inv (ledger_is X) m \<Longrightarrow> rt_inv (ledger_is X) (TryLockAndExecute h m)"
  unfolding TryLockAndExecute_def Let_def by (intro rt_rules)

lemma ledger_ruleI: "(\<And>c r d. m c = (r, d) \<Longrightarrow> command_ledger d = command_ledger c) \<Longrightarrow> rt_inv (ledger_is X) m"
  by (rule rt_specI) (simp_all add: ledger_is_def)

lemma ledger_run:
  fixes c d :: "('w, 'ps) control_sys"
  assumes "\<And>X. rt_inv (ledger_is X) m" "m c = (r, d)"
  shows "command_ledger d = command_ledger c"
  using rt_invD[OF assms(1), of "command_ledger c" c] assms(2) by (simp add: ledger_is_def)

section \<open>The current command\<close>

lemma ledger_take: "rt_inv (ledger_is X) take_command"
proof -
  have auto_enable: "command_ledger (c\<lparr>current_command := Some (auto_command cmd), command_ever_set := True\<rparr>) = command_ledger c"
    if "current_command c = None" for c :: "('a, 'b) control_sys" and cmd
    using that by (simp add: command_ledger_def auto_command_def)
  have next_call: "command_ledger (case (current_command c, command_calls c) of
           (None, h # hs) \<Rightarrow> c\<lparr>current_command :=
              Some \<lparr>ch_handle = h, ch_command_id = None, from_client = True\<rparr>,
              command_calls := hs, command_ever_set := True\<rparr>
         | _ \<Rightarrow> c) = command_ledger c" for c :: "('a, 'b) control_sys"
    by (cases "current_command c"; cases "command_calls c") (simp_all add: command_ledger_def)
  then have next_call': "command_ledger (case current_command c of
           None \<Rightarrow> (case command_calls c of [] \<Rightarrow> c | h # hs \<Rightarrow> c\<lparr>current_command :=
              Some \<lparr>ch_handle = h, ch_command_id = None, from_client = True\<rparr>,
              command_calls := hs, command_ever_set := True\<rparr>)
         | Some _ \<Rightarrow> c) = command_ledger c" for c :: "('a, 'b) control_sys"
    by (cases "current_command c"; cases "command_calls c") (simp_all add: command_ledger_def)
  have enable: "IsExpectedToAutomaticallyEnable c \<Longrightarrow> current_command c = None" for c :: "('a, 'b) control_sys"
    by (simp add: IsExpectedToAutomaticallyEnable_def split: if_splits)
  have disable: "IsExpectedToAutomaticallyDisable c \<Longrightarrow> current_command c = None" for c :: "('a, 'b) control_sys"
    by (simp add: IsExpectedToAutomaticallyDisable_def split: if_splits)
  have "\<exists>d. take_command c = (Inr (), d) \<and> command_ledger d = command_ledger c" for c :: "('a, 'b) control_sys"
    by (cases "IsExpectedToAutomaticallyEnable c")
      (auto simp: take_command_def rt_bind_gets rt_when_def rt_bind_modify rt_modify_def rt_return_def next_call' auto_enable dest: enable disable)
  then show ?thesis by (intro ledger_ruleI) (metis prod.inject)
qed

text \<open>A command whose first callback is done has its return value, and then it is over.\<close>

lemma begin_command_frame:
  assumes "begin_command cmd c = (r, d)"
  shows "command_results d = command_results c \<and> command_calls d = command_calls c \<and> current_command d = current_command c"
proof -
  let ?I = "\<lambda>d. command_results d = command_results c \<and> command_calls d = command_calls c \<and> current_command d = current_command c"
  have rsm: "rt_inv ?I (on_rsm (RequestTransition request))" for request
    by (auto simp: rt_spec_def on_rsm_def split: prod.splits sum.splits)
  have "rt_inv ?I (begin_command cmd)" unfolding begin_command_def by (intro rt_rules rsm)
  from rt_invD[OF this, of c] assms show ?thesis by simp
qed

lemma ledger_start:
  fixes c d :: "('w, 'ps) control_sys"
  assumes "start_command h c = (r, d)" "current_command c = Some h"
  shows "command_ledger d = command_ledger c"
proof -
  obtain p u where p: "TryLockAndExecute (ch_handle h) (begin_command (call_args (ch_handle h))) c = (p, u)" by fastforce
  have u: "command_results u = command_results c" "command_calls u = command_calls c" "current_command u = Some h"
    using p assms(2) begin_command_frame[of "call_args (ch_handle h)" c]
    by (auto simp: TryLockAndExecute_def Let_def rt_bind_def rt_return_def split: if_splits prod.splits sum.splits)
  show ?thesis
  proof (cases p)
    case (Inl e)
    then show ?thesis using assms(1,2) p u by (auto simp: start_command_def rt_bind_def command_ledger_def)
  next
    case (Inr hx)
    obtain h' x where hx: "hx = (h', x)" by fastforce
    have h': "call_args h' = call_args (ch_handle h)" using p Inr hx by (auto simp: TryLock_Inr)
    show ?thesis
    proof (cases x)
      case None
      then show ?thesis using assms(1,2) p u Inr hx h'
        by (auto simp: start_command_def rt_bind_def rt_modify_def rt_return_def command_ledger_def)
    next
      case (Some y)
      obtain res command_id where y: "y = (res, command_id)" by fastforce
      have run: "begin_command (call_args (ch_handle h)) c = (Inr (res, command_id), u)"
        using p Inr hx Some y by (auto simp: TryLock_Inr split: if_splits)
      have fin: "function_finished (fst res) \<longleftrightarrow> command_id = None"
        using begin_command_result[OF run] by (cases command_id) (auto simp: function_finished_def)
      have "d = (if from_client h \<and> function_finished (fst res)
           then u\<lparr>command_results := command_results u @ [(call_args (ch_handle h), case snd res of None \<Rightarrow> OkStatus | Some st \<Rightarrow> st)]\<rparr>
           else u)\<lparr>current_command := (if command_id = None then None else Some (h\<lparr>ch_handle := h', ch_command_id := command_id\<rparr>))\<rparr>"
        using assms(1) p Inr hx Some y
        by (simp add: start_command_def answer_command_def rt_bind_run rt_bind_modify rt_return_def)
      then show ?thesis using fin u assms(2) h' by (cases command_id; cases "from_client h") (simp_all add: command_ledger_def)
    qed
  qed
qed

lemma ledger_continue:
  fixes c d :: "('w, 'ps) control_sys"
  assumes "continue_command h c = (r, d)" "current_command c = Some h"
  shows "command_ledger d = command_ledger c"
proof -
  let ?poll = "poll_command (call_args (ch_handle h)) (ch_command_id h) (state_manager c)"
  have "TryLockAndExecute (ch_handle h) (rt_gets (\<lambda>c. poll_command (call_args (ch_handle h)) (ch_command_id h) (state_manager c))) c =
    (Inr ((ch_handle h)\<lparr>call_attempts := Suc (call_attempts (ch_handle h))\<rparr>,
       if call_lock (ch_handle h) (call_attempts (ch_handle h)) then Some ?poll else None), c)"
    by (simp add: TryLockAndExecute_def Let_def rt_defs)
  then show ?thesis using assms
    by (auto simp: continue_command_def rt_bind_def answer_command_def rt_modify_def command_ledger_def split: if_splits)
qed

lemma ledger_run_command: "rt_inv (ledger_is X) run_command"
proof (rule ledger_ruleI)
  fix c d :: "('w, 'ps) control_sys" and r
  assume run: "run_command c = (r, d)"
  obtain q c1 where take1: "take_command c = (q, c1)" by fastforce
  then have q: "q = Inr ()" and c1: "command_ledger c1 = command_ledger c"
    using take_command_frame[OF take1] ledger_run[OF ledger_take take1] by simp_all
  show "command_ledger d = command_ledger c"
  proof (cases "current_command c1")
    case None
    then show ?thesis using run take1 q c1 by (simp add: run_command_def rt_bind_run rt_bind_gets rt_return_def)
  next
    case (Some h)
    let ?m = "if ch_command_id h = None then start_command h else rt_return True"
    obtain p c2 where m: "?m c1 = (p, c2)" by fastforce
    have c2: "command_ledger c2 = command_ledger c1"
      using m ledger_start[OF _ Some] by (auto simp: rt_return_def split: if_splits)
    have rest: "rt_bind ?m (\<lambda>go_on. if \<not> go_on then rt_return ()
         else rt_bind (rt_gets current_command) (\<lambda>current.
             case current of None \<Rightarrow> rt_return () | Some h \<Rightarrow> continue_command h)) c1 = (r, d)"
      using run take1 q Some by (simp add: run_command_def rt_bind_run rt_bind_gets)
    then have "p = Inr True \<Longrightarrow> current_command c2 = Some k \<Longrightarrow> continue_command k c2 = (r, d)" for k
      by (simp add: rt_bind_def[of ?m] m rt_bind_gets)
    moreover have "(p \<noteq> Inr True \<or> current_command c2 = None) \<Longrightarrow> d = c2"
      using rest by (cases p) (auto simp: rt_bind_def[of ?m] m rt_bind_gets rt_return_def split: if_splits)
    ultimately have "command_ledger d = command_ledger c2"
      using ledger_continue by (cases "p = Inr True"; cases "current_command c2") auto
    then show ?thesis by (simp add: c1 c2)
  qed
qed

section \<open>The whole cycle\<close>

lemma ledger_status: "rt_inv (ledger_is X) (UpdateOperationalStatus E)"
proof -
  have lacks: "rt_inv (ledger_is X) (lacks_hardware E oa ca is)" for oa ca "is"
    by (induction "is") (auto intro!: rt_rules ledger_rules)
  show ?thesis
    unfolding UpdateOperationalStatus_def cancel_session_def Let_def
    by (intro rt_rules ledger_finally ledger_rules lacks) simp_all
qed

lemma ledger_start_session: "rt_inv (ledger_is X) (HandleStartSession E)"
proof -
  have slot: "rt_inv (ledger_is X) (control_slot E is m)" for "is" m
    by (induction "is" arbitrary: m) (auto intro!: rt_rules ledger_rules)
  have create: "rt_inv (ledger_is X) (create_session a i)" for a i
    unfolding create_session_def by (intro rt_rules ledger_rules)
  have start: "rt_inv (ledger_is X) (start_session E a)" for a
    unfolding start_session_def
    by (intro rt_rules create) (auto split: list.split start_slot.split intro!: rt_rules slot create simp del: control_slot.simps)
  show ?thesis unfolding HandleStartSession_def
    by (intro rt_rules ledger_rules start) (auto split: option.split list.split)
qed

lemma ledger_Update: "rt_inv (ledger_is X) (Update E H S t wall n)"
  unfolding Update_def UpdateSafety_def PreUpdateSessions_def HandleSafetyStatus_def preempt_faults_def request_transition_def
    end_all_sessions_def SetSessionManagerErrorCleanupNotification_def HandleOperationalStatus_def UpdateSessions_def
    finish_parts_def Let_def
  by (intro rt_rules ledger_rules ledger_finally ledger_run_command ledger_status ledger_start_session) simp_all

end
