(* ===== verification/Blocking_Call.thy ===== *)
theory Blocking_Call
  imports Hardware_Module_Manager
begin

text \<open>
  \<^verbatim>\<open>HardwareModuleManager::BlockingMultiHardwareModuleCall\<close>
  (\<^verbatim>\<open>intrinsic/icon/hal/hardware_module_manager.cc\<close>): the call that prepares all hardware modules and waits
  until they are through. It polls its requests in a loop that ends with the requests, with the deadline, or with the first
  module that does not react. The loop has no bound of its own: whether it ends depends on the clock, so that it is a partial
  function; that it returns is a theorem.
\<close>

section \<open>Operations\<close>

text \<open>Sleeping, and the order in which a hash map with the given keys is iterated.\<close>

record 'w wait_env =
  sleep_for :: "int \<Rightarrow> 'w \<Rightarrow> 'w"
  iteration_order :: "nat list \<Rightarrow> nat list"

text \<open>What one call is about: the callback, the deadline, and the states it goes through; times are nanoseconds.\<close>

record blocking_call =
  bc_kind :: trigger_kind
  bc_deadline :: int
  bc_start_time :: int
  bc_transient_state :: state_code
  bc_final_state :: "state_code option"

type_synonym pending_call = "hwm_client async_request \<times> nat"
type_synonym call_statuses = "nat \<Rightarrow> rt_status option"

definition kActionStartTimeout :: int where "kActionStartTimeout = 10000000000"
definition kPollPeriod :: int where "kPollPeriod = 10000000"

definition combine_statuses :: "'w wait_env \<Rightarrow> nat \<Rightarrow> call_statuses \<Rightarrow> rt_status" where
  "combine_statuses W n statuses =
     (case find (\<lambda>i. statuses i \<noteq> None) (iteration_order W (filter (\<lambda>i. statuses i \<noteq> None) [0..<n])) of
        None \<Rightarrow> Error Unknown
      | Some i \<Rightarrow> (case statuses i of None \<Rightarrow> Error Unknown | Some st \<Rightarrow> st))"

definition has_status :: "nat \<Rightarrow> call_statuses \<Rightarrow> bool" where
  "has_status n statuses \<longleftrightarrow> list_ex (\<lambda>i. statuses i \<noteq> None) [0..<n]"

definition add_status :: "nat \<Rightarrow> rt_status \<Rightarrow> call_statuses \<Rightarrow> call_statuses" where
  "add_status i st statuses =
     statuses(i \<mapsto> (case statuses i of None \<Rightarrow> st | Some old \<Rightarrow> if old = OkStatus then st else old))"

text \<open>One round over the requests: those that go on, or the return in the middle.\<close>

fun poll_requests ::
  "'w hwm_env \<Rightarrow> 'w wait_env \<Rightarrow> blocking_call \<Rightarrow> nat \<Rightarrow> pending_call list \<Rightarrow> call_statuses \<Rightarrow>
   ('w hwm_sys, pending_call list \<times> call_statuses) rt" where
  "poll_requests E W c n [] statuses = rt_return ([], statuses)"
| "poll_requests E W c n ((r, i) # rs) statuses =
     rt_bind (AsyncRequest_Ready E r) (\<lambda>ready.
     if ready then
       rt_bind (AsyncRequest_WaitUntil E None r) (\<lambda>(status, _).
       rt_bind (rt_check status) (\<lambda>_. poll_requests E W c n rs statuses))
     else
       rt_bind (hw_call (clock_now E)) (\<lambda>t.
       rt_bind
         (if bc_deadline c < t then rt_return (add_status i (Error Aborted) statuses)
          else
            rt_bind (hw_call (hw_state E i)) (\<lambda>(state, _).
            rt_bind (hw_call (clock_now E)) (\<lambda>t.
            if bc_start_time c + kActionStartTimeout < t \<and> state \<noteq> bc_transient_state c \<and> Some state \<noteq> bc_final_state c
            then rt_fail (combine_statuses W n (add_status i (Error Unavailable) statuses))
            else rt_return statuses)))
         (\<lambda>statuses.
       rt_bind (poll_requests E W c n rs statuses) (\<lambda>(rest, statuses).
         rt_return ((r, i) # rest, statuses)))))"

text \<open>The loop. \<open>None\<close>: it never ends.\<close>

partial_function (option) poll_loop ::
  "'w hwm_env \<Rightarrow> 'w wait_env \<Rightarrow> blocking_call \<Rightarrow> nat \<Rightarrow> pending_call list \<Rightarrow> call_statuses \<Rightarrow> 'w hwm_sys \<Rightarrow>
   (call_statuses status_or \<times> 'w hwm_sys) option" where
  "poll_loop E W c n rs statuses s =
     (case clock_now E (hw s) of (t, w) \<Rightarrow>
        let s1 = s\<lparr>hw := w\<rparr> in
        if \<not> t < bc_deadline c \<or> rs = [] then Some (Inr statuses, s1)
        else
          (case poll_requests E W c n rs statuses s1 of
             (Inl e, s2) \<Rightarrow> Some (Inl e, s2)
           | (Inr (rest, statuses'), s2) \<Rightarrow>
               poll_loop E W c n rest statuses' (s2\<lparr>hw := sleep_for W kPollPeriod (hw s2)\<rparr>)))"

declare poll_loop.simps [code]

text \<open>The end: the deadline, then the final state of every module.\<close>

definition check_final :: "'w hwm_env \<Rightarrow> state_code option \<Rightarrow> nat \<Rightarrow> call_statuses \<Rightarrow> ('w hwm_sys, call_statuses) rt" where
  "check_final E final_state i statuses =
     rt_bind (hw_call (hw_state E i)) (\<lambda>(code, _).
       rt_return (if Some code \<noteq> final_state then statuses(i \<mapsto> Error Unavailable) else statuses))"

definition conclude :: "'w hwm_env \<Rightarrow> 'w wait_env \<Rightarrow> blocking_call \<Rightarrow> nat \<Rightarrow> call_statuses \<Rightarrow> ('w hwm_sys, unit) rt" where
  "conclude E W c n statuses =
     (if has_status n statuses then rt_fail (combine_statuses W n statuses)
      else
        rt_bind (hw_call (clock_now E)) (\<lambda>t.
        if bc_deadline c < t then rt_fail (Error DeadlineExceeded)
        else
          rt_bind (if bc_final_state c \<noteq> None then rt_fold [0..<n] (check_final E (bc_final_state c)) (\<lambda>_. None)
                   else rt_return (\<lambda>_. None)) (\<lambda>statuses.
            if has_status n statuses then rt_fail (combine_statuses W n statuses) else rt_return ())))"

text \<open>A request is destroyed on every way out of the function, which clears the flag of its client.\<close>

definition option_finally :: "('s \<Rightarrow> ('a status_or \<times> 's) option) \<Rightarrow> ('s \<Rightarrow> 's) \<Rightarrow> 's \<Rightarrow> ('a status_or \<times> 's) option" where
  "option_finally m g s = map_option (\<lambda>(r, t). (r, g t)) (m s)"

definition release_request :: "hwm_client async_request \<Rightarrow> 'w hwm_sys \<Rightarrow> 'w hwm_sys" where
  "release_request r s = snd (AsyncRequest_destroy r s)"

definition wait_for_calls ::
  "'w hwm_env \<Rightarrow> 'w wait_env \<Rightarrow> blocking_call \<Rightarrow> nat \<Rightarrow> pending_call list \<Rightarrow> call_statuses \<Rightarrow> 'w hwm_sys \<Rightarrow>
   (unit status_or \<times> 'w hwm_sys) option" where
  "wait_for_calls E W c n rs statuses s =
     (if has_status n statuses then Some (Inl (combine_statuses W n statuses), s)
      else
        (case poll_loop E W c n rs statuses s of
           None \<Rightarrow> None
         | Some (Inl e, t) \<Rightarrow> Some (Inl e, t)
         | Some (Inr statuses', t) \<Rightarrow> Some (conclude E W c n statuses' t)))"

definition clear_finished :: "'w hwm_env \<Rightarrow> nat \<Rightarrow> ('w hwm_sys, unit) rt" where
  "clear_finished E i =
     rt_bind (rt_gets (\<lambda>s. async_request (hwms s ! i))) (\<lambda>r.
     rt_bind (AsyncRequest_Ready E r) (\<lambda>ready.
     rt_bind (AsyncRequest_Valid r) (\<lambda>valid.
     rt_when (ready \<and> valid)
       (rt_bind (AsyncRequest_WaitUntil E None r) (\<lambda>(status, r').
        rt_bind (rt_modify (upd_hwm i (\<lambda>d. d\<lparr>async_request := r'\<rparr>))) (\<lambda>_. rt_check status))))))"

fun call_modules ::
  "'w hwm_env \<Rightarrow> 'w wait_env \<Rightarrow> blocking_call \<Rightarrow> nat \<Rightarrow> nat list \<Rightarrow> pending_call list \<Rightarrow> call_statuses \<Rightarrow> 'w hwm_sys \<Rightarrow>
   (unit status_or \<times> 'w hwm_sys) option" where
  "call_modules E W c n [] rs statuses s = wait_for_calls E W c n rs statuses s"
| "call_modules E W c n (i # is) rs statuses s =
     (case clear_finished E i s of
        (Inl e, t) \<Rightarrow> Some (Inl e, t)
      | (Inr _, t) \<Rightarrow>
          (case TriggerAsync E (i, bc_kind c) t of
             (Inr r, u) \<Rightarrow> option_finally (call_modules E W c n is (rs @ [(r, i)]) statuses) (release_request r) u
           | (Inl e, u) \<Rightarrow> call_modules E W c n is rs (statuses(i \<mapsto> Error Aborted)) u))"

definition BlockingMultiHardwareModuleCall ::
  "'w hwm_env \<Rightarrow> 'w wait_env \<Rightarrow> trigger_kind \<Rightarrow> int \<Rightarrow> state_code \<Rightarrow> state_code option \<Rightarrow> 'w hwm_sys \<Rightarrow>
   (unit status_or \<times> 'w hwm_sys) option" where
  "BlockingMultiHardwareModuleCall E W kind deadline transient_state final_state s =
     (case hw_call (clock_now E) s of
        (Inr t, s1) \<Rightarrow>
          call_modules E W \<lparr>bc_kind = kind, bc_deadline = deadline, bc_start_time = t, bc_transient_state = transient_state,
            bc_final_state = final_state\<rparr> (length (hwms s)) [0..<length (hwms s)] [] (\<lambda>_. None) s1
      | (Inl e, s1) \<Rightarrow> Some (Inl e, s1))"

definition Prepare :: "'w hwm_env \<Rightarrow> 'w wait_env \<Rightarrow> int \<Rightarrow> 'w hwm_sys \<Rightarrow> (unit status_or \<times> 'w hwm_sys) option" where
  "Prepare E W deadline =
     BlockingMultiHardwareModuleCall E W T_Prepare deadline HwmPreparing (Some HwmPrepared)"

section \<open>Time\<close>

text \<open>The clock \<open>clk\<close> of the world does not go back, and sleeping takes at least as long as it is asked to.\<close>

definition time_passes :: "'w hwm_env \<Rightarrow> 'w wait_env \<Rightarrow> ('w \<Rightarrow> int) \<Rightarrow> bool" where
  "time_passes E W clk \<longleftrightarrow>
     (\<forall>w. fst (clock_now E w) = clk w \<and> clk w \<le> clk (snd (clock_now E w)) \<and> (\<forall>d. clk w + d \<le> clk (sleep_for W d w)) \<and>
        (\<forall>c. clk w \<le> clk (snd (response_value E c w)) \<and> (\<forall>d. clk w \<le> clk (snd (await_response E c d w))) \<and>
           clk w \<le> clk (snd (try_wait_response E c w)) \<and> clk w \<le> clk (snd (post_request E c w))) \<and>
        (\<forall>i. clk w \<le> clk (snd (hw_state E i w))))"

definition not_before :: "('w \<Rightarrow> int) \<Rightarrow> int \<Rightarrow> 'w hwm_sys \<Rightarrow> bool" where
  "not_before clk t s \<longleftrightarrow> t \<le> clk (hw s)"

lemma not_before_call: "(\<And>w. clk w \<le> clk (snd (f w))) \<Longrightarrow> rt_inv (not_before clk t) (hw_call f)"
  unfolding rt_spec_def hw_call_def not_before_def
  by (auto split: prod.splits) (metis order_trans snd_conv)

lemma not_before_modify: "(\<And>s. hw (g s) = hw s) \<Longrightarrow> rt_inv (not_before clk t) (rt_modify g)"
  by (rule rt_spec_modify) (simp add: not_before_def)

lemma not_before_calls:
  assumes "time_passes E W clk"
  shows "rt_inv (not_before clk t) (hw_call (clock_now E))" "rt_inv (not_before clk t) (hw_call (hw_state E i))"
    "rt_inv (not_before clk t) (hw_call (response_value E c))" "rt_inv (not_before clk t) (hw_call (await_response E c d))"
  by (rule not_before_call; use assms in \<open>simp add: time_passes_def del: split_paired_All\<close>)+

lemma not_before_requests:
  assumes "time_passes E W clk"
  shows "rt_inv (not_before clk t) (AsyncRequest_Valid r)" "rt_inv (not_before clk t) (AsyncRequest_Ready E r)"
    "rt_inv (not_before clk t) (AsyncRequest_WaitUntil E d r)"
  unfolding AsyncRequest_Valid_def AsyncRequest_Ready_def AsyncRequest_WaitUntil_def
  by (intro rt_rules not_before_calls[OF assms] not_before_modify; simp add: set_started_def)+

lemma not_before_poll:
  assumes "time_passes E W clk"
  shows "rt_inv (not_before clk t) (poll_requests E W c n rs statuses)"
proof (induction rs arbitrary: statuses)
  case (Cons p rs)
  obtain r i where "p = (r, i)" by fastforce
  then show ?case using Cons
    by (simp, intro rt_rules not_before_calls[OF assms] not_before_requests[OF assms])
qed (simp add: rt_rules)

text \<open>Every round of the loop takes at least the time it sleeps.\<close>

lemma poll_loop_returns:
  assumes "time_passes E W clk"
  shows "\<exists>r. poll_loop E W c n rs statuses s = Some r"
proof (induction "nat (bc_deadline c - clk (hw s))" arbitrary: rs statuses s rule: less_induct)
  case less
  obtain t w where now: "clock_now E (hw s) = (t, w)" by fastforce
  have t: "t = clk (hw s)" "clk (hw s) \<le> clk w" using assms now by (auto simp: time_passes_def dest: spec[of _ "hw s"])
  show ?case
  proof (cases "t < bc_deadline c \<and> rs \<noteq> []")
    case False
    then show ?thesis using now by (subst poll_loop.simps) auto
  next
    case True
    obtain r s2 where poll: "poll_requests E W c n rs statuses (s\<lparr>hw := w\<rparr>) = (r, s2)" by fastforce
    have "not_before clk (clk (hw s)) (s\<lparr>hw := w\<rparr>)" using t by (simp add: not_before_def)
    then have "not_before clk (clk (hw s)) (snd (poll_requests E W c n rs statuses (s\<lparr>hw := w\<rparr>)))"
      by (rule rt_invD[OF not_before_poll[OF assms]])
    then have "clk (hw s) \<le> clk (hw s2)" by (simp add: poll not_before_def)
    also have "clk (hw s2) < clk (sleep_for W kPollPeriod (hw s2))"
      using assms by (auto simp: time_passes_def kPollPeriod_def dest!: spec[of _ "hw s2"] spec[of _ 10000000])
    finally have "\<exists>r. poll_loop E W c n rest st (s2\<lparr>hw := sleep_for W kPollPeriod (hw s2)\<rparr>) = Some r" for rest st
      using True t by (intro less) simp
    then show ?thesis using True now poll by (subst poll_loop.simps) (cases r; auto)
  qed
qed

lemma call_modules_returns:
  assumes "time_passes E W clk"
  shows "\<exists>r. call_modules E W c n is rs statuses s = Some r"
proof (induction "is" arbitrary: rs statuses s)
  case Nil
  obtain q where "poll_loop E W c n rs statuses s = Some q" using poll_loop_returns[OF assms] by blast
  then show ?case by (cases "fst q"; cases q) (auto simp: wait_for_calls_def)
next
  case (Cons i "is")
  obtain r t where clear: "clear_finished E i s = (r, t)" by fastforce
  obtain q u where trigger: "TriggerAsync E (i, bc_kind c) t = (q, u)" by fastforce
  note rest = Cons[of "rs @ [(projr q, i)]" statuses u] Cons[of rs "statuses(i \<mapsto> Error Aborted)" u]
  show ?case using clear trigger
    by (cases r; cases q) (use rest in \<open>simp_all add: option_finally_def split_paired_Ex del: fun_upd_apply\<close>; force)+
qed

section \<open>Success\<close>

text \<open>What a module says about its state when reading it has no effect.\<close>

definition module_state :: "'w hwm_env \<Rightarrow> nat \<Rightarrow> 'w \<Rightarrow> state_code" where
  "module_state E i w = fst (fst (hw_state E i w))"

definition pure_states :: "'w hwm_env \<Rightarrow> bool" where
  "pure_states E \<longleftrightarrow> (\<forall>i w. snd (hw_state E i w) = w)"

lemma check_final_run:
  assumes "pure_states E"
  shows "check_final E f i statuses s =
    (Inr (if Some (module_state E i (hw s)) \<noteq> f then statuses(i \<mapsto> Error Unavailable) else statuses), s)"
proof -
  obtain code m where "hw_state E i (hw s) = ((code, m), hw s)" using assms by (metis pure_states_def prod.collapse)
  then show ?thesis by (simp add: check_final_def rt_defs hw_call_def module_state_def)
qed

lemma check_all_final:
  assumes "pure_states E"
  shows "rt_fold xs (check_final E f) statuses s =
    (Inr (\<lambda>i. if i \<in> set xs \<and> Some (module_state E i (hw s)) \<noteq> f then Some (Error Unavailable) else statuses i), s)"
  by (induction xs arbitrary: statuses)
     (auto simp: rt_return_def rt_bind_run[OF check_final_run[OF assms]] fun_eq_iff)

lemma conclude_ok:
  assumes "pure_states E" "conclude E W c n statuses s = (Inr (), t)" "bc_final_state c = Some f"
  shows "\<forall>i < n. module_state E i (hw t) = f"
  using assms
  by (auto simp: conclude_def rt_Inr_iff check_all_final[OF assms(1)] has_status_def list_ex_iff split: if_splits)

lemma has_status_upd: "i < n \<Longrightarrow> has_status n (statuses(i \<mapsto> st))"
  by (auto simp: has_status_def list_ex_iff)

lemma wait_for_calls_ok:
  assumes "wait_for_calls E W c n rs statuses s = Some (Inr (), t)"
  shows "\<not> has_status n statuses \<and> (\<exists>u statuses'. conclude E W c n statuses' u = (Inr (), t))"
  using assms by (auto simp: wait_for_calls_def split: if_splits option.splits prod.splits sum.splits)

lemma call_modules_ok:
  assumes "call_modules E W c n is rs statuses s = Some (Inr (), t)" "set is \<subseteq> {..<n}"
  shows "\<not> has_status n statuses \<and> (\<forall>i \<in> set is. \<not> started t (i, bc_kind c)) \<and>
    (\<exists>u v statuses'. conclude E W c n statuses' u = (Inr (), v) \<and> hw v = hw t)"
  using assms
proof (induction "is" arbitrary: rs statuses s t)
  case Nil
  then show ?case using wait_for_calls_ok[of E W c n rs statuses s t] by auto
next
  case (Cons i "is")
  obtain x u where clear: "clear_finished E i s = (Inr x, u)"
    using Cons.prems(1) by (auto split: prod.splits sum.splits)
  obtain q v where trigger: "TriggerAsync E (i, bc_kind c) u = (q, v)" by fastforce
  show ?case
  proof (cases q)
    case (Inl e)
    then have "call_modules E W c n is rs (statuses(i \<mapsto> Error Aborted)) v = Some (Inr (), t)"
      using Cons.prems(1) clear trigger by (simp del: fun_upd_apply)
    from Cons.IH[OF this] Cons.prems(2) has_status_upd[of i n statuses "Error Aborted"] show ?thesis
      by (simp del: fun_upd_apply)
  next
    case (Inr r)
    then have r: "r = Some (i, bc_kind c)" using trigger by (simp add: TriggerAsync_Inr)
    obtain t' where t': "call_modules E W c n is (rs @ [(r, i)]) statuses v = Some (Inr (), t')"
      "t = set_started (i, bc_kind c) False t'"
      using Cons.prems(1) clear trigger Inr r
      by (auto simp: option_finally_def release_request_def AsyncRequest_destroy_def rt_modify_def)
    from Cons.IH[OF t'(1)] Cons.prems(2) t'(2) show ?thesis by (auto simp: set_started_def)
  qed
qed

section \<open>Properties\<close>

text \<open>C29 (termination). Preparing the hardware modules comes back when time passes: the polling loop has no bound
  but the deadline, and every round of it takes at least the ten milliseconds it sleeps.\<close>

theorem prepare_returns:
  assumes "time_passes E W clk"
  shows "Prepare E W deadline s \<noteq> None"
proof -
  obtain t w where now: "clock_now E (hw s) = (t, w)" by fastforce
  show ?thesis unfolding Prepare_def BlockingMultiHardwareModuleCall_def
    using now call_modules_returns[OF assms] by (simp add: hw_call_def)
qed

text \<open>A sample: the world is the time; the module takes 25 milliseconds to prepare.\<close>

definition slow_env :: "int hwm_env" where
  "slow_env = \<lparr>is_connected = \<lambda>_. True, post_request = \<lambda>c w. (OkStatus, w), try_wait_response = \<lambda>c w. (Some False, w),
     response_value = \<lambda>c w. (if 25000000 \<le> w then kPosted else kReady, w),
     await_response = \<lambda>c d w. (OkStatus, w), clock_now = \<lambda>w. (w, w),
     hw_state = \<lambda>i w. ((if 25000000 \<le> w then HwmPrepared else HwmPreparing, []), w), hw_mark_cycle = \<lambda>i w. ((), w)\<rparr>"

definition slow_wait :: "int wait_env" where
  "slow_wait = \<lparr>sleep_for = \<lambda>d w. w + d, iteration_order = \<lambda>is. is\<rparr>"

definition unprepared_sys :: "int hwm_sys" where
  "unprepared_sys = \<lparr>hw = 0, started = \<lambda>_. False, hwms = [sample_hwm HwmDeactivated], clock_driver = None,
     pending_transition_request = None, current_command_id = 0, request_timeout = 60, transitions_paused = False,
     cached_request_state = RS_kDone, combined_fault_reason = None\<rparr>"

theorem prepare_returns_witness: "Prepare slow_env slow_wait 100000000 unprepared_sys \<noteq> None"
  by (rule prepare_returns[of _ _ "\<lambda>w. w"]) (simp add: time_passes_def slow_env_def slow_wait_def)

text \<open>When preparing succeeds, every hardware module has said that it is prepared after the
  last request, and no request of the call is left behind.\<close>

theorem prepare_ok_means_prepared:
  assumes "pure_states E" "Prepare E W deadline s = Some (Inr (), t)" "i < length (hwms s)"
  shows "module_state E i (hw t) = HwmPrepared \<and> \<not> started t (i, T_Prepare)"
proof -
  obtain now w where now: "clock_now E (hw s) = (now, w)" by fastforce
  define c where "c = \<lparr>bc_kind = T_Prepare, bc_deadline = deadline, bc_start_time = now,
    bc_transient_state = HwmPreparing, bc_final_state = Some HwmPrepared\<rparr>"
  have "call_modules E W c (length (hwms s)) [0..<length (hwms s)] [] (\<lambda>_. None) (s\<lparr>hw := w\<rparr>) = Some (Inr (), t)"
    using assms(2) now by (simp add: Prepare_def BlockingMultiHardwareModuleCall_def hw_call_def c_def)
  from call_modules_ok[OF this] obtain u v st where "\<not> started t (i, bc_kind c)" "hw v = hw t"
    "conclude E W c (length (hwms s)) st u = (Inr (), v)"
    using assms(3) by (auto simp: subset_iff)
  with conclude_ok[OF assms(1) this(3)] assms(3) show ?thesis by (simp add: c_def)
qed

theorem prepare_ok_means_prepared_witness:
  "\<exists>t. Prepare slow_env slow_wait 100000000 unprepared_sys = Some (Inr (), t) \<and>
     module_state slow_env 0 (hw t) = HwmPrepared \<and> hw t = 40000000"
proof -
  let ?r = "Prepare slow_env slow_wait 100000000 unprepared_sys"
  have "map_option (\<lambda>(r, t). (r, hw t)) ?r = Some (Inr (), 40000000)" by code_simp
  then obtain t where t: "?r = Some (Inr (), t)" "hw t = 40000000" by auto
  have "pure_states slow_env" by (simp add: pure_states_def slow_env_def)
  from prepare_ok_means_prepared[OF this t(1), of 0] t show ?thesis by (auto simp: unprepared_sys_def)
qed

text \<open>A module that is already done does not save a call whose deadline is over: success is not reported.\<close>

lemma late_prepare_fails:
  "map_option fst (Prepare slow_env slow_wait 0 (unprepared_sys\<lparr>hw := 25000000\<rparr>)) = Some (Inl (Error DeadlineExceeded))"
  by code_simp

end
