(* ===== verification/Lockstep.thy ===== *)
theory Lockstep
  imports Rt_Monad Binary_Futex
begin

text \<open>
  \<^verbatim>\<open>intrinsic_sdk/intrinsic/util/thread/lockstep.{h,cc}\<close>: two processes take turns with operation A and operation B.
  The first part has the operations of the class, as one thread runs them; the second interleaves
  the two sides and a thread that cancels, at every access of shared memory. The last part is the clock of a hardware module,
  \<^verbatim>\<open>intrinsic/icon/hal/realtime_clock.cc\<close>, which drives the cycle of the controller through a lockstep.
\<close>

section \<open>Operations\<close>

datatype lockstep_state = LS_BFinished | LS_ARunning | LS_AFinished | LS_BRunning | LS_Cancelled

record lockstep =
  a_finished :: "32 word"
  b_finished :: "32 word"
  ls_state :: lockstep_state

definition mk_Lockstep :: lockstep where
  "mk_Lockstep = \<lparr>a_finished = mk_BinaryFutex False, b_finished = mk_BinaryFutex True, ls_state = LS_BFinished\<rparr>"

type_synonym lockstep_futex = "(lockstep \<Rightarrow> 32 word) \<times> ((32 word \<Rightarrow> 32 word) \<Rightarrow> lockstep \<Rightarrow> lockstep)"

abbreviation a_token :: lockstep_futex where "a_token \<equiv> (a_finished, a_finished_update)"
abbreviation b_token :: lockstep_futex where "b_token \<equiv> (b_finished, b_finished_update)"

definition ls_post :: "lockstep_futex \<Rightarrow> (lockstep, unit) rt" where
  "ls_post f s = (case Futex_Post (fst f s) of (st, v) \<Rightarrow>
     (if st = OkStatus then Inr () else Inl st, snd f (\<lambda>_. v) s))"

text \<open>Waiting for a futex, as in \<open>Futex_Wait\<close>; while the thread sleeps the others may change the whole lockstep. A script
  holds what they do during each system call and its reply; when it is over and the thread still sleeps, it has timed out.\<close>

type_synonym ls_script = "((lockstep \<Rightarrow> lockstep) \<times> futex_reply) list"

fun ls_wait :: "lockstep_futex \<Rightarrow> ls_script \<Rightarrow> (lockstep, unit) rt" where
  "ls_wait f [] s =
     (case futex_take (fst f s) of (old, v) \<Rightarrow>
        (if old = kReady then Inl (Error DeadlineExceeded) else if old = kClosed then Inl (Error Aborted)
         else if old = kPosted then Inr () else Inl (Error Internal), snd f (\<lambda>_. v) s))"
| "ls_wait f ((others, reply) # script) s =
     (case futex_take (fst f s) of (old, v) \<Rightarrow>
        if old = kReady then
          (case reply of
             FR_woken \<Rightarrow> ls_wait f script (others s)
           | FR_timed_out \<Rightarrow> (Inl (Error DeadlineExceeded), others s)
           | FR_error \<Rightarrow> (Inl (Error Internal), others s))
        else (if old = kClosed then Inl (Error Aborted) else if old = kPosted then Inr () else Inl (Error Internal),
              snd f (\<lambda>_. v) s))"

definition StartOperationA :: "ls_script \<Rightarrow> (lockstep, unit) rt" where
  "StartOperationA script =
     rt_bind (ls_wait b_token script) (\<lambda>_.
     rt_bind (rt_gets ls_state) (\<lambda>st.
     if st = LS_Cancelled then rt_bind (rt_try (ls_post b_token)) (\<lambda>_. rt_fail (Error Aborted))
     else
       rt_bind (rt_gets ls_state) (\<lambda>st.
       if st \<noteq> LS_BFinished then rt_fail (Error FailedPrecondition)
       else rt_modify (ls_state_update (\<lambda>_. LS_ARunning)))))"

definition EndOperationA :: "(lockstep, unit) rt" where
  "EndOperationA =
     rt_bind (rt_gets ls_state) (\<lambda>st.
     if st = LS_Cancelled then rt_return ()
     else
       rt_bind (rt_gets ls_state) (\<lambda>st.
       if st \<noteq> LS_ARunning then rt_fail (Error FailedPrecondition)
       else rt_bind (rt_modify (ls_state_update (\<lambda>_. LS_AFinished))) (\<lambda>_. ls_post a_token)))"

definition StartOperationB :: "ls_script \<Rightarrow> (lockstep, unit) rt" where
  "StartOperationB script =
     rt_bind (ls_wait a_token script) (\<lambda>_.
     rt_bind (rt_gets ls_state) (\<lambda>st.
     if st = LS_Cancelled then rt_bind (rt_try (ls_post a_token)) (\<lambda>_. rt_fail (Error Aborted))
     else
       rt_bind (rt_gets ls_state) (\<lambda>st.
       if st \<noteq> LS_AFinished then rt_fail (Error FailedPrecondition)
       else rt_modify (ls_state_update (\<lambda>_. LS_BRunning)))))"

definition EndOperationB :: "(lockstep, unit) rt" where
  "EndOperationB =
     rt_bind (rt_gets ls_state) (\<lambda>st.
     if st = LS_Cancelled then rt_return ()
     else
       rt_bind (rt_gets ls_state) (\<lambda>st.
       if st \<noteq> LS_BRunning then rt_fail (Error FailedPrecondition)
       else rt_bind (rt_modify (ls_state_update (\<lambda>_. LS_BFinished))) (\<lambda>_. ls_post b_token)))"

definition Lockstep_Cancel :: "(lockstep, unit) rt" where
  "Lockstep_Cancel =
     rt_bind (rt_modify (ls_state_update (\<lambda>_. LS_Cancelled))) (\<lambda>_.
     rt_bind (rt_try (ls_post a_token)) (\<lambda>_.
     rt_bind (rt_try (ls_post b_token)) (\<lambda>_. rt_return ())))"

definition Lockstep_Reset :: "ls_script \<Rightarrow> ls_script \<Rightarrow> (lockstep, unit) rt" where
  "Lockstep_Reset wait_a wait_b =
     rt_bind (rt_gets ls_state) (\<lambda>st.
     if st \<noteq> LS_Cancelled then rt_fail (Error FailedPrecondition)
     else
       rt_bind (ls_wait a_token wait_a) (\<lambda>_.
       rt_bind (ls_wait b_token wait_b) (\<lambda>_.
       rt_bind (rt_modify (ls_state_update (\<lambda>_. LS_BFinished))) (\<lambda>_. ls_post b_token))))"

section \<open>The clock of a hardware module\<close>

text \<open>Everything outside \<^verbatim>\<open>TickBlockingWithDeadline\<close> is operation A.\<close>

record realtime_clock =
  rc_lockstep :: lockstep
  cycle_start_nanoseconds :: int

definition on_lockstep :: "(lockstep, 'a) rt \<Rightarrow> (realtime_clock, 'a) rt" where
  "on_lockstep m c = (case m (rc_lockstep c) of (r, s) \<Rightarrow> (r, c\<lparr>rc_lockstep := s\<rparr>))"

text \<open>A failed \<^verbatim>\<open>CHECK_OK\<close> ends the process.\<close>

definition mk_RealtimeClock :: "ls_script \<Rightarrow> (realtime_clock, unit) rt" where
  "mk_RealtimeClock script =
     rt_bind (rt_try (on_lockstep (StartOperationA script))) (\<lambda>r. if status_of r = OkStatus then rt_return () else rt_fail LogFatal)"

definition RealtimeClock_destroy :: "(realtime_clock, unit) rt" where
  "RealtimeClock_destroy = rt_bind (rt_try (on_lockstep EndOperationA)) (\<lambda>_. rt_return ())"

definition TickBlockingWithDeadline :: "int \<Rightarrow> ls_script \<Rightarrow> (realtime_clock, unit) rt" where
  "TickBlockingWithDeadline current_timestamp script =
     rt_bind (rt_modify (cycle_start_nanoseconds_update (\<lambda>_. current_timestamp))) (\<lambda>_.
     rt_bind (on_lockstep EndOperationA) (\<lambda>_. on_lockstep (StartOperationA script)))"

definition RealtimeClock_Reset :: "ls_script \<Rightarrow> ls_script \<Rightarrow> ls_script \<Rightarrow> (realtime_clock, unit) rt" where
  "RealtimeClock_Reset wait_a wait_b script =
     rt_bind (on_lockstep Lockstep_Cancel) (\<lambda>_.
     rt_bind (rt_try (on_lockstep (Lockstep_Reset wait_a wait_b))) (\<lambda>status.
     rt_bind (rt_try (on_lockstep (StartOperationA script))) (\<lambda>started.
       rt_check (if status_of status = OkStatus then status_of started else status_of status))))"

section \<open>Two sides and a canceller\<close>

text \<open>What the two sides differ in.\<close>

datatype side = SideA | SideB

fun other_side :: "side \<Rightarrow> side" where
  "other_side SideA = SideB"
| "other_side SideB = SideA"

fun token_in :: "side \<Rightarrow> lockstep_futex" where
  "token_in SideA = b_token"
| "token_in SideB = a_token"

fun st_before :: "side \<Rightarrow> lockstep_state" where
  "st_before SideA = LS_BFinished"
| "st_before SideB = LS_AFinished"

fun st_running :: "side \<Rightarrow> lockstep_state" where
  "st_running SideA = LS_ARunning"
| "st_running SideB = LS_BRunning"

abbreviation token_out :: "side \<Rightarrow> lockstep_futex" where "token_out x \<equiv> token_in (other_side x)"
abbreviation st_after :: "side \<Rightarrow> lockstep_state" where "st_after x \<equiv> st_before (other_side x)"

text \<open>Positions between the accesses of \<^verbatim>\<open>StartOperation\<close> (\<open>O_taken\<close>: it has the token,
  \<open>O_checked\<close>: not cancelled, \<open>O_claim\<close>: it is its turn, \<open>O_giving_back\<close>: cancelled), and of
  \<^verbatim>\<open>EndOperation\<close>.\<close>

datatype op_pc = O_idle | O_taken | O_giving_back | O_checked | O_claim | O_running | O_ending | O_finish | O_posting
datatype cancel_pc = K_idle | K_post_a | K_post_b

text \<open>History: the operations that began, and whether a call of \<^verbatim>\<open>Cancel\<close> has returned.\<close>

record ls_sys =
  shared :: lockstep
  pcs :: "side \<Rightarrow> op_pc"
  canceller :: cancel_pc
  ls_log :: "side list"
  was_cancelled :: bool

definition ls_init :: ls_sys where
  "ls_init = \<lparr>shared = mk_Lockstep, pcs = (\<lambda>_. O_idle), canceller = K_idle, ls_log = [], was_cancelled = False\<rparr>"

abbreviation at :: "ls_sys \<Rightarrow> side \<Rightarrow> op_pc \<Rightarrow> ls_sys" where
  "at s x p \<equiv> s\<lparr>pcs := (pcs s)(x := p)\<rparr>"

inductive ls_step :: "bool \<Rightarrow> ls_sys \<Rightarrow> ls_sys \<Rightarrow> bool" for cancels where
  take_token: "pcs s x = O_idle \<Longrightarrow> futex_take (fst (token_in x) (shared s)) = (kPosted, v) \<Longrightarrow>
    ls_step cancels s ((at s x O_taken)\<lparr>shared := snd (token_in x) (\<lambda>_. v) (shared s)\<rparr>)"
| see_cancel: "pcs s x = O_taken \<Longrightarrow> ls_state (shared s) = LS_Cancelled \<Longrightarrow> ls_step cancels s (at s x O_giving_back)"
| give_back: "pcs s x = O_giving_back \<Longrightarrow> ls_post (token_in x) (shared s) = (r, c) \<Longrightarrow>
    ls_step cancels s ((at s x O_idle)\<lparr>shared := c\<rparr>)"
| not_cancelled: "pcs s x = O_taken \<Longrightarrow> ls_state (shared s) \<noteq> LS_Cancelled \<Longrightarrow> ls_step cancels s (at s x O_checked)"
| refused: "pcs s x = O_checked \<Longrightarrow> ls_state (shared s) \<noteq> st_before x \<Longrightarrow> ls_step cancels s (at s x O_idle)"
| my_turn: "pcs s x = O_checked \<Longrightarrow> ls_state (shared s) = st_before x \<Longrightarrow> ls_step cancels s (at s x O_claim)"
| claim: "pcs s x = O_claim \<Longrightarrow>
    ls_step cancels s ((at s x O_running)\<lparr>shared := (shared s)\<lparr>ls_state := st_running x\<rparr>, ls_log := ls_log s @ [x]\<rparr>)"
| end_cancelled: "pcs s x = O_running \<Longrightarrow> ls_state (shared s) = LS_Cancelled \<Longrightarrow> ls_step cancels s (at s x O_idle)"
| ending: "pcs s x = O_running \<Longrightarrow> ls_state (shared s) \<noteq> LS_Cancelled \<Longrightarrow> ls_step cancels s (at s x O_ending)"
| mismatch: "pcs s x = O_ending \<Longrightarrow> ls_state (shared s) \<noteq> st_running x \<Longrightarrow> ls_step cancels s (at s x O_idle)"
| finishing: "pcs s x = O_ending \<Longrightarrow> ls_state (shared s) = st_running x \<Longrightarrow> ls_step cancels s (at s x O_finish)"
| finish: "pcs s x = O_finish \<Longrightarrow>
    ls_step cancels s ((at s x O_posting)\<lparr>shared := (shared s)\<lparr>ls_state := st_after x\<rparr>\<rparr>)"
| post_token: "pcs s x = O_posting \<Longrightarrow> ls_post (token_out x) (shared s) = (r, c) \<Longrightarrow>
    ls_step cancels s ((at s x O_idle)\<lparr>shared := c\<rparr>)"
| cancel: "cancels \<Longrightarrow> canceller s = K_idle \<Longrightarrow>
    ls_step cancels s (s\<lparr>canceller := K_post_a, shared := (shared s)\<lparr>ls_state := LS_Cancelled\<rparr>\<rparr>)"
| cancel_a: "canceller s = K_post_a \<Longrightarrow> ls_post a_token (shared s) = (r, c) \<Longrightarrow>
    ls_step cancels s (s\<lparr>canceller := K_post_b, shared := c\<rparr>)"
| cancel_b: "canceller s = K_post_b \<Longrightarrow> ls_post b_token (shared s) = (r, c) \<Longrightarrow>
    ls_step cancels s (s\<lparr>canceller := K_idle, shared := c, was_cancelled := True\<rparr>)"

inductive ls_reachable :: "bool \<Rightarrow> ls_sys \<Rightarrow> bool" for cancels where
  init: "ls_reachable cancels ls_init"
| step: "ls_reachable cancels s \<Longrightarrow> ls_step cancels s t \<Longrightarrow> ls_reachable cancels t"

section \<open>Exclusion and order\<close>

definition in_operation :: "ls_sys \<Rightarrow> side \<Rightarrow> bool" where
  "in_operation s x \<longleftrightarrow> pcs s x \<in> {O_running, O_ending, O_finish}"

text \<open>The side whose operation is next after \<open>n\<close> operations.\<close>

definition turn :: "nat \<Rightarrow> side" where
  "turn n = (if even n then SideA else SideB)"

definition in_order :: "side list \<Rightarrow> bool" where
  "in_order log \<longleftrightarrow> (\<forall>k < length log. log ! k = turn k)"

lemma in_order_append [simp]: "in_order (log @ [x]) \<longleftrightarrow> in_order log \<and> x = turn (length log)"
  by (auto simp: in_order_def nth_append less_Suc_eq)

lemma in_order_Nil [simp]: "in_order []"
  by (simp add: in_order_def)

definition side_inv :: "ls_sys \<Rightarrow> side \<Rightarrow> bool" where
  "side_inv s x \<longleftrightarrow>
     (pcs s x = O_claim \<longrightarrow> (ls_state (shared s) = st_before x \<or> ls_state (shared s) = LS_Cancelled) \<and> turn (length (ls_log s)) = x) \<and>
     (in_operation s x \<longrightarrow>
        (ls_state (shared s) = st_running x \<or> ls_state (shared s) = LS_Cancelled) \<and> turn (length (ls_log s)) = other_side x) \<and>
     (ls_state (shared s) = st_before x \<longrightarrow> turn (length (ls_log s)) = x)"

definition ls_inv :: "ls_sys \<Rightarrow> bool" where
  "ls_inv s \<longleftrightarrow> side_inv s SideA \<and> side_inv s SideB \<and> in_order (ls_log s) \<and>
     \<not> ((pcs s SideA = O_claim \<or> in_operation s SideA) \<and> (pcs s SideB = O_claim \<or> in_operation s SideB))"

lemma other_other [simp]: "other_side (other_side x) = x"
  by (cases x) auto

lemma turn_Suc [simp]: "turn (Suc n) = other_side (turn n)"
  by (simp add: turn_def)

lemma ls_post_state: "ls_post (token_in x) c = (r, d) \<Longrightarrow> ls_state d = ls_state c"
  "ls_post a_token c = (r, d) \<Longrightarrow> ls_state d = ls_state c" "ls_post b_token c = (r, d) \<Longrightarrow> ls_state d = ls_state c"
  by (cases x; auto simp: ls_post_def split: prod.splits)+

lemma token_update_state [simp]: "ls_state (snd (token_in x) f c) = ls_state c"
  by (cases x) auto

lemma state_distinct [simp]: "LS_Cancelled \<noteq> st_before x" "LS_Cancelled \<noteq> st_running x" "st_running y \<noteq> st_before x"
  "st_before x \<noteq> LS_Cancelled" "st_running x \<noteq> LS_Cancelled" "st_before x \<noteq> st_running y"
  "st_before x = st_before y \<longleftrightarrow> x = y" "st_running x = st_running y \<longleftrightarrow> x = y" "other_side x \<noteq> x"
  by (cases x; cases y; simp)+

lemmas side_defs = ls_inv_def side_inv_def in_operation_def

lemma ls_inv_step: "ls_step cancels s t \<Longrightarrow> ls_inv s \<Longrightarrow> ls_inv t"
proof (induction rule: ls_step.induct)
  case (claim s x)
  then show ?case by (cases x) (auto simp: side_defs)
next
  case (finish s x)
  then show ?case by (cases x) (auto simp: side_defs)
next
  case (give_back s x r c)
  then show ?case by (cases x) (simp_all add: side_defs ls_post_state)
next
  case (post_token s x r c)
  then show ?case by (cases x) (simp_all add: side_defs ls_post_state)
next
  case (take_token s x v)
  then show ?case by (cases x) (auto simp: side_defs)
next
  case (see_cancel s x)
  then show ?case by (cases x) (auto simp: side_defs)
next
  case (not_cancelled s x)
  then show ?case by (cases x) (auto simp: side_defs)
next
  case (refused s x)
  then show ?case by (cases x) (auto simp: side_defs)
next
  case (my_turn s x)
  then show ?case by (cases x) (auto simp: side_defs)
next
  case (end_cancelled s x)
  then show ?case by (cases x) (auto simp: side_defs)
next
  case (ending s x)
  then show ?case by (cases x) (auto simp: side_defs)
next
  case (mismatch s x)
  then show ?case by (cases x) (auto simp: side_defs)
next
  case (finishing s x)
  then show ?case by (cases x) (auto simp: side_defs)
qed (simp_all add: side_defs ls_post_state)

lemma ls_reachable_inv: "ls_reachable cancels s \<Longrightarrow> ls_inv s"
proof (induction rule: ls_reachable.induct)
  case init
  show ?case by (simp add: ls_init_def side_defs mk_Lockstep_def turn_def)
qed (rule ls_inv_step)

section \<open>Tokens\<close>

definition tokens_ok :: "lockstep \<Rightarrow> bool" where
  "tokens_ok c \<longleftrightarrow> a_finished c \<in> {kReady, kPosted} \<and> b_finished c \<in> {kReady, kPosted}"

text \<open>The side will find a token, or has it in its hands and is about to see the cancellation or to give the token back.\<close>

definition will_wake :: "ls_sys \<Rightarrow> side \<Rightarrow> bool" where
  "will_wake s x \<longleftrightarrow> fst (token_in x) (shared s) = kPosted \<or> pcs s x = O_taken \<or> pcs s x = O_giving_back"

definition cancel_inv :: "ls_sys \<Rightarrow> bool" where
  "cancel_inv s \<longleftrightarrow> tokens_ok (shared s) \<and>
     (ls_state (shared s) = LS_Cancelled \<longrightarrow>
        (canceller s \<noteq> K_post_a \<longrightarrow> will_wake s SideB) \<and> (canceller s = K_idle \<longrightarrow> will_wake s SideA))"

lemma ls_post_run:
  assumes "tokens_ok c"
  shows "ls_post (token_in x) c = (Inr (), snd (token_in x) (\<lambda>_. kPosted) c)"
  using assms by (cases x) (auto simp: ls_post_def tokens_ok_def Futex_Post_def kReady_def kPosted_def kClosed_def)

lemmas ls_post_runs = ls_post_run ls_post_run[of _ SideA, simplified] ls_post_run[of _ SideB, simplified]

lemma token_taken_run: "futex_take v = (kPosted, w) \<longleftrightarrow> v = kPosted \<and> w = kReady"
  by (auto simp: futex_take_def)

lemma cancel_inv_step: "ls_step cancels s t \<Longrightarrow> cancel_inv s \<Longrightarrow> cancel_inv t"
proof (induction rule: ls_step.induct)
  case (take_token s x v)
  then show ?case by (cases x) (auto simp: cancel_inv_def will_wake_def token_taken_run tokens_ok_def)
next
  case (give_back s x r c)
  then show ?case by (cases x) (auto simp: cancel_inv_def will_wake_def ls_post_runs tokens_ok_def)
next
  case (post_token s x r c)
  then show ?case by (cases x) (auto simp: cancel_inv_def will_wake_def ls_post_runs tokens_ok_def)
next
  case (cancel_a s r c)
  then show ?case by (auto simp: cancel_inv_def will_wake_def ls_post_runs tokens_ok_def)
next
  case (cancel_b s r c)
  then show ?case by (auto simp: cancel_inv_def will_wake_def ls_post_runs tokens_ok_def)
next
  case (claim s x)
  then show ?case by (cases x) (auto simp: cancel_inv_def will_wake_def tokens_ok_def)
next
  case (finish s x)
  then show ?case by (cases x) (auto simp: cancel_inv_def will_wake_def tokens_ok_def)
qed (auto simp: cancel_inv_def will_wake_def tokens_ok_def split: if_splits)

lemma ls_reachable_cancel_inv: "ls_reachable cancels s \<Longrightarrow> cancel_inv s"
  by (induction rule: ls_reachable.induct)
    (auto dest: cancel_inv_step simp: ls_init_def cancel_inv_def tokens_ok_def mk_Lockstep_def mk_BinaryFutex_def)

text \<open>Without cancellations there is one token, and the side that has it or will get it is the only one that is not idle.\<close>

definition owns_turn :: "ls_sys \<Rightarrow> side \<Rightarrow> bool" where
  "owns_turn s x \<longleftrightarrow> pcs s (other_side x) = O_idle \<and> fst (token_out x) (shared s) = kReady \<and>
     (if pcs s x = O_idle then fst (token_in x) (shared s) = kPosted \<and> ls_state (shared s) = st_before x
      else fst (token_in x) (shared s) = kReady \<and>
        (pcs s x \<in> {O_taken, O_checked, O_claim} \<and> ls_state (shared s) = st_before x \<or>
         in_operation s x \<and> ls_state (shared s) = st_running x \<or>
         pcs s x = O_posting \<and> ls_state (shared s) = st_after x))"

definition turn_inv :: "ls_sys \<Rightarrow> bool" where
  "turn_inv s \<longleftrightarrow> canceller s = K_idle \<and> (\<exists>x. owns_turn s x)"

lemma ready_posted [simp]: "kReady \<noteq> kPosted" "kPosted \<noteq> kReady"
  by (simp_all add: kReady_def kPosted_def)

lemma not_same: "x \<noteq> y \<longleftrightarrow> x = other_side y"
  by (cases x; cases y) auto

lemma token_updates [simp]: "fst (token_in x) (snd (token_in x) f c) = f (fst (token_in x) c)"
  "fst (token_in (other_side x)) (snd (token_in x) f c) = fst (token_in (other_side x)) c"
  "fst (token_in x) (c\<lparr>ls_state := st\<rparr>) = fst (token_in x) c"
  by (cases x; simp)+

lemma owner_steps: "ls_step False s t \<Longrightarrow> canceller s = K_idle \<Longrightarrow> owns_turn s y \<Longrightarrow>
    canceller t = K_idle \<and> (owns_turn t y \<or> owns_turn t (other_side y))"
proof (induction rule: ls_step.induct)
  case (take_token s x v)
  then show ?case by (cases "x = y") (auto simp: owns_turn_def in_operation_def token_taken_run not_same token_updates)
next
  case (post_token s x r c)
  then show ?case by (cases x; cases y)
    (auto simp: owns_turn_def in_operation_def ls_post_def Futex_Post_def kReady_def kPosted_def split: if_splits)
next
  case (give_back s x r c)
  then show ?case by (cases "x = y") (auto simp: owns_turn_def in_operation_def not_same split: if_splits)
next
  case (see_cancel s x)
  then show ?case by (cases "x = y") (auto simp: owns_turn_def in_operation_def not_same split: if_splits)
next
  case (not_cancelled s x)
  then show ?case by (cases "x = y") (auto simp: owns_turn_def in_operation_def not_same split: if_splits)
next
  case (refused s x)
  then show ?case by (cases "x = y") (auto simp: owns_turn_def in_operation_def not_same split: if_splits)
next
  case (my_turn s x)
  then show ?case by (cases "x = y") (auto simp: owns_turn_def in_operation_def not_same split: if_splits)
next
  case (claim s x)
  then show ?case by (cases "x = y") (auto simp: owns_turn_def in_operation_def not_same split: if_splits)
next
  case (end_cancelled s x)
  then show ?case by (cases "x = y") (auto simp: owns_turn_def in_operation_def not_same split: if_splits)
next
  case (ending s x)
  then show ?case by (cases "x = y") (auto simp: owns_turn_def in_operation_def not_same split: if_splits)
next
  case (mismatch s x)
  then show ?case by (cases "x = y") (auto simp: owns_turn_def in_operation_def not_same split: if_splits)
next
  case (finishing s x)
  then show ?case by (cases "x = y") (auto simp: owns_turn_def in_operation_def not_same split: if_splits)
next
  case (finish s x)
  then show ?case by (cases "x = y") (auto simp: owns_turn_def in_operation_def not_same split: if_splits)
qed simp_all

lemma owner_turn: "owns_turn s x \<Longrightarrow> pcs s x = O_idle \<Longrightarrow> ls_inv s \<Longrightarrow> x = turn (length (ls_log s))"
  by (cases x) (auto simp: owns_turn_def ls_inv_def side_inv_def)

lemma owner_moves:
  assumes "owns_turn s x" "canceller s = K_idle"
  shows "\<exists>t. ls_step False s t"
proof (cases "pcs s x")
  case O_idle
  then have "futex_take (fst (token_in x) (shared s)) = (kPosted, kReady)"
    using assms(1) by (simp add: owns_turn_def token_taken_run)
  then show ?thesis using ls_step.take_token[OF O_idle] by blast
next
  case O_taken
  then show ?thesis using ls_step.see_cancel ls_step.not_cancelled by blast
next
  case O_giving_back
  then show ?thesis using ls_step.give_back[OF O_giving_back prod.collapse[symmetric]] by blast
next
  case O_posting
  then show ?thesis using ls_step.post_token[OF O_posting prod.collapse[symmetric]] by blast
qed (blast intro: ls_step.intros)+

lemma owner_in_order: "owns_turn s x \<Longrightarrow>
    (pcs s y = O_checked \<longrightarrow> ls_state (shared s) = st_before y) \<and> (pcs s y = O_ending \<longrightarrow> ls_state (shared s) = st_running y)"
  by (cases "y = x") (auto simp: owns_turn_def in_operation_def not_same split: if_splits)

lemma turn_inv_step: "ls_step False s t \<Longrightarrow> turn_inv s \<Longrightarrow> turn_inv t"
  using owner_steps by (fastforce simp: turn_inv_def)

lemma ls_reachable_turn_inv: "ls_reachable False s \<Longrightarrow> turn_inv s"
proof (induction rule: ls_reachable.induct)
  case init
  have "owns_turn ls_init SideA" by (simp add: ls_init_def owns_turn_def mk_Lockstep_def mk_BinaryFutex_def)
  then show ?case by (auto simp: turn_inv_def ls_init_def)
qed (rule turn_inv_step)

section \<open>The operations alone\<close>

lemma ls_wait_posted: "fst f s = kPosted \<Longrightarrow> ls_wait f script s = (Inr (), snd f (\<lambda>_. kReady) s)"
  by (cases script) (auto simp: futex_take_def kReady_def kPosted_def kClosed_def)

lemma StartOperationA_posted:
  assumes "b_finished c = kPosted"
  shows "StartOperationA script c =
    (if ls_state c = LS_Cancelled then (Inl (Error Aborted), c)
     else if ls_state c = LS_BFinished then (Inr (), c\<lparr>b_finished := kReady, ls_state := LS_ARunning\<rparr>)
     else (Inl (Error FailedPrecondition), c\<lparr>b_finished := kReady\<rparr>))"
  using ls_wait_posted[of b_token c script] assms
  by (auto simp: StartOperationA_def rt_defs rt_try_def ls_post_def Futex_Post_def)

lemma StartOperationB_posted:
  assumes "a_finished c = kPosted"
  shows "StartOperationB script c =
    (if ls_state c = LS_Cancelled then (Inl (Error Aborted), c)
     else if ls_state c = LS_AFinished then (Inr (), c\<lparr>a_finished := kReady, ls_state := LS_BRunning\<rparr>)
     else (Inl (Error FailedPrecondition), c\<lparr>a_finished := kReady\<rparr>))"
  using ls_wait_posted[of a_token c script] assms
  by (auto simp: StartOperationB_def rt_defs rt_try_def ls_post_def Futex_Post_def)

lemma StartOperation_ready:
  "b_finished c = kReady \<Longrightarrow> StartOperationA [] c = (Inl (Error DeadlineExceeded), c)"
  "a_finished c = kReady \<Longrightarrow> StartOperationB [] c = (Inl (Error DeadlineExceeded), c)"
  by (auto simp: StartOperationA_def StartOperationB_def rt_bind_def futex_take_def)

definition start_of :: "side \<Rightarrow> ls_script \<Rightarrow> (lockstep, unit) rt" where
  "start_of x = (case x of SideA \<Rightarrow> StartOperationA | SideB \<Rightarrow> StartOperationB)"

text \<open>The lockstep while operation A runs and nobody waits, and what a controller that runs one operation B does.\<close>

definition a_running :: lockstep where
  "a_running = \<lparr>a_finished = kReady, b_finished = kReady, ls_state = LS_ARunning\<rparr>"

definition one_update :: "lockstep \<Rightarrow> lockstep" where
  "one_update c = snd (EndOperationB (snd (StartOperationB [] c)))"

section \<open>Runs\<close>

definition sys_at :: "32 word \<Rightarrow> 32 word \<Rightarrow> lockstep_state \<Rightarrow> op_pc \<Rightarrow> op_pc \<Rightarrow> cancel_pc \<Rightarrow> side list \<Rightarrow> bool \<Rightarrow> ls_sys" where
  "sys_at a b st p q k log c = \<lparr>shared = \<lparr>a_finished = a, b_finished = b, ls_state = st\<rparr>,
     pcs = (\<lambda>x. case x of SideA \<Rightarrow> p | SideB \<Rightarrow> q), canceller = k, ls_log = log, was_cancelled = c\<rparr>"

lemma ls_step_to: "ls_step cancels s t' \<Longrightarrow> t' = t \<Longrightarrow> ls_step cancels s t"
  by simp

lemma pcs_upd [simp]:
  "(\<lambda>x. case x of SideA \<Rightarrow> p | SideB \<Rightarrow> q)(SideA := r) = (\<lambda>x. case x of SideA \<Rightarrow> r | SideB \<Rightarrow> q)"
  "(\<lambda>x. case x of SideA \<Rightarrow> p | SideB \<Rightarrow> q)(SideB := r) = (\<lambda>x. case x of SideA \<Rightarrow> p | SideB \<Rightarrow> r)"
  by (auto simp: fun_eq_iff split: side.splits)

lemmas run_defs = sys_at_def futex_take_def ls_post_def Futex_Post_def kClosed_def kReady_def kPosted_def

text \<open>The steps of one operation, and those of a call of \<^verbatim>\<open>Cancel\<close>, on states in this form.\<close>

lemma run_take_A: "ls_step cancels (sys_at a kPosted st O_idle q k log c) (sys_at a kReady st O_taken q k log c)"
  by (rule ls_step_to, rule ls_step.take_token[of _ SideA kReady]) (auto simp: run_defs)

lemma run_check_A: "st \<noteq> LS_Cancelled \<Longrightarrow> ls_step cancels (sys_at a b st O_taken q k log c) (sys_at a b st O_checked q k log c)"
  by (rule ls_step_to, rule ls_step.not_cancelled[of _ SideA]) (auto simp: run_defs)

lemma run_turn_A: "ls_step cancels (sys_at a b LS_BFinished O_checked q k log c) (sys_at a b LS_BFinished O_claim q k log c)"
  by (rule ls_step_to, rule ls_step.my_turn[of _ SideA]) (auto simp: run_defs)

lemma run_claim_A: "ls_step cancels (sys_at a b st O_claim q k log c) (sys_at a b LS_ARunning O_running q k (log @ [SideA]) c)"
  by (rule ls_step_to, rule ls_step.claim[of _ SideA]) (auto simp: run_defs)

lemma run_ending_A: "st \<noteq> LS_Cancelled \<Longrightarrow> ls_step cancels (sys_at a b st O_running q k log c) (sys_at a b st O_ending q k log c)"
  by (rule ls_step_to, rule ls_step.ending[of _ SideA]) (auto simp: run_defs)

lemma run_finishing_A: "ls_step cancels (sys_at a b LS_ARunning O_ending q k log c) (sys_at a b LS_ARunning O_finish q k log c)"
  by (rule ls_step_to, rule ls_step.finishing[of _ SideA]) (auto simp: run_defs)

lemma run_finish_A: "ls_step cancels (sys_at a b st O_finish q k log c) (sys_at a b LS_AFinished O_posting q k log c)"
  by (rule ls_step_to, rule ls_step.finish[of _ SideA]) (auto simp: run_defs)

lemma run_post_A: "a = kReady \<or> a = kPosted \<Longrightarrow> ls_step cancels (sys_at a b st O_posting q k log c) (sys_at kPosted b st O_idle q k log c)"
  by (rule ls_step_to, rule ls_step.post_token[of _ SideA]) (auto simp: run_defs)

lemma run_take_B: "ls_step cancels (sys_at kPosted b st p O_idle k log c) (sys_at kReady b st p O_taken k log c)"
  by (rule ls_step_to, rule ls_step.take_token[of _ SideB kReady]) (auto simp: run_defs)

lemma run_check_B: "st \<noteq> LS_Cancelled \<Longrightarrow> ls_step cancels (sys_at a b st p O_taken k log c) (sys_at a b st p O_checked k log c)"
  by (rule ls_step_to, rule ls_step.not_cancelled[of _ SideB]) (auto simp: run_defs)

lemma run_turn_B: "ls_step cancels (sys_at a b LS_AFinished p O_checked k log c) (sys_at a b LS_AFinished p O_claim k log c)"
  by (rule ls_step_to, rule ls_step.my_turn[of _ SideB]) (auto simp: run_defs)

lemma run_claim_B: "ls_step cancels (sys_at a b st p O_claim k log c) (sys_at a b LS_BRunning p O_running k (log @ [SideB]) c)"
  by (rule ls_step_to, rule ls_step.claim[of _ SideB]) (auto simp: run_defs)

lemma run_cancel1: "ls_step True (sys_at a b st p q K_idle log c) (sys_at a b LS_Cancelled p q K_post_a log c)"
  by (rule ls_step_to, rule ls_step.cancel) (auto simp: run_defs)

lemma run_cancel2: "a = kReady \<or> a = kPosted \<Longrightarrow> ls_step True (sys_at a b st p q K_post_a log c) (sys_at kPosted b st p q K_post_b log c)"
  by (rule ls_step_to, rule ls_step.cancel_a) (auto simp: run_defs)

lemma run_cancel3: "b = kReady \<or> b = kPosted \<Longrightarrow> ls_step True (sys_at a b st p q K_post_b log c) (sys_at a kPosted st p q K_idle log True)"
  by (rule ls_step_to, rule ls_step.cancel_b) (auto simp: run_defs)

lemma start_reachable: "ls_reachable cancels (sys_at kReady kPosted LS_BFinished O_idle O_idle K_idle [] False)"
proof -
  have "ls_init = sys_at kReady kPosted LS_BFinished O_idle O_idle K_idle [] False"
    by (auto simp: ls_init_def sys_at_def mk_Lockstep_def mk_BinaryFutex_def fun_eq_iff split: side.splits)
  then show ?thesis using ls_reachable.init[of cancels] by simp
qed

definition cancelled_at_start :: ls_sys where
  "cancelled_at_start = sys_at kPosted kPosted LS_Cancelled O_idle O_idle K_idle [] True"

lemma cancelled_at_start_reachable: "ls_reachable True cancelled_at_start"
  unfolding cancelled_at_start_def
  by (rule ls_reachable.step[OF ls_reachable.step[OF ls_reachable.step[OF start_reachable]]]) (rule run_cancel1 run_cancel2 run_cancel3, simp?)+

text \<open>Side A has seen that nobody cancelled.\<close>

definition a_checked :: ls_sys where
  "a_checked = sys_at kReady kReady LS_BFinished O_checked O_idle K_idle [] False"

lemma a_checked_reachable: "ls_reachable cancels a_checked"
  unfolding a_checked_def
  by (rule ls_reachable.step[OF ls_reachable.step[OF start_reachable]]) (rule run_take_A run_check_A, simp?)+

text \<open>Side A has seen that it is its turn when the lockstep is cancelled; its write undoes the cancellation.\<close>

definition cancel_undone :: ls_sys where
  "cancel_undone = sys_at kPosted kPosted LS_ARunning O_running O_idle K_idle [SideA] True"

lemma cancel_undone_reachable: "ls_reachable True cancel_undone"
proof -
  have "ls_reachable True (sys_at kReady kReady LS_BFinished O_claim O_idle K_idle [] False)"
    by (rule ls_reachable.step[OF ls_reachable.step[OF ls_reachable.step[OF start_reachable]]]) (rule run_take_A run_check_A run_turn_A, simp?)+
  from ls_reachable.step[OF this run_cancel1]
  have "ls_reachable True (sys_at kReady kReady LS_Cancelled O_claim O_idle K_post_a [] False)" .
  from ls_reachable.step[OF ls_reachable.step[OF this run_cancel2] run_cancel3]
  have "ls_reachable True (sys_at kPosted kPosted LS_Cancelled O_claim O_idle K_idle [] True)" by simp
  from ls_reachable.step[OF this run_claim_A] show ?thesis by (simp add: cancel_undone_def)
qed

definition handed_over :: ls_sys where
  "handed_over = sys_at kReady kPosted LS_BRunning O_idle O_running K_idle [SideA, SideB] True"

lemma run_step: "ls_step cancels s t \<Longrightarrow> (ls_step cancels)\<^sup>*\<^sup>* t u \<Longrightarrow> (ls_step cancels)\<^sup>*\<^sup>* s u"
  by (rule converse_rtranclp_into_rtranclp)

lemma cancel_undone_goes_on: "(ls_step False)\<^sup>*\<^sup>* cancel_undone handed_over"
proof -
  let ?a = "sys_at kPosted kPosted LS_AFinished O_idle O_idle K_idle [SideA] True"
  have "(ls_step False)\<^sup>*\<^sup>* ?a handed_over"
    by (rule run_step, rule run_take_B, rule run_step, rule run_check_B, simp, rule run_step, rule run_turn_B, rule run_step,
        rule run_claim_B) (simp add: handed_over_def)
  then show ?thesis unfolding cancel_undone_def
    by (intro run_step[OF run_ending_A _] run_step[OF run_finishing_A] run_step[OF run_finish_A] run_step[OF run_post_A]) simp_all
qed

lemma step_mono: "ls_step False s t \<Longrightarrow> ls_step True s t"
  by (induction rule: ls_step.induct) (auto intro: ls_step.intros)

lemma handed_over_reachable: "ls_reachable True handed_over"
  using cancel_undone_goes_on cancel_undone_reachable
  by (induction rule: rtranclp_induct) (auto intro: ls_reachable.step step_mono)

section \<open>Properties\<close>

text \<open>C27 (safety). However the two sides and a thread that cancels interleave, operation A and operation B never overlap, and
  the operations that began are A, B, A, B, and so on.\<close>

theorem operations_exclude_each_other:
  assumes "ls_reachable cancels s"
  shows "\<not> (in_operation s SideA \<and> in_operation s SideB) \<and> (\<forall>k < length (ls_log s). ls_log s ! k = (if even k then SideA else SideB))"
  using ls_reachable_inv[OF assms] by (auto simp: ls_inv_def in_order_def turn_def)

theorem operations_exclude_each_other_witness:
  "ls_log handed_over = [SideA, SideB] \<and> in_operation handed_over SideB \<and> \<not> in_operation handed_over SideA \<and> was_cancelled handed_over"
  using operations_exclude_each_other[OF handed_over_reachable]
  by (simp add: in_operation_def handed_over_def sys_at_def)

text \<open>C28 (liveness). Without cancellations the lockstep is never stuck: in every reachable state some side can go on, and when both
  sides are outside, the one whose turn it is - side A after an even number of operations - starts at once, while the other one sleeps. No
  call answers that the order was violated: whenever a call compares the state with the one it expects they are equal. Handing over the token never fails.\<close>

theorem lockstep_is_never_stuck:
  assumes "ls_reachable False s"
  shows "(\<exists>t. ls_step False s t) \<and>
    (\<forall>x. (pcs s x = O_checked \<longrightarrow> ls_state (shared s) = st_before x) \<and> (pcs s x = O_ending \<longrightarrow> ls_state (shared s) = st_running x) \<and>
      (pcs s x = O_posting \<longrightarrow> fst (ls_post (token_out x) (shared s)) = Inr ())) \<and>
    (pcs s SideA = O_idle \<and> pcs s SideB = O_idle \<longrightarrow>
      (let x = (if even (length (ls_log s)) then SideA else SideB) in
        (\<forall>script. fst (start_of x script (shared s)) = Inr ()) \<and>
        fst (start_of (other_side x) [] (shared s)) = Inl (Error DeadlineExceeded)))"
proof -
  obtain x where x: "owns_turn s x" "canceller s = K_idle" using ls_reachable_turn_inv[OF assms] by (auto simp: turn_inv_def)
  have post: "\<forall>y. fst (ls_post (token_in y) (shared s)) = Inr ()"
    using ls_reachable_cancel_inv[OF assms] ls_post_run by (simp add: cancel_inv_def)
  have idle: "(\<forall>script. fst (start_of y script (shared s)) = Inr ()) \<and> fst (start_of (other_side y) [] (shared s)) = Inl (Error DeadlineExceeded)"
    if "pcs s SideA = O_idle \<and> pcs s SideB = O_idle" "y = (if even (length (ls_log s)) then SideA else SideB)" for y
  proof -
    have "pcs s x = O_idle" using that(1) by (cases x) auto
    then have "y = x" using owner_turn[OF x(1)] ls_reachable_inv[OF assms] that(2) by (simp add: turn_def)
    moreover have "fst (token_in x) (shared s) = kPosted" "fst (token_out x) (shared s) = kReady" "ls_state (shared s) = st_before x"
      using x(1) \<open>pcs s x = O_idle\<close> by (auto simp: owns_turn_def)
    ultimately show ?thesis
      by (cases x) (simp_all add: start_of_def StartOperationA_posted StartOperationB_posted StartOperation_ready)
  qed
  show ?thesis using owner_moves[OF x] owner_in_order[OF x(1)] post idle by (simp add: Let_def)
qed

theorem lockstep_is_never_stuck_witness:
  "(\<forall>script. fst (start_of SideA script mk_Lockstep) = Inr ()) \<and> fst (start_of SideB [] mk_Lockstep) = Inl (Error DeadlineExceeded) \<and>
    pcs a_checked SideA = O_checked \<and> ls_state (shared a_checked) = LS_BFinished \<and> (\<exists>t. ls_step False a_checked t)"
  using lockstep_is_never_stuck[OF ls_reachable.init] lockstep_is_never_stuck[OF a_checked_reachable]
  by (simp add: ls_init_def a_checked_def sys_at_def)

text \<open>While a lockstep is cancelled, nobody sleeps: as soon as the cancelling thread is through, a side that is outside
  gets its answer at once, which is Aborted, and the lockstep stays as it is for the next caller.\<close>

theorem cancelled_lockstep_answers:
  assumes "ls_reachable True s" "ls_state (shared s) = LS_Cancelled" "canceller s = K_idle" "pcs s x = O_idle"
  shows "start_of x script (shared s) = (Inl (Error Aborted), shared s)"
proof -
  have "fst (token_in x) (shared s) = kPosted"
    using ls_reachable_cancel_inv[OF assms(1)] assms(2-4) by (cases x) (auto simp: cancel_inv_def will_wake_def)
  then show ?thesis using assms(2)
    by (cases x) (simp_all add: start_of_def StartOperationA_posted StartOperationB_posted)
qed

theorem cancelled_lockstep_answers_witness:
  "fst (start_of SideB [] (shared cancelled_at_start)) = Inl (Error Aborted)"
  using cancelled_lockstep_answers[OF cancelled_at_start_reachable, of SideB "[]"] by (simp add: cancelled_at_start_def sys_at_def)

text \<open>One tick of the clock of a hardware module lets the controller run exactly one update: the tick returns when
  the update is over, with the stamp for it in shared memory, and operation A goes on.\<close>

theorem tick_runs_one_update:
  assumes "rc_lockstep c = a_running"
  shows "TickBlockingWithDeadline t [(one_update, FR_woken)] c = (Inr (), c\<lparr>cycle_start_nanoseconds := t\<rparr>) \<and>
    (\<exists>d. TickBlockingWithDeadline t [(id, FR_timed_out)] c = (Inl (Error DeadlineExceeded), d) \<and>
       ls_state (rc_lockstep d) = LS_AFinished \<and> cycle_start_nanoseconds d = t \<and>
       RealtimeClock_Reset [] [] [] d = (Inr (), c\<lparr>cycle_start_nanoseconds := t\<rparr>))"
  using assms
  by (cases c) (simp add: TickBlockingWithDeadline_def RealtimeClock_Reset_def on_lockstep_def rt_defs rt_try_def rt_check_def
    EndOperationA_def StartOperationA_def EndOperationB_def StartOperationB_def one_update_def a_running_def ls_post_def
    Futex_Post_def futex_take_def Lockstep_Cancel_def Lockstep_Reset_def kReady_def kPosted_def kClosed_def)

theorem tick_runs_one_update_witness:
  "\<exists>d. TickBlockingWithDeadline 5 [(id, FR_timed_out)] \<lparr>rc_lockstep = a_running, cycle_start_nanoseconds = 0\<rparr> =
     (Inl (Error DeadlineExceeded), d) \<and> ls_state (rc_lockstep d) = LS_AFinished"
  using tick_runs_one_update[of "\<lparr>rc_lockstep = a_running, cycle_start_nanoseconds = 0\<rparr>" 5] by auto

section \<open>A lost cancellation, and a reset that is too early\<close>

text \<open>After \<^verbatim>\<open>Cancel\<close> has returned both sides go on as if nothing had happened.\<close>

lemma cancellation_can_be_lost:
  "ls_reachable True cancel_undone \<and> was_cancelled cancel_undone \<and> canceller cancel_undone = K_idle \<and>
   pcs cancel_undone SideB = O_idle \<and> (ls_step False)\<^sup>*\<^sup>* cancel_undone handed_over \<and> in_operation handed_over SideB"
  using cancel_undone_reachable cancel_undone_goes_on
  by (simp add: cancel_undone_def handed_over_def sys_at_def in_operation_def)

text \<open>A tick that runs into its deadline while the controller is in operation B, then the recommended reset: the clock is back in
  operation A while operation B runs, and the controller's update ends with an error.\<close>

lemma reset_overlaps_running_update:
  "let c = \<lparr>rc_lockstep = a_running, cycle_start_nanoseconds = 0\<rparr>;
       tick = TickBlockingWithDeadline 5 [(\<lambda>s. snd (StartOperationB [] s), FR_timed_out)] c;
       reset = RealtimeClock_Reset [] [] [] (snd tick)
   in fst tick = Inl (Error DeadlineExceeded) \<and> ls_state (rc_lockstep (snd tick)) = LS_BRunning \<and>
      reset = (Inr (), \<lparr>rc_lockstep = a_running, cycle_start_nanoseconds = 5\<rparr>) \<and>
      fst (EndOperationB (rc_lockstep (snd reset))) = Inl (Error FailedPrecondition)"
  by (simp add: TickBlockingWithDeadline_def RealtimeClock_Reset_def on_lockstep_def rt_defs rt_try_def rt_check_def Let_def
    EndOperationA_def StartOperationA_def EndOperationB_def StartOperationB_def a_running_def ls_post_def
    Futex_Post_def futex_take_def Lockstep_Cancel_def Lockstep_Reset_def kReady_def kPosted_def kClosed_def)

end
