(* ===== verification/Main_Loop.thy ===== *)
theory Main_Loop
  imports Command_Ledger Blocking_Call Lockstep "HOL-Library.Signed_Division"
begin

text \<open>
  \<^verbatim>\<open>intrinsic/icon/server/main_loop.{h,cc}\<close>: the thread that runs the controller. It prepares and activates
  the hardware, runs cycles (\<open>BeginCycle\<close>, \<open>Read\<close>, \<open>Update\<close>, \<open>Write\<close>, \<open>FinishCycle\<close>) until a
  shutdown is requested or a phase fails, and then shuts everything down. The cycles follow its own clock, or the clock of a hardware
  module with which it takes turns over a lockstep. Times and durations are nanoseconds, as unbounded integers; the code has 64 bits,
  with which a sum overflows three centuries from now.
\<close>

section \<open>Time\<close>

definition ToInt64Microseconds :: "int \<Rightarrow> int" where "ToInt64Microseconds d = d sdiv 1000"

text \<open>\<^verbatim>\<open>fromHz\<close>: \<open>10^9 / hz\<close> in binary64, cut off to an integer. A value that does not fit, or
  that is not a number, is undefined behaviour.\<close>

fun cast_int64 :: "double \<Rightarrow> int status_or" where
  "cast_int64 (Fin q) =
     (let n = (if 0 \<le> q then \<lfloor>q\<rfloor> else \<lceil>q\<rceil>) in if - (2 ^ 63) \<le> n \<and> n < 2 ^ 63 then Inr n else Inl Undefined)"
| "cast_int64 _ = Inl Undefined"

fun fromHz :: "double \<Rightarrow> int status_or" where
  "fromHz NaN = Inl Undefined"
| "fromHz (Inf _) = Inr 0"
| "fromHz (Fin hz) = (if hz = 0 then Inl Undefined else cast_int64 (round_double (1000000000 / hz)))"

text \<open>\<^verbatim>\<open>FindNextCycleEnd\<close> (\<^verbatim>\<open>utils/clock.cc\<close>). The division of C++ cuts off towards zero.\<close>

definition FindNextCycleEnd :: "int \<Rightarrow> int \<Rightarrow> int \<Rightarrow> int status_or" where
  "FindNextCycleEnd now end_time period =
     (if \<not> 0 < period then Inl LogFatal
      else if now < end_time then Inr (end_time + period)
      else
        let missed_cycles = (now - end_time) sdiv period
        in Inr (end_time + period * (missed_cycles + 1)))"

section \<open>State\<close>

datatype clock_mode = kInternalClock | kHardwareModuleDrivenClock

datatype clock_data = InternalClockParams (hard_deadline: bool) | RemoteClock (driving_hwm: string) (remote_lockstep: lockstep)

datatype server_runtime_mode = kNormal | kNonRealtime

record update_duration_stats =
  before_update_duration_us :: "32 word"
  begin_cycle_duration_us :: "32 word"
  read_duration_us :: "32 word"
  update_duration_us :: "32 word"
  write_duration_us :: "32 word"
  min_headroom_us :: "32 word"

definition initial_stats :: update_duration_stats where
  "initial_stats = \<lparr>before_update_duration_us = 0, begin_cycle_duration_us = 0, read_duration_us = 0, update_duration_us = 0,
     write_duration_us = 0, min_headroom_us = 2147483647\<rparr>"

text \<open>\<open>accepted_calls\<close> is no member of the class: it records the calls that clients have put into the queue of the control
  manager while the loop runs, and nothing reads it.\<close>

record ('w, 'ps) main_loop =
  control :: "('w, 'ps) control_sys"
  ml_clock_data :: clock_data
  ml_clock_mode :: clock_mode
  cycle_period :: int
  hard_cycle_time_timeout :: int
  hwm_read_write_timeout :: int
  runtime_mode :: server_runtime_mode
  loop_cycle_start :: int
  loop_cycle_end :: int
  shutdown_notification :: bool
  exit_status :: rt_status
  user_requested_shutdown :: bool
  update_stats :: update_duration_stats
  n_overruns :: nat
  current_cycle :: nat
  accepted_calls :: "op_command rt_handle list"

text \<open>What the loop runs in: the objects behind the interfaces, the clocks, the threads that request a shutdown or an operational state, and the process
  that drives the clock, with what it has done to the lockstep until an access of the loop and during one that waits.\<close>

record ('w, 'ps) loop_env =
  loop_plugins :: "('w, 'ps) plugins"
  loop_hwms :: "'w hwm_env"
  loop_safety :: "'w safety_env"
  loop_wait :: "'w wait_env"
  loop_now :: "'w \<Rightarrow> int \<times> 'w"
  wall_time :: "'w \<Rightarrow> int"
  stop_requested :: "'w \<Rightarrow> bool"
  client_calls :: "'w \<Rightarrow> op_command rt_handle list"
  clock_owner :: "'w \<Rightarrow> lockstep \<Rightarrow> lockstep"
  clock_script :: "'w \<Rightarrow> ls_script"
  owner_timestamp :: "'w \<Rightarrow> int"

definition kNonRealtimeHardCycleTimeout :: int where "kNonRealtimeHardCycleTimeout = 20000000000"
definition kHardwareModuleActivationTimeout :: int where "kHardwareModuleActivationTimeout = 10000000000"
definition kHardwareModulePrepareTimeout :: int where "kHardwareModulePrepareTimeout = 90000000000"

section \<open>Creation\<close>

text \<open>What \<^verbatim>\<open>Create\<close> is called with, and the code it calls. A null manager is \<open>None\<close>.\<close>

record ('w, 'ps) create_args =
  control_frequency_hz :: double
  internal_clock_hard_deadline :: bool
  read_write_timeout :: int
  ca_mode :: server_runtime_mode
  ca_manager :: "'w hwm_sys option"
  ca_clock_mode :: clock_mode
  hardware_module_that_drives_clock :: string
  GetSharedMemoryLockstep :: "nat \<Rightarrow> lockstep status_or"
  GetReadOnlyMemorySegment :: "nat \<Rightarrow> unit status_or"
  RealtimeControlManager_Create :: "'w hwm_sys \<Rightarrow> ('w, 'ps) control_sys status_or"

definition GetHardwareModuleProxy :: "string \<Rightarrow> 'w hwm_sys \<Rightarrow> nat option" where
  "GetHardwareModuleProxy name s = find (\<lambda>i. hwm_name (hwms s ! i) = name) [0..<length (hwms s)]"

definition hard_timeout :: "('w, 'ps) create_args \<Rightarrow> int status_or" where
  "hard_timeout a =
     (if ca_mode a = kNormal then so_bind (fromHz (control_frequency_hz a)) (\<lambda>d. Inr (100 * d))
      else Inr kNonRealtimeHardCycleTimeout)"

definition create_clock :: "('w, 'ps) create_args \<Rightarrow> 'w hwm_sys \<Rightarrow> clock_data status_or" where
  "create_clock a m =
     (if ca_clock_mode a = kHardwareModuleDrivenClock then
        (case GetHardwareModuleProxy (hardware_module_that_drives_clock a) m of
           None \<Rightarrow> Inl (Error FailedPrecondition)
         | Some i \<Rightarrow>
             so_bind (GetSharedMemoryLockstep a i) (\<lambda>l.
             so_bind (GetReadOnlyMemorySegment a i) (\<lambda>_. Inr (RemoteClock (hardware_module_that_drives_clock a) l))))
      else Inr (InternalClockParams (internal_clock_hard_deadline a)))"

definition MainLoop_Create :: "('w, 'ps) create_args \<Rightarrow> ('w, 'ps) main_loop status_or" where
  "MainLoop_Create a =
     (if d_le (control_frequency_hz a) (Fin 0) then Inl (Error InvalidArgument)
      else if ca_clock_mode a = kHardwareModuleDrivenClock \<and> hardware_module_that_drives_clock a = []
      then Inl (Error InvalidArgument)
      else if ca_clock_mode a \<noteq> kHardwareModuleDrivenClock \<and> hardware_module_that_drives_clock a \<noteq> []
      then Inl (Error InvalidArgument)
      else
        (case ca_manager a of
           None \<Rightarrow> Inl (Error InvalidArgument)
         | Some m \<Rightarrow>
             so_bind (hard_timeout a) (\<lambda>timeout.
             if ca_mode a = kNonRealtime \<and> internal_clock_hard_deadline a then Inl (Error InvalidArgument)
             else
               so_bind (create_clock a m) (\<lambda>clock.
               so_bind (RealtimeControlManager_Create a m) (\<lambda>c.
               so_bind (fromHz (control_frequency_hz a)) (\<lambda>period.
                 Inr \<lparr>control = c, ml_clock_data = clock, ml_clock_mode = ca_clock_mode a, cycle_period = period,
                   hard_cycle_time_timeout = timeout, hwm_read_write_timeout = read_write_timeout a, runtime_mode = ca_mode a,
                   loop_cycle_start = 0, loop_cycle_end = 0, shutdown_notification = False, exit_status = OkStatus,
                   user_requested_shutdown = False, update_stats = initial_stats, n_overruns = 0, current_cycle = 0,
                   accepted_calls = []\<rparr>))))))"

section \<open>Phases\<close>

definition on_control :: "(('w, 'ps) control_sys, 'a) rt \<Rightarrow> (('w, 'ps) main_loop, 'a) rt" where
  "on_control m s = (case m (control s) of (r, c) \<Rightarrow> (r, s\<lparr>control := c\<rparr>))"

abbreviation on_hwms :: "('w hwm_sys, 'a) rt \<Rightarrow> (('w, 'ps) main_loop, 'a) rt" where
  "on_hwms m \<equiv> on_control (on_rsm m)"

definition loop_world :: "('w, 'ps) main_loop \<Rightarrow> 'w" where "loop_world s = world (part_manager (control s))"

text \<open>\<^verbatim>\<open>absl::Now()\<close>, and \<^verbatim>\<open>Clock::now()\<close>.\<close>

definition absl_Now :: "('w, 'ps) loop_env \<Rightarrow> (('w, 'ps) main_loop, int) rt" where
  "absl_Now L = on_hwms (hw_call (clock_now (loop_hwms L)))"

definition Clock_now :: "('w, 'ps) loop_env \<Rightarrow> (('w, 'ps) main_loop, int) rt" where
  "Clock_now L = on_control (on_pm (world_call (loop_now L)))"

text \<open>Another thread may have called \<^verbatim>\<open>RequestShutdown\<close> before the flag is read. It stores two flags; nothing
  reads the second, so that both stores are one step.\<close>

definition RequestShutdown :: "('w, 'ps) main_loop \<Rightarrow> ('w, 'ps) main_loop" where
  "RequestShutdown s = s\<lparr>shutdown_notification := True, user_requested_shutdown := True\<rparr>"

text \<open>Clients call the control manager from other threads: what they have called since the loop last came here is in
  the queue of the bridge, unless the bridge is closed. The test whether it is closed and the insertion are one step; in the code another
  thread can close the bridge and empty the queue between them, and that call is never answered.\<close>

definition accept_calls :: "('w, 'ps) loop_env \<Rightarrow> ('w, 'ps) main_loop \<Rightarrow> ('w, 'ps) main_loop" where
  "accept_calls L s =
     (let hs = client_calls L (loop_world s) in
      if command_bridge_closed (control s) then s
      else s\<lparr>control := (control s)\<lparr>command_calls := command_calls (control s) @ hs\<rparr>, accepted_calls := accepted_calls s @ hs\<rparr>)"

definition other_threads :: "('w, 'ps) loop_env \<Rightarrow> ('w, 'ps) main_loop \<Rightarrow> ('w, 'ps) main_loop" where
  "other_threads L s = accept_calls L (if stop_requested L (loop_world s) then RequestShutdown s else s)"

definition load_shutdown :: "('w, 'ps) loop_env \<Rightarrow> (('w, 'ps) main_loop, bool) rt" where
  "load_shutdown L =
     rt_bind (rt_modify (other_threads L)) (\<lambda>_.
       rt_gets shutdown_notification)"

definition GetExitStatus :: "('w, 'ps) main_loop \<Rightarrow> rt_status option" where
  "GetExitStatus s = (if shutdown_notification s then Some (exit_status s) else None)"

text \<open>A call of the lockstep; \<^verbatim>\<open>std::get\<close> of the wrong alternative ends the process.\<close>

definition on_remote :: "('w, 'ps) loop_env \<Rightarrow> (lockstep, 'a) rt \<Rightarrow> (('w, 'ps) main_loop, 'a) rt" where
  "on_remote L m s =
     (case ml_clock_data s of
        InternalClockParams _ \<Rightarrow> (Inl LogFatal, s)
      | RemoteClock name l \<Rightarrow>
          (case m (clock_owner L (loop_world s) l) of (r, l') \<Rightarrow> (r, s\<lparr>ml_clock_data := RemoteClock name l'\<rparr>)))"

definition MainLoop_Read :: "('w, 'ps) loop_env \<Rightarrow> (('w, 'ps) main_loop, unit) rt" where
  "MainLoop_Read L =
     rt_bind (absl_Now L) (\<lambda>t.
     rt_bind (rt_gets hwm_read_write_timeout) (\<lambda>timeout.
       rt_fn (on_hwms (Read (loop_hwms L) (Some (t + timeout))))))"

definition MainLoop_Write :: "('w, 'ps) loop_env \<Rightarrow> (('w, 'ps) main_loop, unit) rt" where
  "MainLoop_Write L =
     rt_bind (rt_fn (on_hwms (ProcessTransitionRequestAsync (loop_hwms L)))) (\<lambda>_.
     rt_bind (absl_Now L) (\<lambda>t.
     rt_bind (rt_gets hwm_read_write_timeout) (\<lambda>timeout.
       rt_fn (on_hwms (Write (loop_hwms L) (Some (t + timeout)))))))"

definition MainLoop_Update :: "('w, 'ps) loop_env \<Rightarrow> (('w, 'ps) main_loop, unit) rt" where
  "MainLoop_Update L =
     rt_bind (rt_gets loop_cycle_start) (\<lambda>t.
     rt_bind (rt_gets loop_world) (\<lambda>w.
     rt_bind (rt_gets current_cycle) (\<lambda>n.
       rt_fn (on_control (Update (loop_plugins L) (loop_hwms L) (loop_safety L) t (wall_time L w) n)))))"

definition MainLoop_BeginCycle :: "('w, 'ps) loop_env \<Rightarrow> (('w, 'ps) main_loop, unit) rt" where
  "MainLoop_BeginCycle L =
     rt_bind (load_shutdown L) (\<lambda>stop.
     if stop then rt_fail (Error Aborted)
     else
       rt_bind (rt_modify (\<lambda>s. s\<lparr>current_cycle := Suc (current_cycle s)\<rparr>)) (\<lambda>_.
       rt_bind (rt_gets ml_clock_mode) (\<lambda>mode.
       if mode = kHardwareModuleDrivenClock then
         rt_bind (rt_gets loop_world) (\<lambda>w.
         rt_bind (rt_fn (on_remote L (StartOperationB (clock_script L w)))) (\<lambda>_.
           rt_modify (\<lambda>s. s\<lparr>loop_cycle_start := owner_timestamp L (loop_world s),
             loop_cycle_end := owner_timestamp L (loop_world s) + cycle_period s\<rparr>)))
       else rt_return ())))"

text \<open>The headroom of a cycle is kept as a 32-bit integer of microseconds.\<close>

definition headroom_us :: "int \<Rightarrow> 32 word" where "headroom_us duration = word_of_int (ToInt64Microseconds duration)"

definition note_headroom :: "int \<Rightarrow> ('w, 'ps) main_loop \<Rightarrow> ('w, 'ps) main_loop" where
  "note_headroom duration s =
     (let h = headroom_us duration;
          s1 = (if h <s min_headroom_us (update_stats s) then s\<lparr>update_stats := (update_stats s)\<lparr>min_headroom_us := h\<rparr>\<rparr> else s)
      in if h <s 0 \<and> runtime_mode s = kNormal then s1\<lparr>n_overruns := Suc (n_overruns s1)\<rparr> else s1)"

definition restart_cycle :: "('w, 'ps) loop_env \<Rightarrow> (('w, 'ps) main_loop, unit) rt" where
  "restart_cycle L =
     rt_bind (Clock_now L) (\<lambda>now.
     rt_bind (rt_modify (\<lambda>s. s\<lparr>loop_cycle_start := now\<rparr>)) (\<lambda>_.
     rt_bind (rt_lift_st (\<lambda>s. FindNextCycleEnd (loop_cycle_start s) (loop_cycle_end s) (cycle_period s))) (\<lambda>e.
       rt_modify (\<lambda>s. s\<lparr>loop_cycle_end := e\<rparr>))))"

definition next_cycle :: "('w, 'ps) loop_env \<Rightarrow> (('w, 'ps) main_loop, unit) rt" where
  "next_cycle L =
     rt_bind (Clock_now L) (\<lambda>now.
     rt_bind (rt_gets loop_cycle_end) (\<lambda>e.
     rt_bind (on_hwms (rt_modify (\<lambda>s. s\<lparr>hw := sleep_for (loop_wait L) (e - now) (hw s)\<rparr>))) (\<lambda>_.
     rt_bind (rt_modify (\<lambda>s. s\<lparr>loop_cycle_start := loop_cycle_end s\<rparr>)) (\<lambda>_.
       rt_modify (\<lambda>s. s\<lparr>loop_cycle_end := loop_cycle_end s + cycle_period s\<rparr>)))))"

definition MainLoop_FinishCycle :: "('w, 'ps) loop_env \<Rightarrow> int \<Rightarrow> (('w, 'ps) main_loop, unit) rt" where
  "MainLoop_FinishCycle L duration =
     rt_bind (rt_modify (note_headroom duration)) (\<lambda>_.
     rt_bind (rt_gets ml_clock_mode) (\<lambda>mode.
     if mode = kInternalClock then
       (if duration < 0 then
          rt_bind (rt_gets ml_clock_data) (\<lambda>clock.
          case clock of
            InternalClockParams hard \<Rightarrow> if hard then rt_fail (Error Aborted) else restart_cycle L
          | RemoteClock _ _ \<Rightarrow> rt_fail LogFatal)
        else next_cycle L)
     else rt_fn (on_remote L EndOperationB)))"

definition set_stats :: "(update_duration_stats \<Rightarrow> update_duration_stats) \<Rightarrow> (('w, 'ps) main_loop, unit) rt" where
  "set_stats f = rt_modify (\<lambda>s. s\<lparr>update_stats := f (update_stats s)\<rparr>)"

definition u32_us :: "int \<Rightarrow> 32 word" where "u32_us d = word_of_int (ToInt64Microseconds d)"

definition CyclicUpdate :: "('w, 'ps) loop_env \<Rightarrow> (('w, 'ps) main_loop, unit) rt" where
  "CyclicUpdate L =
     rt_bind (Clock_now L) (\<lambda>before_update.
     rt_bind (rt_gets loop_cycle_start) (\<lambda>start.
     rt_bind (set_stats (\<lambda>st. st\<lparr>before_update_duration_us := u32_us (before_update - start)\<rparr>)) (\<lambda>_.
     rt_bind (rt_fn (MainLoop_BeginCycle L)) (\<lambda>_.
     rt_bind (Clock_now L) (\<lambda>begin_cycle_done.
     rt_bind (rt_fn (MainLoop_Read L)) (\<lambda>_.
     rt_bind (Clock_now L) (\<lambda>read_done.
     rt_bind (MainLoop_Update L) (\<lambda>_.
     rt_bind (Clock_now L) (\<lambda>update_done.
     rt_bind (rt_fn (MainLoop_Write L)) (\<lambda>_.
     rt_bind (Clock_now L) (\<lambda>write_done.
     rt_bind (set_stats (\<lambda>st. st\<lparr>begin_cycle_duration_us := u32_us (begin_cycle_done - before_update),
        read_duration_us := u32_us (read_done - begin_cycle_done), update_duration_us := u32_us (update_done - read_done),
        write_duration_us := u32_us (write_done - update_done)\<rparr>)) (\<lambda>_.
     rt_bind (rt_gets loop_cycle_end) (\<lambda>cycle_end.
       rt_fn (MainLoop_FinishCycle L (cycle_end - write_done)))))))))))))))"

section \<open>The loop\<close>

definition ActivateHardwareModules :: "('w, 'ps) loop_env \<Rightarrow> (('w, 'ps) main_loop, unit) rt" where
  "ActivateHardwareModules L =
     rt_bind (load_shutdown L) (\<lambda>stop.
     if stop then rt_return ()
     else
       rt_bind (absl_Now L) (\<lambda>t.
         rt_fn (on_hwms (Activate (loop_hwms L) (Some (t + kHardwareModuleActivationTimeout))))))"

text \<open>\<open>None\<close>: the loop never ends. The calls of hardware modules, of plug-ins and of the clock are total functions of the
  environment: one that never returns would hold the loop of the code, and is outside the model.\<close>

partial_function (option) cyclic_loop ::
  "('w, 'ps) loop_env \<Rightarrow> ('w, 'ps) main_loop \<Rightarrow> (unit status_or \<times> ('w, 'ps) main_loop) option" where
  "cyclic_loop L s =
     (case load_shutdown L s of
        (Inl e, t) \<Rightarrow> Some (Inl e, t)
      | (Inr stop, t) \<Rightarrow>
          if stop then Some (Inr (), t)
          else (case CyclicUpdate L t of
                  (Inl e, u) \<Rightarrow> Some (Inl e, u)
                | (Inr _, u) \<Rightarrow> cyclic_loop L u))"

declare cyclic_loop.simps [code]

definition start_clock :: "('w, 'ps) loop_env \<Rightarrow> (('w, 'ps) main_loop, unit) rt" where
  "start_clock L =
     rt_bind (Clock_now L) (\<lambda>t. rt_modify (\<lambda>s. s\<lparr>loop_cycle_start := t, loop_cycle_end := t + cycle_period s\<rparr>))"

definition RunRt :: "('w, 'ps) loop_env \<Rightarrow> ('w, 'ps) main_loop \<Rightarrow> (unit status_or \<times> ('w, 'ps) main_loop) option" where
  "RunRt L s =
     (case rt_bind (ActivateHardwareModules L) (\<lambda>_. start_clock L) s of
        (Inl e, t) \<Rightarrow> Some (Inl e, t)
      | (Inr _, t) \<Rightarrow> cyclic_loop L t)"

definition CancelClockIfNeeded :: "('w, 'ps) loop_env \<Rightarrow> (('w, 'ps) main_loop, unit) rt" where
  "CancelClockIfNeeded L =
     rt_bind (rt_gets ml_clock_mode) (\<lambda>mode.
     rt_bind (rt_gets ml_clock_data) (\<lambda>clock.
     rt_when (mode \<noteq> kInternalClock)
       (case clock of InternalClockParams _ \<Rightarrow> rt_return () | RemoteClock _ _ \<Rightarrow> on_remote L Lockstep_Cancel)))"

definition MainLoop_Shutdown ::
  "('w, 'ps) loop_env \<Rightarrow> ('w, 'ps) main_loop \<Rightarrow> (unit status_or \<times> ('w, 'ps) main_loop) option" where
  "MainLoop_Shutdown L s =
     (case rt_bind (absl_Now L) (\<lambda>t.
           rt_bind (rt_try (on_hwms (TryDeactivate (loop_hwms L) (Some (t + 1000000000))))) (\<lambda>status.
           rt_bind (CancelClockIfNeeded L) (\<lambda>_. rt_return (status_of status)))) s of
        (Inl e, t) \<Rightarrow> Some (Inl e, t)
      | (Inr status, t) \<Rightarrow>
          let u = accept_calls L t in
          map_option (\<lambda>c. (if status = OkStatus then Inr () else Inl status, u\<lparr>control := c\<rparr>))
            (Shutdown (exit_status u) (control u)))"

definition prepare_loop :: "('w, 'ps) loop_env \<Rightarrow> int \<Rightarrow> ('w, 'ps) main_loop \<Rightarrow> (unit status_or \<times> ('w, 'ps) main_loop) option" where
  "prepare_loop L deadline s =
     map_option (\<lambda>(r, h). (r, s\<lparr>control := (control s)\<lparr>state_manager := h,
         part_manager := (part_manager (control s))\<lparr>world := hw h\<rparr>\<rparr>\<rparr>))
       (Prepare (loop_hwms L) (loop_wait L) deadline ((state_manager (control s))\<lparr>hw := loop_world s\<rparr>))"

text \<open>An error of the model that stands for the end of the process ends everything.\<close>

definition end_loop ::
  "('w, 'ps) loop_env \<Rightarrow> unit status_or \<Rightarrow> ('w, 'ps) main_loop \<Rightarrow> (unit status_or \<times> ('w, 'ps) main_loop) option" where
  "end_loop L r s =
     (if crash (status_of r) then Some (r, s)
      else MainLoop_Shutdown L (s\<lparr>exit_status := status_of r, shutdown_notification := True\<rparr>))"

definition MainLoop_Run :: "('w, 'ps) loop_env \<Rightarrow> ('w, 'ps) main_loop \<Rightarrow> (unit status_or \<times> ('w, 'ps) main_loop) option" where
  "MainLoop_Run L s =
     (case absl_Now L s of
        (Inl e, t) \<Rightarrow> Some (Inl e, t)
      | (Inr now, t) \<Rightarrow>
          (case prepare_loop L (now + kHardwareModulePrepareTimeout) t of
             None \<Rightarrow> None
           | Some (r, u) \<Rightarrow>
               if status_of r \<noteq> OkStatus then end_loop L r u
               else (case RunRt L u of None \<Rightarrow> None | Some (q, v) \<Rightarrow> end_loop L q v)))"

section \<open>The next cycle end\<close>

lemma sdiv_pos: "0 \<le> a \<Longrightarrow> 0 < b \<Longrightarrow> a sdiv b = a div (b :: int)"
  by (cases "a = 0") (simp_all add: signed_divide_int_def)

lemma FindNextCycleEnd_pos:
  assumes "0 < period"
  shows "FindNextCycleEnd now e period =
    Inr (if now < e then e + period else e + period * ((now - e) div period + 1))"
  using assms by (simp add: FindNextCycleEnd_def sdiv_pos)

lemma next_multiple:
  fixes p :: int
  assumes "0 < p" "0 \<le> d"
  shows "d < p * (d div p + 1)" "p * (d div p + 1) \<le> d + p" "d < p * k \<Longrightarrow> p * (d div p + 1) \<le> p * k"
proof -
  have d: "p * (d div p) + d mod p = d" by simp
  have m: "0 \<le> d mod p" "d mod p < p" using assms by simp_all
  show "d < p * (d div p + 1)" "p * (d div p + 1) \<le> d + p" using d m unfolding distrib_left by linarith+
  assume "d < p * k"
  moreover have "p * k \<le> p * (d div p)" if "k \<le> d div p" using that assms(1) by simp
  ultimately have "d div p < k" using d m by linarith
  then show "p * (d div p + 1) \<le> p * k" using assms(1) by simp
qed

lemma FindNextCycleEnd_spec:
  assumes "0 < period"
  shows "\<exists>r. FindNextCycleEnd now e period = Inr r \<and> now < r \<and> e < r \<and> period dvd r - e \<and>
    (\<forall>t. now < t \<and> e < t \<and> period dvd t - e \<longrightarrow> r \<le> t) \<and> (e \<le> now \<longrightarrow> r \<le> now + period)"
proof (cases "now < e")
  case True
  have "e + period \<le> t" if "e < t" "period dvd t - e" for t
    using zdvd_imp_le[OF that(2)] that(1) by simp
  then show ?thesis using True assms by (simp add: FindNextCycleEnd_pos)
next
  case False
  note mult = next_multiple[OF assms, of "now - e"]
  have "e + period * ((now - e) div period + 1) \<le> t" if "now < t" "period dvd t - e" for t
  proof -
    from \<open>period dvd t - e\<close> obtain k where k: "t - e = period * k" ..
    then show ?thesis using mult(3)[of k] \<open>now < t\<close> False by simp
  qed
  then show ?thesis using False assms mult by (auto simp: FindNextCycleEnd_pos)
qed

section \<open>Runs of the loop\<close>

text \<open>Cycles that go through, and how the loop ends after them.\<close>

inductive cycles :: "('w, 'ps) loop_env \<Rightarrow> ('w, 'ps) main_loop \<Rightarrow> ('w, 'ps) main_loop \<Rightarrow> bool" for L where
  no_cycle: "cycles L s s"
| one_more: "load_shutdown L s = (Inr False, u) \<Longrightarrow> CyclicUpdate L u = (Inr (), v) \<Longrightarrow> cycles L v t \<Longrightarrow> cycles L s t"

definition loop_ends :: "('w, 'ps) loop_env \<Rightarrow> ('w, 'ps) main_loop \<Rightarrow> unit status_or \<Rightarrow> ('w, 'ps) main_loop \<Rightarrow> bool" where
  "loop_ends L s r t \<longleftrightarrow>
     (case load_shutdown L s of
        (Inl e, u) \<Rightarrow> r = Inl e \<and> t = u
      | (Inr stop, u) \<Rightarrow>
          if stop then r = Inr () \<and> t = u
          else (case CyclicUpdate L u of (Inl e, v) \<Rightarrow> r = Inl e \<and> t = v | (Inr _, v) \<Rightarrow> False))"

lemma cyclic_loop_ends:
  assumes "cyclic_loop L s = Some (r, t)"
  shows "\<exists>u. cycles L s u \<and> loop_ends L u r t"
proof -
  have "\<forall>r t. y = (r, t) \<longrightarrow> (\<exists>u. cycles L s u \<and> loop_ends L u r t)" if "cyclic_loop L s = Some y" for y
  proof (rule cyclic_loop.raw_induct[OF _ that])
    fix f :: "('a, 'b) loop_env \<Rightarrow> ('a, 'b) main_loop \<Rightarrow> (unit status_or \<times> ('a, 'b) main_loop) option" and L s y
    assume IH: "\<And>L s y. f L s = Some y \<Longrightarrow> \<forall>r t. y = (r, t) \<longrightarrow> (\<exists>u. cycles L s u \<and> loop_ends L u r t)"
      and run: "(case load_shutdown L s of (Inl e, t) \<Rightarrow> Some (Inl e, t)
        | (Inr stop, t) \<Rightarrow> if stop then Some (Inr (), t)
            else (case CyclicUpdate L t of (Inl e, u) \<Rightarrow> Some (Inl e, u) | (Inr _, u) \<Rightarrow> f L u)) = Some y"
    show "\<forall>r t. y = (r, t) \<longrightarrow> (\<exists>u. cycles L s u \<and> loop_ends L u r t)"
    proof (intro allI impI)
      fix r t assume y: "y = (r, t)"
      obtain q u where load: "load_shutdown L s = (q, u)" by fastforce
      obtain w v where upd: "CyclicUpdate L u = (w, v)" by fastforce
      show "\<exists>u. cycles L s u \<and> loop_ends L u r t"
      proof (cases "q = Inr False \<and> w = Inr ()")
        case True
        then have "f L v = Some y" using run load upd by simp
        from IH[OF this] y obtain u' where "cycles L v u'" "loop_ends L u' r t" by blast
        then show ?thesis using True load upd one_more by blast
      next
        case False
        then have "loop_ends L s r t" using run y load upd
          by (cases q; cases w) (auto simp: loop_ends_def split: if_splits)
        then show ?thesis using no_cycle by blast
      qed
    qed
  qed
  then show ?thesis using assms by blast
qed

lemma load_shutdown_run:
  "load_shutdown L s =
     (let u = other_threads L s in (Inr (shutdown_notification u), u))"
  by (simp add: load_shutdown_def rt_defs Let_def)

section \<open>Invariants of the loop\<close>

text \<open>Predicates that all phases of a cycle keep: what each of them may change.\<close>

locale loop_inv =
  fixes L :: "('w, 'ps) loop_env" and mode :: clock_mode and P :: "('w, 'ps) main_loop \<Rightarrow> bool"
  assumes has_mode: "P s \<Longrightarrow> ml_clock_mode s = mode"
    and keeps_control: "P s \<Longrightarrow> command_ledger c = command_ledger (control s) \<Longrightarrow> P (s\<lparr>control := c\<rparr>)"
    and keeps_others: "P s \<Longrightarrow> P (other_threads L s)"
    and keeps_cycle: "P s \<Longrightarrow> P (s\<lparr>current_cycle := n\<rparr>)"
    and keeps_stats: "P s \<Longrightarrow> P (s\<lparr>update_stats := st\<rparr>)"
    and keeps_overruns: "P s \<Longrightarrow> P (s\<lparr>n_overruns := n\<rparr>)"
    and keeps_remote: "P s \<Longrightarrow> ml_clock_data s = RemoteClock name l \<Longrightarrow> P (s\<lparr>ml_clock_data := RemoteClock name l'\<rparr>)"
    and keeps_tick: "P s \<Longrightarrow> mode = kHardwareModuleDrivenClock \<Longrightarrow>
      P (s\<lparr>loop_cycle_start := t, loop_cycle_end := t + cycle_period s\<rparr>)"
    and keeps_restart: "P s \<Longrightarrow> mode = kInternalClock \<Longrightarrow>
      FindNextCycleEnd t (loop_cycle_end s) (cycle_period s) = Inr e \<Longrightarrow> P (s\<lparr>loop_cycle_start := t, loop_cycle_end := e\<rparr>)"
    and keeps_next: "P s \<Longrightarrow> mode = kInternalClock \<Longrightarrow>
      P (s\<lparr>loop_cycle_start := loop_cycle_end s, loop_cycle_end := loop_cycle_end s + cycle_period s\<rparr>)"
begin

abbreviation keeps :: "(('w, 'ps) main_loop, 'a) rt \<Rightarrow> bool" where
  "keeps m \<equiv> rt_spec P m (\<lambda>_. P) (\<lambda>e s. crash e \<or> P s)"

lemma keepsI: "rt_inv P m \<Longrightarrow> keeps m"
  by (erule rt_spec_conseq) auto

lemma keeps_fn: "keeps m \<Longrightarrow> keeps (rt_fn m)"
  by (rule rt_spec_fn) (auto elim!: rt_spec_conseq simp: crash_def)

lemma inv_on_control: "(\<And>X. rt_inv (ledger_is X) m) \<Longrightarrow> rt_inv P (on_control m)"
  by (rule rt_specI) (auto simp: on_control_def intro!: keeps_control ledger_run[of m] split: prod.splits)

lemma inv_on_hwms: "rt_inv P (on_hwms m)"
  by (rule inv_on_control) (rule ledger_objects)

lemma inv_now: "rt_inv P (Clock_now L)" "rt_inv P (absl_Now L)"
  by (simp_all add: Clock_now_def absl_Now_def inv_on_control ledger_objects)

lemma inv_load_shutdown: "rt_inv P (load_shutdown L)"
  unfolding load_shutdown_def by (intro rt_rules rt_spec_modify) (simp add: keeps_others)

lemma inv_on_remote: "rt_inv P (on_remote L m)"
  by (rule rt_specI) (auto simp: on_remote_def keeps_remote split: prod.splits clock_data.splits)

lemma inv_set_stats: "rt_inv P (set_stats f)"
  unfolding set_stats_def by (rule rt_spec_modify) (rule keeps_stats)

lemma inv_Read: "rt_inv P (MainLoop_Read L)"
  unfolding MainLoop_Read_def by (intro rt_rules inv_now inv_on_hwms)

lemma inv_Write: "rt_inv P (MainLoop_Write L)"
  unfolding MainLoop_Write_def by (intro rt_rules inv_now inv_on_hwms)

lemma inv_Update: "rt_inv P (MainLoop_Update L)"
  unfolding MainLoop_Update_def by (intro rt_rules inv_on_control ledger_Update)

lemma keeps_bind: "rt_inv P m \<Longrightarrow> (\<And>x. keeps (f x)) \<Longrightarrow> keeps (rt_bind m f)"
  by (rule rt_spec_bind[where R = "\<lambda>_. P", OF keepsI])

lemma inv_BeginCycle: "rt_inv P (MainLoop_BeginCycle L)"
proof -
  have tick: "rt_inv P (rt_modify (\<lambda>s. s\<lparr>loop_cycle_start := owner_timestamp L (loop_world s),
      loop_cycle_end := owner_timestamp L (loop_world s) + cycle_period s\<rparr>))" if "mode = kHardwareModuleDrivenClock"
    using that by (intro rt_spec_modify keeps_tick)
  have remote: "rt_inv P (rt_bind (rt_gets loop_world) (\<lambda>w.
         rt_bind (rt_fn (on_remote L (StartOperationB (clock_script L w)))) (\<lambda>_.
           rt_modify (\<lambda>s. s\<lparr>loop_cycle_start := owner_timestamp L (loop_world s),
             loop_cycle_end := owner_timestamp L (loop_world s) + cycle_period s\<rparr>))))" if "mode = kHardwareModuleDrivenClock"
    by (intro rt_inv_bind rt_inv_gets rt_inv_fn inv_on_remote tick that)
  show ?thesis unfolding MainLoop_BeginCycle_def
    by (rule rt_inv_bind[OF inv_load_shutdown], rule rt_inv_if[OF rt_inv_fail], rule rt_inv_bind, rule rt_spec_modify,
      erule keeps_cycle, rule rt_inv_gets_const[OF has_mode], assumption, auto intro: remote rt_inv_return)
qed

lemma keeps_restart_cycle: "mode = kInternalClock \<Longrightarrow> keeps (restart_cycle L)"
proof -
  assume m: "mode = kInternalClock"
  have "keeps (rt_bind (rt_modify (\<lambda>s. s\<lparr>loop_cycle_start := now\<rparr>)) (\<lambda>_.
     rt_bind (rt_lift_st (\<lambda>s. FindNextCycleEnd (loop_cycle_start s) (loop_cycle_end s) (cycle_period s))) (\<lambda>e.
       rt_modify (\<lambda>s. s\<lparr>loop_cycle_end := e\<rparr>))))" for now
    by (rule rt_specI)
      (auto simp: rt_defs FindNextCycleEnd_def crash_def Let_def m split: sum.splits if_splits
        intro!: keeps_restart)
  then show ?thesis unfolding restart_cycle_def by (rule keeps_bind[OF inv_now(1)])
qed

lemma inv_next_cycle: "mode = kInternalClock \<Longrightarrow> rt_inv P (next_cycle L)"
proof -
  assume m: "mode = kInternalClock"
  have "rt_inv P (rt_bind (rt_modify (\<lambda>s. s\<lparr>loop_cycle_start := loop_cycle_end s\<rparr>)) (\<lambda>_.
       rt_modify (\<lambda>s. s\<lparr>loop_cycle_end := loop_cycle_end s + cycle_period s\<rparr>)))"
    by (rule rt_specI) (auto simp: rt_defs m dest: keeps_next)
  then show ?thesis unfolding next_cycle_def
    by (intro rt_inv_bind[OF inv_now(1)] rt_inv_bind[OF rt_inv_gets] rt_inv_bind[OF inv_on_hwms])
qed

lemma inv_note_headroom: "rt_inv P (rt_modify (note_headroom duration))"
  by (rule rt_spec_modify) (auto simp: note_headroom_def Let_def intro!: keeps_stats keeps_overruns)

lemma keeps_FinishCycle: "keeps (MainLoop_FinishCycle L duration)"
proof -
  have restart: "keeps (rt_bind (rt_gets ml_clock_data) (\<lambda>clock.
      case clock of
        InternalClockParams hard \<Rightarrow> if hard then rt_fail (Error Aborted) else restart_cycle L
      | RemoteClock _ _ \<Rightarrow> rt_fail LogFatal))" if "mode = kInternalClock"
  proof (rule rt_spec_bind[where R = "\<lambda>_. P"])
    show "keeps (case clock of
        InternalClockParams hard \<Rightarrow> if hard then rt_fail (Error Aborted) else restart_cycle L
      | RemoteClock _ _ \<Rightarrow> rt_fail LogFatal)" for clock
      by (cases clock) (auto intro: keepsI rt_inv_fail keeps_restart_cycle that)
  qed (rule rt_spec_gets)
  have "keeps (rt_bind (rt_gets ml_clock_mode) (\<lambda>mode.
     if mode = kInternalClock then
       (if duration < 0 then
          rt_bind (rt_gets ml_clock_data) (\<lambda>clock.
          case clock of
            InternalClockParams hard \<Rightarrow> if hard then rt_fail (Error Aborted) else restart_cycle L
          | RemoteClock _ _ \<Rightarrow> rt_fail LogFatal)
        else next_cycle L)
     else rt_fn (on_remote L EndOperationB)))"
    by (rule rt_spec_bind[where R = "\<lambda>m s. P s \<and> m = mode"], rule rt_spec_gets, simp add: has_mode)
      (rule rt_spec_split, auto intro: rt_spec_pre[OF _ restart] rt_spec_pre[OF _ keepsI[OF inv_next_cycle]]
        rt_spec_pre[OF _ keepsI[OF rt_inv_fn[OF inv_on_remote]]])
  then show ?thesis unfolding MainLoop_FinishCycle_def
    by (rule rt_spec_bind[where R = "\<lambda>_. P", OF keepsI[OF inv_note_headroom]])
qed

lemma keeps_CyclicUpdate: "keeps (CyclicUpdate L)"
  unfolding CyclicUpdate_def
  by (intro keeps_bind keeps_fn[OF keeps_FinishCycle] inv_now inv_set_stats rt_inv_gets rt_inv_fn inv_BeginCycle inv_Read
      inv_Update inv_Write)

lemma cycles_keep: "cycles L s t \<Longrightarrow> P s \<Longrightarrow> P t"
proof (induction rule: cycles.induct)
  case (one_more s u v t)
  then show ?case
    using rt_specD_Inr[OF inv_load_shutdown, of s False u] rt_specD_Inr[OF keeps_CyclicUpdate, of u "()" v] by blast
qed

lemma loop_ends_keep: "loop_ends L s r t \<Longrightarrow> P s \<Longrightarrow> crash (status_of r) \<or> P t"
  using rt_invD[OF inv_load_shutdown, of s] rt_specD_Inl[OF keeps_CyclicUpdate, of "snd (load_shutdown L s)"]
  by (auto simp: loop_ends_def split: prod.splits sum.splits if_splits)

lemma cyclic_loop_keeps: "cyclic_loop L s = Some (r, t) \<Longrightarrow> P s \<Longrightarrow> crash (status_of r) \<or> P t"
  by (drule cyclic_loop_ends) (blast dest: cycles_keep loop_ends_keep)

end

text \<open>The internal clock never leaves its phase, and every cycle ends after its start.\<close>

definition in_phase :: "int \<Rightarrow> int \<Rightarrow> ('w, 'ps) main_loop \<Rightarrow> bool" where
  "in_phase p e s \<longleftrightarrow> ml_clock_mode s = kInternalClock \<and> 0 < p \<and> cycle_period s = p \<and> p dvd loop_cycle_end s - e \<and>
     loop_cycle_start s < loop_cycle_end s"

interpretation phase: loop_inv L kInternalClock "in_phase p e" for L p e
proof unfold_locales
  fix s :: "('a, 'b) main_loop" and t r
  assume s: "in_phase p e s" and find: "FindNextCycleEnd t (loop_cycle_end s) (cycle_period s) = Inr r"
  then have p: "0 < p" "cycle_period s = p" "p dvd loop_cycle_end s - e" by (simp_all add: in_phase_def)
  from FindNextCycleEnd_spec[OF p(1), of t "loop_cycle_end s"] find p(2)
  have r: "t < r" "p dvd r - loop_cycle_end s" by auto
  from dvd_add[OF r(2) p(3)] have "p dvd r - e" by simp
  then show "in_phase p e (s\<lparr>loop_cycle_start := t, loop_cycle_end := r\<rparr>)" using s r by (simp add: in_phase_def)
qed (auto simp: in_phase_def RequestShutdown_def other_threads_def accept_calls_def Let_def algebra_simps dest: dvd_add[OF dvd_refl])

text \<open>The flags and the clock fit: the loop stops by itself only, or for a request, and a lockstep is there when it is needed.\<close>

definition loop_ok :: "clock_mode \<Rightarrow> ('w, 'ps) main_loop \<Rightarrow> bool" where
  "loop_ok mode s \<longleftrightarrow> ml_clock_mode s = mode \<and> (mode = kHardwareModuleDrivenClock \<longleftrightarrow> (\<exists>name l. ml_clock_data s = RemoteClock name l)) \<and>
     (shutdown_notification s \<longrightarrow> user_requested_shutdown s)"

text \<open>Every call that was accepted is in the ledger of the control manager. \<open>A\<close> and \<open>B\<close> are what was accepted and in the
  ledger at the start.\<close>

definition loop_books :: "clock_mode \<Rightarrow> op_command multiset \<Rightarrow> op_command multiset \<Rightarrow> ('w, 'ps) main_loop \<Rightarrow> bool" where
  "loop_books mode A B s \<longleftrightarrow> loop_ok mode s \<and> command_ledger (control s) + A = B + mset (map call_args (accepted_calls s))"

lemma ledger_accept: "command_ledger (control (accept_calls L s)) + mset (map call_args (accepted_calls s)) =
   command_ledger (control s) + mset (map call_args (accepted_calls (accept_calls L s)))"
  by (simp add: accept_calls_def command_ledger_def Let_def)

lemma books_accept: "loop_books mode A B s \<Longrightarrow> loop_books mode A B (accept_calls L s)"
  using ledger_accept[of L s] by (auto simp: loop_books_def loop_ok_def accept_calls_def command_ledger_def Let_def ac_simps)

lemma books_request: "loop_books mode A B s \<Longrightarrow> loop_books mode A B (RequestShutdown s)"
  by (auto simp: loop_books_def loop_ok_def RequestShutdown_def)

interpretation books: loop_inv L mode "loop_books mode A B" for L mode A B
proof unfold_locales
  show "loop_books mode A B s \<Longrightarrow> loop_books mode A B (other_threads L s)" for s :: "('a, 'b) main_loop"
    by (simp add: other_threads_def books_accept books_request)
qed (auto simp: loop_books_def loop_ok_def)

section \<open>Deactivation\<close>

text \<open>Computations that fail with a real error only, and what their results are.\<close>

definition real_spec :: "('s, 'a) rt \<Rightarrow> ('a \<Rightarrow> bool) \<Rightarrow> bool" where
  "real_spec m Q \<longleftrightarrow> rt_spec (\<lambda>_. True) m (\<lambda>x _. Q x) (\<lambda>e _. e \<noteq> OkStatus)"

lemma real_spec_bind: "real_spec m R \<Longrightarrow> (\<And>x. R x \<Longrightarrow> real_spec (f x) Q) \<Longrightarrow> real_spec (rt_bind m f) Q"
  unfolding real_spec_def
  by (rule rt_spec_bind[where R = "\<lambda>x _. R x"], assumption) (auto simp: rt_spec_def split: prod.splits sum.splits)

lemma real_specD: "real_spec m Q \<Longrightarrow> m s = (Inl e, t) \<Longrightarrow> e \<noteq> OkStatus"
  by (fastforce simp: real_spec_def dest: rt_specD_Inl)

lemma real_spec_then: "real_spec m (\<lambda>_. True) \<Longrightarrow> (\<And>x. real_spec (f x) Q) \<Longrightarrow> real_spec (rt_bind m f) Q"
  by (rule real_spec_bind)

lemma real_spec_rules:
  "Q x \<Longrightarrow> real_spec (rt_return x) Q" "e \<noteq> OkStatus \<Longrightarrow> real_spec (rt_fail e) Q" "real_spec (rt_gets f) (\<lambda>_. True)"
  "real_spec (rt_modify g) (\<lambda>_. True)" "real_spec (rt_check e) (\<lambda>_. True)" "real_spec (hw_call h) (\<lambda>_. True)"
  "real_spec (rt_try m) (\<lambda>_. True)"
  by (auto simp: real_spec_def rt_spec_def rt_defs hw_call_def crash_def split: prod.splits sum.splits)

lemma real_spec_if: "real_spec m Q \<Longrightarrow> real_spec n Q \<Longrightarrow> real_spec (if b then m else n) Q"
  by simp

lemma real_spec_cases:
  "(\<And>x. real_spec (f x) Q) \<Longrightarrow> (\<And>y. real_spec (g y) Q) \<Longrightarrow> real_spec (case r of Inl x \<Rightarrow> f x | Inr y \<Rightarrow> g y) Q"
  "(\<And>x y. p = (x, y) \<Longrightarrow> real_spec (h x y) Q) \<Longrightarrow> real_spec (case p of (x, y) \<Rightarrow> h x y) Q"
  "real_spec m Q \<Longrightarrow> (\<And>z. real_spec (k z) Q) \<Longrightarrow> real_spec (case opt of None \<Rightarrow> m | Some z \<Rightarrow> k z) Q"
  by ((cases r; simp), (cases p; simp), (cases opt; simp))

lemma real_spec_fold:
  "(\<And>x a. Q a \<Longrightarrow> real_spec (b x a) Q) \<Longrightarrow> Q a \<Longrightarrow> real_spec (rt_fold xs b a) Q"
  by (induction xs arbitrary: a) (auto intro: real_spec_rules real_spec_bind)

lemma real_spec_request:
  "real_spec (AsyncRequest_Valid r) (\<lambda>_. True)" "real_spec (AsyncRequest_Ready E r) (\<lambda>_. True)"
  "real_spec (AsyncRequest_WaitUntil E d r) (\<lambda>_. True)"
  unfolding AsyncRequest_Valid_def AsyncRequest_Ready_def AsyncRequest_WaitUntil_def
  by (intro real_spec_then real_spec_cases real_spec_rules real_spec_if; simp)+

abbreviation no_ok :: "rt_status option \<Rightarrow> bool" where "no_ok first_error \<equiv> first_error \<noteq> Some OkStatus"

lemma real_start_call: "no_ok first_error \<Longrightarrow> real_spec (start_call E kind i first_error) no_ok"
  unfolding start_call_def
  by (intro real_spec_then real_spec_cases real_spec_request real_spec_if real_spec_rules)
    (auto simp: append_status_def split: option.splits)

lemma real_await_call: "no_ok (snd acc) \<Longrightarrow> real_spec (await_call E deadline i acc) (\<lambda>acc. no_ok (snd acc))"
  unfolding await_call_def
  by (intro real_spec_then real_spec_cases real_spec_request real_spec_if real_spec_rules)
    (auto simp: append_status_def split: option.splits)

lemma real_check_final_state: "no_ok first_error \<Longrightarrow> real_spec (check_final_state E fs i first_error) no_ok"
  unfolding check_final_state_def
  by (intro real_spec_then real_spec_cases real_spec_rules) (auto simp: append_status_def split: option.splits)

lemma real_fail_if_error: "no_ok first_error \<Longrightarrow> real_spec (fail_if_error first_error) (\<lambda>_. True)"
  by (auto simp: fail_if_error_def intro: real_spec_rules split: option.splits)

lemma real_blocking_call: "real_spec (BlockingMultiHardwareModuleCallRT E kind deadline fs) (\<lambda>_. True)"
  unfolding BlockingMultiHardwareModuleCallRT_def
  by (intro real_spec_then[OF real_spec_rules(3)] real_spec_bind[OF real_spec_fold[where Q = no_ok], OF real_start_call]
      real_spec_then[OF real_fail_if_error] real_spec_bind[OF real_spec_fold[where Q = "\<lambda>acc. no_ok (snd acc)"], OF real_await_call]
      real_spec_cases real_spec_if real_spec_bind[where R = no_ok] real_spec_fold[OF real_check_final_state] real_fail_if_error
      real_spec_rules real_spec_then[OF real_spec_rules(6)]) simp_all

text \<open>The number of modules stays.\<close>

definition module_count :: "nat \<Rightarrow> 'w hwm_sys \<Rightarrow> bool" where "module_count n s \<longleftrightarrow> length (hwms s) = n"

lemma module_count_hw_call: "rt_inv (module_count n) (hw_call f)"
  by (rule rt_specI) (auto simp: hw_call_def module_count_def split: prod.splits)

lemma module_count_modify: "(\<And>s. length (hwms (g s)) = length (hwms s)) \<Longrightarrow> rt_inv (module_count n) (rt_modify g)"
  by (rule rt_spec_modify) (simp add: module_count_def)

lemma module_count_requests:
  "rt_inv (module_count n) (AsyncRequest_Valid r)" "rt_inv (module_count n) (AsyncRequest_Ready E r)"
  "rt_inv (module_count n) (AsyncRequest_WaitUntil E d r)" "rt_inv (module_count n) (TriggerAsync E c)"
  unfolding AsyncRequest_Valid_def AsyncRequest_Ready_def AsyncRequest_WaitUntil_def TriggerAsync_def
  by (intro rt_rules module_count_hw_call module_count_modify; simp add: set_started_def)+

lemma module_count_calls:
  "rt_inv (module_count n) (start_call E kind i fe)" "rt_inv (module_count n) (await_call E d i acc)"
  unfolding start_call_def await_call_def
  by (intro rt_rules module_count_hw_call module_count_requests module_count_modify; simp)+

text \<open>Reading the state of a module, or the time, changes no state of a module.\<close>

definition quiet_reads :: "'w hwm_env \<Rightarrow> bool" where
  "quiet_reads E \<longleftrightarrow> pure_states E \<and> (\<forall>i w. module_state E i (snd (clock_now E w)) = module_state E i w)"

lemma check_final_state_run:
  assumes "pure_states E"
  shows "check_final_state E fs i fe s =
    (Inr (if module_state E i (hw s) \<in> set fs then fe else append_status fe (Error Unavailable)), s)"
proof -
  obtain code m where "hw_state E i (hw s) = ((code, m), hw s)" using assms by (metis pure_states_def prod.collapse)
  then show ?thesis by (simp add: check_final_state_def rt_defs hw_call_def module_state_def)
qed

lemma check_final_states_None:
  assumes "pure_states E" "rt_fold is (check_final_state E fs) fe s = (Inr None, t)"
  shows "t = s \<and> fe = None \<and> (\<forall>i \<in> set is. module_state E i (hw s) \<in> set fs)"
  using assms(2)
proof (induction "is" arbitrary: fe)
  case (Cons i "is")
  have "rt_fold is (check_final_state E fs)
      (if module_state E i (hw s) \<in> set fs then fe else append_status fe (Error Unavailable)) s = (Inr None, t)"
    using Cons.prems by (simp add: rt_bind_run[OF check_final_state_run[OF assms(1)]])
  from Cons.IH[OF this] show ?case by (simp add: append_status_def split: if_splits option.splits)
qed (auto simp: rt_defs)

lemma fail_if_error_Inr: "fail_if_error fe s = (Inr u, t) \<longleftrightarrow> fe = None \<and> t = s"
  by (auto simp: fail_if_error_def rt_defs split: option.splits)

lemma blocking_call_ok:
  assumes "quiet_reads E" "BlockingMultiHardwareModuleCallRT E kind deadline fs s = (Inr (), t)" "fs \<noteq> []"
  shows "\<forall>i < length (hwms t). module_state E i (hw t) \<in> set fs"
proof -
  have pure: "pure_states E" using assms(1) by (simp add: quiet_reads_def)
  have module_count: "module_count (length (hwms s)) s" by (simp add: module_count_def)
  obtain fe1 u1 found fe2 u2 fe3 u3 now w where run:
    "rt_fold [0..<length (hwms s)] (start_call E kind) None s = (Inr fe1, u1)"
    "rt_fold [0..<length (hwms s)] (await_call E deadline) (False, fe1) u1 = (Inr (found, fe2), u2)"
    "rt_fold [0..<length (hwms s)] (check_final_state E fs) fe2 u2 = (Inr None, u3)"
    "clock_now E (hw u3) = (now, w)" "t = u3\<lparr>hw := w\<rparr>"
    using assms(2,3)
    by (auto simp: BlockingMultiHardwareModuleCallRT_def rt_Inr_iff hw_call_Inr fail_if_error_Inr split: if_splits prod.splits)
  have "module_count (length (hwms s)) u1"
    using rt_specD_Inr[OF rt_inv_fold[OF module_count_calls(1)] module_count run(1)] .
  from rt_specD_Inr[OF rt_inv_fold[OF module_count_calls(2)] this run(2)] have "length (hwms u2) = length (hwms s)"
    by (simp add: module_count_def)
  with check_final_states_None[OF pure run(3)] have "\<forall>i < length (hwms u3). module_state E i (hw u3) \<in> set fs" by auto
  then show ?thesis using assms(1) run(4,5) by (auto simp: quiet_reads_def) (metis snd_conv)
qed

section \<open>The end of the loop\<close>

lemma on_control_frame: "on_control m s = (r, t) \<Longrightarrow> \<exists>c. t = s\<lparr>control := c\<rparr>"
  by (auto simp: on_control_def split: prod.splits)

lemma absl_Now_runs: "\<exists>now t. absl_Now L s = (Inr now, t)"
  by (cases "clock_now (loop_hwms L) (loop_world s)")
    (simp add: absl_Now_def on_control_def on_rsm_def hw_call_def loop_world_def)

lemma on_hwms_run:
  assumes "on_hwms m s = (r, t)"
  obtains h where "m ((state_manager (control s))\<lparr>hw := loop_world s\<rparr>) = (r, h)"
    "state_manager (control t) = h" "loop_world t = hw h"
  using assms by (auto simp: on_control_def on_rsm_def loop_world_def split: prod.splits)

text \<open>Cancelling posts both futexes and leaves the lockstep cancelled, whatever the other side has done.\<close>

lemma Lockstep_Cancel_run: "\<exists>l'. Lockstep_Cancel l = (Inr (), l') \<and> ls_state l' = LS_Cancelled"
  by (auto simp: Lockstep_Cancel_def rt_defs ls_post_def crash_def Futex_Post_def split: prod.splits if_splits)

lemma Shutdown_keeps:
  assumes "Shutdown st c = Some d"
  shows "state_manager d = state_manager c \<and> world (part_manager d) = world (part_manager c) \<and>
    length (session_managers d) = length (session_managers c)"
proof -
  obtain c3 where c3: "d = snd (SetSessionManagerErrorCleanupNotification st c3)"
    "state_manager c3 = state_manager c" "part_manager c3 = part_manager c" "session_managers c3 = session_managers c"
    using assms by (auto simp: Shutdown_def Let_def abort_commands_eq abort_command_eq split: option.splits if_splits)
  obtain d' where "SetSessionManagerErrorCleanupNotification st c3 = (Inr (), d')" "all_ended st c3 d'"
    by (rule end_sessions_eq)
  then have "same_outside c3 d" using c3(1) by (simp add: sessions_ended_def)
  from same_outside_fields[OF this] c3 show ?thesis by simp
qed

definition clock_there :: "('w, 'ps) main_loop \<Rightarrow> bool" where
  "clock_there s \<longleftrightarrow> (ml_clock_mode s = kHardwareModuleDrivenClock \<longleftrightarrow> (\<exists>name l. ml_clock_data s = RemoteClock name l))"

lemma CancelClock_run:
  assumes "clock_there s"
  shows "\<exists>clock. CancelClockIfNeeded L s = (Inr (), s\<lparr>ml_clock_data := clock\<rparr>) \<and>
    (ml_clock_mode s = kHardwareModuleDrivenClock \<longrightarrow> (\<exists>name l. clock = RemoteClock name l \<and> ls_state l = LS_Cancelled))"
proof (cases "ml_clock_mode s")
  case kInternalClock
  then have "CancelClockIfNeeded L s = (Inr (), s\<lparr>ml_clock_data := ml_clock_data s\<rparr>)"
    by (simp add: CancelClockIfNeeded_def rt_defs)
  then show ?thesis using kInternalClock by (intro exI[of _ "ml_clock_data s"]) simp
next
  case kHardwareModuleDrivenClock
  then obtain name l where l: "ml_clock_data s = RemoteClock name l" using assms by (auto simp: clock_there_def)
  obtain l' where "Lockstep_Cancel (clock_owner L (loop_world s) l) = (Inr (), l')" "ls_state l' = LS_Cancelled"
    using Lockstep_Cancel_run by blast
  then have "CancelClockIfNeeded L s = (Inr (), s\<lparr>ml_clock_data := RemoteClock name l'\<rparr>)"
    using l kHardwareModuleDrivenClock by (simp add: CancelClockIfNeeded_def rt_defs on_remote_def)
  then show ?thesis using \<open>ls_state l' = LS_Cancelled\<close> by blast
qed

lemma try_crash: "rt_try m s = (Inl e, t) \<Longrightarrow> crash e"
  by (auto simp: rt_try_def split: prod.splits sum.splits if_splits)

lemma try_deactivate_ok:
  assumes "quiet_reads (loop_hwms L)" "rt_try (on_hwms (TryDeactivate (loop_hwms L) d)) s = (Inr q, t)" "status_of q = OkStatus"
  shows "\<forall>i < length (hwms (state_manager (control t))).
    module_state (loop_hwms L) i (loop_world t) \<in> {HwmDeactivated, HwmFatallyFaulted, HwmInitFailed}"
proof -
  obtain r where r: "on_hwms (TryDeactivate (loop_hwms L) d) s = (r, t)"
    using assms(2) by (auto simp: rt_try_def split: prod.splits sum.splits if_splits)
  then obtain h where h: "TryDeactivate (loop_hwms L) d ((state_manager (control s))\<lparr>hw := loop_world s\<rparr>) = (r, h)"
    "state_manager (control t) = h" "loop_world t = hw h" by (rule on_hwms_run)
  have "r \<noteq> Inl OkStatus" using real_specD[OF real_blocking_call] h(1) unfolding TryDeactivate_def by blast
  moreover have "status_of r = OkStatus" using assms(2,3) r by (cases r) (auto simp: rt_try_def split: if_splits)
  ultimately have "r = Inr ()" by (cases r) auto
  from blocking_call_ok[OF assms(1) h(1)[unfolded this TryDeactivate_def]] h(2,3) show ?thesis by simp
qed

text \<open>When the control manager shuts down it answers all calls.\<close>

lemma Shutdown_ledger: "Shutdown st c = Some d \<Longrightarrow> mset (map fst (command_results d)) = command_ledger c"
  using Shutdown_result[of st c] by (auto simp: command_ledger_def comp_def split: option.splits if_splits)

lemma ledger_trans:
  fixes x :: "'z multiset"
  shows "x = y \<Longrightarrow> y + a = z + b \<Longrightarrow> z + c = w + a \<Longrightarrow> x + c = w + b"
  by (metis add.assoc add.commute add_right_cancel)

lemma on_hwms_ledger: "on_hwms m s = (r, t) \<Longrightarrow> command_ledger (control t) = command_ledger (control s)"
  by (auto simp: on_control_def split: prod.splits intro: ledger_run[OF ledger_objects(2)])

lemma accept_calls_fields [simp]:
  "exit_status (accept_calls L s) = exit_status s" "shutdown_notification (accept_calls L s) = shutdown_notification s"
  "user_requested_shutdown (accept_calls L s) = user_requested_shutdown s" "ml_clock_mode (accept_calls L s) = ml_clock_mode s"
  "ml_clock_data (accept_calls L s) = ml_clock_data s" "part_manager (control (accept_calls L s)) = part_manager (control s)"
  "state_manager (control (accept_calls L s)) = state_manager (control s)"
  by (simp_all add: accept_calls_def Let_def)

lemma MainLoop_Shutdown_result:
  assumes "MainLoop_Shutdown L s = Some (r, t)" "\<not> crash (status_of r)" "clock_there s"
  obtains c where "exit_status t = exit_status s" "shutdown_notification t = shutdown_notification s"
    "user_requested_shutdown t = user_requested_shutdown s" "ml_clock_mode t = ml_clock_mode s"
    "ml_clock_mode s = kHardwareModuleDrivenClock \<longrightarrow> (\<exists>name l. ml_clock_data t = RemoteClock name l \<and> ls_state l = LS_Cancelled)"
    "Shutdown (exit_status s) c = Some (control t)"
    "command_ledger c + mset (map call_args (accepted_calls s)) = command_ledger (control s) + mset (map call_args (accepted_calls t))"
    "r = Inr () \<Longrightarrow> quiet_reads (loop_hwms L) \<Longrightarrow> \<forall>i < length (hwms (state_manager (control t))).
       module_state (loop_hwms L) i (loop_world t) \<in> {HwmDeactivated, HwmFatallyFaulted, HwmInitFailed}"
proof -
  obtain now s1 where now: "absl_Now L s = (Inr now, s1)"
    using absl_Now_runs by blast
  then obtain c1 where s1: "s1 = s\<lparr>control := c1\<rparr>" using on_control_frame unfolding absl_Now_def by blast
  have led1: "command_ledger c1 = command_ledger (control s)"
    using on_hwms_ledger[of _ s] now s1 unfolding absl_Now_def by fastforce
  obtain q s2 where dea: "rt_try (on_hwms (TryDeactivate (loop_hwms L) (Some (now + 1000000000)))) s1 = (q, s2)" by fastforce
  then obtain c2 where s2: "s2 = s\<lparr>control := c2\<rparr>"
    using s1 by (auto simp: rt_try_def on_control_def split: prod.splits sum.splits if_splits)
  obtain r2 where "on_hwms (TryDeactivate (loop_hwms L) (Some (now + 1000000000))) s1 = (r2, s2)"
    using dea by (auto simp: rt_try_def split: prod.splits sum.splits if_splits)
  from on_hwms_ledger[OF this] have led2: "command_ledger c2 = command_ledger (control s)" using led1 s1 s2 by simp
  have "clock_there s2" using s2 assms(3) by (simp add: clock_there_def)
  then obtain clock where cancel: "CancelClockIfNeeded L s2 = (Inr (), s2\<lparr>ml_clock_data := clock\<rparr>)"
    "ml_clock_mode s = kHardwareModuleDrivenClock \<longrightarrow> (\<exists>name l. clock = RemoteClock name l \<and> ls_state l = LS_Cancelled)"
    using CancelClock_run[of s2 L] s2 by auto
  obtain q' where q: "q = Inr q'"
  proof (cases q)
    case (Inl e)
    then have "MainLoop_Shutdown L s = Some (Inl e, s2)" using now dea
      by (simp add: MainLoop_Shutdown_def rt_bind_run) (simp add: rt_bind_def)
    then show ?thesis using assms(1,2) try_crash[OF dea[unfolded Inl]] by simp
  qed
  let ?status = "status_of q'"
  define u where "u = accept_calls L (s2\<lparr>ml_clock_data := clock\<rparr>)"
  have u: "exit_status u = exit_status s" "shutdown_notification u = shutdown_notification s"
    "user_requested_shutdown u = user_requested_shutdown s" "ml_clock_mode u = ml_clock_mode s" "ml_clock_data u = clock"
    "part_manager (control u) = part_manager c2" "state_manager (control u) = state_manager c2"
    by (simp_all add: u_def s2)
  have ledger: "command_ledger (control u) + mset (map call_args (accepted_calls s)) =
      command_ledger (control s) + mset (map call_args (accepted_calls u))"
    using ledger_accept[of L "s2\<lparr>ml_clock_data := clock\<rparr>"] led2 by (simp add: u_def s2)
  have "MainLoop_Shutdown L s =
      map_option (\<lambda>c. (if ?status = OkStatus then Inr () else Inl ?status, u\<lparr>control := c\<rparr>)) (Shutdown (exit_status s) (control u))"
    using now dea q cancel(1) u(1) by (simp add: MainLoop_Shutdown_def rt_bind_run rt_return_def u_def Let_def)
  then obtain d where d: "Shutdown (exit_status s) (control u) = Some d" "t = u\<lparr>control := d\<rparr>"
    "r = (if ?status = OkStatus then Inr () else Inl ?status)"
    using assms(1) by (cases "Shutdown (exit_status s) (control u)") auto
  show ?thesis
  proof (rule that[of "control u"])
    assume ok: "r = Inr ()" "quiet_reads (loop_hwms L)"
    then have "?status = OkStatus" using d(3) by (auto split: if_splits)
    from try_deactivate_ok[OF ok(2) dea[unfolded q] this] Shutdown_keeps[OF d(1)] s2 d(2) u(6,7)
    show "\<forall>i < length (hwms (state_manager (control t))).
       module_state (loop_hwms L) i (loop_world t) \<in> {HwmDeactivated, HwmFatallyFaulted, HwmInitFailed}"
      by (simp add: loop_world_def)
  qed (use d u ledger cancel(2) in auto)
qed

text \<open>What a run of the loop says about the flags.\<close>

lemma real_fn: "real_spec (rt_fn m) (\<lambda>_. True)"
  by (auto simp: real_spec_def rt_spec_def rt_fn_def split: prod.splits sum.splits rt_status.splits)

lemma real_now: "real_spec (Clock_now L) (\<lambda>_. True)" "real_spec (absl_Now L) (\<lambda>_. True)"
  by (auto simp: Clock_now_def absl_Now_def real_spec_def rt_spec_def on_control_def on_pm_def on_rsm_def world_call_def hw_call_def
      split: prod.splits)

lemma real_load_shutdown: "real_spec (load_shutdown L) (\<lambda>_. True)"
  unfolding load_shutdown_def by (intro real_spec_then real_spec_rules)

lemma real_Update: "real_spec (MainLoop_Update L) (\<lambda>_. True)"
  unfolding MainLoop_Update_def by (intro real_spec_then real_spec_rules real_fn)

lemma real_CyclicUpdate: "real_spec (CyclicUpdate L) (\<lambda>_. True)"
  unfolding CyclicUpdate_def set_stats_def by (intro real_spec_then real_spec_rules real_fn real_now real_Update)

lemma real_start: "real_spec (rt_bind (ActivateHardwareModules L) (\<lambda>_. start_clock L)) (\<lambda>_. True)"
  unfolding ActivateHardwareModules_def start_clock_def
  by (intro real_spec_then real_spec_rules real_spec_if real_fn real_now real_load_shutdown) simp

lemma loop_ends_stopped: "loop_ends L s r t \<Longrightarrow> status_of r = OkStatus \<Longrightarrow> r = Inr () \<and> shutdown_notification t"
  using real_specD[OF real_CyclicUpdate, of L "snd (load_shutdown L s)" OkStatus t]
  by (auto simp: loop_ends_def load_shutdown_run Let_def split: prod.splits sum.splits if_splits)

lemma books_ok: "loop_books mode A B s \<Longrightarrow> loop_ok mode s"
  by (simp add: loop_books_def)

lemma start_books: "rt_inv (loop_books mode A B) (rt_bind (ActivateHardwareModules L) (\<lambda>_. start_clock L))"
proof -
  have "rt_inv (loop_books mode A B) (start_clock L)"
    unfolding start_clock_def by (intro rt_rules books.inv_now rt_spec_modify) (simp add: loop_books_def loop_ok_def)
  then show ?thesis unfolding ActivateHardwareModules_def
    by (intro rt_rules books.inv_load_shutdown books.inv_now books.inv_on_hwms)
qed

lemma RunRt_result:
  assumes "RunRt L s = Some (r, t)" "loop_books mode A B s" "\<not> crash (status_of r)"
  shows "loop_books mode A B t \<and> (status_of r = OkStatus \<longrightarrow> r = Inr () \<and> shutdown_notification t)"
proof -
  obtain q u where start: "rt_bind (ActivateHardwareModules L) (\<lambda>_. start_clock L) s = (q, u)" by fastforce
  have u: "loop_books mode A B u" using rt_invD[OF start_books assms(2), of L] start by simp
  show ?thesis
  proof (cases q)
    case (Inl e)
    then have "e \<noteq> OkStatus" using real_specD[OF real_start] start by blast
    then show ?thesis using assms(1) start Inl u by (auto simp: RunRt_def)
  next
    case (Inr x)
    then have loop: "cyclic_loop L u = Some (r, t)" using assms(1) start by (simp add: RunRt_def)
    then show ?thesis using books.cyclic_loop_keeps[OF loop u] assms(3) cyclic_loop_ends[OF loop] loop_ends_stopped by blast
  qed
qed

lemma prepare_loop_keeps: "prepare_loop L d s = Some (r, t) \<Longrightarrow> loop_books mode A B s \<Longrightarrow> loop_books mode A B t"
  by (auto simp: prepare_loop_def loop_books_def loop_ok_def command_ledger_def)

lemma loop_ok_clock: "loop_ok mode s \<Longrightarrow> clock_there s"
  by (auto simp: loop_ok_def clock_there_def)

text \<open>Every run that is not ended by the end of the process ends in the shutdown sequence.\<close>

lemma MainLoop_Run_shutdown:
  assumes "MainLoop_Run L s = Some (r, t)" "\<not> crash (status_of r)" "loop_ok mode s"
  obtains u st where "MainLoop_Shutdown L (u\<lparr>exit_status := st, shutdown_notification := True\<rparr>) = Some (r, t)"
    "clock_there u" "ml_clock_mode u = mode" "st = OkStatus \<Longrightarrow> user_requested_shutdown u"
    "command_ledger (control u) + mset (map call_args (accepted_calls s)) =
       command_ledger (control s) + mset (map call_args (accepted_calls u))"
proof -
  let ?books = "loop_books mode (mset (map call_args (accepted_calls s))) (command_ledger (control s))"
  have s: "?books s" using assms(3) by (simp add: loop_books_def)
  obtain now s1 where now: "absl_Now L s = (Inr now, s1)" using absl_Now_runs by blast
  have s1: "?books s1" using rt_specD_Inr[OF books.inv_now(2) s now] .
  obtain q v where prep: "prepare_loop L (now + kHardwareModulePrepareTimeout) s1 = Some (q, v)"
    using assms(1) now by (auto simp: MainLoop_Run_def split: option.splits)
  have v: "?books v" by (rule prepare_loop_keeps[OF prep s1])
  show ?thesis
  proof (cases "status_of q = OkStatus")
    case False
    then have e: "end_loop L q v = Some (r, t)" using assms(1) now prep by (simp add: MainLoop_Run_def)
    then have "\<not> crash (status_of q)" using assms(2) by (auto simp: end_loop_def)
    then show ?thesis using that[of "status_of q" v] e v False loop_ok_clock[OF books_ok[OF v]]
      by (simp add: end_loop_def loop_books_def loop_ok_def)
  next
    case True
    then obtain q' u where run: "RunRt L v = Some (q', u)" and e: "end_loop L q' u = Some (r, t)"
      using assms(1) now prep by (auto simp: MainLoop_Run_def split: option.splits)
    have nc: "\<not> crash (status_of q')" using e assms(2) by (auto simp: end_loop_def)
    have u: "?books u" "status_of q' = OkStatus \<Longrightarrow> shutdown_notification u"
      using RunRt_result[OF run v nc] by auto
    show ?thesis using that[of "status_of q'" u] e nc u loop_ok_clock[OF books_ok[OF u(1)]]
      by (simp add: end_loop_def loop_books_def loop_ok_def)
  qed
qed

section \<open>Samples\<close>

text \<open>Hardware that follows the requests, in a world that counts what happens; two parts that a session controls.\<close>

definition staged_hwms :: "nat hwm_env" where
  "staged_hwms = \<lparr>is_connected = \<lambda>_. True,
     post_request = \<lambda>(i, k) w. (OkStatus, case k of T_Prepare \<Rightarrow> 1000 | T_Activate \<Rightarrow> 2000 | T_Deactivate \<Rightarrow> 3000 | _ \<Rightarrow> w),
     try_wait_response = \<lambda>c w. (Some False, w), response_value = \<lambda>c w. (kPosted, w),
     await_response = \<lambda>c d w. (OkStatus, w), clock_now = \<lambda>w. (0, w),
     hw_state = \<lambda>i w. ((if w < 1000 then HwmDeactivated else if w < 2000 then HwmPrepared else if w < 3000 then HwmActivated
        else HwmDeactivated, []), w), hw_mark_cycle = \<lambda>i w. ((), w)\<rparr>"

definition sample_call :: "op_command rt_handle" where
  "sample_call = \<lparr>call_args = Cmd_kClearFaults, call_lock = \<lambda>_. True, call_attempts = 0\<rparr>"

definition sample_loop_env :: "(nat, nat) plugins \<Rightarrow> nat \<Rightarrow> (nat, nat) loop_env" where
  "sample_loop_env E stop_at = \<lparr>loop_plugins = E, loop_hwms = staged_hwms, loop_safety = sample_safety_env,
     loop_wait = \<lparr>sleep_for = \<lambda>d w. w, iteration_order = \<lambda>is. is\<rparr>, loop_now = \<lambda>w. (int w, w + 1), wall_time = int,
     stop_requested = \<lambda>w. stop_at \<le> w, client_calls = \<lambda>w. if w = 2001 then [sample_call] else [],
     clock_owner = \<lambda>w l. l\<lparr>a_finished := kPosted, ls_state := LS_AFinished\<rparr>,
     clock_script = \<lambda>w. [], owner_timestamp = int\<rparr>"

definition sample_loop :: "clock_mode \<Rightarrow> clock_data \<Rightarrow> (nat, nat) main_loop" where
  "sample_loop mode clock = \<lparr>control = sample_control HwmDeactivated HwmDeactivated, ml_clock_data = clock, ml_clock_mode = mode,
     cycle_period = 1000, hard_cycle_time_timeout = 100000, hwm_read_write_timeout = 1000, runtime_mode = kNormal,
     loop_cycle_start = 0, loop_cycle_end = 1000, shutdown_notification = False, exit_status = OkStatus,
     user_requested_shutdown = False, update_stats = initial_stats, n_overruns = 0, current_cycle = 0,
     accepted_calls = []\<rparr>"

definition driven_loop :: "(nat, nat) main_loop" where
  "driven_loop = (sample_loop kHardwareModuleDrivenClock (RemoteClock ''arm'' mk_Lockstep))
     \<lparr>control := (sample_control HwmDeactivated HwmDeactivated)\<lparr>session_managers := [sample_session_sys sample_session [Some 2, None]],
        state_manager := (state_manager (sample_control HwmDeactivated HwmDeactivated))\<lparr>hwms := [sample_hwm HwmDeactivated]\<rparr>\<rparr>\<rparr>"

definition internal_loop :: "(nat, nat) main_loop" where
  "internal_loop = (sample_loop kInternalClock (InternalClockParams False))\<lparr>control := control driven_loop\<rparr>"

declare lock_wait.simps [code]

lemma failing_run:
  "\<exists>t. MainLoop_Run (sample_loop_env silent_plugins 5000) driven_loop = Some (Inr (), t) \<and> exit_status t = Error DeadlineExceeded \<and>
     length (hwms (state_manager (control t))) = 1 \<and> map call_args (accepted_calls t) = [Cmd_kClearFaults]"
proof -
  have "map_option (\<lambda>(r, t). (r, exit_status t, length (hwms (state_manager (control t))), map call_args (accepted_calls t)))
      (MainLoop_Run (sample_loop_env silent_plugins 5000) driven_loop) = Some (Inr (), Error DeadlineExceeded, 1, [Cmd_kClearFaults])" by code_simp
  then show ?thesis by auto
qed

lemma internal_cycle: "\<exists>t. cycles (sample_loop_env sample_plugins 5000) internal_loop t \<and> loop_cycle_start t = 1000"
proof -
  let ?L = "sample_loop_env sample_plugins 5000"
  have "(\<lambda>(r, t). (r, loop_cycle_start t)) (CyclicUpdate ?L internal_loop) = (Inr (), 1000)" by code_simp
  then obtain t where t: "CyclicUpdate ?L internal_loop = (Inr (), t)" "loop_cycle_start t = 1000"
    by (auto split: prod.splits)
  have "load_shutdown ?L internal_loop = (Inr False, internal_loop)"
    by (simp add: load_shutdown_run other_threads_def accept_calls_def internal_loop_def sample_loop_def driven_loop_def sample_loop_env_def loop_world_def
        sample_control_def sample_sys_def)
  then show ?thesis using t one_more no_cycle by blast
qed

section \<open>Properties\<close>

text \<open>C19 (bounds). After an overrun the next cycle ends at the first moment that is later than now and than the last end and
  keeps the phase of the clock; it is never more than one period away once the last end is over.\<close>

theorem next_cycle_end_is_least:
  assumes "0 < period"
  shows "\<exists>r. FindNextCycleEnd now e period = Inr r \<and> now < r \<and> e < r \<and> period dvd r - e \<and>
    (\<forall>t. now < t \<and> e < t \<and> period dvd t - e \<longrightarrow> r \<le> t) \<and> (e \<le> now \<longrightarrow> r \<le> now + period)"
  by (rule FindNextCycleEnd_spec[OF assms])

theorem next_cycle_end_is_least_witness: "FindNextCycleEnd 6 2 3 = Inr 8"
proof -
  obtain r k where r: "FindNextCycleEnd 6 2 3 = Inr r" "6 < r" "r - 2 = 3 * k" "r \<le> 9"
    using next_cycle_end_is_least[of 3 6 2] by (auto elim!: dvdE)
  then have "k = 2" by presburger
  then have "r = 8" using r(3) by simp
  with r(1) show ?thesis by simp
qed

text \<open>C17 (invariant). The internal clock never drifts: however many cycles overrun and by how much, the end of every cycle is a
  whole number of periods after the end of the first one, and a cycle starts before it ends.\<close>

theorem internal_clock_keeps_phase:
  assumes "cycles L s t" "ml_clock_mode s = kInternalClock" "0 < cycle_period s" "loop_cycle_start s < loop_cycle_end s"
  shows "cycle_period s dvd loop_cycle_end t - loop_cycle_end s \<and> loop_cycle_start t < loop_cycle_end t"
  using phase.cycles_keep[OF assms(1), of "cycle_period s" "loop_cycle_end s"] assms(2-4) by (simp add: in_phase_def)

theorem internal_clock_keeps_phase_witness:
  "\<exists>t. cycles (sample_loop_env sample_plugins 5000) internal_loop t \<and> loop_cycle_start t = 1000 \<and> 1000 dvd loop_cycle_end t - 1000"
proof -
  obtain t where t: "cycles (sample_loop_env sample_plugins 5000) internal_loop t" "loop_cycle_start t = 1000"
    using internal_cycle by blast
  from internal_clock_keeps_phase[OF t(1)] t show ?thesis by (auto simp: internal_loop_def sample_loop_def)
qed

text \<open>C16 (safety). However the main loop ends, unless the process crashes - the hardware does not get ready, a cycle fails, somebody asks it to stop - it ends in
  order: the other side gets its exit status, every session is over with that status, and a clock that a hardware module drives is
  cancelled. Every call for an operational state that was waiting before or accepted while the loop ran has been answered exactly once, no call is left
  and no new one is taken. The exit status is OK only if somebody asked.\<close>

theorem main_loop_ends_orderly:
  assumes "MainLoop_Run L s = Some (r, t)" "\<not> crash (status_of r)" "loop_ok mode s"
  shows "GetExitStatus t = Some (exit_status t) \<and> (exit_status t = OkStatus \<longrightarrow> user_requested_shutdown t) \<and>
    mset (map fst (command_results (control t))) + mset (map call_args (accepted_calls s)) =
      command_ledger (control s) + mset (map call_args (accepted_calls t)) \<and>
    command_bridge_closed (control t) \<and> current_command (control t) = None \<and> command_calls (control t) = [] \<and>
    (\<forall>i < length (session_managers (control t)). \<not> has_channels (session_managers (control t) ! i) \<and>
       session_status (session_managers (control t) ! i) = exit_status t) \<and>
    (mode = kHardwareModuleDrivenClock \<longrightarrow> (\<exists>name l. ml_clock_data t = RemoteClock name l \<and> ls_state l = LS_Cancelled))"
proof -
  obtain u st where u: "MainLoop_Shutdown L (u\<lparr>exit_status := st, shutdown_notification := True\<rparr>) = Some (r, t)"
    "clock_there u" "ml_clock_mode u = mode" "st = OkStatus \<Longrightarrow> user_requested_shutdown u"
    "command_ledger (control u) + mset (map call_args (accepted_calls s)) =
       command_ledger (control s) + mset (map call_args (accepted_calls u))"
    using MainLoop_Run_shutdown[OF assms] by blast
  have "clock_there (u\<lparr>exit_status := st, shutdown_notification := True\<rparr>)" using u(2) by (simp add: clock_there_def)
  note shut = MainLoop_Shutdown_result[OF u(1) assms(2) this]
  have "\<exists>c. exit_status t = st \<and> shutdown_notification t \<and> user_requested_shutdown t = user_requested_shutdown u \<and>
    (mode = kHardwareModuleDrivenClock \<longrightarrow> (\<exists>name l. ml_clock_data t = RemoteClock name l \<and> ls_state l = LS_Cancelled)) \<and>
    Shutdown st c = Some (control t) \<and>
    command_ledger c + mset (map call_args (accepted_calls u)) = command_ledger (control u) + mset (map call_args (accepted_calls t))"
    by (rule shut) (use u(3) in \<open>simp; blast\<close>)
  then obtain c where c: "exit_status t = st" "shutdown_notification t"
    "user_requested_shutdown t = user_requested_shutdown u"
    "mode = kHardwareModuleDrivenClock \<longrightarrow> (\<exists>name l. ml_clock_data t = RemoteClock name l \<and> ls_state l = LS_Cancelled)"
    "Shutdown st c = Some (control t)"
    "command_ledger c + mset (map call_args (accepted_calls u)) = command_ledger (control u) + mset (map call_args (accepted_calls t))"
    by blast
  have "mset (map fst (command_results (control t))) = command_ledger c" by (rule Shutdown_ledger[OF c(5)])
  then have "mset (map fst (command_results (control t))) + mset (map call_args (accepted_calls s)) =
      command_ledger (control s) + mset (map call_args (accepted_calls t))"
    by (rule ledger_trans[OF _ c(6) u(5)])
  moreover note Shutdown_result[of st c] Shutdown_keeps[OF c(5)] c(1-5) u(4)
  ultimately show ?thesis by (auto simp: GetExitStatus_def ended_def)
qed

theorem main_loop_ends_orderly_witness:
  "\<exists>t. MainLoop_Run (sample_loop_env silent_plugins 5000) driven_loop = Some (Inr (), t) \<and>
     exit_status t = Error DeadlineExceeded \<and> Cmd_kClearFaults \<in> fst ` set (command_results (control t))"
proof -
  obtain t where t: "MainLoop_Run (sample_loop_env silent_plugins 5000) driven_loop = Some (Inr (), t)"
    "exit_status t = Error DeadlineExceeded" "map call_args (accepted_calls t) = [Cmd_kClearFaults]"
    using failing_run by (elim exE conjE)
  have ok: "loop_ok kHardwareModuleDrivenClock driven_loop" by (simp add: loop_ok_def driven_loop_def sample_loop_def)
  have "mset (map fst (command_results (control t))) = {#Cmd_kClearFaults#}"
    using main_loop_ends_orderly[OF t(1) _ ok] t(3)
    by (simp add: crash_def driven_loop_def sample_loop_def command_ledger_def sample_control_def)
  then have "Cmd_kClearFaults \<in># mset (map fst (command_results (control t)))" by simp
  with t show ?thesis by auto
qed

text \<open>C18 (safety). A main loop that reports success has left the hardware deactivated: no module is in any state but deactivated,
  except for modules that are broken for good (provided that reading the states of the modules does not change them).\<close>

theorem success_means_deactivated:
  assumes "MainLoop_Run L s = Some (Inr (), t)" "loop_ok mode s" "quiet_reads (loop_hwms L)"
    and "i < length (hwms (state_manager (control t)))"
  shows "module_state (loop_hwms L) i (loop_world t) \<in> {HwmDeactivated, HwmFatallyFaulted, HwmInitFailed}"
proof -
  have nc: "\<not> crash (status_of (Inr () :: unit status_or))" by (simp add: crash_def)
  obtain u st where u: "MainLoop_Shutdown L (u\<lparr>exit_status := st, shutdown_notification := True\<rparr>) = Some (Inr (), t)"
    "clock_there u" using MainLoop_Run_shutdown[OF assms(1) nc assms(2)] by blast
  have "clock_there (u\<lparr>exit_status := st, shutdown_notification := True\<rparr>)" using u(2) by (simp add: clock_there_def)
  then show ?thesis by (rule MainLoop_Shutdown_result[OF u(1) nc]) (use assms(3,4) in simp)
qed

theorem success_means_deactivated_witness:
  "\<exists>t. MainLoop_Run (sample_loop_env silent_plugins 5000) driven_loop = Some (Inr (), t) \<and>
     module_state staged_hwms 0 (loop_world t) \<in> {HwmDeactivated, HwmFatallyFaulted, HwmInitFailed}"
proof -
  obtain t where t: "MainLoop_Run (sample_loop_env silent_plugins 5000) driven_loop = Some (Inr (), t)"
    "length (hwms (state_manager (control t))) = 1" using failing_run by blast
  have "loop_ok kHardwareModuleDrivenClock driven_loop" by (simp add: loop_ok_def driven_loop_def sample_loop_def)
  moreover have "quiet_reads (loop_hwms (sample_loop_env silent_plugins 5000))"
    by (simp add: quiet_reads_def pure_states_def sample_loop_env_def staged_hwms_def module_state_def)
  moreover have "loop_hwms (sample_loop_env silent_plugins 5000) = staged_hwms" by (simp add: sample_loop_env_def)
  ultimately show ?thesis using success_means_deactivated[OF t(1), of kHardwareModuleDrivenClock 0] t by auto
qed

text \<open>A main loop that was created is ready to run: its clock is there, and it has not ended.\<close>

lemma created_loop_is_ready:
  assumes "MainLoop_Create a = Inr s"
  shows "loop_ok (ca_clock_mode a) s \<and> GetExitStatus s = None \<and> fromHz (control_frequency_hz a) = Inr (cycle_period s)"
proof -
  obtain m clock c period timeout where s: "create_clock a m = Inr clock" "fromHz (control_frequency_hz a) = Inr period"
    "s = \<lparr>control = c, ml_clock_data = clock, ml_clock_mode = ca_clock_mode a, cycle_period = period,
       hard_cycle_time_timeout = timeout, hwm_read_write_timeout = read_write_timeout a, runtime_mode = ca_mode a,
       loop_cycle_start = 0, loop_cycle_end = 0, shutdown_notification = False, exit_status = OkStatus,
       user_requested_shutdown = False, update_stats = initial_stats, n_overruns = 0, current_cycle = 0,
     accepted_calls = []\<rparr>"
    using assms by (auto simp: MainLoop_Create_def so_bind_Inr_iff split: if_splits option.splits)
  from s(1) have "ca_clock_mode a = kHardwareModuleDrivenClock \<longleftrightarrow> (\<exists>name l. clock = RemoteClock name l)"
    by (auto simp: create_clock_def so_bind_Inr_iff split: if_splits option.splits)
  then show ?thesis using s(2,3) by (simp add: loop_ok_def GetExitStatus_def)
qed

text \<open>Only frequencies up to zero are refused: above one gigahertz the period is zero, and the first overrun ends the process; a
  frequency that is not a number is converted.\<close>

definition sample_args :: "double \<Rightarrow> (nat, nat) create_args" where
  "sample_args hz = \<lparr>control_frequency_hz = hz, internal_clock_hard_deadline = False, read_write_timeout = 1000, ca_mode = kNormal,
     ca_manager = Some (state_manager (control driven_loop)), ca_clock_mode = kInternalClock, hardware_module_that_drives_clock = [],
     GetSharedMemoryLockstep = \<lambda>i. Inr mk_Lockstep, GetReadOnlyMemorySegment = \<lambda>i. Inr (),
     RealtimeControlManager_Create = \<lambda>m. Inr (control driven_loop)\<rparr>"

lemma frequency_without_period:
  "map_sum id cycle_period (MainLoop_Create (sample_args (Fin 4000000000))) = Inr 0"
  "map_sum id cycle_period (MainLoop_Create (sample_args NaN)) = Inl Undefined"
  "FindNextCycleEnd now e 0 = Inl LogFatal"
  by (code_simp, code_simp, simp add: FindNextCycleEnd_def)

text \<open>While a requested shutdown is under way the loop already counts as ended, with the exit status it has not got yet.\<close>

lemma exit_status_before_the_end: "GetExitStatus (RequestShutdown s) = Some (exit_status s)"
  by (simp add: GetExitStatus_def RequestShutdown_def)

text \<open>An overrun of less than a microsecond is not counted, although the next cycle is shifted because of it.\<close>

lemma short_overrun_not_counted: "n_overruns (note_headroom (- 999) s) = n_overruns s"
  by (simp add: note_headroom_def headroom_us_def ToInt64Microseconds_def signed_divide_int_def Let_def)

end
