(* ===== verification/State_Variable.thy ===== *)
theory State_Variable
  imports Rt_Condition Part_Manager
begin

text \<open>
  State variable paths, from the client to the value: the functions of the client library that build them
  (\<^verbatim>\<open>cc_client/state_variable_path.cc\<close>, \<^verbatim>\<open>common/state_variable_path_util.cc\<close>), their parser
  (\<^verbatim>\<open>control/state_variable_path_parsing.cc\<close>), and the selector that turns a path into a function on the status
  of the robot (\<^verbatim>\<open>control/state_variable_selection.cc\<close>), which a condition then evaluates in every cycle. Euclidean
  norms are computed by a library: they are an argument.
\<close>

section \<open>Paths (common/state\_variable\_path\_util.cc)\<close>

definition kMaxNodeNameLength :: nat where "kMaxNodeNameLength = 40"
definition kStateVariablePathSeparator :: char where "kStateVariablePathSeparator = CHR ''.''"

record path_node =
  node_name :: string
  node_index :: "nat option"

text \<open>\<^verbatim>\<open>StrAppend\<close> of an unsigned integer.\<close>

definition digit_char :: "nat \<Rightarrow> char" where "digit_char d = char_of (48 + d)"

fun decimal :: "nat \<Rightarrow> string" where
  "decimal n = (if n < 10 then [digit_char n] else decimal (n div 10) @ [digit_char (n mod 10)])"

declare decimal.simps [simp del]

definition node_ToString :: "path_node \<Rightarrow> string" where
  "node_ToString n = node_name n @ (case node_index n of None \<Rightarrow> [] | Some i \<Rightarrow> ''['' @ decimal i @ '']'')"

fun StrJoin :: "char \<Rightarrow> string list \<Rightarrow> string" where
  "StrJoin c [] = []"
| "StrJoin c [x] = x"
| "StrJoin c (x # y # ys) = x @ c # StrJoin c (y # ys)"

definition BuildStateVariablePath :: "path_node list \<Rightarrow> string" where
  "BuildStateVariablePath ns =
     kStateVariablePathPrefix @ StrJoin kStateVariablePathSeparator (map node_ToString ns)"

section \<open>Parsing (control/state\_variable\_path\_parsing.cc)\<close>

definition is_alpha :: "char \<Rightarrow> bool" where
  "is_alpha c \<longleftrightarrow> (let n = of_char c :: nat in 65 \<le> n \<and> n \<le> 90 \<or> 97 \<le> n \<and> n \<le> 122)"

definition is_digit :: "char \<Rightarrow> bool" where
  "is_digit c \<longleftrightarrow> (let n = of_char c :: nat in 48 \<le> n \<and> n \<le> 57)"

definition is_word :: "char \<Rightarrow> bool" where
  "is_word c \<longleftrightarrow> is_alpha c \<or> is_digit c \<or> c = CHR ''_''"

text \<open>The match of \<^verbatim>\<open>^([[:alpha:]]{1}\w*)(?:\[(\d+)\])?$\<close>: the two groups, the second empty when it
  does not take part. What follows the word characters can only be the bracket, so that there is one way to match.\<close>

definition match_node :: "string \<Rightarrow> (string \<times> string) option" where
  "match_node s =
     (case s of
        [] \<Rightarrow> None
      | c # cs \<Rightarrow>
          if \<not> is_alpha c then None
          else
            let name = c # takeWhile is_word cs
            in case dropWhile is_word cs of
                 [] \<Rightarrow> Some (name, [])
               | b # r \<Rightarrow>
                   if b = CHR ''['' \<and> takeWhile is_digit r \<noteq> [] \<and> dropWhile is_digit r = '']''
                   then Some (name, takeWhile is_digit r) else None)"

text \<open>\<^verbatim>\<open>SimpleAtoi\<close> of a string of digits into a \<^verbatim>\<open>size_t\<close>.\<close>

definition digits_value :: "string \<Rightarrow> nat" where
  "digits_value ds = foldl (\<lambda>n c. 10 * n + (of_char c - 48)) 0 ds"

definition fits_size_t :: "nat \<Rightarrow> bool" where "fits_size_t n \<longleftrightarrow> int n < 2 ^ 64"

definition SimpleAtoi :: "string \<Rightarrow> nat option" where
  "SimpleAtoi ds = (if fits_size_t (digits_value ds) then Some (digits_value ds) else None)"

definition ParseNodeString :: "string \<Rightarrow> path_node status_or" where
  "ParseNodeString s =
     (if s = [] then Inl (Error InvalidArgument)
      else
        (case match_node s of
           None \<Rightarrow> Inl (Error InvalidArgument)
         | Some (name, index_str) \<Rightarrow>
             if kMaxNodeNameLength < length name then Inl (Error InvalidArgument)
             else if index_str \<noteq> [] then
               (case SimpleAtoi index_str of
                  None \<Rightarrow> Inl (Error InvalidArgument)
                | Some i \<Rightarrow> Inr \<lparr>node_name = name, node_index = Some i\<rparr>)
             else Inr \<lparr>node_name = name, node_index = None\<rparr>))"

fun StrSplit :: "char \<Rightarrow> string \<Rightarrow> string list" where
  "StrSplit sep [] = [[]]"
| "StrSplit sep (c # cs) =
     (if c = sep then [] # StrSplit sep cs
      else (case StrSplit sep cs of [] \<Rightarrow> [[c]] | x # xs \<Rightarrow> (c # x) # xs))"

fun parse_nodes :: "string list \<Rightarrow> path_node list status_or" where
  "parse_nodes [] = Inr []"
| "parse_nodes (s # ss) = so_bind (ParseNodeString s) (\<lambda>n. so_bind (parse_nodes ss) (\<lambda>ns. Inr (n # ns)))"

definition PathToNodeVec :: "string \<Rightarrow> path_node list status_or" where
  "PathToNodeVec path =
     (if take (length kStateVariablePathPrefix) path \<noteq> kStateVariablePathPrefix then Inl (Error InvalidArgument)
      else parse_nodes (StrSplit kStateVariablePathSeparator (drop (length kStateVariablePathPrefix) path)))"

section \<open>The client library (cc\_client/state\_variable\_path.cc)\<close>

definition kArmTypeNodeName :: string where "kArmTypeNodeName = ''ArmPart''"
definition kFTTypeNodeName :: string where "kFTTypeNodeName = ''ForceTorqueSensorPart''"
definition kADIOTypeNodeName :: string where "kADIOTypeNodeName = ''ADIOPart''"
definition kGripperTypeNodeName :: string where "kGripperTypeNodeName = ''GripperPart''"
definition kRangefinderNodeName :: string where "kRangefinderNodeName = ''RangefinderPart''"
definition kSafetyTypeNodeName :: string where "kSafetyTypeNodeName = ''Safety''"
definition kSensedPositionNodeName :: string where "kSensedPositionNodeName = ''sensed_position''"
definition kSensedVelocityNodeName :: string where "kSensedVelocityNodeName = ''sensed_velocity''"
definition kSensedAccelerationNodeName :: string where "kSensedAccelerationNodeName = ''sensed_acceleration''"
definition kSensedTorqueNodeName :: string where "kSensedTorqueNodeName = ''sensed_torque''"
definition kBaseTwistTipSensedNodeNodeName :: string where "kBaseTwistTipSensedNodeNodeName = ''base_twist_tip_sensed''"
definition kBaseLinearVelocityTipSensedNodeName :: string where
  "kBaseLinearVelocityTipSensedNodeName = ''base_linear_velocity_tip_sensed''"
definition kBaseAngularVelocityTipSensedNodeName :: string where
  "kBaseAngularVelocityTipSensedNodeName = ''base_angular_velocity_tip_sensed''"
definition kCurrentControlModeNodeName :: string where "kCurrentControlModeNodeName = ''current_control_mode''"
definition kWrenchAtTipNodeName :: string where "kWrenchAtTipNodeName = ''wrench_at_tip''"
definition kForceMagnitudeAtTipNodeName :: string where "kForceMagnitudeAtTipNodeName = ''force_magnitude_at_tip''"
definition kTorqueMagnitudeAtTipNodeName :: string where "kTorqueMagnitudeAtTipNodeName = ''torque_magnitude_at_tip''"
definition kWrenchStabilityIndexNodeName :: string where "kWrenchStabilityIndexNodeName = ''wrench_stability_index''"
definition kGripperSensedStateNodeName :: string where "kGripperSensedStateNodeName = ''sensed_state''"
definition kGripperOpeningWidthNodeName :: string where "kGripperOpeningWidthNodeName = ''opening_width''"
definition kDigitalInputNodeName :: string where "kDigitalInputNodeName = ''di''"
definition kDigitalOutputNodeName :: string where "kDigitalOutputNodeName = ''do''"
definition kAnalogInputNodeName :: string where "kAnalogInputNodeName = ''ai''"
definition kAnalogOutputNodeName :: string where "kAnalogOutputNodeName = ''ao''"
definition kRangefinderDistanceNodeName :: string where "kRangefinderDistanceNodeName = ''distance''"
definition kEnableButtonStatusNodeName :: string where "kEnableButtonStatusNodeName = ''enable_button_status''"

lemmas node_names =
  kArmTypeNodeName_def kFTTypeNodeName_def kADIOTypeNodeName_def kGripperTypeNodeName_def kRangefinderNodeName_def
  kSafetyTypeNodeName_def kSensedPositionNodeName_def kSensedVelocityNodeName_def kSensedAccelerationNodeName_def
  kSensedTorqueNodeName_def kBaseTwistTipSensedNodeNodeName_def kBaseLinearVelocityTipSensedNodeName_def
  kBaseAngularVelocityTipSensedNodeName_def kCurrentControlModeNodeName_def kWrenchAtTipNodeName_def
  kForceMagnitudeAtTipNodeName_def kTorqueMagnitudeAtTipNodeName_def kWrenchStabilityIndexNodeName_def
  kGripperSensedStateNodeName_def kGripperOpeningWidthNodeName_def kDigitalInputNodeName_def kDigitalOutputNodeName_def
  kAnalogInputNodeName_def kAnalogOutputNodeName_def kRangefinderDistanceNodeName_def kEnableButtonStatusNodeName_def

definition name_node :: "string \<Rightarrow> path_node" where "name_node name = \<lparr>node_name = name, node_index = None\<rparr>"
definition array_node :: "string \<Rightarrow> nat \<Rightarrow> path_node" where "array_node name i = \<lparr>node_name = name, node_index = Some i\<rparr>"

text \<open>\<^verbatim>\<open>TwistDimension\<close> and \<^verbatim>\<open>WrenchDimension\<close>.\<close>

datatype tip_dimension = Dim_X | Dim_Y | Dim_Z | Dim_RX | Dim_RY | Dim_RZ

fun dimension_index :: "tip_dimension \<Rightarrow> nat" where
  "dimension_index Dim_X = 0" | "dimension_index Dim_Y = 1" | "dimension_index Dim_Z = 2"
| "dimension_index Dim_RX = 3" | "dimension_index Dim_RY = 4" | "dimension_index Dim_RZ = 5"

definition BuildIndexedArmPath :: "string \<Rightarrow> string \<Rightarrow> nat \<Rightarrow> string" where
  "BuildIndexedArmPath part field i =
     BuildStateVariablePath [name_node part, name_node kArmTypeNodeName, array_node field i]"

definition ArmSensedPositionStateVariablePath :: "string \<Rightarrow> nat \<Rightarrow> string" where
  "ArmSensedPositionStateVariablePath part i = BuildIndexedArmPath part kSensedPositionNodeName i"
definition ArmSensedVelocityStateVariablePath :: "string \<Rightarrow> nat \<Rightarrow> string" where
  "ArmSensedVelocityStateVariablePath part i = BuildIndexedArmPath part kSensedVelocityNodeName i"
definition ArmSensedAccelerationStateVariablePath :: "string \<Rightarrow> nat \<Rightarrow> string" where
  "ArmSensedAccelerationStateVariablePath part i = BuildIndexedArmPath part kSensedAccelerationNodeName i"
definition ArmSensedTorqueStateVariablePath :: "string \<Rightarrow> nat \<Rightarrow> string" where
  "ArmSensedTorqueStateVariablePath part i = BuildIndexedArmPath part kSensedTorqueNodeName i"
definition ArmBaseTwistTipSensedStateVariablePath :: "string \<Rightarrow> tip_dimension \<Rightarrow> string" where
  "ArmBaseTwistTipSensedStateVariablePath part d =
     BuildIndexedArmPath part kBaseTwistTipSensedNodeNodeName (dimension_index d)"

definition field_path :: "string \<Rightarrow> string \<Rightarrow> string \<Rightarrow> string" where
  "field_path part type field = BuildStateVariablePath [name_node part, name_node type, name_node field]"

definition ArmBaseLinearVelocityTipSensedStateVariablePath :: "string \<Rightarrow> string" where
  "ArmBaseLinearVelocityTipSensedStateVariablePath part = field_path part kArmTypeNodeName kBaseLinearVelocityTipSensedNodeName"
definition ArmBaseAngularVelocityTipSensedStateVariablePath :: "string \<Rightarrow> string" where
  "ArmBaseAngularVelocityTipSensedStateVariablePath part = field_path part kArmTypeNodeName kBaseAngularVelocityTipSensedNodeName"
definition ArmCurrentControlModeStateVariablePath :: "string \<Rightarrow> string" where
  "ArmCurrentControlModeStateVariablePath part = field_path part kArmTypeNodeName kCurrentControlModeNodeName"
definition FTWrenchAtTipStateVariablePath :: "string \<Rightarrow> tip_dimension \<Rightarrow> string" where
  "FTWrenchAtTipStateVariablePath part d = BuildStateVariablePath
     [name_node part, name_node kFTTypeNodeName, array_node kWrenchAtTipNodeName (dimension_index d)]"
definition FTForceMagnitudeAtTipStateVariablePath :: "string \<Rightarrow> string" where
  "FTForceMagnitudeAtTipStateVariablePath part = field_path part kFTTypeNodeName kForceMagnitudeAtTipNodeName"
definition FTTorqueMagnitudeAtTipStateVariablePath :: "string \<Rightarrow> string" where
  "FTTorqueMagnitudeAtTipStateVariablePath part = field_path part kFTTypeNodeName kTorqueMagnitudeAtTipNodeName"
definition FTWrenchStabilityIndexStateVariablePath :: "string \<Rightarrow> string" where
  "FTWrenchStabilityIndexStateVariablePath part = field_path part kFTTypeNodeName kWrenchStabilityIndexNodeName"
definition GripperSensedStateStateVariablePath :: "string \<Rightarrow> string" where
  "GripperSensedStateStateVariablePath part = field_path part kGripperTypeNodeName kGripperSensedStateNodeName"
definition GripperOpeningWidthStateVariablePath :: "string \<Rightarrow> string" where
  "GripperOpeningWidthStateVariablePath part = field_path part kGripperTypeNodeName kGripperOpeningWidthNodeName"
definition RangefinderDistanceStateVariablePath :: "string \<Rightarrow> string" where
  "RangefinderDistanceStateVariablePath part = field_path part kRangefinderNodeName kRangefinderDistanceNodeName"

definition adio_path :: "string \<Rightarrow> string \<Rightarrow> string \<Rightarrow> nat \<Rightarrow> string" where
  "adio_path part signals block i = BuildStateVariablePath
     [name_node part, name_node kADIOTypeNodeName, name_node signals, array_node block i]"

definition ADIODigitalInputStateVariablePath :: "string \<Rightarrow> string \<Rightarrow> nat \<Rightarrow> string" where
  "ADIODigitalInputStateVariablePath part block i = adio_path part kDigitalInputNodeName block i"
definition ADIODigitalOutputStateVariablePath :: "string \<Rightarrow> string \<Rightarrow> nat \<Rightarrow> string" where
  "ADIODigitalOutputStateVariablePath part block i = adio_path part kDigitalOutputNodeName block i"
definition ADIOAnalogInputStateVariablePath :: "string \<Rightarrow> string \<Rightarrow> nat \<Rightarrow> string" where
  "ADIOAnalogInputStateVariablePath part block i = adio_path part kAnalogInputNodeName block i"
definition ADIOAnalogOutputStateVariablePath :: "string \<Rightarrow> string \<Rightarrow> nat \<Rightarrow> string" where
  "ADIOAnalogOutputStateVariablePath part block i = adio_path part kAnalogOutputNodeName block i"
definition SafetyEnableButtonStatusStateVariablePath :: string where
  "SafetyEnableButtonStatusStateVariablePath =
     BuildStateVariablePath [name_node kSafetyTypeNodeName, name_node kEnableButtonStatusNodeName]"

section \<open>Selection (control/state\_variable\_selection.cc)\<close>

datatype gripper_state = GripperUnknown | GripperGrasped | GripperReleased
datatype control_mode = ModeUnknown | ModeCyclicPosition | ModeCyclicVelocity | ModeCyclicTorque | ModeHandGuiding

fun gripper_ToProto :: "gripper_state \<Rightarrow> 64 word" where
  "gripper_ToProto GripperUnknown = 0" | "gripper_ToProto GripperGrasped = 2" | "gripper_ToProto GripperReleased = 1"

fun mode_ToProto :: "control_mode \<Rightarrow> 64 word" where
  "mode_ToProto ModeUnknown = 0" | "mode_ToProto ModeCyclicPosition = 1" | "mode_ToProto ModeCyclicVelocity = 2"
| "mode_ToProto ModeCyclicTorque = 3" | "mode_ToProto ModeHandGuiding = 4"

fun button_ToProto :: "button_status \<Rightarrow> 64 word" where
  "button_ToProto BS_UNKNOWN = 0" | "button_ToProto BS_NOT_AVAILABLE = 1" | "button_ToProto BS_ENGAGED = 2"
| "button_ToProto BS_DISENGAGED = 3"

record adio_state =
  analog_inputs :: "double list list"
  analog_outputs :: "double list list"
  digital_inputs :: "bool list list"
  digital_outputs :: "bool list list"
  analog_input_block_names :: "string list"
  analog_output_block_names :: "string list"
  digital_input_block_names :: "string list"
  digital_output_block_names :: "string list"

text \<open>The fields of a part that can be selected. Vectors are lists; a twist and a wrench have six entries.\<close>

record realtime_part_status =
  sensed_position :: "double list option"
  sensed_velocity :: "double list option"
  sensed_acceleration :: "double list option"
  sensed_torque :: "double list option"
  ps_gripper_state :: "gripper_state option"
  linear_gripper_width_sensed :: "double option"
  wrench_at_tip :: "double list option"
  wrench_stability_index :: "double option"
  base_twist_tip_sensed :: "double list option"
  ps_adio_state :: "adio_state option"
  current_control_mode :: "control_mode option"
  rangefinder_distance :: "double option"

text \<open>\<^verbatim>\<open>StateVariableFieldSelectionData\<close> refers to the \<^verbatim>\<open>AggregatedRobotStatus\<close> of the part manager.\<close>

type_synonym selection_data = "realtime_part_status robot_status"

type_synonym selection_function = "selection_data \<Rightarrow> state_value status_or"

definition GetNodeIndex :: "path_node \<Rightarrow> nat status_or" where
  "GetNodeIndex n = (case node_index n of None \<Rightarrow> Inl (Error InvalidArgument) | Some i \<Rightarrow> Inr i)"

definition SelectCheckedValue :: "(realtime_part_status \<Rightarrow> 'a option) \<Rightarrow> nat \<Rightarrow> selection_data \<Rightarrow> 'a status_or" where
  "SelectCheckedValue field part_index d =
     (if length (part_statuses d) \<le> part_index then Inl (Error OutOfRange)
      else (case field (part_statuses d ! part_index) of None \<Rightarrow> Inl (Error NotFound) | Some v \<Rightarrow> Inr v))"

definition checked_nth :: "'a list \<Rightarrow> nat \<Rightarrow> 'a status_or" where
  "checked_nth xs i = (if length xs \<le> i then Inl (Error OutOfRange) else Inr (xs ! i))"

definition CreateSelectionFunctionForVector ::
  "(realtime_part_status \<Rightarrow> double list option) \<Rightarrow> nat \<Rightarrow> nat \<Rightarrow> selection_function" where
  "CreateSelectionFunctionForVector field part_index index d =
     (if length (part_statuses d) \<le> part_index then Inl (Error OutOfRange)
      else
        (case field (part_statuses d ! part_index) of
           None \<Rightarrow> Inl (Error NotFound)
         | Some v \<Rightarrow> so_bind (checked_nth v index) (\<lambda>x. Inr (DoubleV x))))"

definition CreateArmPartStatusFunction ::
  "(double list \<Rightarrow> double) \<Rightarrow> nat \<Rightarrow> path_node list \<Rightarrow> selection_function status_or" where
  "CreateArmPartStatusFunction nrm part_index field_nodes =
     (if length field_nodes \<noteq> 1 then Inl (Error InvalidArgument)
      else
        let node = hd field_nodes; field_name = node_name node in
        if field_name = kSensedPositionNodeName then
          so_bind (GetNodeIndex node) (\<lambda>j. Inr (CreateSelectionFunctionForVector sensed_position part_index j))
        else if field_name = kSensedVelocityNodeName then
          so_bind (GetNodeIndex node) (\<lambda>j. Inr (CreateSelectionFunctionForVector sensed_velocity part_index j))
        else if field_name = kSensedAccelerationNodeName then
          so_bind (GetNodeIndex node) (\<lambda>j. Inr (CreateSelectionFunctionForVector sensed_acceleration part_index j))
        else if field_name = kSensedTorqueNodeName then
          so_bind (GetNodeIndex node) (\<lambda>j. Inr (CreateSelectionFunctionForVector sensed_torque part_index j))
        else if field_name = kBaseTwistTipSensedNodeNodeName then
          so_bind (GetNodeIndex node) (\<lambda>j. Inr (\<lambda>d.
            so_bind (SelectCheckedValue base_twist_tip_sensed part_index d) (\<lambda>twist.
            so_bind (checked_nth twist j) (\<lambda>x. Inr (DoubleV x)))))
        else if field_name = kBaseLinearVelocityTipSensedNodeName then
          Inr (\<lambda>d. so_bind (SelectCheckedValue base_twist_tip_sensed part_index d) (\<lambda>twist. Inr (DoubleV (nrm (take 3 twist)))))
        else if field_name = kBaseAngularVelocityTipSensedNodeName then
          Inr (\<lambda>d. so_bind (SelectCheckedValue base_twist_tip_sensed part_index d) (\<lambda>twist. Inr (DoubleV (nrm (drop 3 twist)))))
        else if field_name = kCurrentControlModeNodeName then
          Inr (\<lambda>d. so_bind (SelectCheckedValue current_control_mode part_index d) (\<lambda>mode. Inr (Int64V (mode_ToProto mode))))
        else Inl (Error InvalidArgument))"

definition CreateFTSensorStatusFunction ::
  "(double list \<Rightarrow> double) \<Rightarrow> nat \<Rightarrow> path_node list \<Rightarrow> selection_function status_or" where
  "CreateFTSensorStatusFunction nrm part_index field_nodes =
     (if length field_nodes \<noteq> 1 then Inl (Error InvalidArgument)
      else
        let field_name = node_name (hd field_nodes) in
        if field_name = kWrenchAtTipNodeName then
          so_bind (GetNodeIndex (hd field_nodes)) (\<lambda>j. Inr (\<lambda>d.
            so_bind (SelectCheckedValue wrench_at_tip part_index d) (\<lambda>wrench.
            so_bind (checked_nth wrench j) (\<lambda>x. Inr (DoubleV x)))))
        else if field_name = kForceMagnitudeAtTipNodeName then
          Inr (\<lambda>d. so_bind (SelectCheckedValue wrench_at_tip part_index d) (\<lambda>wrench. Inr (DoubleV (nrm (take 3 wrench)))))
        else if field_name = kTorqueMagnitudeAtTipNodeName then
          Inr (\<lambda>d. so_bind (SelectCheckedValue wrench_at_tip part_index d) (\<lambda>wrench. Inr (DoubleV (nrm (drop 3 wrench)))))
        else if field_name = kWrenchStabilityIndexNodeName then
          Inr (\<lambda>d. so_bind (SelectCheckedValue wrench_stability_index part_index d) (\<lambda>x. Inr (DoubleV x)))
        else Inl (Error NotFound))"

fun index_of :: "'a \<Rightarrow> 'a list \<Rightarrow> nat option" where
  "index_of x [] = None"
| "index_of x (y # ys) = (if y = x then Some 0 else map_option Suc (index_of x ys))"

definition CreateADIOSignalSelectionFunction ::
  "('a \<Rightarrow> state_value) \<Rightarrow> (adio_state \<Rightarrow> 'a list list) \<Rightarrow> nat \<Rightarrow> string \<Rightarrow> nat \<Rightarrow> string list \<Rightarrow> selection_function status_or" where
  "CreateADIOSignalSelectionFunction inject field part_index block_name signal_index block_names =
     (case index_of block_name block_names of
        None \<Rightarrow> Inl (Error NotFound)
      | Some block_index \<Rightarrow> Inr (\<lambda>d.
          so_bind (SelectCheckedValue ps_adio_state part_index d) (\<lambda>adio.
          so_bind (checked_nth (field adio) block_index) (\<lambda>signals.
          so_bind (checked_nth signals signal_index) (\<lambda>x. Inr (inject x))))))"

definition CreateADIOStatusFunction ::
  "nat \<Rightarrow> path_node list \<Rightarrow> selection_data \<Rightarrow> selection_function status_or" where
  "CreateADIOStatusFunction part_index field_nodes d =
     (if length field_nodes \<noteq> 2 then Inl (Error InvalidArgument)
      else
        let block_name = node_name (field_nodes ! 1) in
        case node_index (field_nodes ! 1) of
          None \<Rightarrow> Inl (Error InvalidArgument)
        | Some signal_index \<Rightarrow>
            if length (part_statuses d) \<le> part_index then Inl (Error OutOfRange)
            else
              (case ps_adio_state (part_statuses d ! part_index) of
                 None \<Rightarrow> Inl (Error NotFound)
               | Some adio \<Rightarrow>
                   let name = node_name (hd field_nodes) in
                   if name = kDigitalInputNodeName then
                     CreateADIOSignalSelectionFunction BoolV digital_inputs part_index block_name signal_index
                       (digital_input_block_names adio)
                   else if name = kDigitalOutputNodeName then
                     CreateADIOSignalSelectionFunction BoolV digital_outputs part_index block_name signal_index
                       (digital_output_block_names adio)
                   else if name = kAnalogInputNodeName then
                     CreateADIOSignalSelectionFunction DoubleV analog_inputs part_index block_name signal_index
                       (analog_input_block_names adio)
                   else if name = kAnalogOutputNodeName then
                     CreateADIOSignalSelectionFunction DoubleV analog_outputs part_index block_name signal_index
                       (analog_output_block_names adio)
                   else Inl (Error NotFound)))"

definition CreateGripperStatusFunction :: "nat \<Rightarrow> path_node list \<Rightarrow> selection_function status_or" where
  "CreateGripperStatusFunction part_index field_nodes =
     (if length field_nodes \<noteq> 1 then Inl (Error InvalidArgument)
      else if node_name (hd field_nodes) = kGripperSensedStateNodeName then
        Inr (\<lambda>d. so_bind (SelectCheckedValue ps_gripper_state part_index d) (\<lambda>st. Inr (Int64V (gripper_ToProto st))))
      else if node_name (hd field_nodes) = kGripperOpeningWidthNodeName then
        Inr (\<lambda>d. so_bind (SelectCheckedValue linear_gripper_width_sensed part_index d) (\<lambda>x. Inr (DoubleV x)))
      else Inl (Error NotFound))"

definition CreateRangeFinderFunction :: "nat \<Rightarrow> path_node list \<Rightarrow> selection_function status_or" where
  "CreateRangeFinderFunction part_index field_nodes =
     (if length field_nodes \<noteq> 1 then Inl (Error InvalidArgument)
      else if node_name (hd field_nodes) = kRangefinderDistanceNodeName then
        Inr (\<lambda>d. so_bind (SelectCheckedValue rangefinder_distance part_index d) (\<lambda>x. Inr (DoubleV x)))
      else Inl (Error NotFound))"

definition CreateSafetyStatusFunction :: "path_node list \<Rightarrow> selection_function status_or" where
  "CreateSafetyStatusFunction field_nodes =
     (if length field_nodes \<noteq> 1 then Inl (Error InvalidArgument)
      else if node_name (hd field_nodes) = kEnableButtonStatusNodeName then
        Inr (\<lambda>d. Inr (Int64V (button_ToProto (enable_button_status (rs_safety_status d)))))
      else Inl (Error NotFound))"

definition CreateFunctionForParts ::
  "(double list \<Rightarrow> double) \<Rightarrow> selection_data \<Rightarrow> string \<Rightarrow> nat \<Rightarrow> path_node list \<Rightarrow> selection_function status_or" where
  "CreateFunctionForParts nrm d part_type_name part_index field_nodes =
     (if part_type_name = kArmTypeNodeName then CreateArmPartStatusFunction nrm part_index field_nodes
      else if part_type_name = kFTTypeNodeName then CreateFTSensorStatusFunction nrm part_index field_nodes
      else if part_type_name = kADIOTypeNodeName then CreateADIOStatusFunction part_index field_nodes d
      else if part_type_name = kGripperTypeNodeName then CreateGripperStatusFunction part_index field_nodes
      else if part_type_name = kRangefinderNodeName then CreateRangeFinderFunction part_index field_nodes
      else Inl (Error NotFound))"

text \<open>A function that is created is run once on the current status, and its error is passed on.\<close>

definition CreateRobotSystemStateFieldSelector ::
  "(double list \<Rightarrow> double) \<Rightarrow> (string \<rightharpoonup> nat) \<Rightarrow> selection_data \<Rightarrow> string \<Rightarrow> (selection_function \<times> nat option) status_or" where
  "CreateRobotSystemStateFieldSelector nrm part_name_to_index d path =
     (if path = [] then Inl (Error InvalidArgument)
      else
        so_bind (PathToNodeVec path) (\<lambda>ns.
        if length ns < 2 then Inl (Error InvalidArgument)
        else
          so_bind
            (if node_name (ns ! 0) = kSafetyTypeNodeName then
               so_bind (CreateSafetyStatusFunction (drop 1 ns)) (\<lambda>f. Inr (f, None))
             else if length ns < 3 then Inl (Error InvalidArgument)
             else
               (case part_name_to_index (node_name (ns ! 0)) of
                  None \<Rightarrow> Inl (Error NotFound)
                | Some i \<Rightarrow>
                    so_bind (CreateFunctionForParts nrm d (node_name (ns ! 1)) i (drop 2 ns)) (\<lambda>f. Inr (f, Some i))))
            (\<lambda>(f, part). so_bind (f d) (\<lambda>_. Inr (f, part)))))"

section \<open>Round trip\<close>

definition valid_name :: "string \<Rightarrow> bool" where
  "valid_name name \<longleftrightarrow> name \<noteq> [] \<and> is_alpha (hd name) \<and> list_all is_word name \<and> length name \<le> kMaxNodeNameLength"

definition valid_node :: "path_node \<Rightarrow> bool" where
  "valid_node n \<longleftrightarrow> valid_name (node_name n) \<and> (case node_index n of None \<Rightarrow> True | Some i \<Rightarrow> fits_size_t i)"

lemma of_char_digit: "d < 10 \<Longrightarrow> (of_char (digit_char d) :: nat) = 48 + d"
  by (simp add: digit_char_def)

lemma decimal_step: "\<not> n < 10 \<Longrightarrow> decimal n = decimal (n div 10) @ [digit_char (n mod 10)]"
  by (subst decimal.simps) simp

lemma decimal_last: "n < 10 \<Longrightarrow> decimal n = [digit_char n]"
  by (subst decimal.simps) simp

lemma decimal_digits: "list_all is_digit (decimal n) \<and> decimal n \<noteq> []"
proof (induction n rule: decimal.induct)
  case (1 n)
  then show ?case
    by (cases "n < 10") (simp_all add: decimal_last decimal_step is_digit_def of_char_digit)
qed

lemma digits_value_snoc: "digits_value (ds @ [c]) = 10 * digits_value ds + (of_char c - 48)"
  by (simp add: digits_value_def)

lemma digits_value_decimal: "digits_value (decimal n) = n"
proof (induction n rule: decimal.induct)
  case (1 n)
  then show ?case
    by (cases "n < 10")
      (simp_all add: decimal_last decimal_step digits_value_snoc of_char_digit, simp add: digits_value_def of_char_digit)
qed

lemma word_not_special: "is_word c \<Longrightarrow> c \<noteq> CHR ''['' \<and> c \<noteq> CHR ''.''" "is_digit c \<Longrightarrow> c \<noteq> CHR '']'' \<and> c \<noteq> CHR ''.''"
  by (auto simp: is_word_def is_alpha_def is_digit_def Let_def)

lemma alpha_word: "is_alpha c \<Longrightarrow> is_word c"
  by (simp add: is_word_def)

lemma special_chars [simp]: "\<not> is_word CHR ''[''" "\<not> is_digit CHR '']''"
  using word_not_special by blast+

lemma takeWhile_all: "list_all P xs \<Longrightarrow> \<not> P y \<Longrightarrow> takeWhile P (xs @ y # ys) = xs \<and> dropWhile P (xs @ y # ys) = y # ys"
  by (induction xs) auto

lemma takeWhile_end: "list_all P xs \<Longrightarrow> takeWhile P xs = xs \<and> dropWhile P xs = []"
  by (induction xs) auto

lemma match_name: "valid_name name \<Longrightarrow> match_node name = Some (name, [])"
  by (cases name) (auto simp: valid_name_def match_node_def Let_def takeWhile_end)

lemma match_array:
  assumes "valid_name name" "list_all is_digit ds" "ds \<noteq> []"
  shows "match_node (name @ ''['' @ ds @ '']'') = Some (name, ds)"
  using assms takeWhile_all[of is_digit ds "CHR '']''" "[]"]
  by (cases name) (auto simp: valid_name_def match_node_def Let_def takeWhile_all)

lemma parse_ToString:
  assumes "valid_node n"
  shows "ParseNodeString (node_ToString n) = Inr n"
proof (cases "node_index n")
  case None
  then show ?thesis using assms
    by (cases n) (auto simp: valid_node_def node_ToString_def ParseNodeString_def match_name valid_name_def)
next
  case (Some i)
  have m: "match_node (node_ToString n) = Some (node_name n, decimal i)"
    using assms decimal_digits[of i] Some match_array[of "node_name n" "decimal i"]
    by (simp add: valid_node_def node_ToString_def)
  then have "node_ToString n \<noteq> []" by (auto simp: match_node_def)
  then show ?thesis using m assms Some decimal_digits[of i]
    by (cases n) (auto simp: valid_node_def valid_name_def ParseNodeString_def SimpleAtoi_def digits_value_decimal)
qed

lemma match_node_valid:
  assumes "match_node s = Some (name, ds)"
  shows "name \<noteq> [] \<and> is_alpha (hd name) \<and> list_all is_word name"
  using assms set_takeWhileD[of _ is_word "tl s"]
  by (cases s) (auto simp: match_node_def Let_def list_all_iff alpha_word split: if_splits list.splits)

lemma parse_valid:
  assumes "ParseNodeString s = Inr n"
  shows "valid_node n"
proof (cases "match_node s")
  case None
  then show ?thesis using assms by (simp add: ParseNodeString_def split: if_splits)
next
  case (Some p)
  obtain name ds where p: "p = (name, ds)" by (cases p)
  then show ?thesis using assms Some match_node_valid[of s name ds]
    by (auto simp: ParseNodeString_def valid_node_def valid_name_def SimpleAtoi_def split: if_splits)
qed

lemma StrSplit_no_sep: "sep \<notin> set x \<Longrightarrow> StrSplit sep x = [x]"
  by (induction x) auto

lemma StrSplit_append: "sep \<notin> set x \<Longrightarrow> StrSplit sep (x @ sep # r) = x # StrSplit sep r"
  by (induction x) auto

lemma StrSplit_StrJoin: "xs \<noteq> [] \<Longrightarrow> \<forall>x \<in> set xs. sep \<notin> set x \<Longrightarrow> StrSplit sep (StrJoin sep xs) = xs"
  by (induction sep xs rule: StrJoin.induct) (auto simp: StrSplit_no_sep StrSplit_append)

lemma node_no_separator: "valid_node n \<Longrightarrow> kStateVariablePathSeparator \<notin> set (node_ToString n)"
  using decimal_digits[of "the (node_index n)"]
  by (auto simp: valid_node_def valid_name_def node_ToString_def kStateVariablePathSeparator_def list_all_iff
      dest!: word_not_special split: option.splits)

lemma parse_nodes_map: "\<forall>n \<in> set ns. valid_node n \<Longrightarrow> parse_nodes (map node_ToString ns) = Inr ns"
  by (induction ns) (auto simp: parse_ToString)

lemma parse_nodes_valid: "parse_nodes ss = Inr ns \<Longrightarrow> length ns = length ss \<and> (\<forall>n \<in> set ns. valid_node n)"
  by (induction ss arbitrary: ns) (auto simp: so_bind_Inr_iff dest: parse_valid)

lemma StrSplit_not_Nil: "StrSplit sep s \<noteq> []"
  by (induction s) (auto split: list.splits)

lemma built_path_parses:
  assumes "ns \<noteq> []" "\<forall>n \<in> set ns. valid_node n"
  shows "PathToNodeVec (BuildStateVariablePath ns) = Inr ns"
  using assms StrSplit_StrJoin[of "map node_ToString ns" kStateVariablePathSeparator]
  by (simp add: PathToNodeVec_def BuildStateVariablePath_def node_no_separator parse_nodes_map)

lemma path_valid: "PathToNodeVec p = Inr ns \<Longrightarrow> ns \<noteq> [] \<and> (\<forall>n \<in> set ns. valid_node n)"
  using StrSplit_not_Nil[of kStateVariablePathSeparator "drop (length kStateVariablePathPrefix) p"]
  by (auto simp: PathToNodeVec_def dest!: parse_nodes_valid split: if_splits)

section \<open>What a client names\<close>

text \<open>The variables that the client library can name, the path it builds for each, and the value the name stands for:
  none where the part, the field, the block or the entry does not exist.\<close>

datatype part_field =
    Arm_position nat | Arm_velocity nat | Arm_acceleration nat | Arm_torque nat | Arm_twist tip_dimension
  | Arm_linear_speed | Arm_angular_speed | Arm_control_mode
  | FT_wrench tip_dimension | FT_force | FT_torque | FT_stability
  | Gripper_state | Gripper_width | Range_distance
  | Digital_input string nat | Digital_output string nat | Analog_input string nat | Analog_output string nat

fun client_path :: "string \<Rightarrow> part_field \<Rightarrow> string" where
  "client_path part (Arm_position j) = ArmSensedPositionStateVariablePath part j"
| "client_path part (Arm_velocity j) = ArmSensedVelocityStateVariablePath part j"
| "client_path part (Arm_acceleration j) = ArmSensedAccelerationStateVariablePath part j"
| "client_path part (Arm_torque j) = ArmSensedTorqueStateVariablePath part j"
| "client_path part (Arm_twist d) = ArmBaseTwistTipSensedStateVariablePath part d"
| "client_path part Arm_linear_speed = ArmBaseLinearVelocityTipSensedStateVariablePath part"
| "client_path part Arm_angular_speed = ArmBaseAngularVelocityTipSensedStateVariablePath part"
| "client_path part Arm_control_mode = ArmCurrentControlModeStateVariablePath part"
| "client_path part (FT_wrench d) = FTWrenchAtTipStateVariablePath part d"
| "client_path part FT_force = FTForceMagnitudeAtTipStateVariablePath part"
| "client_path part FT_torque = FTTorqueMagnitudeAtTipStateVariablePath part"
| "client_path part FT_stability = FTWrenchStabilityIndexStateVariablePath part"
| "client_path part Gripper_state = GripperSensedStateStateVariablePath part"
| "client_path part Gripper_width = GripperOpeningWidthStateVariablePath part"
| "client_path part Range_distance = RangefinderDistanceStateVariablePath part"
| "client_path part (Digital_input b j) = ADIODigitalInputStateVariablePath part b j"
| "client_path part (Digital_output b j) = ADIODigitalOutputStateVariablePath part b j"
| "client_path part (Analog_input b j) = ADIOAnalogInputStateVariablePath part b j"
| "client_path part (Analog_output b j) = ADIOAnalogOutputStateVariablePath part b j"

fun part_nodes :: "part_field \<Rightarrow> path_node list" where
  "part_nodes (Arm_position j) = [name_node kArmTypeNodeName, array_node kSensedPositionNodeName j]"
| "part_nodes (Arm_velocity j) = [name_node kArmTypeNodeName, array_node kSensedVelocityNodeName j]"
| "part_nodes (Arm_acceleration j) = [name_node kArmTypeNodeName, array_node kSensedAccelerationNodeName j]"
| "part_nodes (Arm_torque j) = [name_node kArmTypeNodeName, array_node kSensedTorqueNodeName j]"
| "part_nodes (Arm_twist d) = [name_node kArmTypeNodeName, array_node kBaseTwistTipSensedNodeNodeName (dimension_index d)]"
| "part_nodes Arm_linear_speed = [name_node kArmTypeNodeName, name_node kBaseLinearVelocityTipSensedNodeName]"
| "part_nodes Arm_angular_speed = [name_node kArmTypeNodeName, name_node kBaseAngularVelocityTipSensedNodeName]"
| "part_nodes Arm_control_mode = [name_node kArmTypeNodeName, name_node kCurrentControlModeNodeName]"
| "part_nodes (FT_wrench d) = [name_node kFTTypeNodeName, array_node kWrenchAtTipNodeName (dimension_index d)]"
| "part_nodes FT_force = [name_node kFTTypeNodeName, name_node kForceMagnitudeAtTipNodeName]"
| "part_nodes FT_torque = [name_node kFTTypeNodeName, name_node kTorqueMagnitudeAtTipNodeName]"
| "part_nodes FT_stability = [name_node kFTTypeNodeName, name_node kWrenchStabilityIndexNodeName]"
| "part_nodes Gripper_state = [name_node kGripperTypeNodeName, name_node kGripperSensedStateNodeName]"
| "part_nodes Gripper_width = [name_node kGripperTypeNodeName, name_node kGripperOpeningWidthNodeName]"
| "part_nodes Range_distance = [name_node kRangefinderNodeName, name_node kRangefinderDistanceNodeName]"
| "part_nodes (Digital_input b j) = [name_node kADIOTypeNodeName, name_node kDigitalInputNodeName, array_node b j]"
| "part_nodes (Digital_output b j) = [name_node kADIOTypeNodeName, name_node kDigitalOutputNodeName, array_node b j]"
| "part_nodes (Analog_input b j) = [name_node kADIOTypeNodeName, name_node kAnalogInputNodeName, array_node b j]"
| "part_nodes (Analog_output b j) = [name_node kADIOTypeNodeName, name_node kAnalogOutputNodeName, array_node b j]"

definition entry :: "'a list \<Rightarrow> nat \<Rightarrow> 'a option" where
  "entry xs i = (if i < length xs then Some (xs ! i) else None)"

definition named_signal :: "string list \<Rightarrow> 'a list list \<Rightarrow> string \<Rightarrow> nat \<Rightarrow> 'a option" where
  "named_signal names blocks b j = Option.bind (map_of (zip names blocks) b) (\<lambda>signals. entry signals j)"

fun field_reading :: "(double list \<Rightarrow> double) \<Rightarrow> part_field \<Rightarrow> realtime_part_status \<Rightarrow> state_value option" where
  "field_reading nrm (Arm_position j) st = map_option DoubleV (Option.bind (sensed_position st) (\<lambda>v. entry v j))"
| "field_reading nrm (Arm_velocity j) st = map_option DoubleV (Option.bind (sensed_velocity st) (\<lambda>v. entry v j))"
| "field_reading nrm (Arm_acceleration j) st = map_option DoubleV (Option.bind (sensed_acceleration st) (\<lambda>v. entry v j))"
| "field_reading nrm (Arm_torque j) st = map_option DoubleV (Option.bind (sensed_torque st) (\<lambda>v. entry v j))"
| "field_reading nrm (Arm_twist d) st =
     map_option DoubleV (Option.bind (base_twist_tip_sensed st) (\<lambda>v. entry v (dimension_index d)))"
| "field_reading nrm Arm_linear_speed st = map_option (\<lambda>v. DoubleV (nrm (take 3 v))) (base_twist_tip_sensed st)"
| "field_reading nrm Arm_angular_speed st = map_option (\<lambda>v. DoubleV (nrm (drop 3 v))) (base_twist_tip_sensed st)"
| "field_reading nrm Arm_control_mode st = map_option (\<lambda>m. Int64V (mode_ToProto m)) (current_control_mode st)"
| "field_reading nrm (FT_wrench d) st =
     map_option DoubleV (Option.bind (wrench_at_tip st) (\<lambda>v. entry v (dimension_index d)))"
| "field_reading nrm FT_force st = map_option (\<lambda>v. DoubleV (nrm (take 3 v))) (wrench_at_tip st)"
| "field_reading nrm FT_torque st = map_option (\<lambda>v. DoubleV (nrm (drop 3 v))) (wrench_at_tip st)"
| "field_reading nrm FT_stability st = map_option DoubleV (wrench_stability_index st)"
| "field_reading nrm Gripper_state st = map_option (\<lambda>g. Int64V (gripper_ToProto g)) (ps_gripper_state st)"
| "field_reading nrm Gripper_width st = map_option DoubleV (linear_gripper_width_sensed st)"
| "field_reading nrm Range_distance st = map_option DoubleV (rangefinder_distance st)"
| "field_reading nrm (Digital_input b j) st = map_option BoolV
     (Option.bind (ps_adio_state st) (\<lambda>a. named_signal (digital_input_block_names a) (digital_inputs a) b j))"
| "field_reading nrm (Digital_output b j) st = map_option BoolV
     (Option.bind (ps_adio_state st) (\<lambda>a. named_signal (digital_output_block_names a) (digital_outputs a) b j))"
| "field_reading nrm (Analog_input b j) st = map_option DoubleV
     (Option.bind (ps_adio_state st) (\<lambda>a. named_signal (analog_input_block_names a) (analog_inputs a) b j))"
| "field_reading nrm (Analog_output b j) st = map_option DoubleV
     (Option.bind (ps_adio_state st) (\<lambda>a. named_signal (analog_output_block_names a) (analog_outputs a) b j))"

definition part_of :: "selection_data \<Rightarrow> nat \<Rightarrow> realtime_part_status option" where
  "part_of d i = entry (part_statuses d) i"

definition reading :: "(double list \<Rightarrow> double) \<Rightarrow> part_field \<Rightarrow> nat \<Rightarrow> selection_data \<Rightarrow> state_value option" where
  "reading nrm field i d = Option.bind (part_of d i) (field_reading nrm field)"

text \<open>The names of the blocks of a part do not change while it runs; a status may lack its inputs and outputs.\<close>

definition block_names :: "adio_state \<Rightarrow> string list \<times> string list \<times> string list \<times> string list" where
  "block_names a = (analog_input_block_names a, analog_output_block_names a, digital_input_block_names a, digital_output_block_names a)"

definition same_block_names :: "nat \<Rightarrow> selection_data \<Rightarrow> selection_data \<Rightarrow> bool" where
  "same_block_names i d d' \<longleftrightarrow>
     (case (Option.bind (part_of d i) ps_adio_state, Option.bind (part_of d' i) ps_adio_state) of
        (Some a, Some a') \<Rightarrow> block_names a = block_names a'
      | _ \<Rightarrow> True)"

fun valid_field :: "part_field \<Rightarrow> bool" where
  "valid_field (Arm_position j) \<longleftrightarrow> fits_size_t j"
| "valid_field (Arm_velocity j) \<longleftrightarrow> fits_size_t j"
| "valid_field (Arm_acceleration j) \<longleftrightarrow> fits_size_t j"
| "valid_field (Arm_torque j) \<longleftrightarrow> fits_size_t j"
| "valid_field (Digital_input b j) \<longleftrightarrow> valid_name b \<and> fits_size_t j"
| "valid_field (Digital_output b j) \<longleftrightarrow> valid_name b \<and> fits_size_t j"
| "valid_field (Analog_input b j) \<longleftrightarrow> valid_name b \<and> fits_size_t j"
| "valid_field (Analog_output b j) \<longleftrightarrow> valid_name b \<and> fits_size_t j"
| "valid_field _ \<longleftrightarrow> True"

lemma client_path_nodes: "client_path part field = BuildStateVariablePath (name_node part # part_nodes field)"
  by (cases field)
    (simp_all add: ArmSensedPositionStateVariablePath_def ArmSensedVelocityStateVariablePath_def
      ArmSensedAccelerationStateVariablePath_def ArmSensedTorqueStateVariablePath_def ArmBaseTwistTipSensedStateVariablePath_def
      ArmBaseLinearVelocityTipSensedStateVariablePath_def ArmBaseAngularVelocityTipSensedStateVariablePath_def
      ArmCurrentControlModeStateVariablePath_def FTWrenchAtTipStateVariablePath_def FTForceMagnitudeAtTipStateVariablePath_def
      FTTorqueMagnitudeAtTipStateVariablePath_def FTWrenchStabilityIndexStateVariablePath_def
      GripperSensedStateStateVariablePath_def GripperOpeningWidthStateVariablePath_def RangefinderDistanceStateVariablePath_def
      ADIODigitalInputStateVariablePath_def ADIODigitalOutputStateVariablePath_def ADIOAnalogInputStateVariablePath_def
      ADIOAnalogOutputStateVariablePath_def BuildIndexedArmPath_def field_path_def adio_path_def)

lemma dimension_small: "fits_size_t (dimension_index d)"
  by (cases d) (auto simp: fits_size_t_def)

lemma library_names_valid:
  "valid_name kArmTypeNodeName" "valid_name kFTTypeNodeName" "valid_name kADIOTypeNodeName" "valid_name kGripperTypeNodeName"
  "valid_name kRangefinderNodeName" "valid_name kSafetyTypeNodeName" "valid_name kSensedPositionNodeName"
  "valid_name kSensedVelocityNodeName" "valid_name kSensedAccelerationNodeName" "valid_name kSensedTorqueNodeName"
  "valid_name kBaseTwistTipSensedNodeNodeName" "valid_name kBaseLinearVelocityTipSensedNodeName"
  "valid_name kBaseAngularVelocityTipSensedNodeName" "valid_name kCurrentControlModeNodeName" "valid_name kWrenchAtTipNodeName"
  "valid_name kForceMagnitudeAtTipNodeName" "valid_name kTorqueMagnitudeAtTipNodeName" "valid_name kWrenchStabilityIndexNodeName"
  "valid_name kGripperSensedStateNodeName" "valid_name kGripperOpeningWidthNodeName" "valid_name kDigitalInputNodeName"
  "valid_name kDigitalOutputNodeName" "valid_name kAnalogInputNodeName" "valid_name kAnalogOutputNodeName"
  "valid_name kRangefinderDistanceNodeName" "valid_name kEnableButtonStatusNodeName"
  by code_simp+

lemma part_nodes_valid:
  assumes "valid_name part" "valid_field field"
  shows "\<forall>n \<in> set (name_node part # part_nodes field). valid_node n"
  using assms by (cases field) (auto simp: valid_node_def name_node_def array_node_def library_names_valid dimension_small)

lemma client_path_parses:
  "valid_name part \<Longrightarrow> valid_field field \<Longrightarrow> PathToNodeVec (client_path part field) = Inr (name_node part # part_nodes field)"
  unfolding client_path_nodes by (rule built_path_parses[OF _ part_nodes_valid]) auto

fun so_value :: "'a status_or \<Rightarrow> 'a option" where
  "so_value (Inl s) = None" | "so_value (Inr x) = Some x"

lemma so_value_bind [simp]: "so_value (so_bind m f) = Option.bind (so_value m) (\<lambda>x. so_value (f x))"
  by (cases m) auto

lemma so_ok_value: "so_ok m \<longleftrightarrow> so_value m \<noteq> None"
  by (cases m) auto

lemma selections [simp]:
  "so_value (checked_nth xs j) = entry xs j"
  "so_value (SelectCheckedValue field i d) = Option.bind (part_of d i) field"
  "so_value (CreateSelectionFunctionForVector vec i j d) =
     map_option DoubleV (Option.bind (Option.bind (part_of d i) vec) (\<lambda>v. entry v j))"
  by (auto simp: checked_nth_def SelectCheckedValue_def CreateSelectionFunctionForVector_def part_of_def entry_def
      split: option.splits)

lemma bind_Some [simp]: "Option.bind m (\<lambda>x. Some (g x)) = map_option g m"
  by (cases m) auto

lemma named_signal_index:
  "named_signal names blocks b j = Option.bind (index_of b names) (\<lambda>k. Option.bind (entry blocks k) (\<lambda>signals. entry signals j))"
proof -
  have "map_of (zip names blocks) b = Option.bind (index_of b names) (entry blocks)"
  proof (induction names arbitrary: blocks)
    case (Cons n names)
    then show ?case
      by (cases blocks; cases "index_of b names") (auto simp: entry_def split: if_splits)
  qed simp
  then show ?thesis by (cases "index_of b names") (auto simp: named_signal_def)
qed

lemma adio_signal:
  "CreateADIOSignalSelectionFunction inject field i b j list = Inr f \<Longrightarrow>
   \<exists>k. index_of b list = Some k \<and> (\<forall>d'. so_value (f d') = Option.bind (Option.bind (part_of d' i) ps_adio_state)
    (\<lambda>a. map_option inject (Option.bind (entry (field a) k) (\<lambda>signals. entry signals j))))"
  by (auto simp: CreateADIOSignalSelectionFunction_def map_option_bind comp_def split: option.splits)

lemma adio_selection:
  assumes "Option.bind (part_of d i) ps_adio_state = Some a"
  shows "Option.bind (so_value (CreateADIOSignalSelectionFunction inject field i b j (names a))) (\<lambda>f. so_value (f d)) =
      map_option inject (Option.bind (Option.bind (part_of d i) ps_adio_state) (\<lambda>a. named_signal (names a) (field a) b j))"
  using assms
  by (cases "index_of b (names a)")
    (simp_all add: CreateADIOSignalSelectionFunction_def named_signal_index map_option_bind comp_def)

lemma adio_selection_later:
  assumes "CreateADIOSignalSelectionFunction inject field i b j (names a) = Inr f"
    "\<And>a'. Option.bind (part_of d' i) ps_adio_state = Some a' \<Longrightarrow> names a' = names a"
  shows "so_value (f d') =
      map_option inject (Option.bind (Option.bind (part_of d' i) ps_adio_state) (\<lambda>a. named_signal (names a) (field a) b j))"
proof -
  obtain k where k: "index_of b (names a) = Some k"
    "so_value (f d') = Option.bind (Option.bind (part_of d' i) ps_adio_state)
      (\<lambda>a. map_option inject (Option.bind (entry (field a) k) (\<lambda>signals. entry signals j)))"
    using adio_signal[OF assms(1)] by metis
  show ?thesis
  proof (cases "Option.bind (part_of d' i) ps_adio_state")
    case (Some a')
    with assms(2) k show ?thesis by (simp add: named_signal_index)
  qed (simp add: k)
qed

definition field_type :: "part_field \<Rightarrow> string" where "field_type field = node_name (hd (part_nodes field))"

definition is_adio :: "part_field \<Rightarrow> bool" where "is_adio field \<longleftrightarrow> field_type field = kADIOTypeNodeName"

lemma part_function:
  assumes "\<not> is_adio field"
  obtains g where "CreateFunctionForParts nrm d (field_type field) i (tl (part_nodes field)) = Inr g"
    "\<And>d'. so_value (g d') = reading nrm field i d'"
proof -
  have "\<exists>g. CreateFunctionForParts nrm d (field_type field) i (tl (part_nodes field)) = Inr g \<and>
      (\<forall>d'. so_value (g d') = reading nrm field i d')"
    using assms
    by (cases field)
      (auto simp: is_adio_def field_type_def name_node_def array_node_def CreateFunctionForParts_def Let_def
        CreateArmPartStatusFunction_def CreateFTSensorStatusFunction_def CreateGripperStatusFunction_def
        CreateRangeFinderFunction_def GetNodeIndex_def node_names reading_def bind_map_option map_option_bind
        intro!: Option.bind_cong)
  then show ?thesis using that by blast
qed

lemma adio_created:
  assumes "Option.bind (part_of d i) ps_adio_state = Some a"
  shows "CreateADIOStatusFunction i (tl (part_nodes (Digital_input b j))) d =
      CreateADIOSignalSelectionFunction BoolV digital_inputs i b j (digital_input_block_names a)"
    "CreateADIOStatusFunction i (tl (part_nodes (Digital_output b j))) d =
      CreateADIOSignalSelectionFunction BoolV digital_outputs i b j (digital_output_block_names a)"
    "CreateADIOStatusFunction i (tl (part_nodes (Analog_input b j))) d =
      CreateADIOSignalSelectionFunction DoubleV analog_inputs i b j (analog_input_block_names a)"
    "CreateADIOStatusFunction i (tl (part_nodes (Analog_output b j))) d =
      CreateADIOSignalSelectionFunction DoubleV analog_outputs i b j (analog_output_block_names a)"
  using assms
  by (auto simp: CreateADIOStatusFunction_def Let_def part_of_def entry_def name_node_def array_node_def node_names
      split: if_splits option.splits)

lemma reading_adio:
  "reading nrm (Digital_input b j) i d = map_option BoolV (Option.bind (Option.bind (part_of d i) ps_adio_state)
     (\<lambda>a. named_signal (digital_input_block_names a) (digital_inputs a) b j))"
  "reading nrm (Digital_output b j) i d = map_option BoolV (Option.bind (Option.bind (part_of d i) ps_adio_state)
     (\<lambda>a. named_signal (digital_output_block_names a) (digital_outputs a) b j))"
  "reading nrm (Analog_input b j) i d = map_option DoubleV (Option.bind (Option.bind (part_of d i) ps_adio_state)
     (\<lambda>a. named_signal (analog_input_block_names a) (analog_inputs a) b j))"
  "reading nrm (Analog_output b j) i d = map_option DoubleV (Option.bind (Option.bind (part_of d i) ps_adio_state)
     (\<lambda>a. named_signal (analog_output_block_names a) (analog_outputs a) b j))"
  by (cases "part_of d i"; simp add: reading_def)+

lemma adio_function:
  assumes "is_adio field"
  shows "Option.bind (so_value (CreateFunctionForParts nrm d (field_type field) i (tl (part_nodes field)))) (\<lambda>f. so_value (f d)) =
      reading nrm field i d" (is ?now)
    and "CreateFunctionForParts nrm d (field_type field) i (tl (part_nodes field)) = Inr f \<Longrightarrow> same_block_names i d d' \<Longrightarrow>
      so_value (f d') = reading nrm field i d'" (is "?created \<Longrightarrow> ?same \<Longrightarrow> ?later")
proof -
  have n: "CreateFunctionForParts nrm d (field_type field) i (tl (part_nodes field)) =
      CreateADIOStatusFunction i (tl (part_nodes field)) d"
    using assms by (simp add: is_adio_def CreateFunctionForParts_def node_names)
  show ?now
  proof (cases "Option.bind (part_of d i) ps_adio_state")
    case None
    then show ?thesis using assms unfolding n
      by (cases field)
        (auto simp: is_adio_def field_type_def node_names name_node_def array_node_def CreateADIOStatusFunction_def reading_def
          part_of_def entry_def Let_def split: if_splits option.splits)
  next
    case (Some a)
    note created = adio_created[OF Some]
    show ?thesis using assms unfolding n
      by (cases field)
        (simp_all only: created reading_adio adio_selection[OF Some],
         simp_all add: is_adio_def field_type_def node_names name_node_def)
  qed
  show ?later if ?created ?same
  proof -
    obtain a where a: "Option.bind (part_of d i) ps_adio_state = Some a"
      using \<open>?created\<close> unfolding n by (auto simp: CreateADIOStatusFunction_def Let_def part_of_def entry_def split: if_splits option.splits)
    have "block_names a' = block_names a" if "Option.bind (part_of d' i) ps_adio_state = Some a'" for a'
      using that \<open>?same\<close> a by (simp add: same_block_names_def)
    then show ?thesis using assms that(1) unfolding n
      by (cases field)
        (auto simp only: adio_created[OF a] reading_adio block_names_def prod.inject intro!: adio_selection_later,
         simp_all add: is_adio_def field_type_def node_names name_node_def)
  qed
qed

lemma field_selected:
  assumes "CreateFunctionForParts nrm d (field_type field) i (tl (part_nodes field)) = r"
  shows "(\<exists>f. r = Inr f \<and> so_ok (f d)) \<longleftrightarrow> reading nrm field i d \<noteq> None"
    and "r = Inr f \<Longrightarrow> same_block_names i d d' \<Longrightarrow> so_value (f d') = reading nrm field i d'"
proof -
  show "(\<exists>f. r = Inr f \<and> so_ok (f d)) \<longleftrightarrow> reading nrm field i d \<noteq> None"
  proof (cases "is_adio field")
    case True
    from adio_function(1)[OF this, of nrm d i] assms show ?thesis by (cases r) (auto simp: so_ok_value)
  next
    case False
    from part_function[OF this, of nrm d i] assms show ?thesis by (metis so_ok_value sum.inject(2))
  qed
  show "so_value (f d') = reading nrm field i d'" if "r = Inr f" "same_block_names i d d'"
  proof (cases "is_adio field")
    case True
    from adio_function(2)[OF this] assms that show ?thesis by simp
  next
    case False
    from part_function[OF this, of nrm d i] assms that show ?thesis by (metis sum.inject(2))
  qed
qed

lemma part_nodes_shape:
  obtains n ns where "part_nodes field = name_node (field_type field) # n # ns" "tl (part_nodes field) = n # ns"
  by (cases field) (auto simp: field_type_def name_node_def)

lemma path_not_Nil: "BuildStateVariablePath ns \<noteq> []"
  by (simp add: BuildStateVariablePath_def kStateVariablePathPrefix_def)

text \<open>The part that a value is read from, and the enable button otherwise, are all that the value depends on.\<close>

definition same_source :: "nat option \<Rightarrow> selection_data \<Rightarrow> selection_data \<Rightarrow> bool" where
  "same_source q d d' \<longleftrightarrow>
     (case q of None \<Rightarrow> enable_button_status (rs_safety_status d) = enable_button_status (rs_safety_status d') | Some i \<Rightarrow> part_of d i = part_of d' i)"

lemma SelectCheckedValue_same: "part_of d i = part_of d' i \<Longrightarrow> SelectCheckedValue field i d = SelectCheckedValue field i d'"
  by (auto simp: SelectCheckedValue_def part_of_def entry_def split: if_splits)

lemma vector_same:
  "part_of d i = part_of d' i \<Longrightarrow>
   CreateSelectionFunctionForVector field i j d = CreateSelectionFunctionForVector field i j d'"
  by (auto simp: CreateSelectionFunctionForVector_def part_of_def entry_def split: if_splits)

lemma created_same:
  assumes "CreateFunctionForParts nrm d0 type i ns = Inr f" "part_of d i = part_of d' i"
  shows "f d = f d'"
  using assms(1)
  by (auto simp: vector_same[OF assms(2)] SelectCheckedValue_same[OF assms(2)] CreateFunctionForParts_def CreateArmPartStatusFunction_def CreateFTSensorStatusFunction_def
      CreateGripperStatusFunction_def CreateRangeFinderFunction_def CreateADIOStatusFunction_def
      CreateADIOSignalSelectionFunction_def so_bind_Inr_iff Let_def split: if_splits option.splits)

lemma selector_cases:
  assumes "CreateRobotSystemStateFieldSelector nrm m d0 path = Inr (f, q)"
  obtains (safety) ns where "PathToNodeVec path = Inr ns" "node_name (hd ns) = kSafetyTypeNodeName" "q = None"
      "f = (\<lambda>d. Inr (Int64V (button_ToProto (enable_button_status (rs_safety_status d)))))"
  | (part) ns i type rest where "PathToNodeVec path = Inr ns" "node_name (hd ns) \<noteq> kSafetyTypeNodeName"
      "m (node_name (hd ns)) = Some i" "q = Some i" "CreateFunctionForParts nrm d0 type i rest = Inr f" "so_ok (f d0)"
proof -
  obtain ns where ns: "PathToNodeVec path = Inr ns" "2 \<le> length ns"
    using assms by (auto simp: CreateRobotSystemStateFieldSelector_def so_bind_Inr_iff split: if_splits)
  then have hd: "hd ns = ns ! 0" by (cases ns) auto
  show thesis
  proof (cases "node_name (ns ! 0) = kSafetyTypeNodeName")
    case True
    with assms ns hd show ?thesis
      by (intro safety[of ns])
        (auto simp: CreateRobotSystemStateFieldSelector_def CreateSafetyStatusFunction_def so_bind_Inr_iff split: if_splits)
  next
    case False
    with assms ns obtain i where i: "m (node_name (ns ! 0)) = Some i"
      by (auto simp: CreateRobotSystemStateFieldSelector_def so_bind_Inr_iff split: if_splits option.splits)
    from False assms ns hd i show ?thesis
      by (intro part[of ns i "node_name (ns ! 1)" "drop 2 ns"])
        (auto simp: CreateRobotSystemStateFieldSelector_def so_bind_Inr_iff split: if_splits)
  qed
qed

lemma selector_same:
  assumes "CreateRobotSystemStateFieldSelector nrm m d0 path = Inr (f, q)" "same_source q d d'"
  shows "f d = f d'"
  using assms(1)
proof (cases rule: selector_cases)
  case (safety ns)
  then show ?thesis using assms(2) by (simp add: same_source_def)
next
  case (part ns i type rest)
  then show ?thesis using assms(2) created_same by (simp add: same_source_def)
qed

section \<open>Conditions over selected values\<close>

lemma convert_source:
  assumes "convert (CreateRobotSystemStateFieldSelector nrm m d0) c = Inr rc"
    "\<And>i. required_part_index rc = Some i \<Longrightarrow> part_of d i = part_of d' i"
    "enable_button_status (rs_safety_status d) = enable_button_status (rs_safety_status d')"
  shows "LookupAndEvaluateComparison get rc d = LookupAndEvaluateComparison get rc d'"
proof (cases "rc_operand rc")
  case (FieldSelectionFunction f)
  with assms(1) obtain path q where s: "CreateRobotSystemStateFieldSelector nrm m d0 path = Inr (f, q)" "required_part_index rc = q"
    by (auto simp: convert_def ToRealtimeComparison_def so_bind_Inr_iff split: if_splits)
  have "same_source q d d'" using assms(2,3) s(2) by (auto simp: same_source_def split: option.splits)
  from selector_same[OF s(1) this] FieldSelectionFunction show ?thesis by (simp add: LookupAndEvaluateComparison_def)
qed (simp add: LookupAndEvaluateComparison_def)

lemma rt_comparisons_mem: "RealtimeComparison rc \<in> set els \<Longrightarrow> rc \<in> set (rt_comparisons els)"
  by (induction els rule: rt_comparisons.induct) auto

lemma evaluation_cong:
  assumes "\<And>rc. rc \<in> set (rt_comparisons els) \<Longrightarrow> LookupAndEvaluateComparison get rc r = LookupAndEvaluateComparison get rc r'"
  shows "EvaluateConditionElementRtcl get els r depth i = EvaluateConditionElementRtcl get els r' depth i"
proof (induction "length els - depth" arbitrary: depth i rule: less_induct)
  case less
  have step: "EvaluateConditionElementRtcl get els r (Suc depth) j = EvaluateConditionElementRtcl get els r' (Suc depth) j"
    if "depth < length els" for j
    using less that by simp
  show ?case
  proof (cases "els ! i")
    case (RealtimeComparison rc)
    then have "i < length els \<Longrightarrow> rc \<in> set (rt_comparisons els)" by (metis nth_mem rt_comparisons_mem)
    with RealtimeComparison assms show ?thesis by (subst (1 2) EvaluateConditionElementRtcl.simps) auto
  next
    case (AnyOfClause js)
    then show ?thesis by (subst (1 2) EvaluateConditionElementRtcl.simps) (auto simp: step not_le intro!: clause_loop_cong)
  next
    case (AllOfClause js)
    then show ?thesis by (subst (1 2) EvaluateConditionElementRtcl.simps) (auto simp: step not_le intro!: clause_loop_cong)
  next
    case (NotClause j)
    then show ?thesis by (subst (1 2) EvaluateConditionElementRtcl.simps) (auto simp: step not_le)
  qed
qed

lemma accepted_comparison:
  assumes "RealtimeConditionFromProto sel p = Inr rc" "x \<in> set (rt_comparisons (elements rc))"
  obtains c where "convert sel c = Inr x"
    "\<And>i. required_part_index x = Some i \<Longrightarrow> i < kMaxRealtimeParts \<and> required_parts_by_index rc ! i"
proof -
  obtain k where ins: "InsertConditionFromProto sel p [] = Inr (k, elements rc)" and
    mark: "MarkRequiredParts (elements rc) (replicate kMaxRealtimeParts False) = Inr (required_parts_by_index rc)"
    using assms(1) by (auto simp: RealtimeConditionFromProto_iff)
  have "so_ok (MarkRequiredParts (elements rc) (replicate kMaxRealtimeParts False))" using mark by simp
  then have "i < kMaxRealtimeParts" if "required_part_index x = Some i" for i
    using that assms(2) unfolding MarkRequiredParts_ok_iff by auto
  with MarkRequiredParts_result[OF mark] assms(2)
  have "i < kMaxRealtimeParts \<and> required_parts_by_index rc ! i" if "required_part_index x = Some i" for i
    using that by auto
  with assms(2) show ?thesis unfolding Insert_comparisons_set[OF ins] using that by blast
qed

section \<open>Samples\<close>

text \<open>An arm with two joints and a box of inputs, under the names a client uses.\<close>

definition empty_status :: realtime_part_status where
  "empty_status = \<lparr>sensed_position = None, sensed_velocity = None, sensed_acceleration = None, sensed_torque = None,
     ps_gripper_state = None, linear_gripper_width_sensed = None, wrench_at_tip = None, wrench_stability_index = None,
     base_twist_tip_sensed = None, ps_adio_state = None, current_control_mode = None, rangefinder_distance = None\<rparr>"

definition sample_adio :: "bool list list \<Rightarrow> adio_state" where
  "sample_adio inputs = \<lparr>analog_inputs = [], analog_outputs = [], digital_inputs = inputs, digital_outputs = [],
     analog_input_block_names = [], analog_output_block_names = [], digital_input_block_names = [''top'', ''bottom''],
     digital_output_block_names = []\<rparr>"

definition sample_data :: "double list \<Rightarrow> bool list list \<Rightarrow> selection_data" where
  "sample_data q inputs = \<lparr>part_statuses = [empty_status\<lparr>sensed_position := Some q\<rparr>, empty_status\<lparr>ps_adio_state := Some (sample_adio inputs)\<rparr>],
     rs_safety_status = \<lparr>mode_of_safe_operation = MSO_AUTOMATIC, estop_button_status = BS_DISENGAGED,
       enable_button_status = BS_ENGAGED, requested_behavior = RB_NORMAL_OPERATION\<rparr>\<rparr>"

definition sample_parts :: "string \<rightharpoonup> nat" where
  "sample_parts = [''arm'' \<mapsto> 0, ''io_box'' \<mapsto> 1]"

definition sample_norm :: "double list \<Rightarrow> double" where "sample_norm v = (case v of [] \<Rightarrow> Fin 0 | x # _ \<Rightarrow> d_abs x)"

definition sample_path_selector :: "string \<Rightarrow> (selection_function \<times> nat option) status_or" where
  "sample_path_selector = CreateRobotSystemStateFieldSelector sample_norm sample_parts
     (sample_data [Fin 1, Fin 2] [[True], [False, True]])"

definition sample_input_condition :: proto_condition where
  "sample_input_condition = PComparison (Comparison_ToProto (IsTrue (client_path ''io_box'' (Digital_input ''bottom'' 1))))"

lemma sample_input_condition_converts:
  "RealtimeConditionFromProto sample_path_selector sample_input_condition =
   Inr (projr (RealtimeConditionFromProto sample_path_selector sample_input_condition))"
proof -
  have "so_ok (RealtimeConditionFromProto sample_path_selector sample_input_condition)" by code_simp
  then show ?thesis by (auto simp: so_ok_iff)
qed

section \<open>Properties\<close>

text \<open>C22 (roundtrip). A path parses to the nodes it was built from exactly when there is at least one node and each node's name is
  a letter followed by word characters, at most 40 of them, with an index of 64 bits: with such nodes nothing is lost between
  the client and the server, and no other list of nodes survives.\<close>

theorem path_roundtrip: "PathToNodeVec (BuildStateVariablePath ns) = Inr ns \<longleftrightarrow> ns \<noteq> [] \<and> list_all valid_node ns"
  using built_path_parses[of ns] path_valid[of "BuildStateVariablePath ns" ns] by (auto simp: list_all_iff)

text \<open>C20 (refinement). Every path of the client library names what its function says: for a part that exists, with a name the parser
  takes, the server accepts the path exactly when the current status has that value, declares the part, and the function it
  creates reads that value from every later status in which the part has the same names for its blocks.\<close>

theorem client_path_selects:
  assumes "valid_name part" "part \<noteq> kSafetyTypeNodeName" "valid_field field" "m part = Some i"
  shows "case CreateRobotSystemStateFieldSelector nrm m d (client_path part field) of
      Inl s \<Rightarrow> reading nrm field i d = None
    | Inr (f, q) \<Rightarrow> reading nrm field i d \<noteq> None \<and> q = Some i \<and>
        (same_block_names i d d' \<longrightarrow> so_value (f d') = reading nrm field i d')"
proof -
  obtain n ns where ns: "part_nodes field = name_node (field_type field) # n # ns" "tl (part_nodes field) = n # ns"
    by (rule part_nodes_shape)
  have "client_path part field \<noteq> []" unfolding client_path_nodes by (rule path_not_Nil)
  then have run: "CreateRobotSystemStateFieldSelector nrm m d (client_path part field) =
      so_bind (so_bind (CreateFunctionForParts nrm d (field_type field) i (tl (part_nodes field))) (\<lambda>f. Inr (f, Some i)))
        (\<lambda>(f, part). so_bind (f d) (\<lambda>_. Inr (f, part)))"
    using assms by (simp add: CreateRobotSystemStateFieldSelector_def client_path_parses ns name_node_def)
  note sel = field_selected[of nrm d field i, OF refl]
  show ?thesis
  proof (cases "CreateFunctionForParts nrm d (field_type field) i (tl (part_nodes field))")
    case (Inr f)
    with sel(1) sel(2)[OF Inr] show ?thesis unfolding run by (cases "f d") auto
  qed (use sel(1) run in auto)
qed

text \<open>A witness: the second joint of the arm, read from a later status.\<close>

theorem client_path_selects_witness:
  "\<exists>f. sample_path_selector (client_path ''arm'' (Arm_position 1)) = Inr (f, Some 0) \<and>
     so_value (f (sample_data [Fin 7, Fin 8] [])) = Some (DoubleV (Fin 8))"
proof -
  have v: "valid_name ''arm''" "''arm'' \<noteq> kSafetyTypeNodeName" "valid_field (Arm_position 1)" "sample_parts ''arm'' = Some 0" by code_simp+
  have r: "reading sample_norm (Arm_position 1) 0 (sample_data [Fin 1, Fin 2] [[True], [False, True]]) = Some (DoubleV (Fin 2))"
    "reading sample_norm (Arm_position 1) 0 (sample_data [Fin 7, Fin 8] []) = Some (DoubleV (Fin 8))"
    "same_block_names 0 (sample_data [Fin 1, Fin 2] [[True], [False, True]]) (sample_data [Fin 7, Fin 8] [])" by code_simp+
  show ?thesis
    using client_path_selects[of "''arm''" "Arm_position 1" sample_parts 0 sample_norm
        "sample_data [Fin 1, Fin 2] [[True], [False, True]]" "sample_data [Fin 7, Fin 8] []", OF v] r
    by (auto simp: sample_path_selector_def split: sum.splits)
qed

text \<open>C21 (safety). A condition reads the parts it has declared and nothing else: two statuses that agree on the parts marked as required
  and on the enable button give the same result, so that the check of the marked parts before the reactions are handled
  covers every part whose value the condition uses.\<close>

theorem condition_reads_marked_parts:
  assumes "RealtimeConditionFromProto (CreateRobotSystemStateFieldSelector nrm m d0) p = Inr rc"
    "\<forall>i < kMaxRealtimeParts. required_parts_by_index rc ! i \<longrightarrow> part_of d i = part_of d' i"
    "enable_button_status (rs_safety_status d) = enable_button_status (rs_safety_status d')"
  shows "LookupAndEvaluate get rc d = LookupAndEvaluate get rc d'"
proof -
  have "LookupAndEvaluateComparison get x d = LookupAndEvaluateComparison get x d'" 
    if x: "x \<in> set (rt_comparisons (elements rc))" for x
  proof -
    obtain c where c: "convert (CreateRobotSystemStateFieldSelector nrm m d0) c = Inr x"
      "\<And>i. required_part_index x = Some i \<Longrightarrow> i < kMaxRealtimeParts \<and> required_parts_by_index rc ! i"
      using accepted_comparison[OF assms(1) x] by metis
    show ?thesis using convert_source[OF c(1) _ assms(3)] c(2) assms(2) by blast
  qed
  then show ?thesis unfolding LookupAndEvaluate_def by (rule evaluation_cong)
qed

theorem condition_reads_marked_parts_witness:
  "LookupAndEvaluate (\<lambda>_. Inl (Error NotFound)) (projr (RealtimeConditionFromProto sample_path_selector sample_input_condition))
     (sample_data [Fin 1, Fin 2] [[], [True, False]]) =
   LookupAndEvaluate (\<lambda>_. Inl (Error NotFound)) (projr (RealtimeConditionFromProto sample_path_selector sample_input_condition))
     (sample_data [] [[], [True, False]])"
proof -
  have "required_parts_by_index (projr (RealtimeConditionFromProto sample_path_selector sample_input_condition)) =
      [False, True, False, False, False, False, False, False]" by code_simp
  then have "\<forall>i < kMaxRealtimeParts.
      required_parts_by_index (projr (RealtimeConditionFromProto sample_path_selector sample_input_condition)) ! i \<longrightarrow>
      part_of (sample_data [Fin 1, Fin 2] [[], [True, False]]) i = part_of (sample_data [] [[], [True, False]]) i"
    by (auto simp: kMaxRealtimeParts_def less_Suc_eq numeral_eq_Suc part_of_def entry_def sample_data_def)
  then show ?thesis
    using condition_reads_marked_parts[of sample_norm sample_parts "sample_data [Fin 1, Fin 2] [[True], [False, True]]"
        sample_input_condition] sample_input_condition_converts
    by (simp add: sample_path_selector_def sample_data_def)
qed

text \<open>A part with the name of the safety node cannot be selected, and a part whose name the parser does not take neither,
  whatever the server knows.\<close>

lemma part_named_safety:
  assumes "valid_field field"
  shows "CreateRobotSystemStateFieldSelector nrm m d (client_path kSafetyTypeNodeName field) = Inl (Error InvalidArgument)"
proof -
  obtain n ns where ns: "part_nodes field = name_node (field_type field) # n # ns" by (rule part_nodes_shape)
  have "client_path kSafetyTypeNodeName field \<noteq> []" unfolding client_path_nodes by (rule path_not_Nil)
  then show ?thesis
    by (simp add: CreateRobotSystemStateFieldSelector_def CreateSafetyStatusFunction_def client_path_parses[OF _ assms]
        library_names_valid ns name_node_def)
qed

lemma part_name_with_dash:
  "CreateRobotSystemStateFieldSelector nrm m d (client_path ''arm-1'' (Arm_position 0)) = Inl (Error InvalidArgument)"
proof -
  have "PathToNodeVec (client_path ''arm-1'' (Arm_position 0)) = Inl (Error InvalidArgument)" by code_simp
  moreover have "client_path ''arm-1'' (Arm_position 0) \<noteq> []" unfolding client_path_nodes by (rule path_not_Nil)
  ultimately show ?thesis by (simp add: CreateRobotSystemStateFieldSelector_def)
qed

text \<open>The enable button needs no part.\<close>

lemma enable_button_selects:
  "CreateRobotSystemStateFieldSelector nrm m d SafetyEnableButtonStatusStateVariablePath =
     Inr (\<lambda>d. Inr (Int64V (button_ToProto (enable_button_status (rs_safety_status d)))), None)"
proof -
  have "PathToNodeVec SafetyEnableButtonStatusStateVariablePath = Inr [name_node kSafetyTypeNodeName, name_node kEnableButtonStatusNodeName]"
    unfolding SafetyEnableButtonStatusStateVariablePath_def
    by (rule built_path_parses) (auto simp: valid_node_def name_node_def library_names_valid)
  then show ?thesis
    using path_not_Nil by (simp add: CreateRobotSystemStateFieldSelector_def CreateSafetyStatusFunction_def
        SafetyEnableButtonStatusStateVariablePath_def name_node_def)
qed

end
