(* ===== verification/Spec2Isabelle.thy ===== *)
theory Spec2Isabelle
  imports Client_Condition Control_Cycle Rt_Promise Module_Runtime Main_Loop State_Variable
begin

text \<open>
  The real-time control layer of the ICON controller
  (\<^verbatim>\<open>src/intrinsic_control/intrinsic/icon\<close>), modelled and verified.

  \<^bold>\<open>The program.\<close> ICON runs a periodic real-time thread that reads the parts of a robot cell, lets
  sessions of clients run actions on them and applies the commands. A client describes a session by
  actions, and by reactions: a condition on state variables that, when it becomes true, sends an event
  and may switch actions. The non-real-time side flattens conditions and checks session data; the
  real-time side executes them without blocking or allocating. Every part that no action controls is
  driven by its safety action.

  \<^bold>\<open>Theories.\<close> (Paths are relative to the directory above.)

  \<^item> \<^verbatim>\<open>Icon_Prelude\<close>: statuses (\<^verbatim>\<open>utils/realtime_status*.h\<close>), values of
    \<^verbatim>\<open>RealtimeStatusOr\<close> as a sum, fixed-capacity vectors. A crash of the process is the status
    \<open>LogFatal\<close> (an explicit abort) or \<open>Undefined\<close> (undefined behaviour of C++), so that
    theorems see both.
  \<^item> \<^verbatim>\<open>Ieee_Double\<close>: the comparison-relevant part of binary64: finite values as reals,
    infinities, NaN, rounding of int64 values.
  \<^item> \<^verbatim>\<open>Client_Condition\<close> (\<^verbatim>\<open>cc_client/condition.{h,cc}\<close>): conditions of the
    client library and their protos; the round trip and the case it loses.
  \<^item> \<^verbatim>\<open>Rt_Condition\<close> (\<^verbatim>\<open>control/realtime_condition.cc\<close>,
    \<^verbatim>\<open>control/realtime_actions_reactions.cc\<close>): flattening a condition into an element vector and
    evaluating it; refinement of the tree semantics, depth limit, capacity, mixed comparisons.
  \<^item> \<^verbatim>\<open>Behavior_Override\<close>, \<^verbatim>\<open>Operational_Status\<close>: the override table; the
    operational states, their severity order, the transition guard and the state machine of a hardware module
    (\<^verbatim>\<open>hal/hardware_module_util.cc\<close>) with its reachability properties.
  \<^item> \<^verbatim>\<open>Rt_Monad\<close>: stateful code that can stop with a status; rules for specifications and
    invariants on which the proofs about the managers rest.
  \<^item> \<^verbatim>\<open>Rt_Session\<close> (\<^verbatim>\<open>control/rtcl_realtime_session.cc\<close> and the data of
    actions, signals, reactions): the check of session data and slot overlaps. Actions are shared by pointer;
    the heap maps addresses to instances.
  \<^item> \<^verbatim>\<open>Part_Manager\<close> (\<^verbatim>\<open>control/realtime_part_manager.cc\<close>): the cycle protocol,
    marking, safety actions. Parts and actions are plug-ins behind virtual functions; they are a record of
    arbitrary functions over an arbitrary world, an argument of every definition that calls them.
  \<^item> \<^verbatim>\<open>Reaction_Manager\<close> (\<^verbatim>\<open>control/rtcl_reaction_manager.cc\<close>): reactions as
    edge detectors, events, switching of actions, exclusive slots.
  \<^item> \<^verbatim>\<open>Session_Manager\<close>, \<^verbatim>\<open>Session_Cycle\<close>
    (\<^verbatim>\<open>control/rtcl_session_manager.cc\<close>): a session in the real-time thread; how it ends, what safety
    requests do, and what a whole cycle guarantees for the parts.

  \<^item> \<^verbatim>\<open>Binary_Futex\<close> (\<^verbatim>\<open>interprocess/binary_futex.cc\<close>): the binary semaphore
    in shared memory; counting of tokens, and that a waiting thread wakes up.
  \<^item> \<^verbatim>\<open>Remote_Trigger\<close> (\<^verbatim>\<open>interprocess/remote_trigger\<close>): calls into
    another process over two futexes; the client's operations, and the interleaving of a client and a server as a
    step relation on the futex words with an invariant of its reachable states.
  \<^item> \<^verbatim>\<open>Hardware_Module_Manager\<close> (\<^verbatim>\<open>hal/hardware_module_manager.cc\<close>): all hardware
    modules of a controller: reading and writing them, transition requests, the combined state and the fault
    reason. Hardware modules are other processes behind remote triggers; what they do is a record of
    arbitrary functions over a world.
  \<^item> \<^verbatim>\<open>Async_Buffer\<close> (\<^verbatim>\<open>utils/async_buffer.h\<close>): the triple buffer
    between two threads; as a register (an interface locale) when its operations run one after the other, and the
    interleaving of its two threads with the invariant of the reachable states.
  \<^item> \<^verbatim>\<open>Safety_Message_Handler\<close> (\<^verbatim>\<open>control/rtcl_safety_message_handler.cc\<close>):
    merging the status of several safety devices by severity, and the pause signal.
  \<^item> \<^verbatim>\<open>Control_Manager\<close>, \<^verbatim>\<open>Control_Sessions\<close>, \<^verbatim>\<open>Control_Cycle\<close>
    (\<^verbatim>\<open>control/realtime_control_manager.cc\<close>): the composition. The first has the definitions: one cycle
    (\<open>Update\<close>: safety, hardware state, faults, commands, starting and cancelling sessions, the cycle of every
    session, the end of the cycle) and \<open>Shutdown\<close>; the second has what ending, cancelling and starting sessions
    does to the shared objects; the third has the properties of whole cycles.

  \<^item> \<^verbatim>\<open>Rt_Queue\<close>, \<^verbatim>\<open>Rt_Promise\<close>
    (\<^verbatim>\<open>intrinsic_sdk/intrinsic/platform/common/buffers\<close>): the ring buffer between two threads,
    which refines a bounded queue, and futures and promises over it: every operation, how a value gets from one side to
    the other, and the interleaving of setting, waiting, getting and of any threads that cancel, at each access.
  \<^item> \<^verbatim>\<open>Module_Runtime\<close> (\<^verbatim>\<open>hal/hardware_module_runtime.cc\<close>): the callback handler in
    the process of a hardware module, the other side of the remote triggers: its state machine, the requests of its
    non-real-time threads, what it tells the module; the callbacks alone, and the interleaving of the thread that reads and writes
    with those that prepare, activate and deactivate, enable, disable and clear faults, cut at the accesses of the state.
  \<^item> \<^verbatim>\<open>Blocking_Call\<close> (\<^verbatim>\<open>HardwareModuleManager::BlockingMultiHardwareModuleCall\<close>): the call that
    prepares all hardware modules from a non-real-time thread; that it returns, and what its success means.
  \<^item> \<^verbatim>\<open>Lockstep\<close> (\<^verbatim>\<open>intrinsic_sdk/intrinsic/util/thread/lockstep.cc\<close>,
    \<^verbatim>\<open>hal/realtime_clock.cc\<close>): how the process that owns the clock and the control thread take turns; mutual
    exclusion, progress, and what cancelling does at each point of the interleaving.
  \<^item> \<^verbatim>\<open>State_Variable\<close> (\<^verbatim>\<open>cc_client/state_variable_path.cc\<close>, \<^verbatim>\<open>control/state_variable_path_parsing.cc\<close>,
    \<^verbatim>\<open>control/state_variable_selection.cc\<close>): the paths by which a condition names a value of the robot: what the client
    builds parses back, selects the value it names, and depends only on the part it declares.
  \<^item> \<^verbatim>\<open>Main_Loop\<close> (\<^verbatim>\<open>server/main_loop.cc\<close>): the thread that runs the controller, on top of the theories above:
    preparing and activating the hardware, the phases of a cycle, the internal clock and the one driven by a hardware
    module, the loop, and the shutdown, while other threads ask for operational states or for the end. The internal clock keeps its
    phase; however the loop ends, it ends in order and every call that was accepted has been answered once. \<^verbatim>\<open>Command_Ledger\<close> has
    the bookkeeping of these calls over all steps of a control cycle.

  \<^bold>\<open>State.\<close> The state of the part manager is a record; the session manager's record extends it, since
    its methods work on both objects. Every method is a function from a state to a result and a state; effects
    that happen before an error stay. Loops over parts, actions and reactions are structural recursions on
    the index list the code runs through; no fuel is used. The loops without a bound (waiting for
    a lock while shutting down, polling hardware modules that prepare, the control loop) are partial functions whose result is \<open>None\<close> when
    they never end; that they end is proved apart. The recursive evaluation of conditions terminates by its depth limit, which is shown to be enough for every condition the conversion accepts.

  \<^bold>\<open>Interfaces.\<close> The contracts that proofs share are locales, each interpreted on the model: of the overlap
  test of part slots and the buffers, of the merging functions of the safety status, of predicates that all steps of a session's
  cycle keep (\<open>session_frame\<close>, \<open>session_inv\<close>) and that all phases of a control cycle keep
  (\<open>control_frame\<close>, \<open>control_inv\<close>, \<open>control_cycle_inv\<close>), of a bounded queue, of predicates that all callbacks of a
  hardware module keep (\<open>handler_inv\<close>, \<open>handler_state_inv\<close>), of predicates that all phases of the main loop keep (\<open>loop_inv\<close>); every invariant of a cycle is an interpretation of one of these.

  \<^bold>\<open>Not modelled.\<close> Log messages, statistics and timing; the values of part properties; the memory
  orderings below the function bridge, of which the real-time side sees a queue of calls and whether the lock of the
  oldest is free; the text of error messages; of the control manager, its construction, the publishing thread and the servers; of the hardware module runtime, its construction and
  how its threads are created. Hardware modules, plug-ins and clocks are total functions of the environment, so that a call of them that never returns is
  outside the model; times of the main loop are unbounded integers. The parts of the repository outside the control layer (world model, executive, motion
  planning, perception, simulation, services, drivers) are numerical code, services or glue and are listed in the
  manifest.
\<close>

end
